(* ===== verification/Prelude.thy ===== *)
theory Prelude
  imports Complex_Main "HOL-Library.AList" "HOL-Library.List_Lexorder" "HOL-Library.Char_ord"
begin

text \<open>
  Shared vocabulary of the development.

  \<^item> Python values that cross a boundary (JSON bodies, guard contents, tool arguments):
    the datatype \<open>json\<close>, with the truth value and the tests the code applies to it.
  \<^item> Python strings: \<open>string\<close>, one \<open>char\<close> per code point (code points below 256), with
    the string methods the code calls (\<open>strip\<close>, \<open>partition\<close>, \<open>startswith\<close>, ...).
  \<^item> Python dictionaries: association lists updated by \<open>AList.update\<close>, which keeps the
    place of an existing key and appends a new one, as a \<open>dict\<close> does.
  \<^item> Python floats: \<open>real\<close>. Rounding errors of IEEE doubles are not modelled.
  \<^item> Errors: the datatype \<open>err\<close> and the result type \<open>'a res\<close>.
  \<^item> The interface \<open>transition_system\<close>: invariants of reachable states, proved once and
    used by every stateful component through an interpretation.
\<close>

named_theorems py_simps \<open>evaluation rules for the modelled Python primitives\<close>
named_theorems inv_intros \<open>an operation keeps its component's invariant\<close>

section \<open>Errors as values\<close>

datatype err =
    HTTPException nat string
  | SystemExit string
  | ValueErr string
  | TypeErr string
  | KeyErr string
  | PortUnavailable string
  | OSErr string
  | FileNotFound string
  | NoWorkersAvailable
  | TimeoutErr
  | NotImplementedErr string
  | IntegrityErr string
  | OverflowErr string
  | RuntimeErr string
  | AttributeErr string

type_synonym 'a res = "err + 'a"

definition res_bind :: "'a res \<Rightarrow> ('a \<Rightarrow> 'b res) \<Rightarrow> 'b res" where
  "res_bind m f = (case m of Inl e \<Rightarrow> Inl e | Inr x \<Rightarrow> f x)"

lemma res_bind_simps [simp]: "res_bind (Inl e) f = Inl e" "res_bind (Inr x) f = f x"
  by (simp_all add: res_bind_def)

lemma res_bind_Inr: "res_bind m f = Inr y \<longleftrightarrow> (\<exists>x. m = Inr x \<and> f x = Inr y)"
  by (cases m) auto

text \<open>\<open>a or b\<close> on results: \<open>b\<close> is evaluated only when \<open>a\<close> is false, and the first exception wins.\<close>

definition res_or :: "bool res \<Rightarrow> bool res \<Rightarrow> bool res" where
  "res_or a b = res_bind a (\<lambda>x. if x then Inr True else b)"

lemma res_or_True: "res_or a b = Inr True \<longleftrightarrow> a = Inr True \<or> a = Inr False \<and> b = Inr True"
  by (cases a) (auto simp: res_or_def)

lemma res_or_simps [simp]:
  "res_or (Inl e) b = Inl e" "res_or (Inr True) b = Inr True" "res_or (Inr False) b = b"
  by (simp_all add: res_or_def)

definition res_map :: "('a \<Rightarrow> 'b) \<Rightarrow> 'a res \<Rightarrow> 'b res" where
  "res_map f m = res_bind m (\<lambda>x. Inr (f x))"

lemma res_map_simps [simp]: "res_map f (Inl e) = Inl e" "res_map f (Inr x) = Inr (f x)"
  by (simp_all add: res_map_def)

section \<open>Options\<close>

text \<open>\<open>x if x is not None else d\<close>\<close>

definition or_else :: "'a option \<Rightarrow> 'a option \<Rightarrow> 'a option" where
  "or_else x d = (case x of None \<Rightarrow> d | Some _ \<Rightarrow> x)"

definition default_to :: "'a \<Rightarrow> 'a option \<Rightarrow> 'a" where
  "default_to d x = (case x of None \<Rightarrow> d | Some y \<Rightarrow> y)"

lemma or_else_simps [simp]: "or_else None d = d" "or_else (Some x) d = Some x"
  by (simp_all add: or_else_def)

lemma default_to_simps [simp]: "default_to d None = d" "default_to d (Some y) = y"
  by (simp_all add: default_to_def)

text \<open>Python's \<open>s or t\<close> on an optional string: \<open>None\<close> and the empty string are false.\<close>

definition truthy :: "string option \<Rightarrow> bool" where
  "truthy x = (case x of None \<Rightarrow> False | Some s \<Rightarrow> s \<noteq> [])"

definition str_or :: "string option \<Rightarrow> string option \<Rightarrow> string option" where
  "str_or x y = (if truthy x then x else y)"

lemma truthy_simps [simp]: "truthy None = False" "truthy (Some s) = (s \<noteq> [])"
  by (simp_all add: truthy_def)

section \<open>Strings\<close>

definition py_isspace :: "char \<Rightarrow> bool" where
  "py_isspace c = ((of_char c :: nat) \<in> {9, 10, 11, 12, 13, 28, 29, 30, 31, 32, 133, 160})"

definition py_lstrip :: "string \<Rightarrow> string" where
  "py_lstrip s = dropWhile py_isspace s"

definition py_rstrip :: "string \<Rightarrow> string" where
  "py_rstrip s = rev (dropWhile py_isspace (rev s))"

definition py_strip :: "string \<Rightarrow> string" where
  "py_strip s = py_rstrip (py_lstrip s)"

definition py_startswith :: "string \<Rightarrow> string \<Rightarrow> bool" where
  "py_startswith s p = (take (length p) s = p)"

definition py_endswith :: "string \<Rightarrow> string \<Rightarrow> bool" where
  "py_endswith s p = (length p \<le> length s \<and> drop (length s - length p) s = p)"

definition py_rstrip_char :: "char \<Rightarrow> string \<Rightarrow> string" where
  "py_rstrip_char c s = rev (dropWhile (\<lambda>x. x = c) (rev s))"

text \<open>\<open>s.partition(c)\<close> for a one-character separator: head, separator found, tail.\<close>

fun py_partition :: "char \<Rightarrow> string \<Rightarrow> string \<times> bool \<times> string" where
  "py_partition c [] = ([], False, [])"
| "py_partition c (x # xs) =
     (if x = c then ([], True, xs)
      else (case py_partition c xs of (h, f, t) \<Rightarrow> (x # h, f, t)))"

definition py_lower_char :: "char \<Rightarrow> char" where
  "py_lower_char c =
     (let n = (of_char c :: nat) in
      if (65 \<le> n \<and> n \<le> 90) \<or> (192 \<le> n \<and> n \<le> 222 \<and> n \<noteq> 215) then char_of (n + 32) else c)"

definition py_lower :: "string \<Rightarrow> string" where
  "py_lower s = map py_lower_char s"

definition py_upper_char :: "char \<Rightarrow> char" where
  "py_upper_char c =
     (let n = (of_char c :: nat) in if 97 \<le> n \<and> n \<le> 122 then char_of (n - 32) else c)"

text \<open>\<open>str.upper\<close> on ASCII letters (the code only upper-cases provider names).\<close>

definition py_upper :: "string \<Rightarrow> string" where
  "py_upper s = map py_upper_char s"

text \<open>\<open>s.split(c)\<close> for a one-character separator.\<close>

fun py_split :: "char \<Rightarrow> string \<Rightarrow> string list" where
  "py_split c [] = [[]]"
| "py_split c (x # xs) =
     (if x = c then [] # py_split c xs
      else (case py_split c xs of [] \<Rightarrow> [[x]] | w # ws \<Rightarrow> (x # w) # ws))"

text \<open>\<open>s.split()\<close>: maximal runs of non-space characters.\<close>

fun py_words_aux :: "string \<Rightarrow> string \<Rightarrow> string list" where
  "py_words_aux acc [] = (if acc = [] then [] else [rev acc])"
| "py_words_aux acc (x # xs) =
     (if py_isspace x then (if acc = [] then py_words_aux [] xs else rev acc # py_words_aux [] xs)
      else py_words_aux (x # acc) xs)"

definition py_words :: "string \<Rightarrow> string list" where
  "py_words s = py_words_aux [] s"

fun py_join :: "string \<Rightarrow> string list \<Rightarrow> string" where
  "py_join sep [] = []"
| "py_join sep [x] = x"
| "py_join sep (x # xs) = x @ sep @ py_join sep xs"

text \<open>\<open>str.splitlines\<close> for the line boundaries \<open>\n\<close>, \<open>\r\<close>, \<open>\r\n\<close> and the other ASCII and
  Latin-1 boundaries Python knows (\<open>\v\<close>, \<open>\f\<close>, \<open>\x1c\<close>-\<open>\x1e\<close>, \<open>\x85\<close>).\<close>

definition py_is_linebreak :: "char \<Rightarrow> bool" where
  "py_is_linebreak c = ((of_char c :: nat) \<in> {10, 11, 12, 13, 28, 29, 30, 133})"

fun py_splitlines_aux :: "string \<Rightarrow> string \<Rightarrow> string list" where
  "py_splitlines_aux acc [] = (if acc = [] then [] else [rev acc])"
| "py_splitlines_aux acc [x] =
     (if py_is_linebreak x then [rev acc] else [rev (x # acc)])"
| "py_splitlines_aux acc (x # y # xs) =
     (if py_is_linebreak x then
        (if (of_char x :: nat) = 13 \<and> (of_char y :: nat) = 10
         then rev acc # py_splitlines_aux [] xs
         else rev acc # py_splitlines_aux [] (y # xs))
      else py_splitlines_aux (x # acc) (y # xs))"

definition py_splitlines :: "string \<Rightarrow> string list" where
  "py_splitlines s = py_splitlines_aux [] s"

lemma py_startswith_append [simp]: "py_startswith (p @ s) p"
  by (simp add: py_startswith_def)

lemma py_startswith_iff: "py_startswith s p \<longleftrightarrow> (\<exists>t. s = p @ t)"
  by (metis append_eq_conv_conj py_startswith_def append_take_drop_id)

lemma py_partition_append [simp]: "c \<notin> set h \<Longrightarrow> py_partition c (h @ c # t) = (h, True, t)"
  by (induction h) auto

lemma py_partition_found: "py_partition c s = (h, True, t) \<Longrightarrow> s = h @ c # t \<and> c \<notin> set h"
  by (induction s arbitrary: h) (auto split: if_splits prod.splits)

lemma py_partition_missing: "c \<notin> set s \<Longrightarrow> py_partition c s = (s, False, [])"
  by (induction s) auto

lemma py_partition_not_found: "py_partition c s = (h, False, t) \<Longrightarrow> h = s \<and> t = [] \<and> c \<notin> set s"
  by (induction s arbitrary: h) (auto split: if_splits prod.splits)

section \<open>Decimal numerals: str(n)\<close>

definition digit_char :: "nat \<Rightarrow> char" where
  "digit_char d = char_of (48 + d)"

fun nat_str :: "nat \<Rightarrow> string" where
  "nat_str n = (if n < 10 then [digit_char n] else nat_str (n div 10) @ [digit_char (n mod 10)])"

declare nat_str.simps [simp del]

definition int_str :: "int \<Rightarrow> string" where
  "int_str i = (if i < 0 then CHR ''-'' # nat_str (nat (- i)) else nat_str (nat i))"

lemma of_digit_char [simp]: "d < 10 \<Longrightarrow> (of_char (digit_char d) :: nat) = 48 + d"
  by (simp add: digit_char_def)

lemma digit_char_inj: "a < 10 \<Longrightarrow> b < 10 \<Longrightarrow> digit_char a = digit_char b \<longleftrightarrow> a = b"
  by (metis add_left_cancel of_digit_char)

lemma nat_str_nonempty [simp]: "nat_str n \<noteq> []" "[] \<noteq> nat_str n"
  by (subst nat_str.simps, simp)+

lemma nat_str_digits: "set (nat_str n) \<subseteq> digit_char ` {..<10}"
proof (induction n rule: nat_str.induct)
  case (1 n)
  then show ?case
    by (cases "n < 10") (auto simp: nat_str.simps [of n])
qed

lemma nat_str_inj: "nat_str m = nat_str n \<longleftrightarrow> m = n"
proof
  show "nat_str m = nat_str n \<Longrightarrow> m = n"
  proof (induction m arbitrary: n rule: nat_str.induct)
    case (1 m)
    show ?case
    proof (cases "m < 10")
      case True
      with 1 show ?thesis
        by (cases "n < 10") (auto simp: nat_str.simps [of m] nat_str.simps [of n] digit_char_inj)
    next
      case False
      with 1 have n: "\<not> n < 10"
        by (auto simp: nat_str.simps [of m] nat_str.simps [of n])
      with False 1 have "m div 10 = n div 10" "m mod 10 = n mod 10"
        by (auto simp: nat_str.simps [of m] nat_str.simps [of n] digit_char_inj)
      then show ?thesis by (metis div_mult_mod_eq)
    qed
  qed
qed simp

section \<open>Rounding: round(x, d) and fixed-point formatting\<close>

definition round_half_even :: "real \<Rightarrow> int" where
  "round_half_even x =
     (let f = \<lfloor>x\<rfloor>; d = x - of_int f in
      if d < 1/2 then f else if 1/2 < d then f + 1 else if even f then f else f + 1)"

definition py_round :: "nat \<Rightarrow> real \<Rightarrow> real" where
  "py_round d x = of_int (round_half_even (x * 10 ^ d)) / 10 ^ d"

definition pad_left :: "nat \<Rightarrow> string \<Rightarrow> string" where
  "pad_left w s = replicate (w - length s) (CHR ''0'') @ s"

text \<open>\<open>f"{x:.df}"\<close>\<close>

definition fmt_fixed :: "nat \<Rightarrow> real \<Rightarrow> string" where
  "fmt_fixed d x =
     (let n = nat \<bar>round_half_even (x * 10 ^ d)\<bar> in
      (if x < 0 then ''-'' else []) @ nat_str (n div 10 ^ d) @
      (if d = 0 then [] else ''.'' @ pad_left d (nat_str (n mod 10 ^ d))))"

lemma round_half_even_bounds: "\<bar>of_int (round_half_even x) - x\<bar> \<le> 1/2"
  unfolding round_half_even_def Let_def by (split if_split | linarith | intro conjI impI)+

lemma round_half_even_nonneg: "0 \<le> x \<Longrightarrow> 0 \<le> round_half_even x"
  unfolding round_half_even_def Let_def by simp

lemma py_round_nonneg: "0 \<le> x \<Longrightarrow> 0 \<le> py_round d x"
  by (simp add: py_round_def round_half_even_nonneg)

section \<open>JSON-like values\<close>

datatype json =
    JNull
  | JBool bool
  | JInt int
  | JReal real
  | JStr string
  | JList "json list"
  | JObj "(string \<times> json) list"

text \<open>Python truth value.\<close>

fun json_true :: "json \<Rightarrow> bool" where
  "json_true JNull = False"
| "json_true (JBool b) = b"
| "json_true (JInt i) = (i \<noteq> 0)"
| "json_true (JReal r) = (r \<noteq> 0)"
| "json_true (JStr s) = (s \<noteq> [])"
| "json_true (JList xs) = (xs \<noteq> [])"
| "json_true (JObj kvs) = (kvs \<noteq> [])"

text \<open>\<open>d.get(k)\<close> on a dictionary; \<open>None\<close> when the key is absent.\<close>

definition obj_get :: "(string \<times> json) list \<Rightarrow> string \<Rightarrow> json" where
  "obj_get kvs k = default_to JNull (map_of kvs k)"

text \<open>Python numbers: \<open>bool\<close> is a subtype of \<open>int\<close>, and \<open>==\<close> compares numbers by value.\<close>

fun json_num :: "json \<Rightarrow> real option" where
  "json_num (JBool b) = Some (if b then 1 else 0)"
| "json_num (JInt i) = Some (of_int i)"
| "json_num (JReal r) = Some r"
| "json_num _ = None"

text \<open>\<open>a == b\<close> where at least one side is a scalar.\<close>

definition py_eq :: "json \<Rightarrow> json \<Rightarrow> bool" where
  "py_eq a b = (case (json_num a, json_num b) of (Some x, Some y) \<Rightarrow> x = y | _ \<Rightarrow> a = b)"

text \<open>\<open>isinstance(v, int)\<close>, which accepts \<open>bool\<close>.\<close>

fun json_int :: "json \<Rightarrow> int option" where
  "json_int (JBool b) = Some (if b then 1 else 0)"
| "json_int (JInt i) = Some i"
| "json_int _ = None"

fun json_str :: "json \<Rightarrow> string option" where
  "json_str (JStr s) = Some s"
| "json_str _ = None"

text \<open>Lists and dictionaries are unhashable: \<open>v in some_set\<close> raises \<open>TypeError\<close>.\<close>

fun json_hashable :: "json \<Rightarrow> bool" where
  "json_hashable (JList _) = False"
| "json_hashable (JObj _) = False"
| "json_hashable _ = True"

lemma py_eq_refl [simp]: "py_eq v v"
  by (auto simp: py_eq_def split: option.splits)

lemma py_eq_JStr [simp]: "py_eq v (JStr s) \<longleftrightarrow> v = JStr s"
  by (cases v) (auto simp: py_eq_def)

section \<open>Dictionaries\<close>

definition dict_keys :: "('k \<times> 'v) list \<Rightarrow> 'k list" where
  "dict_keys d = map fst d"

definition dict_wf :: "('k \<times> 'v) list \<Rightarrow> bool" where
  "dict_wf d = distinct (map fst d)"

lemma dict_wf_Nil [simp, intro]: "dict_wf []"
  by (simp add: dict_wf_def)

lemma dict_wf_update [simp, intro]: "dict_wf d \<Longrightarrow> dict_wf (AList.update k v d)"
  by (simp add: dict_wf_def distinct_update)

lemma dict_wf_delete [simp, intro]: "dict_wf d \<Longrightarrow> dict_wf (AList.delete k d)"
  by (simp add: dict_wf_def distinct_delete)

lemma dict_wf_filter [simp, intro]: "dict_wf d \<Longrightarrow> dict_wf (filter P d)"
  by (simp add: dict_wf_def distinct_map_filter)

lemma dict_wf_mem: "dict_wf d \<Longrightarrow> (k, v) \<in> set d \<longleftrightarrow> map_of d k = Some v"
  by (simp add: dict_wf_def)

lemma set_update_subset: "set (AList.update k v d) \<subseteq> insert (k, v) (set d)"
  by (induction d) auto

lemma set_update_dict:
  "dict_wf d \<Longrightarrow> set (AList.update k v d) = insert (k, v) {p \<in> set d. fst p \<noteq> k}"
  by (induction d) (auto simp: dict_wf_def image_iff)

section \<open>Interfaces shared by the stateful components\<close>

text \<open>
  A component with a state, an initial state predicate, a step relation and an invariant.
  The two laws are what each component proves about its own steps; the lemmas lift them
  to every reachable state.
\<close>

locale transition_system =
  fixes initial :: "'s \<Rightarrow> bool"
    and step :: "'s \<Rightarrow> 's \<Rightarrow> bool"
    and invar :: "'s \<Rightarrow> bool"
  assumes invar_initial: "initial s \<Longrightarrow> invar s"
    and invar_step: "invar s \<Longrightarrow> step s t \<Longrightarrow> invar t"
begin

lemma invar_steps: "step\<^sup>*\<^sup>* s t \<Longrightarrow> invar s \<Longrightarrow> invar t"
  by (induction rule: rtranclp_induct) (auto intro: invar_step)

lemma invar_reachable: "initial s \<Longrightarrow> step\<^sup>*\<^sup>* s t \<Longrightarrow> invar t"
  by (rule invar_steps) (auto intro: invar_initial)

end

text \<open>
  The same for a component whose operations are functions on the state: a run is a list of
  events. Every such machine is a transition system.
\<close>

locale event_machine =
  fixes start :: "'s"
    and exec :: "'e \<Rightarrow> 's \<Rightarrow> 's"
    and good :: "'s \<Rightarrow> bool"
  assumes good_start: "good start"
    and good_exec: "good s \<Longrightarrow> good (exec e s)"
begin

lemma good_run: "good s \<Longrightarrow> good (fold exec es s)"
  by (induction es arbitrary: s) (auto intro: good_exec)

lemma good_reachable: "good (fold exec es start)"
  by (rule good_run) (rule good_start)

end

sublocale event_machine \<subseteq> machine: transition_system "\<lambda>s. s = start" "\<lambda>s t. \<exists>e. t = exec e s" good
  by unfold_locales (auto intro: good_start good_exec)

text \<open>
  A machine in which some events spend from a budget that no event refills: a run spends at
  most the budget it starts with.
\<close>

locale budgeted_machine = event_machine +
  fixes budget :: "'s \<Rightarrow> nat option"
    and spends :: "'e \<Rightarrow> 's \<Rightarrow> bool"
  assumes budget_step: "good s \<Longrightarrow> budget s = Some n \<Longrightarrow>
    \<exists>m. budget (exec e s) = Some m \<and> (if spends e s then Suc m \<le> n else m \<le> n)"
begin

primrec spent :: "'e list \<Rightarrow> 's \<Rightarrow> nat" where
  "spent [] s = 0"
| "spent (e # es) s = (if spends e s then 1 else 0) + spent es (exec e s)"

lemma spent_within_budget: "good s \<Longrightarrow> budget s = Some n \<Longrightarrow> spent es s \<le> n"
proof (induction es arbitrary: s n)
  case (Cons e es)
  obtain m where m: "budget (exec e s) = Some m" "if spends e s then Suc m \<le> n else m \<le> n"
    using budget_step [OF Cons.prems] by blast
  from Cons.IH [OF good_exec [OF Cons.prems(1)] m(1)] m(2) show ?case by (auto split: if_splits)
qed simp

end

end
