(* ===== verification/Guard.thy ===== *)
theory Guard
  imports Prelude
begin

text \<open>
  The guardrail waist (\<open>src/src/oumigo/guard/\<close>): intercept points, verdicts, guard chains and
  profiles. Concrete guards are code outside the repository; a guard is a parameter, a
  function that returns a verdict or raises. Content is a \<open>json\<close> value.
\<close>

section \<open>points.py, verdict.py\<close>

datatype intercept_point =
  USER_INPUT | ASSEMBLED_PROMPT | TOOL_CALL | TOOL_RESULT | ASSISTANT_TURN | FINAL_ANSWER

definition all_points :: "intercept_point list" where
  "all_points = [USER_INPUT, ASSEMBLED_PROMPT, TOOL_CALL, TOOL_RESULT, ASSISTANT_TURN, FINAL_ANSWER]"

fun point_value :: "intercept_point \<Rightarrow> string" where
  "point_value USER_INPUT = ''user_input''"
| "point_value ASSEMBLED_PROMPT = ''assembled_prompt''"
| "point_value TOOL_CALL = ''tool_call''"
| "point_value TOOL_RESULT = ''tool_result''"
| "point_value ASSISTANT_TURN = ''assistant_turn''"
| "point_value FINAL_ANSWER = ''final_answer''"

definition OUTPUT_POINTS :: "intercept_point list" where
  "OUTPUT_POINTS = [ASSISTANT_TURN, FINAL_ANSWER]"

datatype decision = ALLOW | TRANSFORM | FLAG | SKIP | BLOCK | STOP

fun decision_value :: "decision \<Rightarrow> string" where
  "decision_value ALLOW = ''allow''"
| "decision_value TRANSFORM = ''transform''"
| "decision_value FLAG = ''flag''"
| "decision_value SKIP = ''skip''"
| "decision_value BLOCK = ''block''"
| "decision_value STOP = ''stop''"

definition HALTING :: "decision list" where
  "HALTING = [SKIP, BLOCK, STOP]"

record verdict =
  v_decision :: decision
  v_content :: json
  v_reason :: "string option"

definition verdict_allow :: verdict where
  "verdict_allow = \<lparr>v_decision = ALLOW, v_content = JNull, v_reason = None\<rparr>"

definition verdict_transform :: "json \<Rightarrow> verdict" where
  "verdict_transform c = \<lparr>v_decision = TRANSFORM, v_content = c, v_reason = None\<rparr>"

definition verdict_flag :: "string \<Rightarrow> verdict" where
  "verdict_flag r = \<lparr>v_decision = FLAG, v_content = JNull, v_reason = Some r\<rparr>"

definition verdict_skip :: "string \<Rightarrow> verdict" where
  "verdict_skip r = \<lparr>v_decision = SKIP, v_content = JNull, v_reason = Some r\<rparr>"

definition verdict_block :: "string \<Rightarrow> verdict" where
  "verdict_block r = \<lparr>v_decision = BLOCK, v_content = JNull, v_reason = Some r\<rparr>"

definition verdict_stop :: "string \<Rightarrow> verdict" where
  "verdict_stop r = \<lparr>v_decision = STOP, v_content = JNull, v_reason = Some r\<rparr>"

definition is_allow :: "verdict \<Rightarrow> bool" where "is_allow v = (v_decision v = ALLOW)"
definition is_transform :: "verdict \<Rightarrow> bool" where "is_transform v = (v_decision v = TRANSFORM)"
definition is_flag :: "verdict \<Rightarrow> bool" where "is_flag v = (v_decision v = FLAG)"
definition skips :: "verdict \<Rightarrow> bool" where "skips v = (v_decision v = SKIP)"
definition blocks :: "verdict \<Rightarrow> bool" where "blocks v = (v_decision v = BLOCK)"
definition stops :: "verdict \<Rightarrow> bool" where "stops v = (v_decision v = STOP)"
definition halts :: "verdict \<Rightarrow> bool" where "halts v = (v_decision v \<in> set HALTING)"

lemmas verdict_preds = is_allow_def is_transform_def is_flag_def skips_def blocks_def stops_def
  halts_def HALTING_def
lemmas verdict_ctors = verdict_allow_def verdict_transform_def verdict_flag_def verdict_skip_def
  verdict_block_def verdict_stop_def

section \<open>guard.py, chain.py\<close>

record guard_context =
  g_content :: json
  g_tool_name :: "string option"
  g_messages :: "json option"
  g_system :: "string option"
  g_metadata :: "(string \<times> json) list"

text \<open>What calling a guard does: it returns a verdict, or raises an \<open>Exception\<close> with a type
  name and a message.\<close>

datatype guard_result = Returned verdict | Raised string string

type_synonym intercept_fn = "intercept_point \<Rightarrow> guard_context \<Rightarrow> guard_result"

record guard =
  points :: "intercept_point list option"
  intercept :: intercept_fn

text \<open>What a caller may hand to a chain: an object with \<open>.intercept\<close>, a bare callable (which
  may carry a \<open>points\<close> attribute), or neither.\<close>

datatype guard_like =
    WithIntercept guard
  | BareCallable "intercept_point list option" intercept_fn
  | NotAGuard string

definition callable_guard :: "intercept_point list option \<Rightarrow> intercept_fn \<Rightarrow> guard" where
  "callable_guard pts fn = \<lparr>points = pts, intercept = fn\<rparr>"

fun coerce :: "guard_like \<Rightarrow> guard res" where
  "coerce (WithIntercept g) = Inr g"
| "coerce (BareCallable pts fn) = Inr (callable_guard pts fn)"
| "coerce (NotAGuard r) =
     Inl (TypeErr (''a guard must have an .intercept(point, ctx) method or be callable, got '' @ r))"

fun guard_chain :: "guard_like list \<Rightarrow> guard list res" where
  "guard_chain [] = Inr []"
| "guard_chain (g # gs) =
     res_bind (coerce g) (\<lambda>h. res_bind (guard_chain gs) (\<lambda>hs. Inr (h # hs)))"

definition applies :: "guard \<Rightarrow> intercept_point \<Rightarrow> bool" where
  "applies g p = (case points g of None \<Rightarrow> True | Some ps \<Rightarrow> p \<in> set ps)"

fun active_points_from :: "intercept_point list \<Rightarrow> guard list \<Rightarrow> intercept_point list" where
  "active_points_from acc [] = acc"
| "active_points_from acc (g # gs) =
     (case points g of None \<Rightarrow> all_points | Some ps \<Rightarrow> active_points_from (acc @ ps) gs)"

definition active_points :: "guard list \<Rightarrow> intercept_point list" where
  "active_points gs = active_points_from [] gs"

definition consult :: "guard \<Rightarrow> intercept_point \<Rightarrow> guard_context \<Rightarrow> verdict" where
  "consult g p ctx =
     (case intercept g p ctx of
        Returned v \<Rightarrow> v
      | Raised ty msg \<Rightarrow> verdict_block (''guard error: '' @ ty @ '': '' @ msg))"

record chain_outcome =
  o_verdict :: verdict
  o_content :: json
  o_flags :: "verdict list"

fun evaluate_from :: "intercept_point \<Rightarrow> guard_context \<Rightarrow> json \<Rightarrow> verdict list \<Rightarrow> guard list \<Rightarrow> chain_outcome"
where
  "evaluate_from p ctx content flags [] =
     \<lparr>o_verdict = verdict_allow, o_content = content, o_flags = flags\<rparr>"
| "evaluate_from p ctx content flags (g # gs) =
     (if \<not> applies g p then evaluate_from p ctx content flags gs
      else
        let v = consult g p (ctx\<lparr>g_content := content\<rparr>) in
        if is_allow v then evaluate_from p ctx content flags gs
        else if is_flag v then evaluate_from p ctx content (flags @ [v]) gs
        else if is_transform v then evaluate_from p ctx (v_content v) flags gs
        else \<lparr>o_verdict = v, o_content = content, o_flags = flags\<rparr>)"

definition evaluate :: "guard list \<Rightarrow> intercept_point \<Rightarrow> guard_context \<Rightarrow> chain_outcome" where
  "evaluate gs p ctx = evaluate_from p ctx (g_content ctx) [] gs"

section \<open>profile.py\<close>

record guard_profile =
  p_name :: string
  p_chain :: "guard list"

definition make_profile :: "guard_like list \<Rightarrow> string \<Rightarrow> guard_profile res" where
  "make_profile gs name = res_bind (guard_chain gs) (\<lambda>c. Inr \<lparr>p_name = name, p_chain = c\<rparr>)"

definition profile_is_empty :: "guard_profile \<Rightarrow> bool" where
  "profile_is_empty p = (p_chain p = [])"

definition profile_active_points :: "guard_profile \<Rightarrow> intercept_point list" where
  "profile_active_points p = active_points (p_chain p)"

definition profile_evaluate :: "guard_profile \<Rightarrow> intercept_point \<Rightarrow> guard_context \<Rightarrow> chain_outcome" where
  "profile_evaluate p pt ctx = evaluate (p_chain p) pt ctx"

section \<open>Lemmas\<close>

lemma decision_not_continuing:
  "\<not> is_allow v \<Longrightarrow> \<not> is_flag v \<Longrightarrow> \<not> is_transform v \<Longrightarrow> halts v"
  by (cases "v_decision v") (auto simp: verdict_preds)

lemma halts_exclusive: "halts v \<Longrightarrow> \<not> is_allow v \<and> \<not> is_flag v \<and> \<not> is_transform v"
  by (auto simp: verdict_preds)

lemma halts_verdict_allow [simp]: "\<not> halts verdict_allow" "is_allow verdict_allow"
  by (auto simp: verdict_preds verdict_ctors)

lemma halts_verdict_block [simp]: "halts (verdict_block r)" "blocks (verdict_block r)"
  by (auto simp: verdict_preds verdict_ctors)

lemma set_all_points [simp]: "p \<in> set all_points"
  by (cases p) (auto simp: all_points_def)

lemma evaluate_from_verdict:
  "o_verdict (evaluate_from p ctx c fl gs) = verdict_allow \<or> halts (o_verdict (evaluate_from p ctx c fl gs))"
  by (induction p ctx c fl gs rule: evaluate_from.induct)
     (auto simp: Let_def intro: decision_not_continuing)

lemma evaluate_from_append:
  "evaluate_from p ctx c fl (gs @ hs) =
     (let r = evaluate_from p ctx c fl gs in
      if halts (o_verdict r) then r else evaluate_from p ctx (o_content r) (o_flags r) hs)"
  by (induction p ctx c fl gs rule: evaluate_from.induct)
     (auto simp: Let_def dest: decision_not_continuing)

lemma evaluate_from_flags:
  "evaluate_from p ctx c fl gs =
     (let r = evaluate_from p ctx c [] gs in r\<lparr>o_flags := fl @ o_flags r\<rparr>)"
proof (induction gs arbitrary: c fl)
  case Nil
  then show ?case by simp
next
  case (Cons g gs)
  show ?case
    using Cons [of c fl]
      Cons [of c "fl @ [consult g p (ctx\<lparr>g_content := c\<rparr>)]"]
      Cons [of c "[consult g p (ctx\<lparr>g_content := c\<rparr>)]"]
      Cons [of "v_content (consult g p (ctx\<lparr>g_content := c\<rparr>))" fl]
    by (simp add: Let_def)
qed

lemma evaluate_from_skips:
  "list_all (\<lambda>g. \<not> applies g p) gs \<Longrightarrow>
   evaluate_from p ctx c fl gs = \<lparr>o_verdict = verdict_allow, o_content = c, o_flags = fl\<rparr>"
  by (induction gs) auto

lemma set_active_points_from:
  "set (active_points_from acc gs) =
     (if list_ex (\<lambda>g. points g = None) gs then UNIV
      else set acc \<union> (\<Union>g \<in> set gs. set (the (points g))))"
  by (induction gs arbitrary: acc) (auto split: option.splits)

lemma active_points_iff: "p \<in> set (active_points gs) \<longleftrightarrow> list_ex (\<lambda>g. applies g p) gs"
proof (cases "list_ex (\<lambda>g. points g = None) gs")
  case True
  then show ?thesis
    by (force simp: active_points_def set_active_points_from list_ex_iff applies_def)
next
  case False
  then show ?thesis
    by (force simp: active_points_def set_active_points_from list_ex_iff applies_def
        split: option.splits)
qed

text \<open>The interface the agent layer relies on: screening at a point either lets content
  through or halts, and its flags are audit flags.\<close>

locale screening =
  fixes screen :: "intercept_point \<Rightarrow> guard_context \<Rightarrow> chain_outcome"
    and active :: "intercept_point set"
  assumes screen_verdict: "o_verdict (screen p ctx) = verdict_allow \<or> halts (o_verdict (screen p ctx))"
    and screen_flags: "list_all is_flag (o_flags (screen p ctx))"
    and screen_inactive: "p \<notin> active \<Longrightarrow>
      screen p ctx = \<lparr>o_verdict = verdict_allow, o_content = g_content ctx, o_flags = []\<rparr>"
begin

lemma not_halts_allow: "\<not> halts (o_verdict (screen p ctx)) \<Longrightarrow> o_verdict (screen p ctx) = verdict_allow"
  using screen_verdict by blast

lemma never_leaks_transform: "\<not> is_transform (o_verdict (screen p ctx)) \<and> \<not> is_flag (o_verdict (screen p ctx))"
  using screen_verdict [of p ctx] halts_exclusive
  by (auto simp: verdict_preds verdict_ctors)

lemma halting_point_active: "halts (o_verdict (screen p ctx)) \<Longrightarrow> p \<in> active"
  using screen_inactive by fastforce

end

lemma evaluate_from_flags_are_flags:
  "list_all is_flag fl \<Longrightarrow> list_all is_flag (o_flags (evaluate_from p ctx c fl gs))"
  by (induction p ctx c fl gs rule: evaluate_from.induct) (auto simp: Let_def)

lemma evaluate_inactive:
  "p \<notin> set (active_points gs) \<Longrightarrow>
   evaluate gs p ctx = \<lparr>o_verdict = verdict_allow, o_content = g_content ctx, o_flags = []\<rparr>"
  by (simp add: evaluate_def active_points_iff evaluate_from_skips list_all_iff list_ex_iff)

interpretation chain: screening "evaluate gs" "set (active_points gs)" for gs
  by unfold_locales
     (simp_all add: evaluate_def evaluate_from_verdict evaluate_from_flags_are_flags
        evaluate_inactive [unfolded evaluate_def])

section \<open>Properties\<close>

lemma evaluate_from_ctx:
  "evaluate_from p (ctx\<lparr>g_content := x\<rparr>) c fl gs = evaluate_from p ctx c fl gs"
  by (induction p ctx c fl gs rule: evaluate_from.induct) (auto simp: Let_def)

text \<open>Evaluating a chain is compositional. The guards of a prefix run first; if one of them
  halts, its outcome is the outcome of the whole chain and no later guard is consulted;
  otherwise the rest runs on the content as the prefix rewrote it (transforms accumulate)
  and the flags of both parts are kept in order.\<close>

lemma evaluate_append:
  "evaluate (gs @ hs) p ctx =
     (let r = evaluate gs p ctx in
      if halts (o_verdict r) then r
      else (let r2 = evaluate hs p (ctx\<lparr>g_content := o_content r\<rparr>) in
            r2\<lparr>o_flags := o_flags r @ o_flags r2\<rparr>))"
  unfolding evaluate_def evaluate_from_append
  by (simp add: Let_def evaluate_from_ctx
      evaluate_from_flags [where fl = "o_flags (evaluate_from p ctx (g_content ctx) [] gs)"])

text \<open>C10: Fail closed. When the guards before \<open>g\<close> let the content through and \<open>g\<close> raises on it, the
  chain blocks: the verdict is a BLOCK naming the exception, whatever guards follow, and the
  content and flags are those accumulated so far.\<close>

theorem evaluate_fail_closed:
  assumes "applies g p"
    and "\<not> halts (o_verdict (evaluate gs p ctx))"
    and "intercept g p (ctx\<lparr>g_content := o_content (evaluate gs p ctx)\<rparr>) = Raised ty msg"
  shows "evaluate (gs @ g # hs) p ctx =
     \<lparr>o_verdict = verdict_block (''guard error: '' @ ty @ '': '' @ msg),
      o_content = o_content (evaluate gs p ctx), o_flags = o_flags (evaluate gs p ctx)\<rparr>"
  using assms
  by (simp add: evaluate_def evaluate_from_append Let_def consult_def)
     (simp add: verdict_preds verdict_ctors)

definition redact_guard :: guard where
  "redact_guard = \<lparr>points = None,
     intercept = (\<lambda>p ctx. Returned (verdict_transform (JStr ''redacted'')))\<rparr>"

definition crashing_guard :: guard where
  "crashing_guard = \<lparr>points = Some [USER_INPUT],
     intercept = (\<lambda>p ctx. if g_content ctx = JStr ''redacted'' then Raised ''KeyError'' ''x''
                          else Returned verdict_allow)\<rparr>"

definition sample_context :: guard_context where
  "sample_context = \<lparr>g_content = JStr ''secret'', g_tool_name = None, g_messages = None,
     g_system = None, g_metadata = []\<rparr>"

theorem evaluate_fail_closed_witness:
  "evaluate ([redact_guard] @ crashing_guard # [redact_guard]) USER_INPUT sample_context =
     \<lparr>o_verdict = verdict_block (''guard error: '' @ ''KeyError'' @ '': '' @ ''x''),
      o_content = JStr ''redacted'', o_flags = []\<rparr>"
proof -
  have r: "evaluate [redact_guard] USER_INPUT sample_context =
     \<lparr>o_verdict = verdict_allow, o_content = JStr ''redacted'', o_flags = []\<rparr>"
    by (simp add: evaluate_def redact_guard_def applies_def consult_def sample_context_def
        verdict_preds verdict_ctors)
  show ?thesis
    using evaluate_fail_closed
      [of crashing_guard USER_INPUT "[redact_guard]" sample_context "''KeyError''" "''x''" "[redact_guard]"]
    by (simp add: r) (simp add: applies_def crashing_guard_def)
qed

text \<open>A point outside \<open>active_points\<close> is untouched: the chain allows the content unchanged and
  raises no flag. So a chat whose profile has no active output point may pass deltas
  through unbuffered.\<close>

lemma evaluate_inactive_noop:
  assumes "p \<notin> set (active_points gs)"
  shows "evaluate gs p ctx = \<lparr>o_verdict = verdict_allow, o_content = g_content ctx, o_flags = []\<rparr>"
  using assms by (rule chain.screen_inactive)

lemma evaluate_inactive_noop_witness:
  "FINAL_ANSWER \<notin> set (active_points [crashing_guard, crashing_guard]) \<and>
   evaluate [crashing_guard, crashing_guard] FINAL_ANSWER sample_context =
     \<lparr>o_verdict = verdict_allow, o_content = JStr ''secret'', o_flags = []\<rparr>"
proof -
  have i: "FINAL_ANSWER \<notin> set (active_points [crashing_guard, crashing_guard])"
    by (simp add: active_points_def crashing_guard_def)
  show ?thesis using i evaluate_inactive_noop [OF i, of sample_context] by (simp add: sample_context_def)
qed

end
