(* ===== verification/Protocol.thy ===== *)
theory Protocol
  imports Prelude
begin

text \<open>
  The wire vocabulary (\<open>src/src/oumigo/protocol/\<close>): node lifecycle and run states, transports,
  commands and the control-plane messages. The registration response carries a node
  specification and is declared with it (theory Spec).
\<close>

section \<open>states.py\<close>

datatype node_state =
  REGISTERING | INITIALIZING | SERVING | DRAINING | STOPPED | FAILED | LOST

fun node_state_value :: "node_state \<Rightarrow> string" where
  "node_state_value REGISTERING = ''registering''"
| "node_state_value INITIALIZING = ''initializing''"
| "node_state_value SERVING = ''serving''"
| "node_state_value DRAINING = ''draining''"
| "node_state_value STOPPED = ''stopped''"
| "node_state_value FAILED = ''failed''"
| "node_state_value LOST = ''lost''"

datatype run_state = IDLE | EXECUTING

section \<open>messages.py\<close>

record node_capabilities =
  gpu :: "string option"
  vram_gb :: "real option"

datatype transport = DIRECT | TUNNEL

datatype worker_command = CMD_STOP

record register_request =
  rq_node_id :: string
  rq_address :: string
  rq_transport :: transport
  rq_vllm_port :: "int option"
  rq_model :: "string option"
  rq_profile :: "string option"
  rq_backend :: "string option"
  rq_incarnation :: int
  rq_state :: node_state
  rq_capabilities :: node_capabilities

record heartbeat_request =
  hb_node_id :: string
  hb_node_state :: node_state
  hb_run_state :: "run_state option"
  hb_vllm_port :: "int option"
  hb_max_concurrent_requests :: "int option"
  hb_tunnel_rtt_ms :: "real option"

record heartbeat_response =
  hr_ok :: bool
  hr_known :: bool
  hr_command :: "worker_command option"
  hr_tunnel_pool_size :: "int option"

record metric_point =
  mp_timestamp :: string
  mp_metric :: string
  mp_value :: real

record metrics_report =
  mr_node_id :: string
  mr_points :: "metric_point list"

lemma node_state_value_inj: "node_state_value a = node_state_value b \<longleftrightarrow> a = b"
  by (cases a; cases b) auto

end
