(* ===== verification/Registry.thy ===== *)
theory Registry
  imports Protocol
begin

text \<open>
  The in-memory node registry (\<open>src/src/oumigo/service/manager/control/registry.py\<close>): the
  manager's record of every worker it knows. \<open>_nodes\<close> is an association list in insertion
  order, the clock \<open>time.time()\<close> is an argument of each operation, and \<open>state\<close>, \<open>run_state\<close>
  and \<open>transport\<close> are the enum members whose values the code stores. The lock makes each
  operation atomic, so an execution is a sequence of operations.
\<close>

section \<open>NodeRecord\<close>

record node_record =
  node_id :: string
  address :: string
  state :: node_state
  incarnation :: int
  capabilities :: node_capabilities
  registered_at :: real
  last_seen :: real
  nr_run_state :: "run_state option"
  seq :: nat
  port :: "int option"
  model :: "string option"
  profile :: "string option"
  backend :: "string option"
  max_concurrent_requests :: "int option"
  transport :: transport
  tunnel_rtt_ms :: "real option"

definition served_name :: "node_record \<Rightarrow> string option" where
  "served_name r = str_or (profile r) (model r)"

definition node_name :: "node_record \<Rightarrow> string" where
  "node_name r = ''Worker#'' @ nat_str (seq r)"

section \<open>Registry\<close>

record registry =
  nodes :: "(string \<times> node_record) list"
  next_seq :: nat

definition registry_init :: registry where
  "registry_init = \<lparr>nodes = [], next_seq = 0\<rparr>"

definition registry_get :: "registry \<Rightarrow> string \<Rightarrow> node_record option" where
  "registry_get g nid = map_of (nodes g) nid"

definition keep :: "'a option \<Rightarrow> node_record option \<Rightarrow> (node_record \<Rightarrow> 'a option) \<Rightarrow> 'a option" where
  "keep new existing f = or_else new (Option.bind existing f)"

definition registry_register ::
  "real \<Rightarrow> string \<Rightarrow> string \<Rightarrow> node_state \<Rightarrow> int \<Rightarrow> node_capabilities \<Rightarrow> int option \<Rightarrow> string option \<Rightarrow>
   string option \<Rightarrow> transport \<Rightarrow> string option \<Rightarrow> registry \<Rightarrow> node_record \<times> registry"
where
  "registry_register now nid addr st inc caps prt mdl bck tr prof g =
     (let existing = map_of (nodes g) nid;
          (sq, nsq) = (case existing of
               Some e \<Rightarrow> (seq e, next_seq g)
             | None \<Rightarrow> (Suc (next_seq g), Suc (next_seq g)));
          rec = \<lparr>node_id = nid, address = addr, state = st, incarnation = inc, capabilities = caps,
                 registered_at = (case existing of Some e \<Rightarrow> registered_at e | None \<Rightarrow> now),
                 last_seen = now, nr_run_state = None, seq = sq,
                 port = keep prt existing port, model = keep mdl existing model,
                 profile = keep prof existing profile, backend = keep bck existing backend,
                 max_concurrent_requests = Option.bind existing max_concurrent_requests,
                 transport = tr, tunnel_rtt_ms = None\<rparr>
      in (rec, g\<lparr>nodes := AList.update nid rec (nodes g), next_seq := nsq\<rparr>))"

definition registry_heartbeat ::
  "real \<Rightarrow> string \<Rightarrow> node_state \<Rightarrow> run_state option \<Rightarrow> int option \<Rightarrow> int option \<Rightarrow> real option \<Rightarrow>
   registry \<Rightarrow> bool \<times> registry"
where
  "registry_heartbeat now nid st rst prt mcr rtt g =
     (case map_of (nodes g) nid of
        None \<Rightarrow> (False, g)
      | Some r \<Rightarrow>
          (True, g\<lparr>nodes := AList.update nid
             (r\<lparr>last_seen := now, state := st, nr_run_state := rst,
                port := or_else prt (port r),
                max_concurrent_requests := or_else mcr (max_concurrent_requests r),
                tunnel_rtt_ms := or_else rtt (tunnel_rtt_ms r)\<rparr>) (nodes g)\<rparr>))"

definition registry_remove :: "string \<Rightarrow> registry \<Rightarrow> bool \<times> registry" where
  "registry_remove nid g =
     (map_of (nodes g) nid \<noteq> None, g\<lparr>nodes := AList.delete nid (nodes g)\<rparr>)"

definition registry_list :: "registry \<Rightarrow> node_record list" where
  "registry_list g = map snd (nodes g)"

definition registry_count :: "registry \<Rightarrow> nat" where
  "registry_count g = length (nodes g)"

text \<open>The reaper walks a copy of the items in order; a \<open>forget_after_s\<close> of \<open>None\<close> is the
  \<open>float("inf")\<close> the control plane passes when no forget time is set.\<close>

fun reap_loop ::
  "real \<Rightarrow> real \<Rightarrow> real option \<Rightarrow> (string \<times> node_record) list \<Rightarrow> registry \<Rightarrow>
   string list \<Rightarrow> string list \<Rightarrow> (string list \<times> string list) \<times> registry"
where
  "reap_loop now timeout_s forget_s [] g lost removed = ((lost, removed), g)"
| "reap_loop now timeout_s forget_s ((nid, r) # items) g lost removed =
     (let silent = now - last_seen r in
      if (case forget_s of None \<Rightarrow> False | Some f \<Rightarrow> f < silent) then
        reap_loop now timeout_s forget_s items
          (g\<lparr>nodes := AList.delete nid (nodes g)\<rparr>) lost (removed @ [nid])
      else if timeout_s < silent \<and> state r \<noteq> LOST then
        reap_loop now timeout_s forget_s items
          (g\<lparr>nodes := AList.update nid (r\<lparr>state := LOST\<rparr>) (nodes g)\<rparr>) (lost @ [nid]) removed
      else reap_loop now timeout_s forget_s items g lost removed)"

definition registry_reap ::
  "real \<Rightarrow> real \<Rightarrow> real option \<Rightarrow> registry \<Rightarrow> (string list \<times> string list) \<times> registry" where
  "registry_reap now timeout_s forget_s g = reap_loop now timeout_s forget_s (nodes g) g [] []"

section \<open>Well-formedness\<close>

text \<open>Keys are unique and are the record's own \<open>node_id\<close>; sequence numbers are unique and lie
  between 1 and the counter.\<close>

definition registry_wf :: "registry \<Rightarrow> bool" where
  "registry_wf g \<longleftrightarrow> dict_wf (nodes g)
     \<and> list_all (\<lambda>(k, r). node_id r = k \<and> 1 \<le> seq r \<and> seq r \<le> next_seq g) (nodes g)
     \<and> distinct (map (seq \<circ> snd) (nodes g))"

section \<open>Operations as events\<close>

datatype registry_op =
    OpRegister real string string node_state int node_capabilities "int option" "string option"
      "string option" transport "string option"
  | OpHeartbeat real string node_state "run_state option" "int option" "int option" "real option"
  | OpRemove string
  | OpReap real real "real option"

fun registry_exec :: "registry_op \<Rightarrow> registry \<Rightarrow> registry" where
  "registry_exec (OpRegister now nid addr st inc caps prt mdl bck tr prof) g =
     snd (registry_register now nid addr st inc caps prt mdl bck tr prof g)"
| "registry_exec (OpHeartbeat now nid st rst prt mcr rtt) g =
     snd (registry_heartbeat now nid st rst prt mcr rtt g)"
| "registry_exec (OpRemove nid) g = snd (registry_remove nid g)"
| "registry_exec (OpReap now t f) g = snd (registry_reap now t f g)"

section \<open>Lemmas\<close>

lemma update_new: "map_of d k = None \<Longrightarrow> AList.update k v d = d @ [(k, v)]"
  by (induction d) (auto split: if_splits)

lemma map_snd_update:
  "map_of d k = Some e \<Longrightarrow> f v = f e \<Longrightarrow> map (f \<circ> snd) (AList.update k v d) = map (f \<circ> snd) d"
  by (induction d) (auto split: if_splits)

lemma update_middle:
  "k \<notin> fst ` set pre \<Longrightarrow> AList.update k v (pre @ (k, r) # items) = pre @ (k, v) # items"
  by (induction pre) auto

lemma delete_middle:
  "dict_wf (pre @ (k, r) # items) \<Longrightarrow> AList.delete k (pre @ (k, r) # items) = pre @ items"
  by (induction pre) (auto simp: dict_wf_def)

lemma registry_wf_get:
  "registry_wf g \<Longrightarrow> registry_get g nid = Some r \<Longrightarrow> node_id r = nid \<and> 1 \<le> seq r \<and> seq r \<le> next_seq g"
  by (fastforce simp: registry_wf_def registry_get_def list_all_iff dest: map_of_SomeD)

lemma registry_wf_init [inv_intros]: "registry_wf registry_init"
  by (simp add: registry_wf_def registry_init_def)

lemma registry_wf_update_same:
  assumes "registry_wf g" "map_of (nodes g) nid = Some e" "seq r = seq e" "node_id r = nid"
  shows "registry_wf (g\<lparr>nodes := AList.update nid r (nodes g)\<rparr>)"
proof -
  have "1 \<le> seq e \<and> seq e \<le> next_seq g"
    using registry_wf_get [OF assms(1)] assms(2) by (simp add: registry_get_def)
  then show ?thesis using assms
    by (auto simp: registry_wf_def list_all_iff set_update_dict map_snd_update [of _ _ e seq])
qed

lemma registry_wf_append:
  assumes "registry_wf g" "map_of (nodes g) nid = None" "node_id r = nid" "seq r = Suc (next_seq g)"
  shows "registry_wf (g\<lparr>nodes := AList.update nid r (nodes g), next_seq := Suc (next_seq g)\<rparr>)"
proof -
  have "Suc (next_seq g) \<notin> (seq \<circ> snd) ` set (nodes g)"
    using assms(1) by (fastforce simp: registry_wf_def list_all_iff)
  moreover have "nid \<notin> fst ` set (nodes g)" using assms(2) by (simp add: map_of_eq_None_iff)
  ultimately show ?thesis
    using assms by (simp add: registry_wf_def update_new dict_wf_def) (fastforce simp: list_all_iff)
qed

lemma registry_wf_register [inv_intros]:
  assumes "registry_wf g"
  shows "registry_wf (snd (registry_register now nid addr st inc caps prt mdl bck tr prof g))"
proof (cases "map_of (nodes g) nid")
  case None
  then show ?thesis
    by (simp add: registry_register_def Let_def registry_wf_append [OF assms])
next
  case (Some e)
  then show ?thesis
    using registry_wf_update_same [OF assms Some] by (simp add: registry_register_def Let_def)
qed

lemma registry_wf_heartbeat [inv_intros]:
  assumes "registry_wf g"
  shows "registry_wf (snd (registry_heartbeat now nid st rst prt mcr rtt g))"
proof (cases "map_of (nodes g) nid")
  case None
  with assms show ?thesis by (simp add: registry_heartbeat_def)
next
  case (Some e)
  then show ?thesis
    using registry_wf_update_same [OF assms Some] registry_wf_get [OF assms, of nid e]
    by (simp add: registry_heartbeat_def registry_get_def)
qed

lemma registry_wf_filter:
  assumes "registry_wf g"
  shows "registry_wf (g\<lparr>nodes := filter P (nodes g)\<rparr>)"
  using assms by (auto simp: registry_wf_def list_all_iff distinct_map_filter)

lemma registry_wf_remove [inv_intros]:
  "registry_wf g \<Longrightarrow> registry_wf (snd (registry_remove nid g))"
  using registry_wf_filter [of g] by (simp add: registry_remove_def AList.delete_eq)

text \<open>The reaper loop, entry by entry.\<close>

definition forgotten :: "real \<Rightarrow> real option \<Rightarrow> node_record \<Rightarrow> bool" where
  "forgotten now f r = (case f of None \<Rightarrow> False | Some x \<Rightarrow> x < now - last_seen r)"

definition went_silent :: "real \<Rightarrow> real \<Rightarrow> real option \<Rightarrow> node_record \<Rightarrow> bool" where
  "went_silent now t f r \<longleftrightarrow> \<not> forgotten now f r \<and> t < now - last_seen r"

definition reap_record :: "real \<Rightarrow> real \<Rightarrow> real option \<Rightarrow> node_record \<Rightarrow> node_record" where
  "reap_record now t f r = (if went_silent now t f r then r\<lparr>state := LOST\<rparr> else r)"

definition reap_nodes :: "real \<Rightarrow> real \<Rightarrow> real option \<Rightarrow> (string \<times> node_record) list \<Rightarrow> (string \<times> node_record) list" where
  "reap_nodes now t f items =
     map (\<lambda>(k, r). (k, reap_record now t f r)) (filter (\<lambda>(k, r). \<not> forgotten now f r) items)"

lemma reap_loop_eq:
  assumes "dict_wf (pre @ items)" "nodes g = pre @ items"
  shows "reap_loop now t f items g lost removed =
    ((lost @ map fst (filter (\<lambda>(k, r). went_silent now t f r \<and> state r \<noteq> LOST) items),
      removed @ map fst (filter (\<lambda>(k, r). forgotten now f r) items)),
     g\<lparr>nodes := pre @ reap_nodes now t f items\<rparr>)"
  using assms
proof (induction items arbitrary: pre g lost removed)
  case Nil
  then show ?case by (simp add: reap_nodes_def)
next
  case (Cons it items)
  obtain k r where it: "it = (k, r)" by (cases it)
  from Cons.prems it have k: "k \<notin> fst ` set pre" and wf: "dict_wf (pre @ (k, r) # items)"
    and g: "nodes g = pre @ (k, r) # items"
    by (auto simp: dict_wf_def)
  show ?case
  proof (cases "forgotten now f r")
    case True
    have "dict_wf (pre @ items)" using wf by (auto simp: dict_wf_def)
    from Cons.IH [OF this, of "g\<lparr>nodes := pre @ items\<rparr>"] show ?thesis
      using True it g wf
      by (simp add: Let_def delete_middle forgotten_def went_silent_def reap_nodes_def)
  next
    case False
    let ?r = "reap_record now t f r" and ?lost = "went_silent now t f r \<and> state r \<noteq> LOST"
    have step: "reap_loop now t f ((k, r) # items) g lost removed =
      reap_loop now t f items (g\<lparr>nodes := (pre @ [(k, ?r)]) @ items\<rparr>)
        (if ?lost then lost @ [k] else lost) removed"
    proof (cases ?lost)
      case True
      with False g k show ?thesis
        by (auto simp: Let_def update_middle forgotten_def went_silent_def reap_record_def)
    next
      case nl: False
      then have "?r = r" by (auto simp: reap_record_def)
      moreover have "g\<lparr>nodes := pre @ (k, r) # items\<rparr> = g" using g by (cases g) simp
      moreover have "\<not> (t < now - last_seen r \<and> state r \<noteq> LOST)"
        using nl False by (simp add: went_silent_def)
      ultimately show ?thesis using False nl by (auto simp: Let_def forgotten_def)
    qed
    have "dict_wf ((pre @ [(k, ?r)]) @ items)" using wf by (auto simp: dict_wf_def)
    from Cons.IH [OF this, of "g\<lparr>nodes := (pre @ [(k, ?r)]) @ items\<rparr>"] show ?thesis
      unfolding it step using False by (simp add: reap_nodes_def)
  qed
qed

lemma registry_reap_eq:
  assumes "registry_wf g"
  shows "registry_reap now t f g =
    ((map fst (filter (\<lambda>(k, r). went_silent now t f r \<and> state r \<noteq> LOST) (nodes g)),
      map fst (filter (\<lambda>(k, r). forgotten now f r) (nodes g))),
     g\<lparr>nodes := reap_nodes now t f (nodes g)\<rparr>)"
  using reap_loop_eq [of "[]" "nodes g" g now t f "[]" "[]"] assms
  by (simp add: registry_reap_def registry_wf_def)

lemma reap_record_fields [simp]:
  "node_id (reap_record now t f r) = node_id r" "seq (reap_record now t f r) = seq r"
  "last_seen (reap_record now t f r) = last_seen r"
  by (auto simp: reap_record_def)

lemma registry_wf_reap [inv_intros]:
  assumes "registry_wf g"
  shows "registry_wf (snd (registry_reap now t f g))"
proof -
  have "map (seq \<circ> snd) (reap_nodes now t f (nodes g)) =
    map (seq \<circ> snd) (filter (\<lambda>(k, r). \<not> forgotten now f r) (nodes g))"
    and "map fst (reap_nodes now t f (nodes g)) =
    map fst (filter (\<lambda>(k, r). \<not> forgotten now f r) (nodes g))"
    by (auto simp: reap_nodes_def)
  moreover have "set (reap_nodes now t f (nodes g)) \<subseteq> (\<lambda>(k, r). (k, reap_record now t f r)) ` set (nodes g)"
    by (auto simp: reap_nodes_def)
  ultimately show ?thesis
    using registry_wf_filter [OF assms, of "\<lambda>(k, r). \<not> forgotten now f r"] assms
    by (fastforce simp: registry_reap_eq [OF assms] registry_wf_def dict_wf_def list_all_iff)
qed

lemma registry_wf_exec [inv_intros]: "registry_wf g \<Longrightarrow> registry_wf (registry_exec e g)"
  by (cases e) (auto intro: inv_intros)

interpretation reg: event_machine registry_init registry_exec registry_wf
  by unfold_locales (auto intro: inv_intros)

section \<open>What each operation does to a lookup\<close>

lemma registry_get_register:
  "registry_get (snd (registry_register now nid addr st inc caps prt mdl bck tr prof g)) k =
     (if k = nid then Some (fst (registry_register now nid addr st inc caps prt mdl bck tr prof g))
      else registry_get g k)"
  by (simp add: registry_register_def registry_get_def Let_def update_conv' split: option.splits)

lemma registry_get_heartbeat_other:
  "k \<noteq> nid \<Longrightarrow> registry_get (snd (registry_heartbeat now nid st rst prt mcr rtt g)) k = registry_get g k"
  by (simp add: registry_heartbeat_def registry_get_def update_conv' split: option.splits)

lemma registry_get_heartbeat_same:
  "registry_get (snd (registry_heartbeat now nid st rst prt mcr rtt g)) nid =
     map_option (\<lambda>r. r\<lparr>last_seen := now, state := st, nr_run_state := rst,
                port := or_else prt (port r),
                max_concurrent_requests := or_else mcr (max_concurrent_requests r),
                tunnel_rtt_ms := or_else rtt (tunnel_rtt_ms r)\<rparr>) (registry_get g nid)"
  by (simp add: registry_heartbeat_def registry_get_def update_conv' split: option.splits)

lemma registry_get_remove:
  "registry_get (snd (registry_remove nid g)) k = (if k = nid then None else registry_get g k)"
  by (simp add: registry_remove_def registry_get_def delete_conv')

lemma map_of_reap_nodes:
  "dict_wf d \<Longrightarrow> map_of (reap_nodes now t f d) k =
     (case map_of d k of None \<Rightarrow> None
      | Some r \<Rightarrow> if forgotten now f r then None else Some (reap_record now t f r))"
proof (induction d)
  case Nil
  then show ?case by (simp add: reap_nodes_def)
next
  case (Cons p d)
  obtain j r where p: "p = (j, r)" by (cases p)
  from Cons.prems p have j: "map_of d j = None" and wf: "dict_wf d"
    by (auto simp: dict_wf_def map_of_eq_None_iff)
  then show ?case
    using Cons.IH [OF wf] j p by (auto simp: reap_nodes_def split: if_splits)
qed

lemma registry_get_reap:
  "registry_wf g \<Longrightarrow> registry_get (snd (registry_reap now t f g)) k =
     (case registry_get g k of None \<Rightarrow> None
      | Some r \<Rightarrow> if forgotten now f r then None else Some (reap_record now t f r))"
  by (simp add: registry_reap_eq registry_get_def map_of_reap_nodes registry_wf_def)

lemmas registry_get_ops = registry_get_register registry_get_heartbeat_other
  registry_get_heartbeat_same registry_get_remove registry_get_reap

lemma next_seq_exec: "registry_wf g \<Longrightarrow> next_seq g \<le> next_seq (registry_exec e g)"
  by (cases e) (auto simp: registry_register_def registry_heartbeat_def registry_remove_def
      registry_reap_eq Let_def split: option.splits)

lemma seq_exec:
  assumes wf: "registry_wf g" and get: "registry_get (registry_exec e g) nid = Some r"
  shows "(\<exists>r0. registry_get g nid = Some r0 \<and> seq r0 = seq r) \<or> seq r = Suc (next_seq g)"
proof (cases e)
  case (OpRegister now n addr st inc caps prt mdl bck tr prof)
  with get show ?thesis
    by (auto simp: registry_register_def Let_def registry_get_def update_conv'
        split: if_splits option.splits)
next
  case (OpHeartbeat now n st rst prt mcr rtt)
  with get show ?thesis
    by (cases "n = nid") (auto simp: registry_get_heartbeat_same registry_get_heartbeat_other)
next
  case (OpRemove n)
  with get show ?thesis by (auto simp: registry_get_remove split: if_splits)
next
  case (OpReap now t f)
  with get wf show ?thesis by (auto simp: registry_get_reap split: option.splits if_splits)
qed

section \<open>Properties\<close>

text \<open>In every registry the manager can reach, by any sequence of registrations, heartbeats,
  removals and reaper passes, node ids are unique and key their own records, and the
  sequence numbers behind the worker names are unique, at least 1 and at most the counter.\<close>

lemma registry_reachable_wf: "registry_wf (fold registry_exec ops registry_init)"
  by (rule reg.good_reachable)

text \<open>C12: A worker name is never passed on. If, after any further operations, a node holds a
  sequence number that had already been issued before them, then that same node already
  held it: no other node ever becomes Worker N.\<close>

theorem worker_name_never_reassigned:
  assumes "registry_wf g"
    and "registry_get (fold registry_exec ops g) nid = Some r"
    and "seq r \<le> next_seq g"
  shows "\<exists>r0. registry_get g nid = Some r0 \<and> node_name r0 = node_name r"
proof -
  have "\<exists>r0. registry_get g nid = Some r0 \<and> seq r0 = seq r"
    using assms
  proof (induction ops arbitrary: g)
    case Nil
    then show ?case by simp
  next
    case (Cons e ops)
    let ?g = "registry_exec e g"
    from Cons.prems have "registry_wf ?g" "seq r \<le> next_seq ?g"
      using next_seq_exec [of g e] by (auto intro: inv_intros)
    with Cons.IH [of ?g] Cons.prems obtain r1 where "registry_get ?g nid = Some r1" "seq r1 = seq r"
      by auto
    with seq_exec [of g e nid r1] Cons.prems show ?case by auto
  qed
  then show ?thesis by (auto simp: node_name_def)
qed

definition no_caps :: node_capabilities where
  "no_caps = \<lparr>gpu = None, vram_gb = None\<rparr>"

definition two_nodes :: registry where
  "two_nodes = fold registry_exec
     [OpRegister 0 ''a'' ''10.0.0.1'' REGISTERING 1 no_caps (Some 7001) None (Some ''vllm'') DIRECT (Some ''m@8k''),
      OpRegister 1 ''b'' ''10.0.0.2'' REGISTERING 1 no_caps (Some 7002) None (Some ''vllm'') DIRECT (Some ''m@8k'')]
     registry_init"

theorem worker_name_never_reassigned_witness:
  "\<exists>r0. registry_get two_nodes ''b'' = Some r0 \<and>
        node_name r0 = node_name (fst (registry_register 9 ''b'' ''10.0.0.3'' REGISTERING 2 no_caps None None None DIRECT None two_nodes))"
proof -
  let ?op = "OpRegister 9 ''b'' ''10.0.0.3'' REGISTERING 2 no_caps None None None DIRECT None"
  let ?r = "fst (registry_register 9 ''b'' ''10.0.0.3'' REGISTERING 2 no_caps None None None DIRECT None two_nodes)"
  have "registry_wf two_nodes" unfolding two_nodes_def by (rule reg.good_reachable)
  moreover have "registry_get (fold registry_exec [OpRemove ''a'', ?op] two_nodes) ''b'' = Some ?r"
    by (simp add: two_nodes_def registry_init_def registry_register_def registry_remove_def
        registry_get_def Let_def keep_def)
  moreover have "seq ?r \<le> next_seq two_nodes"
    by (simp add: two_nodes_def registry_init_def registry_register_def Let_def)
  ultimately show ?thesis by (rule worker_name_never_reassigned)
qed

text \<open>Re-registration is idempotent on identity. A node that registers again keeps its name,
  its first registration time and its negotiated in-flight cap; port, model, profile and
  backend take the new value when one is sent and keep the last one when it is omitted; the
  node keeps its place in the fleet list, and no other node is touched.\<close>

lemma reregister_keeps_identity:
  assumes "registry_get g nid = Some e"
    and "registry_register now nid addr st inc caps prt mdl bck tr prof g = (r, g')"
  shows "registry_get g' nid = Some r \<and> seq r = seq e \<and> registered_at r = registered_at e
    \<and> max_concurrent_requests r = max_concurrent_requests e \<and> last_seen r = now
    \<and> port r = or_else prt (port e) \<and> model r = or_else mdl (model e)
    \<and> profile r = or_else prof (profile e) \<and> backend r = or_else bck (backend e)
    \<and> map fst (nodes g') = map fst (nodes g) \<and> next_seq g' = next_seq g
    \<and> (\<forall>k. k \<noteq> nid \<longrightarrow> registry_get g' k = registry_get g k)"
  using assms
  by (auto simp: registry_register_def registry_get_def Let_def keep_def update_conv' update_keys
      map_of_eq_None_iff [symmetric] dest: map_of_SomeD)

lemma reregister_keeps_identity_witness:
  "\<exists>r g'. registry_register 9 ''a'' ''10.0.0.9'' REGISTERING 2 no_caps None None None DIRECT None two_nodes = (r, g')
     \<and> seq r = 1 \<and> registered_at r = 0 \<and> port r = Some 7001 \<and> profile r = Some ''m@8k''
     \<and> map fst (nodes g') = [''a'', ''b'']"
proof -
  obtain r g' where rg: "registry_register 9 ''a'' ''10.0.0.9'' REGISTERING 2 no_caps None None None DIRECT None two_nodes = (r, g')"
    by fastforce
  obtain e where e: "registry_get two_nodes ''a'' = Some e"
    and f: "seq e = 1" "registered_at e = 0" "port e = Some 7001" "profile e = Some ''m@8k''"
    by (simp add: two_nodes_def registry_init_def registry_register_def registry_get_def Let_def keep_def)
  have k: "map fst (nodes two_nodes) = [''a'', ''b'']"
    by (simp add: two_nodes_def registry_init_def registry_register_def Let_def)
  show ?thesis using reregister_keeps_identity [OF e rg] f k rg by auto
qed

text \<open>The reaper removes exactly the nodes silent longer than the forget time, marks LOST
  exactly the remaining ones silent longer than the timeout, leaves every other record as
  it was, and reports the newly lost and the removed ids, each once and never both.\<close>

lemma reap_spec:
  assumes "registry_wf g" and "registry_reap now t f g = ((lost, removed), g')"
  shows "registry_get g' k = (case registry_get g k of None \<Rightarrow> None
      | Some r \<Rightarrow> if forgotten now f r then None
                 else if t < now - last_seen r then Some (r\<lparr>state := LOST\<rparr>) else Some r)
    \<and> (k \<in> set removed \<longleftrightarrow> (\<exists>r. registry_get g k = Some r \<and> forgotten now f r))
    \<and> (k \<in> set lost \<longleftrightarrow> (\<exists>r. registry_get g k = Some r \<and> \<not> forgotten now f r
           \<and> t < now - last_seen r \<and> state r \<noteq> LOST))
    \<and> distinct (lost @ removed)"
proof (intro conjI)
  let ?lost = "filter (\<lambda>(k, r). went_silent now t f r \<and> state r \<noteq> LOST) (nodes g)"
  let ?rem = "filter (\<lambda>(k, r). forgotten now f r) (nodes g)"
  have wf: "dict_wf (nodes g)" using assms(1) by (simp add: registry_wf_def)
  have l: "lost = map fst ?lost" and r: "removed = map fst ?rem"
    using assms by (simp_all add: registry_reap_eq)
  show "registry_get g' k = (case registry_get g k of None \<Rightarrow> None
      | Some r \<Rightarrow> if forgotten now f r then None
                 else if t < now - last_seen r then Some (r\<lparr>state := LOST\<rparr>) else Some r)"
    using registry_get_reap [OF assms(1), of now t f k] assms(2)
    by (auto simp: reap_record_def went_silent_def split: option.splits)
  show "k \<in> set removed \<longleftrightarrow> (\<exists>r. registry_get g k = Some r \<and> forgotten now f r)"
    using wf by (force simp: r registry_get_def dict_wf_mem [symmetric])
  show "k \<in> set lost \<longleftrightarrow> (\<exists>r. registry_get g k = Some r \<and> \<not> forgotten now f r
           \<and> t < now - last_seen r \<and> state r \<noteq> LOST)"
    using wf by (force simp: l registry_get_def dict_wf_mem [symmetric] went_silent_def)
  have "set lost \<inter> set removed = {}"
    using wf by (fastforce simp: l r went_silent_def dict_wf_mem)
  then show "distinct (lost @ removed)"
    using wf by (simp add: l r dict_wf_def distinct_map_filter)
qed

lemma reap_spec_witness:
  "\<exists>lost removed g'. registry_reap 40 30 (Some 3600) two_nodes = ((lost, removed), g')
     \<and> map_option state (registry_get g' ''a'') = Some LOST
     \<and> ''b'' \<in> set lost \<and> ''a'' \<notin> set removed \<and> distinct (lost @ removed)"
proof -
  obtain lost removed g' where rp: "registry_reap 40 30 (Some 3600) two_nodes = ((lost, removed), g')"
    by (metis surj_pair)
  have wf: "registry_wf two_nodes" unfolding two_nodes_def by (rule reg.good_reachable)
  note spec = reap_spec [OF wf rp]
  have g: "\<exists>ra rb. registry_get two_nodes ''a'' = Some ra \<and> last_seen ra = 0
      \<and> registry_get two_nodes ''b'' = Some rb \<and> last_seen rb = 1 \<and> state rb = REGISTERING"
    by (simp add: two_nodes_def registry_init_def registry_register_def registry_get_def Let_def)
  show ?thesis
    using spec [of "''a''"] spec [of "''b''"] g rp
    by (auto simp: forgotten_def)
qed

end
