(* ===== verification/Pool.thy ===== *)
theory Pool
  imports Registry "HOL-Library.Multiset"
begin

text \<open>
  The router's admission queue (\<open>WorkerPool\<close> in
  \<open>src/src/oumigo/service/manager/router/server.py\<close>). All bookkeeping runs on one event loop
  with no \<open>await\<close> inside, so each method body is one atomic operation; \<open>acquire\<close> is split at
  its only \<open>await\<close> into the part before it (\<open>acquire_begin\<close>) and the exception handler after it
  (\<open>acquire_abort\<close>). An asyncio future is a number with a status. \<open>random.choice\<close> draws from an
  arbitrary sequence of numbers, so every theorem holds for every outcome of the draws.
\<close>

type_synonym eligible = "(node_record \<Rightarrow> bool) option"

datatype fut_status = Pending | Done node_record | Cancelled

text \<open>What the pool reads from its collaborators at one moment: the registry's list, the live
  tunnel connection counts (\<open>None\<close>: no tunnel registry), the configured default capacity and
  the random source.\<close>

record pool_env =
  pe_records :: "node_record list"
  pe_tunnels :: "(string \<Rightarrow> nat) option"
  pe_default_capacity :: int
  pe_rng :: "nat \<Rightarrow> nat"

record pool =
  inflight :: "string \<Rightarrow> nat"
  waiters :: "(nat \<times> eligible) list"
  futs :: "nat \<Rightarrow> fut_status"
  next_fut :: nat
  draws :: nat

definition pool_init :: pool where
  "pool_init = \<lparr>inflight = (\<lambda>_. 0), waiters = [], futs = (\<lambda>_. Pending), next_fut = 0, draws = 0\<rparr>"

definition default_capacity :: "pool_env \<Rightarrow> int" where
  "default_capacity env = max 1 (pe_default_capacity env)"

definition capacity :: "pool_env \<Rightarrow> node_record \<Rightarrow> int" where
  "capacity env r = default_to (default_capacity env) (max_concurrent_requests r)"

definition routable :: "pool_env \<Rightarrow> node_record \<Rightarrow> bool" where
  "routable env r =
     (if state r \<noteq> SERVING then False
      else if transport r = TUNNEL then
        (case pe_tunnels env of None \<Rightarrow> False | Some conns \<Rightarrow> 0 < conns (node_id r))
      else True)"

definition accepts :: "eligible \<Rightarrow> node_record \<Rightarrow> bool" where
  "accepts el r = (case el of None \<Rightarrow> True | Some f \<Rightarrow> f r)"

definition serving :: "pool_env \<Rightarrow> eligible \<Rightarrow> node_record list" where
  "serving env el = filter (\<lambda>r. routable env r \<and> accepts el r) (pe_records env)"

definition available :: "pool_env \<Rightarrow> pool \<Rightarrow> eligible \<Rightarrow> node_record list" where
  "available env p el =
     filter (\<lambda>r. int (inflight p (node_id r)) < capacity env r) (serving env el)"

definition healthy_count :: "pool_env \<Rightarrow> eligible \<Rightarrow> nat" where
  "healthy_count env el = length (serving env el)"

definition choice :: "pool_env \<Rightarrow> pool \<Rightarrow> node_record list \<Rightarrow> node_record" where
  "choice env p av = av ! (pe_rng env (draws p) mod length av)"

definition take_slot :: "node_record \<Rightarrow> pool \<Rightarrow> pool" where
  "take_slot r p =
     p\<lparr>inflight := (inflight p)(node_id r := Suc (inflight p (node_id r))), draws := Suc (draws p)\<rparr>"

fun promote_loop :: "pool_env \<Rightarrow> (nat \<times> eligible) list \<Rightarrow> pool \<Rightarrow> (nat \<times> eligible) list \<Rightarrow> pool" where
  "promote_loop env [] p kept = p\<lparr>waiters := kept\<rparr>"
| "promote_loop env ((f, el) # ws) p kept =
     (if futs p f \<noteq> Pending then promote_loop env ws p kept
      else
        let av = available env p el in
        if av \<noteq> [] then
          (let r = choice env p av in
           promote_loop env ws ((take_slot r p)\<lparr>futs := (futs p)(f := Done r)\<rparr>) kept)
        else promote_loop env ws p (kept @ [(f, el)]))"

definition promote :: "pool_env \<Rightarrow> pool \<Rightarrow> pool" where
  "promote env p = (if waiters p = [] then p else promote_loop env (waiters p) p [])"

definition release :: "pool_env \<Rightarrow> string \<Rightarrow> pool \<Rightarrow> pool" where
  "release env nid p =
     promote env (if 0 < inflight p nid
                  then p\<lparr>inflight := (inflight p)(nid := inflight p nid - 1)\<rparr> else p)"

datatype acquire_result = Granted node_record | Refused err | Queued nat

definition acquire_begin :: "pool_env \<Rightarrow> eligible \<Rightarrow> pool \<Rightarrow> acquire_result \<times> pool" where
  "acquire_begin env el p0 =
     (let p = promote env p0; av = available env p el in
      if av \<noteq> [] then (let r = choice env p av in (Granted r, take_slot r p))
      else if healthy_count env el = 0 then (Refused NoWorkersAvailable, p)
      else (Queued (next_fut p),
            p\<lparr>waiters := waiters p @ [(next_fut p, el)], next_fut := Suc (next_fut p)\<rparr>))"

text \<open>The \<open>except BaseException\<close> clause of \<open>acquire\<close>: the wait timed out or was cancelled.\<close>

definition acquire_abort :: "pool_env \<Rightarrow> nat \<Rightarrow> pool \<Rightarrow> pool" where
  "acquire_abort env f p =
     (if f \<in> fst ` set (waiters p) then p\<lparr>waiters := filter (\<lambda>w. fst w \<noteq> f) (waiters p)\<rparr>
      else (case futs p f of Done r \<Rightarrow> release env (node_id r) p | _ \<Rightarrow> p))"

section \<open>The pool and its callers\<close>

text \<open>
  Requests that hold a slot (\<open>held\<close>, the worker's id once per slot) and requests suspended at
  the \<open>await\<close> (\<open>waiting\<close>, their futures). The environment of each step is arbitrary: workers
  come, go and change state between any two steps. \<open>cancel\<close> is \<open>asyncio.wait_for\<close> giving up on
  a pending future; \<open>abort\<close> is the resumed task running its exception handler, which may also
  find that a slot was handed to it in the meantime.
\<close>

record psys =
  ps_pool :: pool
  held :: "string list"
  waiting :: "nat list"

definition psys_init :: psys where
  "psys_init = \<lparr>ps_pool = pool_init, held = [], waiting = []\<rparr>"

inductive pool_step :: "psys \<Rightarrow> psys \<Rightarrow> bool" where
  grant: "acquire_begin env el (ps_pool s) = (Granted r, p) \<Longrightarrow>
    pool_step s (s\<lparr>ps_pool := p, held := node_id r # held s\<rparr>)"
| refuse: "acquire_begin env el (ps_pool s) = (Refused e, p) \<Longrightarrow>
    pool_step s (s\<lparr>ps_pool := p\<rparr>)"
| enqueue: "acquire_begin env el (ps_pool s) = (Queued f, p) \<Longrightarrow>
    pool_step s (s\<lparr>ps_pool := p, waiting := f # waiting s\<rparr>)"
| resume: "f \<in> set (waiting s) \<Longrightarrow> futs (ps_pool s) f = Done r \<Longrightarrow>
    pool_step s (s\<lparr>held := node_id r # held s, waiting := removeAll f (waiting s)\<rparr>)"
| cancel: "f \<in> set (waiting s) \<Longrightarrow> futs (ps_pool s) f = Pending \<Longrightarrow>
    pool_step s (s\<lparr>ps_pool := (ps_pool s)\<lparr>futs := (futs (ps_pool s))(f := Cancelled)\<rparr>\<rparr>)"
| abort: "f \<in> set (waiting s) \<Longrightarrow> futs (ps_pool s) f \<noteq> Pending \<Longrightarrow>
    pool_step s (s\<lparr>ps_pool := acquire_abort env f (ps_pool s), waiting := removeAll f (waiting s)\<rparr>)"
| finish: "n \<in> set (held s) \<Longrightarrow>
    pool_step s (s\<lparr>ps_pool := release env n (ps_pool s), held := remove1 n (held s)\<rparr>)"
| tick: "pool_step s (s\<lparr>ps_pool := promote env (ps_pool s)\<rparr>)"

text \<open>Slots given out and not yet given back: those held, and those handed to a future whose
  task has not resumed.\<close>

definition granted_to :: "pool \<Rightarrow> string \<Rightarrow> nat \<Rightarrow> bool" where
  "granted_to p n f = (case futs p f of Done r \<Rightarrow> node_id r = n | _ \<Rightarrow> False)"

definition outstanding :: "psys \<Rightarrow> string \<Rightarrow> nat" where
  "outstanding s n = count_list (held s) n + length (filter (granted_to (ps_pool s) n) (waiting s))"

definition queue_inv :: "psys \<Rightarrow> bool" where
  "queue_inv s \<longleftrightarrow>
     distinct (waiting s) \<and> (\<forall>f \<in> set (waiting s). f < next_fut (ps_pool s))
   \<and> distinct (map fst (waiters (ps_pool s)))
   \<and> fst ` set (waiters (ps_pool s)) \<subseteq> set (waiting s)
   \<and> (\<forall>f \<in> fst ` set (waiters (ps_pool s)). \<forall>r. futs (ps_pool s) f \<noteq> Done r)
   \<and> (\<forall>f. next_fut (ps_pool s) \<le> f \<longrightarrow> futs (ps_pool s) f = Pending)
   \<and> (\<forall>f \<in> set (waiting s). futs (ps_pool s) f = Pending \<longrightarrow> f \<in> fst ` set (waiters (ps_pool s)))"

definition pool_inv :: "psys \<Rightarrow> bool" where
  "pool_inv s \<longleftrightarrow> (\<forall>n. inflight (ps_pool s) n = outstanding s n) \<and> queue_inv s"

section \<open>The accounting invariant\<close>

lemma length_filter_gain:
  "distinct xs \<Longrightarrow> x \<in> set xs \<Longrightarrow> \<not> P x \<Longrightarrow> Q x \<Longrightarrow> (\<And>y. y \<noteq> x \<Longrightarrow> Q y = P y) \<Longrightarrow>
   length (filter Q xs) = Suc (length (filter P xs))"
proof (induction xs)
  case (Cons a xs)
  show ?case
  proof (cases "a = x")
    case True
    then have "\<And>y. y \<in> set xs \<Longrightarrow> Q y = P y" using Cons.prems by (metis distinct.simps(2))
    then have "filter Q xs = filter P xs" by (rule filter_cong [OF refl])
    with True Cons.prems show ?thesis by simp
  next
    case False
    with Cons show ?thesis by auto
  qed
qed simp

lemma length_filter_removeAll:
  "distinct xs \<Longrightarrow> x \<in> set xs \<Longrightarrow>
   length (filter P xs) = length (filter P (removeAll x xs)) + (if P x then 1 else 0)"
proof (induction xs)
  case (Cons a xs)
  show ?case
  proof (cases "a = x")
    case True
    then have "removeAll x xs = xs" using Cons.prems by simp
    with True show ?thesis by simp
  next
    case False
    with Cons show ?thesis by auto
  qed
qed simp

lemma count_list_remove1:
  "count_list (remove1 x xs) y = (if x = y then count_list xs y - 1 else count_list xs y)"
  by (induction xs) auto

lemma granted_to_upd [simp]:
  "granted_to (p\<lparr>waiters := w\<rparr>) = granted_to p" "granted_to (p\<lparr>inflight := i\<rparr>) = granted_to p"
  "granted_to (p\<lparr>next_fut := k\<rparr>) = granted_to p" "granted_to (p\<lparr>draws := d\<rparr>) = granted_to p"
  by (simp_all add: granted_to_def fun_eq_iff)

lemmas pool_inv_defs = pool_inv_def queue_inv_def outstanding_def

text \<open>A settled future may leave the queue.\<close>

lemma pool_inv_drop:
  assumes "pool_inv s" "waiters (ps_pool s) = ks @ (f, el) # ws" "futs (ps_pool s) f \<noteq> Pending"
  shows "pool_inv (s\<lparr>ps_pool := (ps_pool s)\<lparr>waiters := ks @ ws\<rparr>\<rparr>)"
  using assms by (auto simp: pool_inv_defs)

text \<open>A pending future may be given a slot.\<close>

lemma pool_inv_give:
  assumes inv: "pool_inv s" and w: "waiters (ps_pool s) = ks @ (f, el) # ws"
    and pend: "futs (ps_pool s) f = Pending"
  shows "pool_inv (s\<lparr>ps_pool := (take_slot r (ps_pool s))
      \<lparr>futs := (futs (ps_pool s))(f := Done r), waiters := ks @ ws\<rparr>\<rparr>)"
proof -
  let ?s = "s\<lparr>ps_pool := (take_slot r (ps_pool s))
      \<lparr>futs := (futs (ps_pool s))(f := Done r), waiters := ks @ ws\<rparr>\<rparr>"
  have f: "f \<in> set (waiting s)" "distinct (waiting s)" "f < next_fut (ps_pool s)"
    using inv w by (auto simp: pool_inv_def queue_inv_def)
  have "inflight (ps_pool ?s) n = outstanding ?s n" for n
  proof (cases "n = node_id r")
    case True
    have "length (filter (granted_to (ps_pool ?s) n) (waiting s)) =
        Suc (length (filter (granted_to (ps_pool s) n) (waiting s)))"
      using f pend True by (intro length_filter_gain) (auto simp: granted_to_def)
    with inv True show ?thesis by (simp add: pool_inv_def outstanding_def take_slot_def)
  next
    case False
    have "granted_to (ps_pool ?s) n = granted_to (ps_pool s) n"
      using False pend by (auto simp: granted_to_def fun_eq_iff)
    with inv False show ?thesis by (simp add: pool_inv_def outstanding_def take_slot_def)
  qed
  with inv w f show ?thesis by (auto simp: pool_inv_def queue_inv_def take_slot_def)
qed

lemma pool_inv_promote_loop:
  assumes "pool_inv (s\<lparr>ps_pool := p\<lparr>waiters := ks @ ws\<rparr>\<rparr>)"
  shows "pool_inv (s\<lparr>ps_pool := promote_loop env ws p ks\<rparr>)"
  using assms
proof (induction ws arbitrary: p ks)
  case Nil
  then show ?case by simp
next
  case (Cons w ws)
  obtain f el where w: "w = (f, el)" by (cases w)
  let ?s = "s\<lparr>ps_pool := p\<lparr>waiters := ks @ (f, el) # ws\<rparr>\<rparr>"
  from Cons.prems w have inv: "pool_inv ?s" by simp
  consider (settled) "futs p f \<noteq> Pending" | (free) "futs p f = Pending" "available env p el \<noteq> []"
    | (none) "futs p f = Pending" "available env p el = []" by blast
  then show ?case
  proof cases
    case settled
    with pool_inv_drop [OF inv] Cons.IH [where p = p and ks = ks] w show ?thesis by simp
  next
    case free
    let ?r = "choice env p (available env p el)"
    let ?p = "(take_slot ?r p)\<lparr>futs := (futs p)(f := Done ?r)\<rparr>"
    have "pool_inv (s\<lparr>ps_pool := ?p\<lparr>waiters := ks @ ws\<rparr>\<rparr>)"
      using pool_inv_give [OF inv, of ks f el ws ?r] free by (simp add: take_slot_def)
    from Cons.IH [OF this] free w show ?thesis by (simp add: Let_def)
  next
    case none
    with Cons.IH [where p = p and ks = "ks @ [(f, el)]"] inv w show ?thesis by (simp add: Let_def)
  qed
qed

lemma pool_inv_promote:
  assumes "pool_inv (s\<lparr>ps_pool := p\<rparr>)" shows "pool_inv (s\<lparr>ps_pool := promote env p\<rparr>)"
  using pool_inv_promote_loop [where ks = "[]" and ws = "waiters p" and p = p and s = s] assms by (auto simp: promote_def)

lemma promote_next_fut [simp]: "next_fut (promote env p) = next_fut p"
proof -
  have "next_fut (promote_loop env ws p ks) = next_fut p" for ws p ks
    by (induction env ws p ks rule: promote_loop.induct) (auto simp: Let_def take_slot_def)
  then show ?thesis by (simp add: promote_def)
qed

lemma pool_inv_init: "pool_inv psys_init"
  by (simp add: pool_inv_defs psys_init_def pool_init_def granted_to_def)

lemma psys_update_same [simp]: "s\<lparr>ps_pool := ps_pool s\<rparr> = s"
  by (cases s) simp

text \<open>Giving a held slot back.\<close>

lemma pool_inv_release:
  assumes inv: "pool_inv s"
    and out: "\<And>m. outstanding s m = outstanding (s\<lparr>held := h, waiting := w\<rparr>) m + (if m = n then 1 else 0)"
    and w: "distinct w" "set w \<subseteq> set (waiting s)" "fst ` set (waiters (ps_pool s)) \<subseteq> set w"
  shows "pool_inv (s\<lparr>ps_pool := release env n (ps_pool s), held := h, waiting := w\<rparr>)"
proof -
  let ?s = "s\<lparr>held := h, waiting := w\<rparr>"
  let ?p = "(ps_pool s)\<lparr>inflight := (inflight (ps_pool s))(n := inflight (ps_pool s) n - 1)\<rparr>"
  have infl: "inflight (ps_pool s) m = outstanding ?s m + (if m = n then 1 else 0)" for m
    using inv out by (simp add: pool_inv_def)
  have o: "outstanding (?s\<lparr>ps_pool := ?p\<rparr>) m = outstanding ?s m" for m
    by (simp add: outstanding_def granted_to_def)
  have "inflight ?p m = outstanding ?s m" for m
    using infl [of m] by (cases "m = n") auto
  then have acc: "\<forall>m. inflight (ps_pool (?s\<lparr>ps_pool := ?p\<rparr>)) m = outstanding (?s\<lparr>ps_pool := ?p\<rparr>) m" by (simp only: o) simp
  have qi: "queue_inv (?s\<lparr>ps_pool := ?p\<rparr>)" using inv w by (auto simp: pool_inv_def queue_inv_def)
  have "pool_inv (?s\<lparr>ps_pool := ?p\<rparr>)"
    unfolding pool_inv_def using acc qi by (rule conjI)
  then have "pool_inv (?s\<lparr>ps_pool := promote env ?p\<rparr>)" by (rule pool_inv_promote)
  moreover have "0 < inflight (ps_pool s) n" using infl [of n] by simp
  ultimately show ?thesis by (cases s) (simp add: release_def)
qed

lemma pool_inv_acquire:
  assumes inv: "pool_inv s" and acq: "acquire_begin env el (ps_pool s) = (res, p)"
  shows "case res of
      Granted r \<Rightarrow> pool_inv (s\<lparr>ps_pool := p, held := node_id r # held s\<rparr>)
    | Refused e \<Rightarrow> pool_inv (s\<lparr>ps_pool := p\<rparr>)
    | Queued f \<Rightarrow> pool_inv (s\<lparr>ps_pool := p, waiting := f # waiting s\<rparr>)"
proof -
  let ?p = "promote env (ps_pool s)"
  have inv': "pool_inv (s\<lparr>ps_pool := ?p\<rparr>)" using pool_inv_promote [where s = s and p = "ps_pool s"] inv by simp
  show ?thesis
  proof (cases "available env ?p el \<noteq> []")
    case True
    with acq have "res = Granted (choice env ?p (available env ?p el))"
      "p = take_slot (choice env ?p (available env ?p el)) ?p"
      by (auto simp: acquire_begin_def Let_def)
    with inv' show ?thesis by (auto simp: pool_inv_defs take_slot_def)
  next
    case False
    show ?thesis
    proof (cases "healthy_count env el = 0")
      case True
      with False acq inv' show ?thesis by (auto simp: acquire_begin_def Let_def)
    next
      case unhealthy: False
      let ?f = "next_fut (ps_pool s)"
      from False unhealthy acq have res: "res = Queued ?f"
        "p = ?p\<lparr>waiters := waiters ?p @ [(?f, el)], next_fut := Suc ?f\<rparr>"
        by (auto simp: acquire_begin_def Let_def)
      have f: "?f \<notin> set (waiting s)" "futs ?p ?f = Pending" using inv' by (auto simp: pool_inv_def queue_inv_def)
      then have "\<not> granted_to ?p n ?f" for n by (simp add: granted_to_def)
      with f inv' res show ?thesis by (auto simp: pool_inv_defs less_Suc_eq)
    qed
  qed
qed

lemma pool_inv_abort:
  assumes inv: "pool_inv s" and f: "f \<in> set (waiting s)" "futs (ps_pool s) f \<noteq> Pending"
  shows "pool_inv (s\<lparr>ps_pool := acquire_abort env f (ps_pool s), waiting := removeAll f (waiting s)\<rparr>)"
proof -
  let ?w = "removeAll f (waiting s)"
  have d: "distinct (waiting s)" using inv by (simp add: pool_inv_def queue_inv_def)
  note len = length_filter_removeAll [OF d f(1)]
  show ?thesis
  proof (cases "futs (ps_pool s) f")
    case (Done r)
    then have nw: "f \<notin> fst ` set (waiters (ps_pool s))" using inv by (auto simp: pool_inv_def queue_inv_def)
    have "outstanding s m = outstanding (s\<lparr>held := held s, waiting := ?w\<rparr>) m
        + (if m = node_id r then 1 else 0)" for m
      using len [of "granted_to (ps_pool s) m"] Done by (auto simp: outstanding_def granted_to_def)
    then have "pool_inv (s\<lparr>ps_pool := release env (node_id r) (ps_pool s), held := held s, waiting := ?w\<rparr>)"
      using inv d nw by (intro pool_inv_release) (auto simp: pool_inv_def queue_inv_def distinct_removeAll)
    with Done nw show ?thesis by (simp add: acquire_abort_def)
  next
    case Cancelled
    have "length (filter (granted_to (ps_pool s) m) (waiting s)) =
        length (filter (granted_to (ps_pool s) m) ?w)" for m
      using len [of "granted_to (ps_pool s) m"] Cancelled by (simp add: granted_to_def)
    with inv Cancelled d show ?thesis
      by (auto simp: acquire_abort_def pool_inv_defs distinct_map_filter distinct_removeAll)
  qed (use f in simp)
qed

lemma pool_inv_step: "pool_step s s' \<Longrightarrow> pool_inv s \<Longrightarrow> pool_inv s'"
proof (induction rule: pool_step.induct)
  case (grant env el s r p)
  from pool_inv_acquire [OF grant(2) grant(1)] show ?case by simp
next
  case (refuse env el s e p)
  from pool_inv_acquire [OF refuse(2) refuse(1)] show ?case by simp
next
  case (enqueue env el s f p)
  from pool_inv_acquire [OF enqueue(2) enqueue(1)] show ?case by simp
next
  case (resume f s r)
  then have d: "distinct (waiting s)" and nw: "f \<notin> fst ` set (waiters (ps_pool s))"
    by (auto simp: pool_inv_def queue_inv_def)
  have "outstanding (s\<lparr>held := node_id r # held s, waiting := removeAll f (waiting s)\<rparr>) n
      = outstanding s n" for n
    using length_filter_removeAll [OF d resume(1), of "granted_to (ps_pool s) n"] resume(2)
    by (auto simp: outstanding_def granted_to_def)
  with resume(3) d nw resume(2) show ?case by (auto simp: pool_inv_def queue_inv_def distinct_removeAll)
next
  case (cancel f s)
  have "granted_to ((ps_pool s)\<lparr>futs := (futs (ps_pool s))(f := Cancelled)\<rparr>) = granted_to (ps_pool s)"
    using cancel(2) by (auto simp: granted_to_def fun_eq_iff)
  with cancel show ?case by (auto simp: pool_inv_defs)
next
  case (abort f s env)
  then show ?case by (intro pool_inv_abort)
next
  case (finish n s env)
  have "0 < count_list (held s) n" using finish(1) by (metis count_list_0_iff gr0I)
  then have "outstanding s m = outstanding (s\<lparr>held := remove1 n (held s), waiting := waiting s\<rparr>) m
      + (if m = n then 1 else 0)" for m
    by (auto simp: outstanding_def count_list_remove1)
  then have "pool_inv (s\<lparr>ps_pool := release env n (ps_pool s), held := remove1 n (held s), waiting := waiting s\<rparr>)"
    using finish(2) by (intro pool_inv_release) (auto simp: pool_inv_def queue_inv_def)
  then show ?case by simp
next
  case (tick s env)
  with pool_inv_promote [where s = s and p = "ps_pool s"] show ?case by simp
qed

interpretation pool: transition_system "\<lambda>s. s = psys_init" pool_step pool_inv
  by unfold_locales (auto intro: pool_inv_init pool_inv_step)

section \<open>The promotion loop\<close>

lemma available_waiters [simp]: "available env (p\<lparr>waiters := w\<rparr>) = available env p"
  by (simp add: available_def fun_eq_iff)

lemma choice_waiters [simp]: "choice env (p\<lparr>waiters := w\<rparr>) = choice env p"
  by (simp add: choice_def fun_eq_iff)

lemma promote_loop_waiters:
  "promote_loop env ws (p\<lparr>waiters := w\<rparr>) ks = promote_loop env ws p ks"
proof (induction ws arbitrary: p ks)
  case (Cons a ws)
  have "(take_slot r (p\<lparr>waiters := w\<rparr>))\<lparr>futs := (futs p)(f := Done r)\<rparr>
      = (take_slot r p)\<lparr>futs := (futs p)(f := Done r), waiters := w\<rparr>" for r f
    by (simp add: take_slot_def)
  with Cons show ?case by (cases a) (simp add: Let_def)
qed simp

lemma promote_loop_append:
  "promote_loop env (xs @ ys) p ks =
   promote_loop env ys (promote_loop env xs p ks) (waiters (promote_loop env xs p ks))"
  by (induction env xs p ks rule: promote_loop.induct) (auto simp: Let_def promote_loop_waiters)

lemma promote_loop_inflight_mono: "inflight p n \<le> inflight (promote_loop env ws p ks) n"
proof (induction ws arbitrary: p ks)
  case (Cons a ws)
  obtain f el where a: "a = (f, el)" by (cases a)
  let ?r = "choice env p (available env p el)"
  have "inflight p n \<le> inflight ((take_slot ?r p)\<lparr>futs := (futs p)(f := Done ?r)\<rparr>) n"
    by (simp add: take_slot_def)
  also have "\<dots> \<le> inflight (promote_loop env ws ((take_slot ?r p)\<lparr>futs := (futs p)(f := Done ?r)\<rparr>) ks) n"
    by (rule Cons.IH)
  finally show ?case using Cons.IH [of p] unfolding a by (simp add: Let_def)
qed simp

lemma promote_loop_futs_other:
  "f \<notin> fst ` set ws \<Longrightarrow> futs (promote_loop env ws p ks) f = futs p f"
  by (induction env ws p ks rule: promote_loop.induct) (auto simp: Let_def take_slot_def)

lemma promote_loop_futs_settled:
  "futs p f \<noteq> Pending \<Longrightarrow> futs (promote_loop env ws p ks) f = futs p f"
  by (induction env ws p ks rule: promote_loop.induct) (auto simp: Let_def take_slot_def)

lemma choice_mem: "av \<noteq> [] \<Longrightarrow> choice env p av \<in> set av"
  by (simp add: choice_def)

lemma available_antimono:
  "(\<And>n. inflight p n \<le> inflight q n) \<Longrightarrow> set (available env q el) \<subseteq> set (available env p el)"
  by (auto simp: available_def) (metis le_less_trans of_nat_le_iff)

lemma available_iff:
  "r \<in> set (available env p el) \<longleftrightarrow> r \<in> set (pe_records env) \<and> routable env r \<and> accepts el r
     \<and> int (inflight p (node_id r)) < capacity env r"
  by (auto simp: available_def serving_def)

text \<open>A waiter the loop keeps has no worker available, neither when it is looked at nor after
  the loop: the counters only grow.\<close>

lemma promote_loop_kept:
  "\<forall>w \<in> set ks. futs p (fst w) = Pending \<and> available env p (snd w) = [] \<Longrightarrow>
   distinct (map fst (ks @ ws)) \<Longrightarrow>
   w \<in> set (waiters (promote_loop env ws p ks)) \<Longrightarrow>
   futs (promote_loop env ws p ks) (fst w) = Pending \<and>
   available env (promote_loop env ws p ks) (snd w) = []"
proof (induction ws arbitrary: p ks)
  case Nil
  then show ?case by simp
next
  case (Cons a ws)
  obtain f el where a: "a = (f, el)" by (cases a)
  consider (settled) "futs p f \<noteq> Pending" | (free) "futs p f = Pending" "available env p el \<noteq> []"
    | (none) "futs p f = Pending" "available env p el = []" by blast
  then show ?case
  proof cases
    case settled
    have "distinct (map fst (ks @ ws))" using Cons.prems(2) a by simp
    from Cons.IH [OF Cons.prems(1) this] settled Cons.prems(3) a show ?thesis by simp
  next
    case free
    let ?r = "choice env p (available env p el)"
    let ?p = "(take_slot ?r p)\<lparr>futs := (futs p)(f := Done ?r)\<rparr>"
    have "set (available env ?p e) \<subseteq> set (available env p e)" for e
      by (rule available_antimono) (simp add: take_slot_def)
    then have "available env p e = [] \<Longrightarrow> available env ?p e = []" for e
      by (metis set_empty2 subset_empty)
    then have ks: "\<forall>w \<in> set ks. futs ?p (fst w) = Pending \<and> available env ?p (snd w) = []"
      using Cons.prems(1,2) a by (auto simp: image_iff)
    have "distinct (map fst (ks @ ws))" using Cons.prems(2) a by simp
    from Cons.IH [OF ks this] free Cons.prems(3) a show ?thesis by (simp add: Let_def)
  next
    case none
    have "\<forall>w \<in> set (ks @ [(f, el)]). futs p (fst w) = Pending \<and> available env p (snd w) = []"
      using Cons.prems(1) none by auto
    from Cons.IH [OF this] none Cons.prems(2,3) a show ?thesis by (simp add: Let_def)
  qed
qed

text \<open>Counters stay within the larger of their old value and the worker's capacity.\<close>

lemma take_slot_bound:
  assumes "distinct (map node_id (pe_records env))" "r \<in> set (pe_records env)"
    "q \<in> set (available env p el)"
  shows "int (inflight (take_slot q p) (node_id r)) \<le> max (int (inflight p (node_id r))) (capacity env r)"
proof (cases "node_id q = node_id r")
  case True
  then have "q = r" using assms by (auto simp: available_iff distinct_map inj_on_def)
  with assms(3) show ?thesis by (simp add: take_slot_def available_iff)
qed (simp add: take_slot_def)

lemma promote_loop_bound:
  assumes d: "distinct (map node_id (pe_records env))" and r: "r \<in> set (pe_records env)"
  shows "int (inflight (promote_loop env ws p ks) (node_id r)) \<le>
    max (int (inflight p (node_id r))) (capacity env r)"
proof (induction ws arbitrary: p ks)
  case (Cons a ws)
  obtain f el where a: "a = (f, el)" by (cases a)
  let ?r = "choice env p (available env p el)"
  let ?p = "(take_slot ?r p)\<lparr>futs := (futs p)(f := Done ?r)\<rparr>"
  have "int (inflight ?p (node_id r)) \<le> max (int (inflight p (node_id r))) (capacity env r)"
    if "available env p el \<noteq> []"
    using take_slot_bound [OF d r choice_mem [OF that]] by simp
  with Cons.IH [of p] Cons.IH [of ?p ks] show ?case unfolding a by (auto simp: Let_def max_def split: if_splits)
qed simp

lemma promote_bound:
  assumes "distinct (map node_id (pe_records env))" "r \<in> set (pe_records env)"
  shows "int (inflight (promote env p) (node_id r)) \<le> max (int (inflight p (node_id r))) (capacity env r)"
  using promote_loop_bound [OF assms] by (simp add: promote_def)

lemma release_bound:
  assumes "distinct (map node_id (pe_records env))" "r \<in> set (pe_records env)"
  shows "int (inflight (release env n p) (node_id r)) \<le> max (int (inflight p (node_id r))) (capacity env r)"
proof -
  have "inflight (if 0 < inflight p n then p\<lparr>inflight := (inflight p)(n := inflight p n - 1)\<rparr> else p) m
      \<le> inflight p m" for m by simp
  from this [of "node_id r"] promote_bound [OF assms,
      of "if 0 < inflight p n then p\<lparr>inflight := (inflight p)(n := inflight p n - 1)\<rparr> else p"]
  show ?thesis unfolding release_def by linarith
qed

lemma acquire_begin_bound:
  assumes d: "distinct (map node_id (pe_records env))" "r \<in> set (pe_records env)"
  shows "int (inflight (snd (acquire_begin env el p)) (node_id r)) \<le>
    max (int (inflight p (node_id r))) (capacity env r)"
proof -
  let ?p = "promote env p"
  note b = promote_bound [OF d, of p]
  show ?thesis
  proof (cases "available env ?p el = []")
    case True
    with b show ?thesis by (simp add: acquire_begin_def Let_def)
  next
    case False
    have "int (inflight (take_slot (choice env ?p (available env ?p el)) ?p) (node_id r)) \<le>
        max (int (inflight ?p (node_id r))) (capacity env r)"
      by (rule take_slot_bound [OF d choice_mem [OF False]])
    with b have "int (inflight (take_slot (choice env ?p (available env ?p el)) ?p) (node_id r)) \<le>
        max (int (inflight p (node_id r))) (capacity env r)" by linarith
    with False show ?thesis by (simp add: acquire_begin_def Let_def)
  qed
qed

lemma acquire_abort_bound:
  assumes "distinct (map node_id (pe_records env))" "r \<in> set (pe_records env)"
  shows "int (inflight (acquire_abort env f p) (node_id r)) \<le>
    max (int (inflight p (node_id r))) (capacity env r)"
  using release_bound [OF assms] by (auto simp: acquire_abort_def split: fut_status.split)

lemma promote_waiters_kept:
  assumes "distinct (map fst (waiters p))" "(f, el) \<in> set (waiters (promote env p))"
  shows "futs (promote env p) f = Pending \<and> available env (promote env p) el = []"
  using promote_loop_kept [of "[]" p env "waiters p" "(f, el)"] assms
  by (auto simp: promote_def split: if_splits)

text \<open>A promotion gives a waiter a worker it accepts.\<close>

lemma promote_loop_gives:
  "futs p f = Pending \<Longrightarrow> futs (promote_loop env ws p ks) f = Done r \<Longrightarrow>
   \<exists>el q. (f, el) \<in> set ws \<and> r \<in> set (available env q el)"
proof (induction ws arbitrary: p ks)
  case (Cons w ws)
  obtain g el where w: "w = (g, el)" by (cases w)
  let ?r = "choice env p (available env p el)"
  consider (skip) "futs p g \<noteq> Pending \<or> available env p el = []"
    | (give) "futs p g = Pending" "available env p el \<noteq> []" by blast
  then show ?case
  proof cases
    case skip
    with Cons w show ?thesis by (auto simp: Let_def split: if_splits) blast+
  next
    case give
    show ?thesis
    proof (cases "f = g")
      case True
      with give Cons.prems w have "r = ?r"
        by (simp add: Let_def promote_loop_futs_settled)
      with choice_mem [OF give(2)] True w show ?thesis by auto
    next
      case False
      with give Cons.prems w Cons.IH [of "(take_slot ?r p)\<lparr>futs := (futs p)(g := Done ?r)\<rparr>" ks] show ?thesis
        by (auto simp: Let_def)
    qed
  qed
qed simp

lemma promote_gives_accepted:
  assumes "distinct (map fst (waiters p))" "(f, el) \<in> set (waiters p)" "futs p f = Pending"
    "futs (promote env p) f = Done r"
  shows "r \<in> set (pe_records env) \<and> routable env r \<and> accepts el r"
proof -
  have "waiters p \<noteq> []" using assms(2) by auto
  then obtain el' q where "(f, el') \<in> set (waiters p)" "r \<in> set (available env q el')"
    using promote_loop_gives [OF assms(3), of env "waiters p" "[]"] assms(4) by (auto simp: promote_def)
  moreover have "el' = el" using eq_key_imp_eq_value [OF assms(1) _ assms(2)] calculation(1) by blast
  ultimately show ?thesis by (simp add: available_iff)
qed

lemma acquire_gives_accepted:
  "fst (acquire_begin env el p) = Granted r \<Longrightarrow> r \<in> set (pe_records env) \<and> routable env r \<and> accepts el r"
  using choice_mem [where env = env and p = "promote env p" and av = "available env (promote env p) el"]
  by (auto simp: acquire_begin_def Let_def available_iff split: if_splits)

section \<open>Properties\<close>

text \<open>C9: No slot leaks and none is given back twice: in every reachable state the in-flight
  counter of each worker is the number of requests that hold one of its slots plus the number of
  queued requests that were handed one and have not resumed yet, whatever timeouts, cancellations
  and fleet changes happened in between. In particular the counters are all zero once no request
  holds a slot and none waits.\<close>

theorem pool_slot_accounting:
  assumes "pool_step\<^sup>*\<^sup>* psys_init s"
  shows "inflight (ps_pool s) n = outstanding s n
    \<and> (held s = [] \<and> waiting s = [] \<longrightarrow> inflight (ps_pool s) n = 0)"
  using pool.invar_reachable [OF refl assms] by (auto simp: pool_inv_def outstanding_def)

text \<open>A fleet of two workers with one slot each, and a queue of two requests.\<close>

definition demo_worker :: "string \<Rightarrow> node_record" where
  "demo_worker n = \<lparr>node_id = n, address = ''10.0.0.1'', state = SERVING, incarnation = 1,
     capabilities = no_caps, registered_at = 0, last_seen = 0, nr_run_state = None, seq = 1,
     port = Some 7001, model = Some ''m'', profile = None, backend = None,
     max_concurrent_requests = Some 1, transport = DIRECT, tunnel_rtt_ms = None\<rparr>"

definition demo_env :: pool_env where
  "demo_env = \<lparr>pe_records = [demo_worker ''a'', demo_worker ''b''], pe_tunnels = None,
     pe_default_capacity = 4, pe_rng = (\<lambda>_. 0)\<rparr>"

definition demo_queue :: pool where
  "demo_queue = pool_init\<lparr>waiters := [(0, None), (1, None)], next_fut := 2\<rparr>"

lemmas demo_defs = demo_worker_def demo_env_def demo_queue_def pool_init_def psys_init_def
  available_def serving_def routable_def accepts_def capacity_def default_capacity_def
  promote_def choice_def take_slot_def Let_def

theorem pool_slot_accounting_witness:
  "\<exists>s. pool_step\<^sup>*\<^sup>* psys_init s \<and> inflight (ps_pool s) ''a'' = 1 \<and> outstanding s ''a'' = 1"
proof -
  let ?p = "take_slot (demo_worker ''a'') pool_init"
  have "acquire_begin demo_env None (ps_pool psys_init) = (Granted (demo_worker ''a''), ?p)"
    by (simp add: acquire_begin_def demo_defs)
  from pool_step.grant [OF this]
  have r: "pool_step\<^sup>*\<^sup>* psys_init (psys_init\<lparr>ps_pool := ?p, held := [''a'']\<rparr>)"
    by (simp add: demo_worker_def psys_init_def)
  have "inflight ?p ''a'' = 1" by (simp add: demo_defs)
  with pool_slot_accounting [OF r, of "''a''"] r show ?thesis by auto
qed

text \<open>C2: Admission never overcommits a worker: no operation raises the in-flight counter of a
  listed worker above its capacity (a counter above it, after the capacity was lowered, is not
  raised), and a granted request gets a listed, routable worker it accepts.\<close>

theorem pool_capacity_respected:
  assumes "distinct (map node_id (pe_records env))" "r \<in> set (pe_records env)"
    and "p' \<in> {promote env p, release env n p, snd (acquire_begin env el p), acquire_abort env f p}"
  shows "int (inflight p' (node_id r)) \<le> max (int (inflight p (node_id r))) (capacity env r)
    \<and> (\<forall>q. fst (acquire_begin env el p) = Granted q \<longrightarrow>
         q \<in> set (pe_records env) \<and> routable env q \<and> accepts el q)"
proof
  show "int (inflight p' (node_id r)) \<le> max (int (inflight p (node_id r))) (capacity env r)"
    using assms(3) promote_bound [OF assms(1,2)] release_bound [OF assms(1,2)]
      acquire_begin_bound [OF assms(1,2)] acquire_abort_bound [OF assms(1,2)] by auto
  show "\<forall>q. fst (acquire_begin env el p) = Granted q \<longrightarrow>
      q \<in> set (pe_records env) \<and> routable env q \<and> accepts el q"
    using acquire_gives_accepted by blast
qed

theorem pool_capacity_respected_witness:
  "inflight (promote demo_env demo_queue) ''a'' \<le> 1"
  using pool_capacity_respected [of demo_env "demo_worker ''a''" "promote demo_env demo_queue" demo_queue]
  by (simp add: demo_worker_def demo_env_def demo_queue_def pool_init_def capacity_def)

text \<open>C14: Work conservation: after any promotion pass (and so after every release) a request is
  still queued only if no worker it accepts has a free slot, and it has not been answered; a
  request that finds a free slot left over is granted at once, and one is refused only when no
  worker it accepts is serving.\<close>

theorem pool_work_conserving:
  assumes "distinct (map fst (waiters p))"
  shows "(\<forall>(f, el') \<in> set (waiters (promote env p)).
       futs (promote env p) f = Pending \<and> available env (promote env p) el' = [])
    \<and> (case fst (acquire_begin env el p) of
         Granted r \<Rightarrow> r \<in> set (available env (promote env p) el)
       | Refused e \<Rightarrow> e = NoWorkersAvailable \<and> serving env el = []
       | Queued f \<Rightarrow> serving env el \<noteq> [] \<and> available env (promote env p) el = []
           \<and> waiters (snd (acquire_begin env el p)) = waiters (promote env p) @ [(f, el)])"
proof
  show "\<forall>(f, el') \<in> set (waiters (promote env p)).
      futs (promote env p) f = Pending \<and> available env (promote env p) el' = []"
    using promote_waiters_kept [OF assms] by auto
qed (auto simp: acquire_begin_def Let_def choice_mem healthy_count_def)

theorem pool_work_conserving_witness:
  "waiters (promote demo_env (demo_queue\<lparr>waiters := [(0, None), (1, None), (2, None)]\<rparr>)) = [(2, None)]
   \<and> available demo_env (promote demo_env (demo_queue\<lparr>waiters := [(0, None), (1, None), (2, None)]\<rparr>)) None = []"
proof -
  let ?q = "demo_queue\<lparr>waiters := [(0, None), (1, None), (2, None)]\<rparr>"
  have "waiters (promote demo_env ?q) = [(2, None)]" by (simp add: demo_defs)
  with pool_work_conserving [of ?q demo_env None] show ?thesis by simp
qed

text \<open>First come, first served within a model: when a promotion pass hands a worker to a
  queued request, every older queued request that accepts that worker is handed one too.\<close>

lemma pool_fifo:
  assumes w: "waiters p = us @ (f, el) # vs @ (g, el') # ws"
    and d: "distinct (map fst (waiters p))"
    and pend: "futs p f = Pending" "futs p g = Pending"
    and got: "futs (promote env p) g = Done r" and acc: "accepts el r"
  shows "\<exists>r'. futs (promote env p) f = Done r'"
proof -
  let ?p1 = "promote_loop env us p []"
  have f1: "futs ?p1 f = Pending" and g1: "futs ?p1 g = Pending"
    using promote_loop_futs_other [of _ us env p "[]"] w d pend by (auto simp: image_iff)
  have split: "promote env p = promote_loop env ((f, el) # vs @ (g, el') # ws) ?p1 (waiters ?p1)"
    using w promote_loop_append [of env us "(f, el) # vs @ (g, el') # ws" p "[]"] by (simp add: promote_def)
  show ?thesis
  proof (cases "available env ?p1 el = []")
    case False
    then show ?thesis
      using f1 by (simp add: split Let_def promote_loop_futs_settled)
  next
    case True
    let ?ks = "waiters ?p1 @ [(f, el)]"
    let ?p2 = "promote_loop env vs ?p1 ?ks"
    have g2: "futs ?p2 g = Pending"
      using promote_loop_futs_other [of g vs env ?p1 ?ks] g1 w d by (auto simp: image_iff)
    have s2: "promote env p = promote_loop env ((g, el') # ws) ?p2 (waiters ?p2)"
      using True f1 promote_loop_append [of env vs "(g, el') # ws" ?p1 ?ks] by (simp add: split)
    have gw: "g \<notin> fst ` set ws" using w d by (auto simp: image_iff)
    have av: "r \<in> set (available env ?p2 el')"
    proof (cases "available env ?p2 el' = []")
      case True
      then show ?thesis
        using got g2 promote_loop_futs_other [OF gw] by (simp add: s2)
    next
      case False
      then show ?thesis
        using got g2 choice_mem [OF False, of env ?p2]
        by (auto simp: s2 Let_def promote_loop_futs_settled)
    qed
    have "inflight ?p1 n \<le> inflight ?p2 n" for n by (rule promote_loop_inflight_mono)
    from available_antimono [OF this, of env el'] av acc have "r \<in> set (available env ?p1 el)"
      by (auto simp: available_iff)
    with True show ?thesis by simp
  qed
qed

lemma pool_fifo_witness: "\<exists>r. futs (promote demo_env demo_queue) 0 = Done r"
proof -
  have "futs (promote demo_env demo_queue) 1 = Done (demo_worker ''b'')" by (simp add: demo_defs)
  from pool_fifo [OF _ _ _ _ this, of "[]" 0 None "[]" None "[]"]
  show ?thesis by (simp add: demo_queue_def pool_init_def accepts_def)
qed

end
