(* ===== verification/Credentials.thy ===== *)
theory Credentials
  imports Prelude
begin

text \<open>
  Manager credentials (\<open>src/src/oumigo/service/manager/credentials.py\<close>): join tokens, node
  tokens, backend keys and client API keys. \<open>auth_store\<close> is the SQLite file: one list of rows
  per table, with the \<open>PRIMARY KEY\<close> and \<open>UNIQUE\<close> constraints checked on insert. The lock and
  SQLite make each method one atomic operation. SHA-256 and HMAC are the fields of \<open>crypto\<close>:
  the results hold for every pair of functions, so none of them rests on a cryptographic
  assumption. Random values (\<open>secrets.token_*\<close>) and the clock are arguments.
\<close>

record crypto =
  sha256_hex :: "string \<Rightarrow> string"
  hmac_hex :: "string \<Rightarrow> string \<Rightarrow> string"

definition JOIN_PREFIX :: string where "JOIN_PREFIX = ''oumigo-join-''"
definition NODE_PREFIX :: string where "NODE_PREFIX = ''oumigo-node.''"
definition KEY_PREFIX :: string where "KEY_PREFIX = ''oumigo-key-''"

definition bearer :: "string option \<Rightarrow> string option" where
  "bearer authorization =
     (if \<not> truthy authorization then None
      else
        let (scheme, sep, value) = py_partition (CHR '' '') (the authorization) in
        if py_lower scheme \<noteq> ''bearer'' \<or> py_strip value = [] then None
        else Some (py_strip value))"

record join_row =
  jt_id :: string
  jt_hash :: string
  jt_label :: "string option"
  jt_created_at :: real
  jt_expires_at :: "real option"
  jt_uses_left :: "int option"
  jt_revoked :: bool

text \<open>\<open>JoinToken.usable\<close>, and the same condition as the SQL of \<open>check_join_token\<close> states it.\<close>

definition jt_usable :: "real \<Rightarrow> join_row \<Rightarrow> bool" where
  "jt_usable now t =
     (if jt_revoked t then False
      else if (case jt_expires_at t of None \<Rightarrow> False | Some e \<Rightarrow> e \<le> now) then False
      else (case jt_uses_left t of None \<Rightarrow> True | Some u \<Rightarrow> 0 < u))"

definition sql_usable :: "string \<Rightarrow> real \<Rightarrow> join_row \<Rightarrow> bool" where
  "sql_usable h now t =
     (jt_hash t = h \<and> \<not> jt_revoked t
      \<and> (case jt_expires_at t of None \<Rightarrow> True | Some e \<Rightarrow> now < e)
      \<and> (case jt_uses_left t of None \<Rightarrow> True | Some u \<Rightarrow> 0 < u))"

record key_row =
  ak_id :: string
  ak_hash :: string
  ak_label :: "string option"
  ak_created_at :: real
  ak_revoked :: bool

record auth_store =
  meta :: "(string \<times> string) list"
  join_tokens :: "join_row list"
  api_keys :: "key_row list"
  revoked_nodes :: "(string \<times> real) list"
  secret :: string

definition hex_digit :: "char \<Rightarrow> nat option" where
  "hex_digit c = (let n = (of_char c :: nat) in
     if 48 \<le> n \<and> n \<le> 57 then Some (n - 48)
     else if 97 \<le> n \<and> n \<le> 102 then Some (n - 87)
     else if 65 \<le> n \<and> n \<le> 70 then Some (n - 55) else None)"

fun bytes_fromhex :: "string \<Rightarrow> string option" where
  "bytes_fromhex [] = Some []"
| "bytes_fromhex [x] = (if py_isspace x then Some [] else None)"
| "bytes_fromhex (x # y # xs) =
     (if py_isspace x then bytes_fromhex (y # xs)
      else (case (hex_digit x, hex_digit y) of
              (Some a, Some b) \<Rightarrow> map_option (\<lambda>r. char_of (16 * a + b) # r) (bytes_fromhex xs)
            | _ \<Rightarrow> None))"

text \<open>\<open>_signing_secret\<close>; the random 64 hex digits are an argument.\<close>

definition signing_secret :: "string \<Rightarrow> auth_store \<Rightarrow> string res \<times> auth_store" where
  "signing_secret fresh st =
     (let meta' = (case map_of (meta st) ''signing_secret'' of
                     None \<Rightarrow> meta st @ [(''signing_secret'', fresh)] | Some _ \<Rightarrow> meta st);
          st' = st\<lparr>meta := meta'\<rparr> in
      case Option.bind (map_of meta' ''signing_secret'') bytes_fromhex of
        None \<Rightarrow> (Inl (ValueErr ''non-hexadecimal number found''), st')
      | Some b \<Rightarrow> (Inr b, st'))"

text \<open>\<open>AuthStore.__init__\<close> on a file with the given tables (all empty for a new file).\<close>

definition empty_tables :: auth_store where
  "empty_tables = \<lparr>meta = [], join_tokens = [], api_keys = [], revoked_nodes = [], secret = []\<rparr>"

definition open_store :: "string \<Rightarrow> auth_store \<Rightarrow> auth_store res" where
  "open_store fresh db =
     (case signing_secret fresh db of
        (Inl e, _) \<Rightarrow> Inl e
      | (Inr b, db') \<Rightarrow> Inr (db'\<lparr>secret := b\<rparr>))"

section \<open>Join tokens\<close>

definition create_join_token ::
  "crypto \<Rightarrow> real \<Rightarrow> string \<Rightarrow> string \<Rightarrow> real option \<Rightarrow> int option \<Rightarrow> string option \<Rightarrow> auth_store \<Rightarrow>
   (string \<times> string) res \<times> auth_store"
where
  "create_join_token c now rnd token_id ttl_s uses label st =
     (let token = JOIN_PREFIX @ rnd;
          row = \<lparr>jt_id = token_id, jt_hash = sha256_hex c token, jt_label = label,
                 jt_created_at = now,
                 jt_expires_at = (case ttl_s of None \<Rightarrow> None | Some t \<Rightarrow> if t = 0 then None else Some (now + t)),
                 jt_uses_left = (case uses of None \<Rightarrow> None | Some u \<Rightarrow> if u = 0 then None else Some u),
                 jt_revoked = False\<rparr> in
      if token_id \<in> jt_id ` set (join_tokens st) \<or> jt_hash row \<in> jt_hash ` set (join_tokens st)
      then (Inl (IntegrityErr ''UNIQUE constraint failed''), st)
      else (Inr (token_id, token), st\<lparr>join_tokens := join_tokens st @ [row]\<rparr>))"

definition list_join_tokens :: "auth_store \<Rightarrow> join_row list" where
  "list_join_tokens st = sort_key jt_created_at (join_tokens st)"

definition revoke_join_token :: "string \<Rightarrow> auth_store \<Rightarrow> bool \<times> auth_store" where
  "revoke_join_token token_id st =
     (token_id \<in> jt_id ` set (join_tokens st),
      st\<lparr>join_tokens :=
        map (\<lambda>t. if jt_id t = token_id then t\<lparr>jt_revoked := True\<rparr> else t) (join_tokens st)\<rparr>)"

definition spend_row :: "string \<Rightarrow> real \<Rightarrow> join_row \<Rightarrow> join_row" where
  "spend_row h now t =
     (if sql_usable h now t \<and> jt_uses_left t \<noteq> None
      then t\<lparr>jt_uses_left := map_option (\<lambda>u. u - 1) (jt_uses_left t)\<rparr> else t)"

definition check_join_token ::
  "crypto \<Rightarrow> real \<Rightarrow> string \<Rightarrow> bool \<Rightarrow> auth_store \<Rightarrow> bool \<times> auth_store" where
  "check_join_token c now token consume st =
     (if \<not> py_startswith token JOIN_PREFIX then (False, st)
      else
        let h = sha256_hex c token in
        if consume then
          (if filter (\<lambda>t. sql_usable h now t \<and> jt_uses_left t \<noteq> None) (join_tokens st) = []
           then (filter (\<lambda>t. sql_usable h now t \<and> jt_uses_left t = None) (join_tokens st) \<noteq> [], st)
           else (True, st\<lparr>join_tokens := map (spend_row h now) (join_tokens st)\<rparr>))
        else (filter (sql_usable h now) (join_tokens st) \<noteq> [], st))"

section \<open>Client API keys\<close>

definition create_api_key ::
  "crypto \<Rightarrow> real \<Rightarrow> string \<Rightarrow> string \<Rightarrow> string option \<Rightarrow> auth_store \<Rightarrow> (string \<times> string) res \<times> auth_store"
where
  "create_api_key c now rnd key_id label st =
     (let key = KEY_PREFIX @ rnd;
          row = \<lparr>ak_id = key_id, ak_hash = sha256_hex c key, ak_label = label,
                 ak_created_at = now, ak_revoked = False\<rparr> in
      if key_id \<in> ak_id ` set (api_keys st) \<or> ak_hash row \<in> ak_hash ` set (api_keys st)
      then (Inl (IntegrityErr ''UNIQUE constraint failed''), st)
      else (Inr (key_id, key), st\<lparr>api_keys := api_keys st @ [row]\<rparr>))"

definition list_api_keys :: "auth_store \<Rightarrow> key_row list" where
  "list_api_keys st = sort_key ak_created_at (api_keys st)"

definition revoke_api_key :: "string \<Rightarrow> auth_store \<Rightarrow> bool \<times> auth_store" where
  "revoke_api_key key_id st =
     (key_id \<in> ak_id ` set (api_keys st),
      st\<lparr>api_keys := map (\<lambda>k. if ak_id k = key_id then k\<lparr>ak_revoked := True\<rparr> else k) (api_keys st)\<rparr>)"

definition check_api_key :: "crypto \<Rightarrow> string option \<Rightarrow> auth_store \<Rightarrow> string option" where
  "check_api_key c key st =
     (if \<not> truthy key \<or> \<not> py_startswith (the key) KEY_PREFIX then None
      else (case filter (\<lambda>k. ak_hash k = sha256_hex c (the key) \<and> \<not> ak_revoked k) (api_keys st) of
              [] \<Rightarrow> None | row # _ \<Rightarrow> Some (ak_id row)))"

section \<open>Nodes\<close>

definition revoke_node :: "real \<Rightarrow> string \<Rightarrow> auth_store \<Rightarrow> auth_store" where
  "revoke_node now nid st =
     st\<lparr>revoked_nodes := AList.delete nid (revoked_nodes st) @ [(nid, now)]\<rparr>"

definition unrevoke_node :: "string \<Rightarrow> auth_store \<Rightarrow> bool \<times> auth_store" where
  "unrevoke_node nid st =
     (nid \<in> fst ` set (revoked_nodes st), st\<lparr>revoked_nodes := AList.delete nid (revoked_nodes st)\<rparr>)"

definition is_node_revoked :: "string \<Rightarrow> auth_store \<Rightarrow> bool" where
  "is_node_revoked nid st = (nid \<in> fst ` set (revoked_nodes st))"

section \<open>Derived credentials\<close>

definition mac :: "crypto \<Rightarrow> auth_store \<Rightarrow> string \<Rightarrow> string \<Rightarrow> string" where
  "mac c st purpose nid = hmac_hex c (secret st) (purpose @ '':'' @ nid)"

definition node_token :: "crypto \<Rightarrow> auth_store \<Rightarrow> string \<Rightarrow> string" where
  "node_token c st nid = NODE_PREFIX @ nid @ ''.'' @ mac c st ''node'' nid"

text \<open>\<open>hmac.compare_digest\<close> on two strings: both must be ASCII.\<close>

definition is_ascii :: "string \<Rightarrow> bool" where
  "is_ascii s = list_all (\<lambda>ch. (of_char ch :: nat) < 128) s"

definition compare_digest :: "string \<Rightarrow> string \<Rightarrow> bool res" where
  "compare_digest a b =
     (if is_ascii a \<and> is_ascii b then Inr (a = b)
      else Inl (TypeErr ''comparing strings with non-ASCII characters is not supported''))"

definition node_from_token :: "crypto \<Rightarrow> auth_store \<Rightarrow> string \<Rightarrow> string option res" where
  "node_from_token c st token =
     (if \<not> py_startswith token NODE_PREFIX then Inr None
      else
        let (nid, _, m) = py_partition (CHR ''.'') (drop (length NODE_PREFIX) token) in
        if nid = [] then Inr None
        else res_map (\<lambda>ok. if ok then Some nid else None) (compare_digest m (mac c st ''node'' nid)))"

definition vllm_api_key :: "crypto \<Rightarrow> auth_store \<Rightarrow> string \<Rightarrow> string" where
  "vllm_api_key c st nid = ''oumigo-vllm-'' @ take 48 (mac c st ''vllm'' nid)"

section \<open>Authenticator\<close>

record authenticator =
  reusable_token :: "string option"
  enforced :: bool

definition make_authenticator :: "string option \<Rightarrow> bool \<Rightarrow> authenticator" where
  "make_authenticator tok wan = \<lparr>reusable_token = tok, enforced = (wan \<or> tok \<noteq> None)\<rparr>"

definition is_reusable :: "authenticator \<Rightarrow> string option \<Rightarrow> bool res" where
  "is_reusable au tok =
     (case (tok, reusable_token au) of
        (Some t, Some r) \<Rightarrow> compare_digest t r
      | _ \<Rightarrow> Inr False)"

definition valid_node :: "crypto \<Rightarrow> auth_store \<Rightarrow> string option \<Rightarrow> string option res" where
  "valid_node c st tok =
     (case tok of None \<Rightarrow> Inr None
      | Some t \<Rightarrow> res_map (\<lambda>n. case n of None \<Rightarrow> None
                    | Some nid \<Rightarrow> if is_node_revoked nid st then None else Some nid)
                  (node_from_token c st t))"

definition may_read_spec :: "crypto \<Rightarrow> real \<Rightarrow> authenticator \<Rightarrow> string option \<Rightarrow> auth_store \<Rightarrow> bool res" where
  "may_read_spec c now au authorization st =
     (if \<not> enforced au then Inr True
      else
        let token = bearer authorization in
        res_or (is_reusable au token)
          (res_or (Inr (case token of None \<Rightarrow> False | Some t \<Rightarrow> fst (check_join_token c now t False st)))
            (res_map (\<lambda>n. n \<noteq> None) (valid_node c st token))))"

definition may_register ::
  "crypto \<Rightarrow> real \<Rightarrow> authenticator \<Rightarrow> string option \<Rightarrow> string \<Rightarrow> auth_store \<Rightarrow> bool res \<times> auth_store" where
  "may_register c now au authorization nid st =
     (if is_node_revoked nid st then (Inr False, st)
      else if \<not> enforced au then (Inr True, st)
      else
        let token = bearer authorization in
        case res_or (is_reusable au token) (res_map (\<lambda>n. n = Some nid) (valid_node c st token)) of
          Inl e \<Rightarrow> (Inl e, st)
        | Inr True \<Rightarrow> (Inr True, st)
        | Inr False \<Rightarrow>
            (case token of None \<Rightarrow> (Inr False, st)
             | Some t \<Rightarrow> map_prod Inr id (check_join_token c now t True st)))"

definition may_act_as :: "crypto \<Rightarrow> authenticator \<Rightarrow> string option \<Rightarrow> string \<Rightarrow> auth_store \<Rightarrow> bool res" where
  "may_act_as c au authorization nid st =
     (if is_node_revoked nid st then Inr False
      else if \<not> enforced au then Inr True
      else
        let token = bearer authorization in
        res_or (is_reusable au token) (res_map (\<lambda>n. n = Some nid) (valid_node c st token)))"

definition tunnel_node :: "crypto \<Rightarrow> string option \<Rightarrow> auth_store \<Rightarrow> string option res" where
  "tunnel_node c authorization st = valid_node c st (bearer authorization)"

section \<open>Runs of the store\<close>

datatype store_event =
    CreateJoin real string string "real option" "int option" "string option"
  | RevokeJoin string
  | CheckJoin real string bool
  | CreateKey real string string "string option"
  | RevokeKey string
  | RevokeNode real string
  | UnrevokeNode string

primrec store_exec :: "crypto \<Rightarrow> store_event \<Rightarrow> auth_store \<Rightarrow> auth_store" where
  "store_exec c (CreateJoin now rnd i ttl uses label) st = snd (create_join_token c now rnd i ttl uses label st)"
| "store_exec c (RevokeJoin i) st = snd (revoke_join_token i st)"
| "store_exec c (CheckJoin now tok consume) st = snd (check_join_token c now tok consume st)"
| "store_exec c (CreateKey now rnd i label) st = snd (create_api_key c now rnd i label st)"
| "store_exec c (RevokeKey i) st = snd (revoke_api_key i st)"
| "store_exec c (RevokeNode now nid) st = revoke_node now nid st"
| "store_exec c (UnrevokeNode nid) st = snd (unrevoke_node nid st)"

text \<open>The table constraints.\<close>

definition store_wf :: "auth_store \<Rightarrow> bool" where
  "store_wf st \<longleftrightarrow> distinct (map jt_id (join_tokens st)) \<and> distinct (map jt_hash (join_tokens st))
     \<and> distinct (map ak_id (api_keys st)) \<and> distinct (map ak_hash (api_keys st))
     \<and> dict_wf (revoked_nodes st)"

lemma spend_row_key [simp]: "jt_id (spend_row h now t) = jt_id t" "jt_hash (spend_row h now t) = jt_hash t"
  by (simp_all add: spend_row_def)

lemma map_if_key: "(\<And>x. f (g x) = f x) \<Longrightarrow> map (\<lambda>x. f (if P x then g x else x)) xs = map f xs"
  by simp

lemmas store_op_defs = create_join_token_def revoke_join_token_def check_join_token_def
  create_api_key_def revoke_api_key_def revoke_node_def unrevoke_node_def

lemma store_wf_exec: "store_wf st \<Longrightarrow> store_wf (store_exec c e st)"
  by (cases e)
    (auto simp: store_wf_def store_op_defs Let_def comp_def if_distrib dict_wf_def distinct_map_filter
       AList.delete_eq image_iff cong: if_cong)

lemma store_wf_empty: "store_wf empty_tables"
  by (simp add: store_wf_def empty_tables_def)

text \<open>Registrations admitted by a token with hash \<open>h\<close>, and the uses such a token has left.\<close>

definition admits :: "crypto \<Rightarrow> string \<Rightarrow> store_event \<Rightarrow> auth_store \<Rightarrow> bool" where
  "admits c h e st =
     (case e of CheckJoin now tok True \<Rightarrow> sha256_hex c tok = h \<and> fst (check_join_token c now tok True st)
      | _ \<Rightarrow> False)"

primrec admissions :: "crypto \<Rightarrow> string \<Rightarrow> store_event list \<Rightarrow> auth_store \<Rightarrow> nat" where
  "admissions c h [] st = 0"
| "admissions c h (e # es) st = (if admits c h e st then 1 else 0) + admissions c h es (store_exec c e st)"

definition uses_budget :: "string \<Rightarrow> auth_store \<Rightarrow> nat option" where
  "uses_budget h st =
     Option.bind (find (\<lambda>t. jt_hash t = h) (join_tokens st)) (\<lambda>t. map_option nat (jt_uses_left t))"

lemma find_append_Some: "find P xs = Some x \<Longrightarrow> find P (xs @ ys) = Some x"
  by (induction xs) auto

lemma find_append_fresh: "h \<notin> f ` set xs \<Longrightarrow> find (\<lambda>t. f t = h) (xs @ [x]) = (if f x = h then Some x else None)"
  by (induction xs) auto

lemma find_map_key: "(\<And>x. P (f x) = P x) \<Longrightarrow> find P (map f xs) = map_option f (find P xs)"
  by (induction xs) auto

lemma find_unique:
  assumes "distinct (map f xs)" "find (\<lambda>x. f x = h) xs = Some t" "x \<in> set xs" "f x = h"
  shows "x = t"
  using assms by (induction xs) (auto simp: image_iff split: if_splits)

lemma find_SomeD: "find P xs = Some t \<Longrightarrow> t \<in> set xs \<and> P t"
  by (induction xs) (auto split: if_splits)

lemma uses_budget_check:
  assumes wf: "store_wf st" and b: "uses_budget h st = Some n"
  shows "\<exists>m. uses_budget h (store_exec c (CheckJoin now tok consume) st) = Some m
    \<and> (if admits c h (CheckJoin now tok consume) st then Suc m \<le> n else m \<le> n)"
proof -
  obtain t u where t: "find (\<lambda>t. jt_hash t = h) (join_tokens st) = Some t"
    "jt_uses_left t = Some u" "n = nat u"
    using b by (auto simp: uses_budget_def bind_eq_Some_conv)
  have uniq: "x = t" if "x \<in> set (join_tokens st)" "jt_hash x = h" for x
    using find_unique [of jt_hash _ h t x] t wf that by (auto simp: store_wf_def)
  have fm: "uses_budget h (st\<lparr>join_tokens := map (spend_row k now) (join_tokens st)\<rparr>)
      = map_option nat (jt_uses_left (spend_row k now t))" for k
    using t by (simp add: uses_budget_def find_map_key)
  show ?thesis
  proof (cases "sha256_hex c tok = h")
    case False
    then have "spend_row (sha256_hex c tok) now t = t"
      using find_SomeD [OF t(1)] by (auto simp: spend_row_def sql_usable_def)
    then show ?thesis using fm b t False
      by (auto simp: check_join_token_def Let_def admits_def split: bool.splits)
  next
    case True
    have "filter (\<lambda>x. sql_usable h now x \<and> jt_uses_left x = None) (join_tokens st) = []"
      using uniq t by (auto simp: filter_empty_conv sql_usable_def)
    moreover have "filter (\<lambda>x. sql_usable h now x \<and> jt_uses_left x \<noteq> None) (join_tokens st) \<noteq> []
        \<Longrightarrow> sql_usable h now t"
      using uniq by (auto simp: filter_empty_conv sql_usable_def)
    ultimately show ?thesis using True fm [of h] b t
      by (auto simp: check_join_token_def Let_def admits_def spend_row_def sql_usable_def
          split: bool.splits)
  qed
qed

lemma uses_budget_step:
  assumes wf: "store_wf st" and b: "uses_budget h st = Some n"
  shows "\<exists>m. uses_budget h (store_exec c e st) = Some m \<and> (if admits c h e st then Suc m \<le> n else m \<le> n)"
proof (cases e)
  case (CheckJoin now tok consume)
  with uses_budget_check [OF assms] show ?thesis by simp
next
  case (CreateJoin now rnd i ttl uses label)
  with b show ?thesis
    by (auto simp: create_join_token_def Let_def uses_budget_def admits_def bind_eq_Some_conv
        dest: find_append_Some)
next
  case (RevokeJoin i)
  obtain y where y: "find (\<lambda>t. jt_hash t = h) (join_tokens st) = Some y"
    "map_option nat (jt_uses_left y) = Some n"
    using b by (auto simp: uses_budget_def bind_eq_Some_conv)
  have "uses_budget h (snd (revoke_join_token i st)) = Some n"
    using y by (simp add: revoke_join_token_def uses_budget_def find_map_key)
  with RevokeJoin show ?thesis by (simp add: admits_def)
qed (use b in \<open>auto simp: store_op_defs Let_def uses_budget_def admits_def\<close>)

interpretation join: budgeted_machine empty_tables "store_exec c" store_wf "uses_budget h" "admits c h" for c h
  by unfold_locales (rule store_wf_empty, erule store_wf_exec, erule (1) uses_budget_step)

lemma admissions_eq_spent: "admissions c h es st = join.spent c h es st"
  by (induction es arbitrary: st) auto

section \<open>Who is let in\<close>

lemma compare_digest_True: "compare_digest a b = Inr True \<longleftrightarrow> is_ascii a \<and> is_ascii b \<and> a = b"
  by (auto simp: compare_digest_def)

lemma compare_digest_ascii: "is_ascii a \<Longrightarrow> is_ascii b \<Longrightarrow> compare_digest a b = Inr (a = b)"
  by (simp add: compare_digest_def)

lemma is_reusable_True: "is_reusable au tok = Inr True \<longleftrightarrow>
  (\<exists>t. tok = Some t \<and> reusable_token au = Some t \<and> is_ascii t)"
  by (auto simp: is_reusable_def compare_digest_True split: option.splits)

lemma node_from_token_Some:
  assumes "node_from_token c st tok = Inr (Some n)"
  shows "n \<noteq> [] \<and> CHR ''.'' \<notin> set n \<and> is_ascii (mac c st ''node'' n) \<and>
    (tok = node_token c st n \<or> tok = NODE_PREFIX @ n \<and> mac c st ''node'' n = [])"
proof -
  obtain rest where tok: "tok = NODE_PREFIX @ rest"
    using assms by (auto simp: node_from_token_def py_startswith_iff split: if_splits)
  obtain h f m where part: "py_partition (CHR ''.'') rest = (h, f, m)" by (metis surj_pair)
  have nf: "h = n" "n \<noteq> []" "compare_digest m (mac c st ''node'' n) = Inr True"
    using assms part unfolding node_from_token_def tok
    by (auto simp: Let_def res_map_def res_bind_Inr split: if_splits)
  show ?thesis
  proof (cases f)
    case True
    with py_partition_found [of "CHR ''.''" rest h m] part nf show ?thesis
      by (auto simp: tok node_token_def compare_digest_True)
  next
    case False
    with py_partition_not_found [of "CHR ''.''" rest h m] part nf show ?thesis
      by (auto simp: tok compare_digest_True)
  qed
qed

lemma node_from_token_node_token:
  assumes "n \<noteq> []" "CHR ''.'' \<notin> set n" "is_ascii (mac c st ''node'' n)"
  shows "node_from_token c st (node_token c st n) = Inr (Some n)"
  using assms by (simp add: node_from_token_def node_token_def compare_digest_def)

lemma valid_node_Some: "valid_node c st tok = Inr (Some n) \<longleftrightarrow>
  (\<exists>t. tok = Some t \<and> node_from_token c st t = Inr (Some n) \<and> \<not> is_node_revoked n st)"
  by (auto simp: valid_node_def res_map_def res_bind_Inr split: option.splits if_splits)

lemma check_join_token_True:
  assumes "check_join_token c now t True st = (True, st')"
  shows "\<exists>row \<in> set (join_tokens st). py_startswith t JOIN_PREFIX \<and> jt_hash row = sha256_hex c t
     \<and> jt_usable now row \<and> st' = st\<lparr>join_tokens := map (spend_row (sha256_hex c t) now) (join_tokens st)\<rparr>"
proof -
  let ?h = "sha256_hex c t"
  have usable: "jt_usable now row" if "sql_usable ?h now row" for row
    using that by (auto simp: jt_usable_def sql_usable_def split: option.splits)
  have pre: "py_startswith t JOIN_PREFIX" using assms by (auto simp: check_join_token_def split: if_splits)
  define lim where "lim = filter (\<lambda>t. sql_usable ?h now t \<and> jt_uses_left t \<noteq> None) (join_tokens st)"
  define unl where "unl = filter (\<lambda>t. sql_usable ?h now t \<and> jt_uses_left t = None) (join_tokens st)"
  have cases: "if lim = [] then unl \<noteq> [] \<and> st' = st
      else st' = st\<lparr>join_tokens := map (spend_row ?h now) (join_tokens st)\<rparr>"
    using assms pre unfolding check_join_token_def Let_def lim_def unl_def by (auto split: if_splits)
  show ?thesis
  proof (cases lim)
    case (Cons row l)
    then have "row \<in> set lim" by simp
    then have "row \<in> set (join_tokens st)" "sql_usable ?h now row" by (simp_all add: lim_def)
    with cases Cons usable pre show ?thesis by (auto simp: sql_usable_def)
  next
    case Nil
    then have "map (spend_row ?h now) (join_tokens st) = join_tokens st"
      by (auto simp: lim_def spend_row_def filter_empty_conv intro: map_idI)
    moreover obtain row where "row \<in> set unl" using cases Nil by (cases unl) auto
    ultimately show ?thesis using cases Nil usable pre by (auto simp: unl_def sql_usable_def)
  qed
qed

section \<open>Properties\<close>

text \<open>A node token names its node and nobody else's: for a keyed hash whose digests are
  non-empty ASCII strings, the manager reads a node id out of a bearer string exactly when that
  string is the token it derives for that id, for every id without a dot (ids are hexadecimal).\<close>

lemma node_token_exact:
  assumes "\<forall>k m. hmac_hex c k m \<noteq> [] \<and> is_ascii (hmac_hex c k m)"
  shows "node_from_token c st tok = Inr (Some n) \<longleftrightarrow>
    n \<noteq> [] \<and> CHR ''.'' \<notin> set n \<and> tok = node_token c st n"
  using node_from_token_Some [of c st tok n] node_from_token_node_token [of n c st] assms
  by (auto simp: mac_def)

definition demo_crypto :: crypto where
  "demo_crypto = \<lparr>sha256_hex = (\<lambda>s. s), hmac_hex = (\<lambda>k m. ''ff'')\<rparr>"

lemma node_token_exact_witness:
  "node_from_token demo_crypto empty_tables ''oumigo-node.00ab.ff'' = Inr (Some ''00ab'')"
  using node_token_exact [of demo_crypto empty_tables "''oumigo-node.00ab.ff''" "''00ab''"]
  by (simp add: demo_crypto_def is_ascii_def node_token_def NODE_PREFIX_def mac_def)

text \<open>C6: A join token minted for \<open>u\<close> registrations admits at most \<open>u\<close> of them, whatever else
  happens to the store: other tokens minted, tokens, keys and nodes revoked or restored, and any
  interleaving of checks with and without consumption, by this token or by any other string with
  the same hash.\<close>

theorem join_token_admits_at_most:
  assumes "store_wf st" "u \<noteq> 0"
    and "create_join_token c now rnd i ttl (Some u) label st = (Inr (i', tok), st')"
  shows "admissions c (sha256_hex c tok) es st' \<le> nat u"
proof -
  have "store_wf st'" using store_wf_exec [OF assms(1), of c "CreateJoin now rnd i ttl (Some u) label"] assms(3)
    by simp
  moreover have "uses_budget (sha256_hex c tok) st' = Some (nat u)"
    using assms(2,3) by (auto simp: create_join_token_def Let_def uses_budget_def find_append_fresh split: if_splits)
  ultimately show ?thesis unfolding admissions_eq_spent by (rule join.spent_within_budget)
qed

definition demo_store :: auth_store where
  "demo_store = snd (create_join_token demo_crypto 0 ''x'' ''1'' None (Some 1) None empty_tables)"

theorem join_token_admits_at_most_witness:
  "admissions demo_crypto ''oumigo-join-x''
     [CheckJoin 1 ''oumigo-join-x'' True, CheckJoin 2 ''oumigo-join-x'' True] demo_store \<le> 1"
proof -
  have "create_join_token demo_crypto 0 ''x'' ''1'' None (Some 1) None empty_tables =
      (Inr (''1'', ''oumigo-join-x''), demo_store)"
    by (simp add: demo_store_def create_join_token_def empty_tables_def demo_crypto_def JOIN_PREFIX_def Let_def)
  from join_token_admits_at_most [OF store_wf_empty _ this] show ?thesis
    by (simp add: demo_crypto_def del: admissions.simps)
qed

text \<open>A revoked node is shut out of every worker-facing endpoint at once, whatever credential
  it presents and even where authentication is off: it may neither register nor act, the join
  token it presents is not spent, and no tunnel is bound to it.\<close>

lemma revoked_node_denied:
  assumes "is_node_revoked n st"
  shows "may_register c now au authz n st = (Inr False, st) \<and> may_act_as c au authz n st = Inr False
    \<and> tunnel_node c authz st \<noteq> Inr (Some n)"
  using assms by (auto simp: may_register_def may_act_as_def tunnel_node_def valid_node_Some)

lemma revoked_node_denied_witness:
  "may_register demo_crypto 1 (make_authenticator None False) None ''00ab'' (revoke_node 0 ''00ab'' demo_store)
    = (Inr False, revoke_node 0 ''00ab'' demo_store)"
  using revoked_node_denied [of "''00ab''" "revoke_node 0 ''00ab'' demo_store"]
  by (simp add: is_node_revoked_def revoke_node_def)

text \<open>C21: With authentication enforced, a registration is admitted only with the fleet token, the
  node's own token, or an unexpired, unrevoked join token with a use left; and only the join token
  is charged, one use, every other row and table being unchanged.\<close>

theorem may_register_sound:
  assumes "enforced au" and "may_register c now au authz n st = (Inr True, st')"
    and "\<forall>k m. hmac_hex c k m \<noteq> []"
  shows "\<not> is_node_revoked n st \<and> (\<exists>t. bearer authz = Some t \<and>
     ((reusable_token au = Some t \<or> t = node_token c st n) \<and> st' = st
      \<or> (\<exists>row \<in> set (join_tokens st). py_startswith t JOIN_PREFIX \<and> jt_hash row = sha256_hex c t
           \<and> jt_usable now row
           \<and> st' = st\<lparr>join_tokens := map (spend_row (sha256_hex c t) now) (join_tokens st)\<rparr>)))"
proof -
  let ?first = "res_or (is_reusable au (bearer authz)) (res_map (\<lambda>m. m = Some n) (valid_node c st (bearer authz)))"
  have nr: "\<not> is_node_revoked n st" using assms(2) by (auto simp: may_register_def split: if_splits)
  consider (known) "?first = Inr True" "st' = st"
    | (join) t where "bearer authz = Some t" "check_join_token c now t True st = (True, st')"
    using assms(1,2) nr by (auto simp: may_register_def Let_def map_prod_def split: sum.splits bool.splits option.splits prod.splits)
  then show ?thesis
  proof cases
    case known
    then consider "is_reusable au (bearer authz) = Inr True" | "valid_node c st (bearer authz) = Inr (Some n)"
      by (auto simp: res_or_True res_map_def res_bind_Inr)
    then show ?thesis
      using nr known(2) assms(3) node_from_token_Some [of c st _ n]
      by cases (auto simp: is_reusable_True valid_node_Some mac_def)
  next
    case join
    with check_join_token_True [OF join(2)] nr show ?thesis by blast
  qed
qed

theorem may_register_sound_witness:
  "\<exists>row \<in> set (join_tokens demo_store). jt_usable 1 row \<and> jt_hash row = ''oumigo-join-x''"
proof -
  let ?au = "make_authenticator None True" and ?h = "Some ''Bearer oumigo-join-x''"
  have b: "bearer ?h = Some ''oumigo-join-x''" by code_simp
  have "fst (may_register demo_crypto 1 ?au ?h ''00ab'' demo_store) = Inr True" by code_simp
  then obtain st' where "may_register demo_crypto 1 ?au ?h ''00ab'' demo_store = (Inr True, st')"
    by (metis prod.collapse)
  from may_register_sound [OF _ this] b show ?thesis
    by (auto simp: make_authenticator_def demo_crypto_def node_token_def NODE_PREFIX_def)
qed

text \<open>A key whose row is revoked stays refused: rows are never deleted, never un-revoked, and a
  second row with the same hash is rejected.\<close>

definition key_dead :: "string \<Rightarrow> auth_store \<Rightarrow> bool" where
  "key_dead h st \<longleftrightarrow> store_wf st \<and> (\<exists>k \<in> set (api_keys st). ak_hash k = h \<and> ak_revoked k)"

lemma key_dead_exec: "key_dead h st \<Longrightarrow> key_dead h (store_exec c e st)"
proof -
  assume dead: "key_dead h st"
  then obtain k where k: "k \<in> set (api_keys st)" "ak_hash k = h" "ak_revoked k" by (auto simp: key_dead_def)
  have "\<exists>k \<in> set (api_keys (store_exec c e st)). ak_hash k = h \<and> ak_revoked k"
  proof (cases e)
    case (RevokeKey i)
    let ?k = "if ak_id k = i then k\<lparr>ak_revoked := True\<rparr> else k"
    have "?k \<in> set (api_keys (store_exec c e st))" "ak_hash ?k = h" "ak_revoked ?k"
      using k RevokeKey by (auto simp: revoke_api_key_def)
    then show ?thesis by blast
  qed (use k in \<open>auto simp: store_op_defs Let_def\<close>)
  with dead show "key_dead h (store_exec c e st)" by (simp add: key_dead_def store_wf_exec)
qed

lemma key_dead_run: "key_dead h st \<Longrightarrow> key_dead h (fold (store_exec c) es st)"
  by (induction es arbitrary: st) (auto intro: key_dead_exec)

lemma key_dead_refused: "key_dead (sha256_hex c k) st \<Longrightarrow> check_api_key c (Some k) st = None"
proof -
  assume "key_dead (sha256_hex c k) st"
  then have "filter (\<lambda>r. ak_hash r = sha256_hex c k \<and> \<not> ak_revoked r) (api_keys st) = []"
    by (auto simp: key_dead_def store_wf_def distinct_map inj_on_def filter_empty_conv)
  then show ?thesis by (simp add: check_api_key_def)
qed

text \<open>The life of a client API key: it validates as soon as it is created, is refused from
  the moment it is revoked, and nothing that happens to the store afterwards revives it.\<close>

lemma api_key_lifecycle:
  assumes "store_wf st" and "create_api_key c now rnd i label st = (Inr (i', k), st1)"
  shows "check_api_key c (Some k) st1 = Some i' \<and> fst (revoke_api_key i' st1)
    \<and> check_api_key c (Some k) (fold (store_exec c) es (snd (revoke_api_key i' st1))) = None"
proof -
  have k: "k = KEY_PREFIX @ rnd" "i' = i" "sha256_hex c k \<notin> ak_hash ` set (api_keys st)"
    "api_keys st1 = api_keys st @ [\<lparr>ak_id = i, ak_hash = sha256_hex c k, ak_label = label,
       ak_created_at = now, ak_revoked = False\<rparr>]"
    using assms(2) by (auto simp: create_api_key_def Let_def split: if_splits)
  have "filter (\<lambda>r. ak_hash r = sha256_hex c k \<and> \<not> ak_revoked r) (api_keys st) = []"
    using k(3) by (metis (mono_tags, lifting) filter_False imageI)
  then have valid: "check_api_key c (Some k) st1 = Some i'"
    using k by (simp add: check_api_key_def KEY_PREFIX_def py_startswith_def)
  have "store_wf st1"
    using store_wf_exec [OF assms(1), of c "CreateKey now rnd i label"] assms(2) by simp
  then have "store_wf (snd (revoke_api_key i' st1))" using store_wf_exec [of st1 c "RevokeKey i'"] by simp
  then have "key_dead (sha256_hex c k) (snd (revoke_api_key i' st1))"
    using k by (auto simp: key_dead_def revoke_api_key_def)
  from key_dead_refused [OF key_dead_run [OF this]] valid k show ?thesis
    by (simp add: revoke_api_key_def)
qed

lemma api_key_lifecycle_witness:
  "check_api_key demo_crypto (Some ''oumigo-key-z'')
     (store_exec demo_crypto (RevokeKey ''7'') (snd (create_api_key demo_crypto 0 ''z'' ''7'' None empty_tables))) = None"
proof -
  let ?st1 = "snd (create_api_key demo_crypto 0 ''z'' ''7'' None empty_tables)"
  have "create_api_key demo_crypto 0 ''z'' ''7'' None empty_tables = (Inr (''7'', ''oumigo-key-z''), ?st1)"
    by (simp add: create_api_key_def empty_tables_def demo_crypto_def KEY_PREFIX_def Let_def)
  from api_key_lifecycle [OF store_wf_empty this, of "[]"] show ?thesis by simp
qed

text \<open>The bearer comparison is partial: where a fleet token is configured, a bearer value with
  a character outside ASCII (a header may carry one) makes every check of a node that is not
  revoked raise \<open>TypeError\<close> instead of answering no; the store is left unchanged.\<close>

lemma non_ascii_bearer_raises:
  assumes "enforced au" "reusable_token au = Some r" "bearer authz = Some t" "\<not> is_ascii t"
    "\<not> is_node_revoked n st"
  shows "\<exists>m. may_register c now au authz n st = (Inl (TypeErr m), st)
    \<and> may_act_as c au authz n st = Inl (TypeErr m) \<and> may_read_spec c now au authz st = Inl (TypeErr m)"
  using assms by (simp add: may_register_def may_act_as_def may_read_spec_def is_reusable_def compare_digest_def)

lemma non_ascii_bearer_raises_witness:
  "\<exists>m. may_act_as demo_crypto (make_authenticator (Some ''s3cret'') False)
     (Some (''Bearer '' @ [char_of (233 :: nat)])) ''00ab'' empty_tables = Inl (TypeErr m)"
proof -
  have "bearer (Some (''Bearer '' @ [char_of (233 :: nat)])) = Some [char_of (233 :: nat)]" by code_simp
  moreover have "\<not> is_ascii [char_of (233 :: nat)]" by code_simp
  ultimately show ?thesis
    using non_ascii_bearer_raises [of "make_authenticator (Some ''s3cret'') False" "''s3cret''"
        "Some (''Bearer '' @ [char_of (233 :: nat)])" "[char_of (233 :: nat)]" "''00ab''" empty_tables demo_crypto]
    by (auto simp: make_authenticator_def is_node_revoked_def empty_tables_def)
qed

text \<open>Reopening the store, by the manager or the command line, finds the secret that was stored.\<close>

lemma signing_secret_stable:
  assumes "open_store f1 db = Inr st" shows "open_store f2 st = Inr st"
  using assms by (auto simp: open_store_def signing_secret_def Let_def split: option.splits sum.splits prod.splits)

end
