(* ===== verification/Catalog.thy ===== *)
theory Catalog
  imports Prelude
begin

text \<open>
  The model catalog and the specification a worker gets: profiles, their ids, the fleet catalog
  (\<open>src/src/oumigo/config/catalog.py\<close>), \<open>NodeSpec\<close> with the normalisation of its storage
  location (\<open>config/spec.py\<close>). Parsing and validating one YAML profile file is third-party
  code, so a directory tree is given as the list of its files in path order, each with its stem and
  the profile it holds or the error reading it raised.
\<close>

section \<open>Profiles\<close>

record engine_settings =
  es_max_model_len :: "int option"
  es_gpu_memory_utilization :: real
  es_dtype :: string
  es_tensor_parallel_size :: int
  es_max_concurrent_requests :: int
  es_extra_args :: "string list"

record model_caps =
  mc_max_output_tokens :: "int option"
  mc_max_audio_seconds :: "real option"
  mc_max_queue_seconds :: "real option"

record agent_limits =
  turn_timeout :: "real option"
  stall_timeout :: "real option"

record requirements =
  rq_min_vram_gib :: "real option"
  rq_vllm :: "string option"

record catalog_profile =
  pf_id :: string
  pf_model :: string
  pf_storage_location :: "string option"
  pf_download_dir :: "string option"
  pf_engine :: engine_settings
  pf_caps :: model_caps
  pf_agent :: "agent_limits option"
  pf_requires :: requirements

record node_spec =
  ns_model :: string
  ns_profile :: "string option"
  ns_storage_location :: "string option"
  ns_host :: string
  ns_port :: int
  ns_dtype :: string
  ns_tensor_parallel_size :: int
  ns_gpu_memory_utilization :: real
  ns_max_concurrent_requests :: int
  ns_max_model_len :: "int option"
  ns_max_audio_seconds :: "real option"
  ns_max_output_tokens :: "int option"
  ns_download_dir :: "string option"
  ns_extra_args :: "string list"
  ns_min_vram_gib :: "real option"
  ns_requires_vllm :: "string option"

definition ns_served_name :: "node_spec \<Rightarrow> string" where
  "ns_served_name ns = (if truthy (ns_profile ns) then the (ns_profile ns) else ns_model ns)"

text \<open>The id pattern \<open>_ID_RE\<close>, read by its only \<open>@\<close> and the \<open>-\<close> of the variants. Python's \<open>$\<close> also
  matches before a final newline.\<close>

definition id_alnum :: "char \<Rightarrow> bool" where
  "id_alnum ch = (let n = (of_char ch :: nat) in
     (48 \<le> n \<and> n \<le> 57) \<or> (65 \<le> n \<and> n \<le> 90) \<or> (97 \<le> n \<and> n \<le> 122))"

definition id_digit :: "char \<Rightarrow> bool" where
  "id_digit ch = (let n = (of_char ch :: nat) in 48 \<le> n \<and> n \<le> 57)"

definition id_word :: "char \<Rightarrow> bool" where
  "id_word ch = (id_alnum ch \<or> ch = CHR ''.'' \<or> ch = CHR ''_'')"

definition id_context :: "string \<Rightarrow> bool" where
  "id_context s =
     (s = ''default'' \<or>
      (let d = (if s \<noteq> [] \<and> last s = CHR ''k'' then butlast s else s) in d \<noteq> [] \<and> list_all id_digit d))"

definition id_matches :: "string \<Rightarrow> bool" where
  "id_matches s0 =
     (let s = (if s0 \<noteq> [] \<and> last s0 = char_of (10 :: nat) then butlast s0 else s0);
          (repo, sep, rest) = py_partition (CHR ''@'') s in
      sep \<and> repo \<noteq> [] \<and> id_alnum (hd repo) \<and> list_all (\<lambda>ch. id_word ch \<or> ch = CHR ''-'') repo \<and>
      (case py_split (CHR ''-'') rest of
         [] \<Rightarrow> False
       | ctx # variants \<Rightarrow> id_context ctx \<and> list_all (\<lambda>v. v \<noteq> [] \<and> list_all id_word v) variants))"

definition check_id :: "string \<Rightarrow> string res" where
  "check_id value = (if id_matches value then Inr value else Inl (ValueErr value))"

definition vendor :: "catalog_profile \<Rightarrow> string" where
  "vendor p = (let (owner, sep, rest) = py_partition (CHR ''/'') (pf_model p) in if sep then owner else [])"

definition profile_node_spec :: "catalog_profile \<Rightarrow> int \<Rightarrow> node_spec" where
  "profile_node_spec p prt =
     \<lparr>ns_model = pf_model p, ns_profile = Some (pf_id p), ns_storage_location = pf_storage_location p,
      ns_host = ''0.0.0.0'', ns_port = prt, ns_dtype = es_dtype (pf_engine p),
      ns_tensor_parallel_size = es_tensor_parallel_size (pf_engine p),
      ns_gpu_memory_utilization = es_gpu_memory_utilization (pf_engine p),
      ns_max_concurrent_requests = es_max_concurrent_requests (pf_engine p),
      ns_max_model_len = es_max_model_len (pf_engine p),
      ns_max_audio_seconds = mc_max_audio_seconds (pf_caps p),
      ns_max_output_tokens = mc_max_output_tokens (pf_caps p),
      ns_download_dir = pf_download_dir p, ns_extra_args = es_extra_args (pf_engine p),
      ns_min_vram_gib = rq_min_vram_gib (pf_requires p), ns_requires_vllm = rq_vllm (pf_requires p)\<rparr>"

definition context_label :: "int option \<Rightarrow> string" where
  "context_label max_model_len =
     (case max_model_len of
        None \<Rightarrow> ''default''
      | Some n \<Rightarrow> if n mod 1024 \<noteq> 0 then int_str n else int_str (n div 1024) @ ''k'')"

section \<open>Storage locations\<close>

text \<open>The parts of \<open>urlparse\<close> the validator reads: a scheme (letters, digits, \<open>+-.\<close>, starting with a
  letter, in lower case), a network location after \<open>//\<close>, and the path before a query or fragment.\<close>

definition scheme_char :: "char \<Rightarrow> bool" where
  "scheme_char ch = (id_alnum ch \<or> ch \<in> {CHR ''+'', CHR ''-'', CHR ''.''})"

definition url_split :: "string \<Rightarrow> string \<times> string \<times> string" where
  "url_split url =
     (let (pre, sep, post) = py_partition (CHR '':'') url;
          has = (sep \<and> pre \<noteq> [] \<and> id_alnum (hd pre) \<and> \<not> id_digit (hd pre) \<and> list_all scheme_char pre);
          scheme = (if has then py_lower pre else []);
          rest = (if has then post else url);
          stop = (\<lambda>ch. ch \<notin> {CHR ''/'', CHR ''?'', CHR ''#''}) in
      if take 2 rest = ''//''
      then (scheme, takeWhile stop (drop 2 rest),
            takeWhile (\<lambda>ch. ch \<notin> {CHR ''?'', CHR ''#''}) (dropWhile stop (drop 2 rest)))
      else (scheme, [], takeWhile (\<lambda>ch. ch \<notin> {CHR ''?'', CHR ''#''}) rest))"

definition normalize_storage_location :: "string option \<Rightarrow> string option res" where
  "normalize_storage_location value =
     (case value of
        None \<Rightarrow> Inr None
      | Some v \<Rightarrow>
          let txt = py_strip v in
          if txt = [] \<or> py_lower txt \<in> {''none'', ''null''} then Inr None
          else
            let (scheme, netloc, path) = url_split txt in
            if scheme \<noteq> ''file'' then Inl (ValueErr ''storage_location must be a file URI'')
            else if netloc \<notin> {[], ''localhost''} then Inl (ValueErr ''storage_location names a remote host'')
            else if \<not> py_startswith path ''/'' then Inl (ValueErr ''storage_location is not absolute'')
            else Inr (Some txt))"

section \<open>Loading profiles\<close>

type_synonym profile_file = "string \<times> catalog_profile res"

definition load_profile :: "profile_file \<Rightarrow> catalog_profile res" where
  "load_profile f =
     res_bind (snd f) (\<lambda>p. if pf_id p \<noteq> fst f then Inl (ValueErr ''id must equal the file name'') else Inr p)"

fun load_tree ::
  "profile_file list \<Rightarrow> string list \<Rightarrow> (string \<times> catalog_profile) list \<Rightarrow> (string \<times> catalog_profile) list res" where
  "load_tree [] seen ps = Inr ps"
| "load_tree (f # fs) seen ps =
     res_bind (load_profile f) (\<lambda>p.
       if pf_id p \<in> set seen then Inl (ValueErr ''duplicate profile id'')
       else load_tree fs (pf_id p # seen) (AList.update (pf_id p) p ps))"

text \<open>The trees in order, the shipped one first; \<open>None\<close> is a directory that does not exist.\<close>

fun load_profiles ::
  "profile_file list option list \<Rightarrow> (string \<times> catalog_profile) list \<Rightarrow> (string \<times> catalog_profile) list res" where
  "load_profiles [] ps = Inr ps"
| "load_profiles (None # trees) ps = Inl (ValueErr ''catalog directory not found'')"
| "load_profiles (Some fs # trees) ps = res_bind (load_tree fs [] ps) (load_profiles trees)"

section \<open>The fleet catalog\<close>

record fleet_catalog =
  profiles :: "(string \<times> catalog_profile) list"
  default_id :: "string option"

definition make_catalog :: "(string \<times> catalog_profile) list \<Rightarrow> string option \<Rightarrow> fleet_catalog res" where
  "make_catalog ps d =
     (case d of
        Some i \<Rightarrow> if map_of ps i = None then Inl (ValueErr ''catalog.default is not in catalog.allow'')
                  else Inr \<lparr>profiles = ps, default_id = d\<rparr>
      | None \<Rightarrow> Inr \<lparr>profiles = ps, default_id = None\<rparr>)"

definition catalog_get :: "fleet_catalog \<Rightarrow> string \<Rightarrow> catalog_profile option" where
  "catalog_get cat i = map_of (profiles cat) i"

definition default_profile :: "fleet_catalog \<Rightarrow> catalog_profile option" where
  "default_profile cat = (if truthy (default_id cat) then map_of (profiles cat) (the (default_id cat)) else None)"

text \<open>\<open>_from_block\<close>: the block's \<open>allow\<close> list and \<open>default\<close>; \<open>trees\<close> are the shipped tree and the
  block's \<open>dirs\<close>.\<close>

definition catalog_from_block ::
  "profile_file list option list \<Rightarrow> string list \<Rightarrow> string option \<Rightarrow> fleet_catalog res" where
  "catalog_from_block trees allow dflt =
     (if allow = [] then Inl (ValueErr ''catalog.allow must list at least one profile id'')
      else res_bind (load_profiles trees []) (\<lambda>available.
        if list_ex (\<lambda>pid. map_of available pid = None) allow
        then Inl (ValueErr ''catalog.allow names unknown profiles'')
        else make_catalog (fold (\<lambda>pid d. AList.update pid (the (map_of available pid)) d) allow []) dflt))"

record legacy_model =
  lm_name :: string
  lm_max_model_len :: "int option"
  lm_storage_location :: "string option"
  lm_download_dir :: "string option"
  lm_gpu_memory_utilization :: "real option"
  lm_dtype :: "string option"
  lm_tensor_parallel_size :: "int option"
  lm_max_concurrent_requests :: "int option"
  lm_extra_args :: "string list"
  lm_max_output_tokens :: "int option"
  lm_max_audio_seconds :: "real option"

definition legacy_profile :: "legacy_model \<Rightarrow> catalog_profile res" where
  "legacy_profile m =
     (let repo_name = last (py_split (CHR ''/'') (lm_name m));
          pid = repo_name @ ''@'' @ context_label (lm_max_model_len m) in
      res_map (\<lambda>i.
        \<lparr>pf_id = i, pf_model = lm_name m, pf_storage_location = lm_storage_location m,
         pf_download_dir = lm_download_dir m,
         pf_engine = \<lparr>es_max_model_len = lm_max_model_len m,
            es_gpu_memory_utilization = default_to (8 / 10) (lm_gpu_memory_utilization m),
            es_dtype = default_to ''auto'' (lm_dtype m),
            es_tensor_parallel_size = default_to 1 (lm_tensor_parallel_size m),
            es_max_concurrent_requests = default_to 4 (lm_max_concurrent_requests m),
            es_extra_args = lm_extra_args m\<rparr>,
         pf_caps = \<lparr>mc_max_output_tokens = lm_max_output_tokens m,
            mc_max_audio_seconds = lm_max_audio_seconds m, mc_max_queue_seconds = None\<rparr>,
         pf_agent = None, pf_requires = \<lparr>rq_min_vram_gib = None, rq_vllm = None\<rparr>\<rparr>) (check_id pid))"

text \<open>\<open>from_config\<close>: the \<open>catalog:\<close> block if present, and the legacy \<open>model:\<close> block if it is not empty
  (without a name it counts as no model).\<close>

definition catalog_from_config ::
  "profile_file list option list \<Rightarrow> (string list \<times> string option) option \<Rightarrow> legacy_model option \<Rightarrow> fleet_catalog res"
where
  "catalog_from_config trees block legacy =
     (case (block, legacy) of
        (Some _, Some _) \<Rightarrow> Inl (ValueErr ''manager config has both catalog: and model:'')
      | (Some (allow, dflt), None) \<Rightarrow> catalog_from_block trees allow dflt
      | (None, Some m) \<Rightarrow>
          (if lm_name m = [] then make_catalog [] None
           else res_bind (legacy_profile m) (\<lambda>p. make_catalog [(pf_id p, p)] (Some (pf_id p))))
      | (None, None) \<Rightarrow> make_catalog [] None)"

definition build_node_spec :: "fleet_catalog \<Rightarrow> int \<Rightarrow> node_spec option" where
  "build_node_spec cat prt = map_option (\<lambda>p. profile_node_spec p prt) (default_profile cat)"

section \<open>Catalogs are keyed by profile id\<close>

definition keyed :: "(string \<times> catalog_profile) list \<Rightarrow> bool" where
  "keyed ps \<longleftrightarrow> dict_wf ps \<and> (\<forall>(i, p) \<in> set ps. pf_id p = i)"

lemma keyed_Nil [simp]: "keyed []"
  by (simp add: keyed_def)

lemma keyed_update: "keyed ps \<Longrightarrow> pf_id p = i \<Longrightarrow> keyed (AList.update i p ps)"
  by (auto simp: keyed_def set_update_dict)

lemma keyed_map_of: "keyed ps \<Longrightarrow> map_of ps i = Some p \<Longrightarrow> pf_id p = i"
  by (auto simp: keyed_def dest!: map_of_SomeD)

lemma load_tree_keyed: "load_tree fs seen ps = Inr qs \<Longrightarrow> keyed ps \<Longrightarrow> keyed qs"
  by (induction fs seen ps rule: load_tree.induct) (auto simp: res_bind_Inr keyed_update split: if_splits)

lemma load_profiles_keyed: "load_profiles trees ps = Inr qs \<Longrightarrow> keyed ps \<Longrightarrow> keyed qs"
  by (induction trees ps rule: load_profiles.induct) (auto simp: res_bind_Inr intro: load_tree_keyed)

lemma fold_allow_keyed:
  assumes "keyed av" "\<forall>pid \<in> set allow. map_of av pid \<noteq> None" "keyed d"
  shows "keyed (fold (\<lambda>pid d. AList.update pid (the (map_of av pid)) d) allow d)
    \<and> fst ` set (fold (\<lambda>pid d. AList.update pid (the (map_of av pid)) d) allow d) = fst ` set d \<union> set allow"
  using assms(2,3)
proof (induction allow arbitrary: d)
  case (Cons pid allow)
  let ?d = "AList.update pid (the (map_of av pid)) d"
  have "keyed ?d" using Cons.prems keyed_map_of [OF assms(1)] by (auto intro!: keyed_update)
  moreover have "fst ` set ?d = insert pid (fst ` set d)"
    using Cons.prems(2) by (auto simp: keyed_def set_update_dict image_iff)
  ultimately show ?case using Cons.IH [of ?d] Cons.prems(1) by simp
qed simp

lemma make_catalog_Inr: "make_catalog ps d = Inr cat \<longleftrightarrow>
  cat = \<lparr>profiles = ps, default_id = d\<rparr> \<and> (\<forall>i. d = Some i \<longrightarrow> map_of ps i \<noteq> None)"
  by (auto simp: make_catalog_def split: option.splits)

lemma legacy_profile_id:
  assumes "legacy_profile m = Inr p"
  shows "pf_id p = last (py_split (CHR ''/'') (lm_name m)) @ ''@'' @ context_label (lm_max_model_len m)"
  using assms by (auto simp: legacy_profile_def Let_def check_id_def res_map_def split: if_splits)

lemma int_str_no_k: "CHR ''k'' \<notin> set (int_str n)"
proof -
  have "CHR ''k'' \<noteq> digit_char d" if "d < 10" for d
  proof
    assume "CHR ''k'' = digit_char d"
    then have "(of_char (CHR ''k'') :: nat) = 48 + d" using that by simp
    then show False using that by simp
  qed
  then show ?thesis using nat_str_digits by (auto simp: int_str_def)
qed

lemma int_str_inj: "int_str m = int_str n \<longleftrightarrow> m = n"
proof -
  have "CHR ''-'' \<noteq> digit_char d" if "d < 10" for d
  proof
    assume "CHR ''-'' = digit_char d"
    then have "(of_char (CHR ''-'') :: nat) = 48 + d" using that by simp
    then show False using that by simp
  qed
  then have "CHR ''-'' \<notin> set (nat_str k)" for k using nat_str_digits [of k] by auto
  then have "CHR ''-'' # nat_str j \<noteq> nat_str k" "nat_str k \<noteq> CHR ''-'' # nat_str j" for j k
    by (metis list.set_intros(1))+
  then show ?thesis by (auto simp: int_str_def nat_str_inj)
qed

section \<open>Properties\<close>

text \<open>A fleet catalog that loads is consistent: ids are unique and name their own profile, the
  allowed ids are exactly those of the configuration's \<open>allow\<close> list, the default is one of them,
  and a worker given a profile serves it under its id, which is therefore the id the router routes
  by.\<close>

lemma fleet_catalog_sound:
  assumes "catalog_from_config trees block legacy = Inr cat"
  shows "keyed (profiles cat)
    \<and> (\<forall>allow d. block = Some (allow, d) \<longrightarrow> allow \<noteq> [] \<and> fst ` set (profiles cat) = set allow \<and> default_id cat = d)
    \<and> (\<forall>i. default_id cat = Some i \<longrightarrow> (\<exists>p. catalog_get cat i = Some p))
    \<and> (\<forall>i p prt. catalog_get cat i = Some p \<and> i \<noteq> [] \<longrightarrow> ns_served_name (profile_node_spec p prt) = i)"
proof -
  have keyed: "keyed (profiles cat)"
    and allow: "\<forall>allow d. block = Some (allow, d) \<longrightarrow>
      allow \<noteq> [] \<and> fst ` set (profiles cat) = set allow \<and> default_id cat = d"
    and dflt: "\<forall>i. default_id cat = Some i \<longrightarrow> map_of (profiles cat) i \<noteq> None"
  proof (atomize (full), cases block)
    case None
    with assms show "keyed (profiles cat) \<and> (\<forall>allow d. block = Some (allow, d) \<longrightarrow>
        allow \<noteq> [] \<and> fst ` set (profiles cat) = set allow \<and> default_id cat = d)
      \<and> (\<forall>i. default_id cat = Some i \<longrightarrow> map_of (profiles cat) i \<noteq> None)"
      by (auto simp: catalog_from_config_def make_catalog_Inr res_bind_Inr keyed_def dict_wf_def
          split: option.splits if_splits)
  next
    case (Some b)
    obtain al d where b: "b = (al, d)" by (cases b)
    with assms Some have fb: "catalog_from_block trees al d = Inr cat"
      by (auto simp: catalog_from_config_def split: option.splits)
    then obtain av where av: "load_profiles trees [] = Inr av" "\<forall>pid \<in> set al. map_of av pid \<noteq> None" "al \<noteq> []"
      "make_catalog (fold (\<lambda>pid d. AList.update pid (the (map_of av pid)) d) al []) d = Inr cat"
      by (auto simp: catalog_from_block_def res_bind_Inr list_ex_iff split: if_splits)
    from fold_allow_keyed [OF load_profiles_keyed [OF av(1) keyed_Nil] av(2) keyed_Nil] av(3,4) Some b
    show "keyed (profiles cat) \<and> (\<forall>allow d. block = Some (allow, d) \<longrightarrow>
        allow \<noteq> [] \<and> fst ` set (profiles cat) = set allow \<and> default_id cat = d)
      \<and> (\<forall>i. default_id cat = Some i \<longrightarrow> map_of (profiles cat) i \<noteq> None)"
      by (auto simp: make_catalog_Inr)
  qed
  have "ns_served_name (profile_node_spec p prt) = i" if "catalog_get cat i = Some p" "i \<noteq> []" for i p prt
    using keyed_map_of [OF keyed] that by (auto simp: catalog_get_def ns_served_name_def profile_node_spec_def)
  with keyed allow dflt show ?thesis by (auto simp: catalog_get_def)
qed

definition demo_legacy :: legacy_model where
  "demo_legacy = \<lparr>lm_name = ''google/gemma'', lm_max_model_len = Some 131072, lm_storage_location = None,
     lm_download_dir = None, lm_gpu_memory_utilization = None, lm_dtype = None, lm_tensor_parallel_size = None,
     lm_max_concurrent_requests = None, lm_extra_args = [], lm_max_output_tokens = None, lm_max_audio_seconds = None\<rparr>"

lemma fleet_catalog_sound_witness:
  "\<exists>cat p. catalog_from_config [] None (Some demo_legacy) = Inr cat
     \<and> catalog_get cat ''gemma@128k'' = Some p \<and> ns_served_name (profile_node_spec p 7001) = ''gemma@128k''"
proof -
  let ?id = "''gemma@128k''"
  have n: "int_str 128 = ''128''" by (simp add: int_str_def nat_str.simps digit_char_def) code_simp
  have id: "last (py_split (CHR ''/'') (lm_name demo_legacy)) @ ''@'' @ context_label (lm_max_model_len demo_legacy) = ?id"
    by (simp add: demo_legacy_def context_label_def n)
  have ok: "check_id ?id = Inr ?id" by code_simp
  then obtain p where p: "legacy_profile demo_legacy = Inr p" "pf_id p = ?id"
    unfolding legacy_profile_def Let_def id by simp
  then have c: "catalog_from_config [] None (Some demo_legacy) = Inr \<lparr>profiles = [(?id, p)], default_id = Some ?id\<rparr>"
    by (simp add: catalog_from_config_def demo_legacy_def make_catalog_def)
  moreover have "catalog_get \<lparr>profiles = [(?id, p)], default_id = Some ?id\<rparr> ?id = Some p" by (simp add: catalog_get_def)
  moreover from fleet_catalog_sound [OF c] this have "ns_served_name (profile_node_spec p 7001) = ?id" by simp
  ultimately show ?thesis by blast
qed

text \<open>Two context lengths never share a label, so two legacy models that differ in their context
  never share an id.\<close>

lemma context_label_inj:
  assumes "context_label a = context_label b" shows "a = b"
proof -
  have k: "int_str i @ ''k'' \<noteq> int_str j" "int_str j \<noteq> int_str i @ ''k''" for i j
    using int_str_no_k [of j] by (metis in_set_conv_decomp)+
  have d: "int_str i \<noteq> ''default''" "''default'' \<noteq> int_str i" for i
  proof -
    have "CHR ''d'' \<noteq> digit_char n" if "n < 10" for n
    proof
      assume "CHR ''d'' = digit_char n"
      then have "(of_char (CHR ''d'') :: nat) = 48 + n" using that by simp
      then show False using that by simp
    qed
    then have "CHR ''d'' \<notin> set (int_str i)" using nat_str_digits by (auto simp: int_str_def)
    then show "int_str i \<noteq> ''default''" "''default'' \<noteq> int_str i" by (metis list.set_intros(1))+
  qed
  have dk: "int_str i @ ''k'' \<noteq> ''default''" "''default'' \<noteq> int_str i @ ''k''" for i
    by (auto simp: append_eq_Cons_conv)
  have kilo: "m = n" if "m mod 1024 = 0" "n mod 1024 = 0" "m div 1024 = n div 1024" for m n :: int
    using that by (metis div_mult_mod_eq)
  show ?thesis using assms
    by (auto simp: context_label_def int_str_inj k d dk split: option.splits if_splits intro: kilo)
qed

end
