(* ===== verification/Shaping.thy ===== *)
theory Shaping
  imports Prelude
begin

text \<open>
  Request shaping in the router (\<open>src/src/oumigo/service/manager/router/shaping.py\<close>): the audio
  cap and the output-token clamp, on JSON payloads. Python's in-place updates of the payload are
  returned as a new payload; a decoded JSON body holds each message object once, so there is no
  aliasing to account for. Bytes are characters. The lenient base64 decoder of \<open>binascii\<close> is
  modelled as its state machine.
\<close>

definition ITEM_CEILING_S :: real where "ITEM_CEILING_S = 30"
definition HEADER_B64_CHARS :: nat where "HEADER_B64_CHARS = 768"

record audio_shaping =
  submitted_s :: real
  as_kept_s :: real
  total_items :: nat
  dropped_items :: nat
  as_limit_s :: "real option"

definition trimmed :: "audio_shaping \<Rightarrow> bool" where
  "trimmed a = (0 < dropped_items a)"

definition strip_ws :: "string \<Rightarrow> string" where
  "strip_ws d =
     (if CHR '' '' \<in> set d \<or> char_of (10 :: nat) \<in> set d \<or> char_of (13 :: nat) \<in> set d
      then concat (py_words d) else d)"

definition b64_byte_len :: "string \<Rightarrow> int" where
  "b64_byte_len d =
     (let n = length d in
      if n < 4 then 0
      else int (n div 4) * 3 - int (count_list (drop (n - 2) d) (CHR ''='')))"

section \<open>base64.b64decode(prefix, validate=False)\<close>

definition b64_value :: "char \<Rightarrow> nat option" where
  "b64_value ch =
     (let n = (of_char ch :: nat) in
      if 65 \<le> n \<and> n \<le> 90 then Some (n - 65)
      else if 97 \<le> n \<and> n \<le> 122 then Some (n - 71)
      else if 48 \<le> n \<and> n \<le> 57 then Some (n + 4)
      else if n = 43 then Some 62 else if n = 47 then Some 63 else None)"

text \<open>Position in the quad, bits left over, padding seen, output so far (reversed). \<open>None\<close> is
  \<open>binascii.Error\<close>.\<close>

fun b64_loop :: "nat \<Rightarrow> nat \<Rightarrow> nat \<Rightarrow> string \<Rightarrow> string \<Rightarrow> string option" where
  "b64_loop q left pads out [] = (if q = 0 then Some (rev out) else None)"
| "b64_loop q left pads out (x # xs) =
     (if x = CHR ''='' then
        (if 2 \<le> q \<and> 4 \<le> q + Suc pads then Some (rev out)
         else b64_loop q left (if 2 \<le> q then Suc pads else pads) out xs)
      else case b64_value x of
        None \<Rightarrow> b64_loop q left pads out xs
      | Some v \<Rightarrow>
          if q = 0 then b64_loop 1 v 0 out xs
          else if q = 1 then b64_loop 2 (v mod 16) 0 (char_of (left * 4 + v div 16) # out) xs
          else if q = 2 then b64_loop 3 (v mod 4) 0 (char_of (left * 16 + v div 4) # out) xs
          else b64_loop 0 0 0 (char_of (left * 64 + v) # out) xs)"

definition b64_head :: "string \<Rightarrow> string" where
  "b64_head d =
     (let prefix = take (min (length d) HEADER_B64_CHARS div 4 * 4) d in
      if list_all (\<lambda>ch. (of_char ch :: nat) < 128) prefix
      then default_to [] (b64_loop 0 0 0 [] prefix) else [])"

section \<open>WAV duration\<close>

definition slice :: "nat \<Rightarrow> nat \<Rightarrow> string \<Rightarrow> string" where
  "slice a b s = drop a (take b s)"

fun le_value :: "string \<Rightarrow> nat" where
  "le_value [] = 0"
| "le_value (x # xs) = of_char x + 256 * le_value xs"

function wav_loop :: "string \<Rightarrow> int \<Rightarrow> nat \<Rightarrow> nat \<Rightarrow> real option" where
  "wav_loop head total_bytes byte_rate pos =
     (if length head < pos + 8 then None
      else
        let chunk_id = slice pos (pos + 4) head;
            chunk_size = le_value (slice (pos + 4) (pos + 8) head);
            body = pos + 8;
            next_pos = body + chunk_size + chunk_size mod 2 in
        if chunk_id = ''fmt '' \<and> body + 12 \<le> length head then
          (if chunk_size = 0 then None
           else wav_loop head total_bytes (le_value (slice (body + 8) (body + 12) head)) next_pos)
        else if chunk_id = ''data'' then
          (if byte_rate = 0 then None
           else
             let avail = total_bytes - int body;
                 data_bytes = (if 0 < chunk_size \<and> int chunk_size < avail then int chunk_size else avail) in
             Some (if 0 < data_bytes then of_int data_bytes / of_nat byte_rate else 0))
        else if chunk_size = 0 then None
        else wav_loop head total_bytes byte_rate next_pos)"
  by pat_completeness auto
termination by (relation "measure (\<lambda>(head, _, _, pos). length head - pos)") auto

declare wav_loop.simps [simp del]

definition wav_seconds :: "string \<Rightarrow> int \<Rightarrow> real option" where
  "wav_seconds head total_bytes =
     (if length head < 12 \<or> slice 0 4 head \<noteq> ''RIFF'' \<or> slice 8 12 head \<noteq> ''WAVE'' then None
      else wav_loop head total_bytes 0 12)"

section \<open>Audio parts\<close>

definition part_b64 :: "(string \<times> json) list \<Rightarrow> string option" where
  "part_b64 part =
     (let kind = obj_get part ''type'' in
      if kind = JStr ''input_audio'' then
        (case obj_get part ''input_audio'' of
           JObj blob \<Rightarrow> json_str (obj_get blob ''data'')
         | _ \<Rightarrow> None)
      else if kind = JStr ''audio_url'' then
        (let url = (case obj_get part ''audio_url'' of JObj u \<Rightarrow> obj_get u ''url'' | v \<Rightarrow> v) in
         case url of
           JStr u \<Rightarrow>
             (if py_startswith u ''data:'' \<and> CHR '','' \<in> set u
              then Some (snd (snd (py_partition (CHR '','') u))) else None)
         | _ \<Rightarrow> None)
      else None)"

definition is_audio_part :: "json \<Rightarrow> bool" where
  "is_audio_part part =
     (case part of JObj kvs \<Rightarrow> obj_get kvs ''type'' \<in> {JStr ''input_audio'', JStr ''audio_url''}
      | _ \<Rightarrow> False)"

definition audio_part_seconds :: "(string \<times> json) list \<Rightarrow> real" where
  "audio_part_seconds part =
     (let data = part_b64 part in
      if \<not> truthy data then ITEM_CEILING_S
      else
        let d = strip_ws (the data) in
        case wav_seconds (b64_head d) (b64_byte_len d) of
          None \<Rightarrow> ITEM_CEILING_S
        | Some measured \<Rightarrow> if measured \<le> 0 then ITEM_CEILING_S else min measured ITEM_CEILING_S)"

definition part_seconds :: "json \<Rightarrow> real" where
  "part_seconds part = (case part of JObj kvs \<Rightarrow> audio_part_seconds kvs | _ \<Rightarrow> 0)"

definition audio_note :: "real \<Rightarrow> nat \<Rightarrow> nat \<Rightarrow> real \<Rightarrow> json" where
  "audio_note kept_s dropped items limit_s =
     JObj [(''type'', JStr ''text''),
       (''text'', JStr (''[OumiGo] This fleet processes at most '' @ fmt_fixed 0 (limit_s / 60)
         @ '' minutes of audio per request. '' @ nat_str dropped @ '' of '' @ nat_str items
         @ '' audio clips were removed before the model saw them; only the first ''
         @ fmt_fixed 1 (kept_s / 60) @ '' minutes were processed. ''
         @ ''Say so in your reply, and tell the user to send the rest in a new request.''))]"

section \<open>cap_audio\<close>

text \<open>The running totals of the loop.\<close>

record cap_state =
  cp_seconds :: real
  cp_items :: nat
  cp_dropped :: nat
  cp_kept_s :: real
  budget_spent :: bool

definition cap_start :: cap_state where
  "cap_start = \<lparr>cp_seconds = 0, cp_items = 0, cp_dropped = 0, cp_kept_s = 0, budget_spent = False\<rparr>"

fun cap_parts :: "real option \<Rightarrow> json list \<Rightarrow> cap_state \<Rightarrow> json list \<times> nat \<times> cap_state" where
  "cap_parts limit [] c = ([], 0, c)"
| "cap_parts limit (part # parts) c =
     (if \<not> is_audio_part part then
        (case cap_parts limit parts c of (kept, lost, c') \<Rightarrow> (part # kept, lost, c'))
      else
        let span = part_seconds part;
            c1 = c\<lparr>cp_items := Suc (cp_items c), cp_seconds := cp_seconds c + span\<rparr> in
        if (case limit of None \<Rightarrow> False | Some l \<Rightarrow> budget_spent c \<or> l < cp_kept_s c + span) then
          (case cap_parts limit parts (c1\<lparr>budget_spent := True, cp_dropped := Suc (cp_dropped c)\<rparr>) of
             (kept, lost, c') \<Rightarrow> (kept, Suc lost, c'))
        else
          (case cap_parts limit parts (c1\<lparr>cp_kept_s := cp_kept_s c + span\<rparr>) of
             (kept, lost, c') \<Rightarrow> (part # kept, lost, c')))"

definition cap_message :: "real option \<Rightarrow> json \<Rightarrow> cap_state \<Rightarrow> json \<times> bool \<times> cap_state" where
  "cap_message limit message c =
     (case message of
        JObj kvs \<Rightarrow>
          (case obj_get kvs ''content'' of
             JList content \<Rightarrow>
               (case cap_parts limit content c of
                  (kept, lost, c') \<Rightarrow>
                    (if 0 < lost then JObj (AList.update ''content'' (JList kept) kvs) else message,
                     0 < lost, c'))
           | _ \<Rightarrow> (message, False, c))
      | _ \<Rightarrow> (message, False, c))"

fun cap_messages :: "real option \<Rightarrow> json list \<Rightarrow> cap_state \<Rightarrow> json list \<times> bool list \<times> cap_state" where
  "cap_messages limit [] c = ([], [], c)"
| "cap_messages limit (m # ms) c =
     (case cap_message limit m c of (m', lost, c1) \<Rightarrow>
      case cap_messages limit ms c1 of (ms', losts, c2) \<Rightarrow> (m' # ms', lost # losts, c2))"

text \<open>The note goes to the first message that lost parts.\<close>

definition prepend_note :: "json \<Rightarrow> json \<Rightarrow> json" where
  "prepend_note nt message =
     (case message of
        JObj kvs \<Rightarrow>
          (case obj_get kvs ''content'' of
             JList content \<Rightarrow> JObj (AList.update ''content'' (JList (nt # content)) kvs)
           | _ \<Rightarrow> message)
      | _ \<Rightarrow> message)"

fun add_note :: "json \<Rightarrow> json list \<Rightarrow> bool list \<Rightarrow> json list" where
  "add_note nt (m # ms) (lost # losts) = (if lost then prepend_note nt m # ms else m # add_note nt ms losts)"
| "add_note nt ms _ = ms"

definition cap_audio :: "(string \<times> json) list \<Rightarrow> real option \<Rightarrow> audio_shaping \<times> (string \<times> json) list" where
  "cap_audio payload limit_s =
     (case obj_get payload ''messages'' of
        JList messages \<Rightarrow>
          (case cap_messages limit_s messages cap_start of
             (ms, losts, c) \<Rightarrow>
               (\<lparr>submitted_s = cp_seconds c, as_kept_s = cp_kept_s c, total_items = cp_items c,
                 dropped_items = cp_dropped c, as_limit_s = limit_s\<rparr>,
                if True \<notin> set losts then payload
                else AList.update ''messages''
                  (JList (add_note (audio_note (cp_kept_s c) (cp_dropped c) (cp_items c) (default_to 0 limit_s)) ms losts))
                  payload))
      | _ \<Rightarrow> (\<lparr>submitted_s = 0, as_kept_s = 0, total_items = 0, dropped_items = 0, as_limit_s = limit_s\<rparr>, payload))"

section \<open>clamp_output_tokens\<close>

definition clamp_field :: "int \<Rightarrow> string \<Rightarrow> bool \<times> (string \<times> json) list \<Rightarrow> bool \<times> (string \<times> json) list" where
  "clamp_field ceil_n field st =
     (case st of (changed, payload) \<Rightarrow>
      if field = ''max_completion_tokens'' \<and> map_of payload field = None then st
      else
        let requested = obj_get payload field;
            capped = (case json_int requested of
                        Some n \<Rightarrow> if 0 < n then min n ceil_n else ceil_n
                      | None \<Rightarrow> ceil_n) in
        if \<not> py_eq requested (JInt capped) then (True, AList.update field (JInt capped) payload) else st)"

definition clamp_output_tokens ::
  "(string \<times> json) list \<Rightarrow> int option \<Rightarrow> bool \<times> (string \<times> json) list" where
  "clamp_output_tokens payload ceil_n =
     (case ceil_n of
        None \<Rightarrow> (False, payload)
      | Some c \<Rightarrow>
          if c \<le> 0 then (False, payload)
          else clamp_field c ''max_completion_tokens'' (clamp_field c ''max_tokens'' (False, payload)))"

definition shaping_headers :: "audio_shaping \<Rightarrow> (string \<times> string) list" where
  "shaping_headers a =
     (if \<not> trimmed a then []
      else [(''x-oumigo-audio-trimmed'', ''true''),
            (''x-oumigo-audio-limit-seconds'', fmt_fixed 0 (default_to 0 (as_limit_s a))),
            (''x-oumigo-audio-submitted-seconds'', fmt_fixed 1 (submitted_s a)),
            (''x-oumigo-audio-processed-seconds'', fmt_fixed 1 (as_kept_s a)),
            (''x-oumigo-audio-clips-dropped'', nat_str (dropped_items a) @ ''/'' @ nat_str (total_items a))])"

section \<open>What a part costs\<close>

lemma audio_part_seconds_range: "0 < audio_part_seconds p \<and> audio_part_seconds p \<le> 30"
  by (auto simp: audio_part_seconds_def Let_def ITEM_CEILING_S_def split: option.split)

lemma part_seconds_range: "is_audio_part p \<Longrightarrow> 0 < part_seconds p \<and> part_seconds p \<le> 30"
  using audio_part_seconds_range by (auto simp: is_audio_part_def part_seconds_def split: json.splits)

lemma audio_note_not_audio [simp]: "\<not> is_audio_part (audio_note k d t l)"
  by (simp add: is_audio_part_def audio_note_def obj_get_def)

section \<open>The cap as a cut\<close>

text \<open>The reference: the audio parts of a message, of a request, and what they cost.\<close>

definition content_parts :: "json \<Rightarrow> json list" where
  "content_parts m = (case m of JObj kvs \<Rightarrow> (case obj_get kvs ''content'' of JList ps \<Rightarrow> ps | _ \<Rightarrow> []) | _ \<Rightarrow> [])"

definition audio_of :: "json list \<Rightarrow> json list" where
  "audio_of parts = filter is_audio_part parts"

definition request_audio :: "json list \<Rightarrow> json list" where
  "request_audio ms = audio_of (concat (map content_parts ms))"

definition seconds_of :: "json list \<Rightarrow> real" where
  "seconds_of parts = sum_list (map part_seconds parts)"

lemma audio_of_simps [simp]: "audio_of [] = []" "audio_of (xs @ ys) = audio_of xs @ audio_of ys"
  "audio_of (x # xs) = (if is_audio_part x then x # audio_of xs else audio_of xs)"
  by (simp_all add: audio_of_def)

lemma seconds_of_simps [simp]: "seconds_of [] = 0" "seconds_of (x # xs) = part_seconds x + seconds_of xs"
  "seconds_of (xs @ ys) = seconds_of xs + seconds_of ys"
  by (simp_all add: seconds_of_def)

lemma seconds_of_audio_nonneg: "0 \<le> seconds_of (audio_of xs)"
  by (induction xs) (use part_seconds_range in \<open>auto simp: less_imp_le add_nonneg_nonneg\<close>)

text \<open>One pass over a list of parts. Everything about it in one invariant: once the budget is
  spent nothing more is kept, so the kept audio is a leading segment; totals count it exactly.\<close>

definition cut_list :: "json list \<Rightarrow> json list \<Rightarrow> json list \<Rightarrow> bool" where
  "cut_list input kept gone \<longleftrightarrow> audio_of kept @ gone = audio_of input \<and>
     filter (\<lambda>p. \<not> is_audio_part p) kept = filter (\<lambda>p. \<not> is_audio_part p) input \<and>
     (gone = [] \<longrightarrow> kept = input)"

definition cut_totals :: "json list \<Rightarrow> cap_state \<Rightarrow> json list \<Rightarrow> json list \<Rightarrow> cap_state \<Rightarrow> bool" where
  "cut_totals input c kept gone c' \<longleftrightarrow>
     cp_seconds c' = cp_seconds c + seconds_of (audio_of input) \<and>
     cp_kept_s c' = cp_kept_s c + seconds_of (audio_of kept) \<and>
     cp_items c' = cp_items c + length (audio_of input) \<and>
     cp_dropped c' = cp_dropped c + length gone"

definition cut_budget :: "real option \<Rightarrow> cap_state \<Rightarrow> json list \<Rightarrow> json list \<Rightarrow> cap_state \<Rightarrow> bool" where
  "cut_budget limit c kept gone c' \<longleftrightarrow>
     (budget_spent c' \<longleftrightarrow> budget_spent c \<or> gone \<noteq> []) \<and>
     (case limit of None \<Rightarrow> gone = []
      | Some l \<Rightarrow> (budget_spent c \<longrightarrow> audio_of kept = []) \<and> (cp_kept_s c \<le> l \<longrightarrow> cp_kept_s c' \<le> l)
          \<and> (gone \<noteq> [] \<and> \<not> budget_spent c \<longrightarrow> l < cp_kept_s c' + seconds_of gone))"

definition cut_ok :: "real option \<Rightarrow> json list \<Rightarrow> cap_state \<Rightarrow> json list \<Rightarrow> json list \<Rightarrow> cap_state \<Rightarrow> bool" where
  "cut_ok limit input c kept gone c' \<longleftrightarrow>
     cut_list input kept gone \<and> cut_totals input c kept gone c' \<and> cut_budget limit c kept gone c'"

lemmas cut_defs = cut_list_def cut_totals_def cut_budget_def

lemma cut_ok_Nil: "cut_ok limit [] c [] [] c"
  by (auto simp: cut_ok_def cut_defs split: option.split)

lemma cut_ok_other:
  "\<not> is_audio_part part \<Longrightarrow> cut_ok limit parts c k gone c' \<Longrightarrow> cut_ok limit (part # parts) c (part # k) gone c'"
  by (cases limit) (auto simp: cut_ok_def cut_list_def cut_totals_def cut_budget_def)

lemma cut_ok_drop:
  assumes "is_audio_part part" "limit = Some l" "budget_spent c \<or> l < cp_kept_s c + part_seconds part"
    and ok: "cut_ok limit parts (c\<lparr>cp_items := Suc (cp_items c), cp_seconds := cp_seconds c + part_seconds part,
      budget_spent := True, cp_dropped := Suc (cp_dropped c)\<rparr>) kept gone c'"
  shows "cut_ok limit (part # parts) c kept (part # gone) c'"
proof -
  have "audio_of kept = []" using assms by (auto simp: cut_ok_def cut_budget_def)
  then have "cut_list (part # parts) kept (part # gone)" "cut_totals (part # parts) c kept (part # gone) c'"
    using assms(1) ok by (auto simp: cut_ok_def cut_list_def cut_totals_def)
  moreover have "audio_of parts = gone" "cp_kept_s c' = cp_kept_s c"
    using ok \<open>audio_of kept = []\<close> by (auto simp: cut_ok_def cut_list_def cut_totals_def)
  then have "0 \<le> seconds_of gone" using seconds_of_audio_nonneg [of parts] by simp
  with \<open>cp_kept_s c' = cp_kept_s c\<close> have "cut_budget limit c kept (part # gone) c'"
    using assms(2,3) ok \<open>audio_of kept = []\<close> by (auto simp: cut_ok_def cut_budget_def)
  ultimately show ?thesis by (simp add: cut_ok_def)
qed

lemma cut_ok_keep:
  assumes "is_audio_part part" "\<And>l. limit = Some l \<Longrightarrow> \<not> budget_spent c \<and> cp_kept_s c + part_seconds part \<le> l"
    and ok: "cut_ok limit parts (c\<lparr>cp_items := Suc (cp_items c), cp_seconds := cp_seconds c + part_seconds part,
      cp_kept_s := cp_kept_s c + part_seconds part\<rparr>) k gone c'"
  shows "cut_ok limit (part # parts) c (part # k) gone c'"
proof -
  have "cut_list (part # parts) (part # k) gone" "cut_totals (part # parts) c (part # k) gone c'"
    using assms(1) ok by (auto simp: cut_ok_def cut_list_def cut_totals_def)
  moreover have "cut_budget limit c (part # k) gone c'"
  proof (cases limit)
    case (Some l)
    with assms(2) [OF Some] ok show ?thesis by (auto simp: cut_ok_def cut_budget_def)
  qed (use ok in \<open>auto simp: cut_ok_def cut_budget_def\<close>)
  ultimately show ?thesis by (simp add: cut_ok_def)
qed

lemma cap_parts_cut:
  "cap_parts limit parts c = (kept, lost, c') \<Longrightarrow> \<exists>gone. length gone = lost \<and> cut_ok limit parts c kept gone c'"
proof (induction parts arbitrary: c kept lost)
  case Nil
  then show ?case by (intro exI [of _ "[]"]) (simp add: cut_ok_Nil)
next
  case (Cons part parts)
  let ?span = "part_seconds part"
  let ?c1 = "c\<lparr>cp_items := Suc (cp_items c), cp_seconds := cp_seconds c + ?span\<rparr>"
  let ?over = "case limit of None \<Rightarrow> False | Some l \<Rightarrow> budget_spent c \<or> l < cp_kept_s c + ?span"
  consider (other) "\<not> is_audio_part part" | (drop) "is_audio_part part" "?over"
    | (keep) "is_audio_part part" "\<not> ?over" by blast
  then show ?case
  proof cases
    case other
    then obtain k where k: "cap_parts limit parts c = (k, lost, c')" "kept = part # k"
      using Cons.prems by (auto split: prod.splits)
    from Cons.IH [OF k(1)] cut_ok_other [OF other] k(2) show ?thesis by blast
  next
    case drop
    let ?c2 = "?c1\<lparr>budget_spent := True, cp_dropped := Suc (cp_dropped c)\<rparr>"
    obtain l where l: "cap_parts limit parts ?c2 = (kept, l, c')" "lost = Suc l"
      using Cons.prems drop by (auto simp: Let_def split: prod.splits)
    obtain b where lim: "limit = Some b" "budget_spent c \<or> b < cp_kept_s c + ?span"
      using drop by (auto split: option.splits)
    from Cons.IH [OF l(1)] obtain gone where "length gone = l" "cut_ok limit parts ?c2 kept gone c'" by blast
    with cut_ok_drop [OF drop(1) lim(1,2)] l(2) show ?thesis by (intro exI [of _ "part # gone"]) simp
  next
    case keep
    let ?c2 = "?c1\<lparr>cp_kept_s := cp_kept_s c + ?span\<rparr>"
    obtain k where k: "cap_parts limit parts ?c2 = (k, lost, c')" "kept = part # k"
      using Cons.prems keep by (auto simp: Let_def split: prod.splits)
    have lim: "\<And>l. limit = Some l \<Longrightarrow> \<not> budget_spent c \<and> cp_kept_s c + ?span \<le> l" using keep(2) by auto
    from Cons.IH [OF k(1)] cut_ok_keep [OF keep(1) lim] k(2) show ?thesis by blast
  qed
qed

lemma content_parts_update [simp]:
  "content_parts (JObj (AList.update ''content'' (JList ps) kvs)) = ps"
  by (simp add: content_parts_def obj_get_def update_conv')

lemma cap_message_cut:
  assumes "cap_message limit m c = (m', lost, c')"
  shows "\<exists>gone. cut_ok limit (content_parts m) c (content_parts m') gone c' \<and> lost = (gone \<noteq> [])
    \<and> (\<not> lost \<longrightarrow> m' = m)
    \<and> (lost \<longrightarrow> (\<exists>kvs. m = JObj kvs \<and> m' = JObj (AList.update ''content'' (JList (content_parts m')) kvs)))"
proof (cases "\<exists>kvs content. m = JObj kvs \<and> obj_get kvs ''content'' = JList content")
  case True
  then obtain kvs content where m: "m = JObj kvs" "obj_get kvs ''content'' = JList content" by blast
  obtain kept n where n: "cap_parts limit content c = (kept, n, c')" "lost = (0 < n)"
    "m' = (if 0 < n then JObj (AList.update ''content'' (JList kept) kvs) else m)"
    using assms m by (auto simp: cap_message_def split: prod.splits)
  obtain gone where g: "length gone = n" "cut_ok limit content c kept gone c'"
    using cap_parts_cut [OF n(1)] by blast
  have "content_parts m = content" using m by (simp add: content_parts_def)
  moreover have "content_parts m' = kept"
    using n(3) g m by (auto simp: cut_ok_def cut_list_def content_parts_def obj_get_def update_conv')
  ultimately show ?thesis using n(2,3) g m by (intro exI [of _ gone]) auto
next
  case False
  then have "m' = m" "\<not> lost" "c' = c" "content_parts m = []"
    using assms by (auto simp: cap_message_def content_parts_def split: json.splits)
  then show ?thesis by (intro exI [of _ "[]"]) (simp add: cut_ok_Nil)
qed

lemma cut_ok_append:
  assumes a: "cut_ok limit xs c k1 g1 c1" and b: "cut_ok limit ys c1 k2 g2 c2"
  shows "cut_ok limit (xs @ ys) c (k1 @ k2) (g1 @ g2) c2"
proof -
  have k2: "audio_of k2 = []" if "g1 \<noteq> []"
    using a b that by (cases limit) (auto simp: cut_ok_def cut_budget_def)
  have "cut_list (xs @ ys) (k1 @ k2) (g1 @ g2)"
  proof (cases "g1 = []")
    case True
    with a b show ?thesis by (simp add: cut_ok_def cut_list_def)
  next
    case False
    with a b k2 [OF False] show ?thesis by (simp add: cut_ok_def cut_list_def)
  qed
  moreover have "cut_totals (xs @ ys) c (k1 @ k2) (g1 @ g2) c2"
    using a b by (auto simp: cut_ok_def cut_totals_def)
  moreover have "cut_budget limit c (k1 @ k2) (g1 @ g2) c2"
  proof (cases limit)
    case (Some l)
    have "l < cp_kept_s c2 + seconds_of (g1 @ g2)" if "g1 \<noteq> []" "\<not> budget_spent c"
    proof -
      have "audio_of ys = g2" "cp_kept_s c2 = cp_kept_s c1" "l < cp_kept_s c1 + seconds_of g1"
        using a b Some that k2 by (auto simp: cut_ok_def cut_list_def cut_totals_def cut_budget_def)
      with seconds_of_audio_nonneg [of ys] show ?thesis by simp
    qed
    moreover have "l < cp_kept_s c2 + seconds_of (g1 @ g2)" if "g1 = []" "g2 \<noteq> []" "\<not> budget_spent c"
      using a b Some that by (auto simp: cut_ok_def cut_budget_def)
    ultimately show ?thesis using a b Some by (auto simp: cut_ok_def cut_budget_def)
  qed (use a b in \<open>auto simp: cut_ok_def cut_budget_def\<close>)
  ultimately show ?thesis by (simp add: cut_ok_def)
qed

lemma cap_messages_cut:
  "cap_messages limit ms c = (ms', losts, c') \<Longrightarrow>
   \<exists>gone. cut_ok limit (concat (map content_parts ms)) c (concat (map content_parts ms')) gone c'
     \<and> (True \<in> set losts) = (gone \<noteq> []) \<and> length ms' = length ms \<and> length losts = length ms
     \<and> (\<forall>i < length ms. losts ! i \<longrightarrow> (\<exists>kvs. ms ! i = JObj kvs
          \<and> ms' ! i = JObj (AList.update ''content'' (JList (content_parts (ms' ! i))) kvs)))
     \<and> (\<forall>i < length ms. \<not> losts ! i \<longrightarrow> ms' ! i = ms ! i)"
proof (induction ms arbitrary: c ms' losts)
  case Nil
  then show ?case by (intro exI [of _ "[]"]) (simp add: cut_ok_Nil)
next
  case (Cons m ms)
  obtain m1 l1 c1 ms1 ls where st: "cap_message limit m c = (m1, l1, c1)"
    "cap_messages limit ms c1 = (ms1, ls, c')" "ms' = m1 # ms1" "losts = l1 # ls"
    using Cons.prems by (auto split: prod.splits)
  obtain g1 where g1: "cut_ok limit (content_parts m) c (content_parts m1) g1 c1" "l1 = (g1 \<noteq> [])"
    "\<not> l1 \<longrightarrow> m1 = m" "l1 \<longrightarrow> (\<exists>kvs. m = JObj kvs \<and> m1 = JObj (AList.update ''content'' (JList (content_parts m1)) kvs))"
    using cap_message_cut [OF st(1)] by blast
  obtain g2 where g2: "cut_ok limit (concat (map content_parts ms)) c1 (concat (map content_parts ms1)) g2 c'"
    "(True \<in> set ls) = (g2 \<noteq> [])" "length ms1 = length ms" "length ls = length ms"
    "\<forall>i < length ms. ls ! i \<longrightarrow> (\<exists>kvs. ms ! i = JObj kvs
        \<and> ms1 ! i = JObj (AList.update ''content'' (JList (content_parts (ms1 ! i))) kvs))"
    "\<forall>i < length ms. \<not> ls ! i \<longrightarrow> ms1 ! i = ms ! i"
    using Cons.IH [OF st(2)] by blast
  have "cut_ok limit (concat (map content_parts (m # ms))) c (concat (map content_parts ms')) (g1 @ g2) c'"
    using cut_ok_append [OF g1(1) g2(1)] st(3) by simp
  moreover have "(True \<in> set losts) = (g1 @ g2 \<noteq> [])" using g1(2) g2(2) st(4) by auto
  ultimately show ?case using g1(3,4) g2(3-6) st(3,4)
    by (intro exI [of _ "g1 @ g2"]) (auto simp: less_Suc_eq_0_disj)
qed

text \<open>The note adds no audio.\<close>

lemma add_note_audio: "audio_of (concat (map content_parts (add_note (audio_note k d t l) ms losts)))
    = audio_of (concat (map content_parts ms))"
proof (induction "audio_note k d t l" ms losts rule: add_note.induct)
  case (1 m ms lost losts)
  have "audio_of (content_parts (prepend_note (audio_note k d t l) m)) = audio_of (content_parts m)"
    by (auto simp: prepend_note_def content_parts_def obj_get_def update_conv' split: json.split option.split)
  with 1 show ?case by auto
qed simp_all

definition payload_messages :: "(string \<times> json) list \<Rightarrow> json list" where
  "payload_messages payload = (case obj_get payload ''messages'' of JList ms \<Rightarrow> ms | _ \<Rightarrow> [])"

lemma cap_audio_cut:
  assumes "cap_audio payload limit = (a, payload')"
  shows "\<exists>gone. request_audio (payload_messages payload) = request_audio (payload_messages payload') @ gone
    \<and> submitted_s a = seconds_of (request_audio (payload_messages payload))
    \<and> as_kept_s a = seconds_of (request_audio (payload_messages payload'))
    \<and> total_items a = length (request_audio (payload_messages payload)) \<and> dropped_items a = length gone
    \<and> (gone = [] \<longrightarrow> payload' = payload) \<and> (limit = None \<longrightarrow> gone = [])
    \<and> (\<forall>l. limit = Some l \<longrightarrow> 0 \<le> l \<longrightarrow> as_kept_s a \<le> l)
    \<and> (\<forall>l. limit = Some l \<longrightarrow> gone \<noteq> [] \<longrightarrow> l < submitted_s a)
    \<and> (\<forall>k. k \<noteq> ''messages'' \<longrightarrow> map_of payload' k = map_of payload k)"
proof (cases "\<exists>ms. obj_get payload ''messages'' = JList ms")
  case False
  then have "payload_messages payload = []" "payload' = payload" "a = \<lparr>submitted_s = 0, as_kept_s = 0,
      total_items = 0, dropped_items = 0, as_limit_s = limit\<rparr>"
    using assms by (auto simp: payload_messages_def cap_audio_def split: json.splits)
  then show ?thesis by (intro exI [of _ "[]"]) (simp add: request_audio_def)
next
  case True
  then obtain ms where ms: "obj_get payload ''messages'' = JList ms" by blast
  obtain ms' losts c where c: "cap_messages limit ms cap_start = (ms', losts, c)" by (metis surj_pair)
  obtain gone where g: "cut_ok limit (concat (map content_parts ms)) cap_start (concat (map content_parts ms')) gone c"
    "(True \<in> set losts) = (gone \<noteq> [])" using cap_messages_cut [OF c] by blast
  have cut: "request_audio ms' @ gone = request_audio ms"
    using g(1) by (simp add: cut_ok_def cut_list_def request_audio_def)
  have out: "request_audio (payload_messages payload') = request_audio ms'"
    "gone = [] \<longrightarrow> payload' = payload" "\<forall>k. k \<noteq> ''messages'' \<longrightarrow> map_of payload' k = map_of payload k"
    using assms ms c g(2) cut
    by (auto simp: cap_audio_def payload_messages_def obj_get_def update_conv' request_audio_def
        add_note_audio [unfolded request_audio_def] split: if_splits)
  have a: "submitted_s a = cp_seconds c" "as_kept_s a = cp_kept_s c" "total_items a = cp_items c"
    "dropped_items a = cp_dropped c" using assms ms c by (auto simp: cap_audio_def)
  have tot: "submitted_s a = seconds_of (request_audio ms)" "as_kept_s a = seconds_of (request_audio ms')"
    "total_items a = length (request_audio ms)" "dropped_items a = length gone"
    using g(1) by (simp_all add: a cut_ok_def cut_totals_def cap_start_def request_audio_def)
  have sec: "seconds_of (request_audio ms) = seconds_of (request_audio ms') + seconds_of gone"
    by (simp only: cut [symmetric] seconds_of_simps)
  have lim: "limit = None \<longrightarrow> gone = []" "\<forall>l. limit = Some l \<longrightarrow> 0 \<le> l \<longrightarrow> as_kept_s a \<le> l"
    using g(1) by (auto simp: a cut_ok_def cut_budget_def cap_start_def)
  have "\<forall>l. limit = Some l \<longrightarrow> gone \<noteq> [] \<longrightarrow> l < as_kept_s a + seconds_of gone"
    using g(1) by (auto simp: a cut_ok_def cut_budget_def cap_start_def)
  then have over: "\<forall>l. limit = Some l \<longrightarrow> gone \<noteq> [] \<longrightarrow> l < submitted_s a" using sec tot by simp
  have pm: "payload_messages payload = ms" using ms by (simp add: payload_messages_def)
  show ?thesis unfolding pm out(1) using cut [symmetric] tot lim over out(2,3) by blast
qed

section \<open>The clamp\<close>

lemma json_num_JInt [simp]: "json_num v = Some r \<Longrightarrow> py_eq v (JInt n) \<longleftrightarrow> r = of_int n"
  by (simp add: py_eq_def)

lemma py_eq_JInt: "py_eq v (JInt n) \<longleftrightarrow> json_num v = Some (of_int n)"
  by (cases v) (auto simp: py_eq_def)

definition capped_value :: "int \<Rightarrow> json \<Rightarrow> int" where
  "capped_value c v = (case json_int v of Some n \<Rightarrow> if 0 < n then min n c else c | None \<Rightarrow> c)"

lemma capped_value_range: "0 < c \<Longrightarrow> 1 \<le> capped_value c v \<and> capped_value c v \<le> c"
  by (auto simp: capped_value_def split: option.split)

lemma capped_value_fixed: "1 \<le> n \<Longrightarrow> n \<le> c \<Longrightarrow> capped_value c (JInt n) = n"
  by (simp add: capped_value_def)

lemma clamp_field_unfold:
  "clamp_field c f (ch, p) =
     (if f = ''max_completion_tokens'' \<and> map_of p f = None then (ch, p)
      else if json_num (obj_get p f) = Some (of_int (capped_value c (obj_get p f))) then (ch, p)
      else (True, AList.update f (JInt (capped_value c (obj_get p f))) p))"
  unfolding clamp_field_def Let_def capped_value_def [symmetric] by (auto simp: py_eq_JInt)

definition clamped :: "int \<Rightarrow> (string \<times> json) list \<Rightarrow> string \<Rightarrow> bool" where
  "clamped c p f \<longleftrightarrow> (\<exists>v n. map_of p f = Some v \<and> json_num v = Some (of_int n) \<and> 1 \<le> n \<and> n \<le> c)"

lemma clamp_field_clamped:
  assumes "0 < c" "clamp_field c f (ch, p) = (ch', p')" "f = ''max_completion_tokens'' \<longrightarrow> map_of p f \<noteq> None"
  shows "clamped c p' f"
proof (cases "json_num (obj_get p f) = Some (of_int (capped_value c (obj_get p f)))")
  case True
  then obtain v where "map_of p f = Some v" "obj_get p f = v"
    by (cases "map_of p f") (auto simp: obj_get_def)
  with True assms capped_value_range [OF assms(1)] show ?thesis
    by (auto simp: clamp_field_unfold clamped_def split: if_splits)
next
  case False
  with assms capped_value_range [OF assms(1)] show ?thesis
    by (auto simp: clamp_field_unfold clamped_def update_conv' split: if_splits)
qed

lemma clamp_field_other: "clamp_field c f (ch, p) = (ch', p') \<Longrightarrow> k \<noteq> f \<Longrightarrow> map_of p' k = map_of p k"
  by (auto simp: clamp_field_unfold update_conv' split: if_splits)

lemma clamp_field_changed:
  assumes "clamp_field c f (ch, p) = (ch', p')"
  shows "p' = p \<and> ch' = ch \<or> ch' \<and> map_of p' f \<noteq> map_of p f"
proof -
  have "map_of p f \<noteq> Some (JInt (capped_value c (obj_get p f)))"
    if "json_num (obj_get p f) \<noteq> Some (of_int (capped_value c (obj_get p f)))"
    using that by (metis default_to_simps(2) json_num.simps(2) obj_get_def)
  with assms show ?thesis by (auto simp: clamp_field_unfold update_conv' split: if_splits)
qed

text \<open>A second pass is a no-op: the field is absent, or equal to its own cap.\<close>

lemma clamp_field_again:
  assumes "0 < c" "clamp_field c f (ch, p) = (ch', p')" "map_of q f = map_of p' f"
  shows "clamp_field c f (b, q) = (b, q)"
proof -
  have "obj_get q f = obj_get p' f" using assms(3) by (simp add: obj_get_def)
  moreover have "obj_get (AList.update f v p) f = v" for v by (simp add: obj_get_def update_conv')
  ultimately show ?thesis
    using assms capped_value_range [OF assms(1), of "obj_get p f"]
    by (auto simp: clamp_field_unfold capped_value_fixed split: if_splits)
qed

section \<open>Properties\<close>

text \<open>C23: The audio cap cuts from the end and within budget: what the model receives is a leading
  segment of the audio the client sent, whole items only, whose total (as the model counts it) is
  at most the limit; the reported totals are exact, nothing outside \<open>messages\<close> changes, and a
  request that fits, or a fleet without a limit, is forwarded untouched.\<close>

theorem cap_audio_leading_segment:
  assumes "cap_audio payload limit = (a, payload')"
    and "limit = Some l" and "0 \<le> l"
  shows "\<exists>gone. request_audio (payload_messages payload) = request_audio (payload_messages payload') @ gone
    \<and> dropped_items a = length gone
    \<and> as_kept_s a = seconds_of (request_audio (payload_messages payload')) \<and> as_kept_s a \<le> l
    \<and> submitted_s a = seconds_of (request_audio (payload_messages payload))
    \<and> (seconds_of (request_audio (payload_messages payload)) \<le> l \<longrightarrow> payload' = payload)
    \<and> (\<forall>k. k \<noteq> ''messages'' \<longrightarrow> map_of payload' k = map_of payload k)"
proof -
  obtain gone where g: "request_audio (payload_messages payload) = request_audio (payload_messages payload') @ gone"
    "submitted_s a = seconds_of (request_audio (payload_messages payload))"
    "as_kept_s a = seconds_of (request_audio (payload_messages payload'))" "dropped_items a = length gone"
    "gone = [] \<longrightarrow> payload' = payload" "as_kept_s a \<le> l" "gone \<noteq> [] \<longrightarrow> l < submitted_s a"
    "\<forall>k. k \<noteq> ''messages'' \<longrightarrow> map_of payload' k = map_of payload k"
    using cap_audio_cut [OF assms(1)] assms(2,3) by blast
  then have "seconds_of (request_audio (payload_messages payload)) \<le> l \<longrightarrow> payload' = payload" by auto
  with g show ?thesis by blast
qed

text \<open>A request with two audio clips of unknown format, billed 30 s each, under a 45 s cap.\<close>

definition demo_payload :: "(string \<times> json) list" where
  "demo_payload = [(''model'', JStr ''m''), (''messages'', JList [JObj [(''role'', JStr ''user''),
     (''content'', JList [JObj [(''type'', JStr ''input_audio'')], JObj [(''type'', JStr ''input_audio'')]])]])]"

theorem cap_audio_leading_segment_witness:
  "\<exists>a p. cap_audio demo_payload (Some 45) = (a, p) \<and> as_kept_s a \<le> 45 \<and> map_of p ''model'' = Some (JStr ''m'')"
proof -
  obtain a p where ap: "cap_audio demo_payload (Some 45) = (a, p)" by (metis surj_pair)
  from cap_audio_leading_segment [OF ap refl] have "as_kept_s a \<le> 45" "map_of p ''model'' = map_of demo_payload ''model''"
    by auto
  with ap show ?thesis by (auto simp: demo_payload_def)
qed

text \<open>The output clamp bounds every reply: with a positive ceiling, \<open>max_tokens\<close> is a number
  between 1 and the ceiling afterwards whatever the client sent (absent, zero, negative, not a
  number), \<open>max_completion_tokens\<close> likewise if the client used it, other fields are unchanged, and
  a second pass changes nothing.\<close>

lemma clamp_bounds_output:
  assumes "0 < c" "clamp_output_tokens payload (Some c) = (changed, payload')"
  shows "(\<exists>v n. map_of payload' ''max_tokens'' = Some v \<and> json_num v = Some (of_int n) \<and> 1 \<le> n \<and> n \<le> c)
    \<and> (map_of payload ''max_completion_tokens'' \<noteq> None \<longrightarrow>
        (\<exists>v n. map_of payload' ''max_completion_tokens'' = Some v \<and> json_num v = Some (of_int n) \<and> 1 \<le> n \<and> n \<le> c))
    \<and> (\<forall>k. k \<notin> {''max_tokens'', ''max_completion_tokens''} \<longrightarrow> map_of payload' k = map_of payload k)
    \<and> (changed \<longleftrightarrow> payload' \<noteq> payload) \<and> clamp_output_tokens payload' (Some c) = (False, payload')"
proof -
  let ?m = "''max_tokens''" and ?n = "''max_completion_tokens''"
  obtain ch1 p1 where one: "clamp_field c ?m (False, payload) = (ch1, p1)" by (metis surj_pair)
  have two: "clamp_field c ?n (ch1, p1) = (changed, payload')"
    using assms one by (simp add: clamp_output_tokens_def)
  have m: "map_of payload' ?m = map_of p1 ?m" and n: "map_of p1 ?n = map_of payload ?n"
    using clamp_field_other [OF two, of ?m] clamp_field_other [OF one, of ?n] by simp_all
  have "clamped c payload' ?m" using clamp_field_clamped [OF assms(1) one] m by (simp add: clamped_def)
  moreover have "map_of payload ?n \<noteq> None \<longrightarrow> clamped c payload' ?n"
    using clamp_field_clamped [OF assms(1) two] n by simp
  moreover have "\<forall>k. k \<notin> {?m, ?n} \<longrightarrow> map_of payload' k = map_of payload k"
    using clamp_field_other [OF one] clamp_field_other [OF two] by auto
  moreover have "changed \<longleftrightarrow> payload' \<noteq> payload"
    using clamp_field_changed [OF one] clamp_field_changed [OF two] m n by auto
  moreover have "clamp_output_tokens payload' (Some c) = (False, payload')"
    using clamp_field_again [OF assms(1) one m] clamp_field_again [OF assms(1) two refl] assms(1)
    by (simp add: clamp_output_tokens_def)
  ultimately show ?thesis unfolding clamped_def by blast
qed

lemma clamp_bounds_output_witness:
  "clamp_output_tokens (snd (clamp_output_tokens demo_payload (Some 512))) (Some 512)
     = (False, snd (clamp_output_tokens demo_payload (Some 512)))"
  using clamp_bounds_output [of 512 demo_payload] by (metis prod.collapse zero_less_numeral)

end
