(* ===== verification/Tunnel.thy ===== *)
theory Tunnel
  imports Prelude
begin

text \<open>
  The manager side of the tunnel transport (\<open>src/src/oumigo/service/manager/tunnel.py\<close>): one
  tunnel connection as a byte stream with a pump (\<open>TunnelConn\<close>), and the registry of parked
  connections (\<open>TunnelRegistry\<close>). Everything runs on one event loop, so an execution is a
  sequence of atomic operations; a coroutine is split at its \<open>await\<close>. A blocked \<open>read\<close> is \<open>None\<close>.
\<close>

section \<open>TunnelConn\<close>

text \<open>\<open>pumping\<close> is whether the task that reads the socket is still running.\<close>

record tunnel_conn =
  incoming :: "string list"
  pending :: string
  closed :: bool
  pumping :: bool

definition conn_init :: tunnel_conn where
  "conn_init = \<lparr>incoming = [], pending = [], closed = False, pumping = True\<rparr>"

text \<open>One turn of \<open>pump\<close>: a message with its payload (bytes, or encoded text), or the end of the
  socket (a disconnect message or an exception) with the \<open>finally\<close> clause.\<close>

definition pump_message :: "string \<Rightarrow> tunnel_conn \<Rightarrow> tunnel_conn" where
  "pump_message data c =
     (if pumping c \<and> data \<noteq> [] then c\<lparr>incoming := incoming c @ [data]\<rparr> else c)"

definition pump_end :: "tunnel_conn \<Rightarrow> tunnel_conn" where
  "pump_end c =
     (if pumping c then c\<lparr>closed := True, incoming := incoming c @ [[]], pumping := False\<rparr> else c)"

definition readable :: "tunnel_conn \<Rightarrow> bool" where
  "readable c = (pending c \<noteq> [] \<or> incoming c \<noteq> [] \<or> closed c)"

definition conn_read :: "nat \<Rightarrow> tunnel_conn \<Rightarrow> string option \<times> tunnel_conn" where
  "conn_read max_bytes c =
     (if pending c \<noteq> [] then
        (Some (take max_bytes (pending c)), c\<lparr>pending := drop max_bytes (pending c)\<rparr>)
      else case incoming c of
        [] \<Rightarrow> (None, c)
      | msg # rest \<Rightarrow>
          if msg = [] then (Some [], c\<lparr>pending := [], incoming := rest @ [[]]\<rparr>)
          else (Some (take max_bytes msg), c\<lparr>incoming := rest, pending := drop max_bytes msg\<rparr>))"

definition conn_write :: "string \<Rightarrow> tunnel_conn \<Rightarrow> string res" where
  "conn_write data c = (if closed c then Inl (OSErr ''tunnel connection closed'') else Inr data)"

definition conn_close :: "tunnel_conn \<Rightarrow> tunnel_conn" where
  "conn_close c = (if closed c then c else c\<lparr>closed := True\<rparr>)"

section \<open>A connection and its history\<close>

datatype conn_event = Message string | Disconnect | Read nat | Close

text \<open>The connection with the bytes the worker sent while the pump ran and the bytes handed to
  the reader so far.\<close>

record conn_run =
  conn :: tunnel_conn
  sent :: string
  delivered :: string
  eof_seen :: bool

definition run_init :: conn_run where
  "run_init = \<lparr>conn = conn_init, sent = [], delivered = [], eof_seen = False\<rparr>"

definition conn_exec :: "conn_event \<Rightarrow> conn_run \<Rightarrow> conn_run" where
  "conn_exec e r =
     (case e of
        Message d \<Rightarrow> r\<lparr>conn := pump_message d (conn r), sent := sent r @ (if pumping (conn r) then d else [])\<rparr>
      | Disconnect \<Rightarrow> r\<lparr>conn := pump_end (conn r)\<rparr>
      | Read n \<Rightarrow>
          (case conn_read n (conn r) of
             (None, c) \<Rightarrow> r\<lparr>conn := c\<rparr>
           | (Some d, c) \<Rightarrow> r\<lparr>conn := c, delivered := delivered r @ d,
                               eof_seen := (eof_seen r \<or> d = [] \<and> 0 < n)\<rparr>)
      | Close \<Rightarrow> r\<lparr>conn := conn_close (conn r)\<rparr>)"

text \<open>What is still queued: whole messages, then the end mark once the pump has stopped.\<close>

definition run_ok :: "conn_run \<Rightarrow> bool" where
  "run_ok r \<longleftrightarrow>
     delivered r @ pending (conn r) @ concat (incoming (conn r)) = sent r
   \<and> (if pumping (conn r) then [] \<notin> set (incoming (conn r))
      else \<exists>ms. incoming (conn r) = ms @ [[]] \<and> [] \<notin> set ms)
   \<and> (\<not> pumping (conn r) \<longrightarrow> closed (conn r))
   \<and> (eof_seen r \<longrightarrow> \<not> pumping (conn r) \<and> pending (conn r) = [] \<and> incoming (conn r) = [[]])"

lemma conn_read_cases:
  assumes "conn_read n c = (out, c')"
  obtains (pend) "pending c \<noteq> []" "out = Some (take n (pending c))" "c' = c\<lparr>pending := drop n (pending c)\<rparr>"
  | (block) "pending c = []" "incoming c = []" "out = None" "c' = c"
  | (eof) rest where "pending c = []" "incoming c = [] # rest" "out = Some []" "c' = c\<lparr>pending := [], incoming := rest @ [[]]\<rparr>"
  | (msg) m rest where "pending c = []" "incoming c = m # rest" "m \<noteq> []" "out = Some (take n m)"
      "c' = c\<lparr>incoming := rest, pending := drop n m\<rparr>"
  using assms by (auto simp: conn_read_def split: list.splits if_splits)

lemma take_drop_append [simp]: "take n xs @ drop n xs @ ys = xs @ ys"
  by (metis append_assoc append_take_drop_id)

lemma run_ok_read:
  assumes ok: "run_ok r" shows "run_ok (conn_exec (Read n) r)"
proof -
  obtain out c' where rd: "conn_read n (conn r) = (out, c')" by (metis surj_pair)
  then show ?thesis
  proof (cases rule: conn_read_cases)
    case pend
    with ok rd show ?thesis by (auto simp: run_ok_def conn_exec_def)
  next
    case block
    with rd have "conn_exec (Read n) r = r" by (simp add: conn_exec_def)
    with ok show ?thesis by simp
  next
    case (eof rest)
    with ok have "\<not> pumping (conn r)" "rest = []"
      by (auto simp: run_ok_def Cons_eq_append_conv split: if_splits)
    with ok rd eof show ?thesis by (auto simp: run_ok_def conn_exec_def)
  next
    case (msg m rest)
    with ok rd show ?thesis
      by (auto simp: run_ok_def conn_exec_def Cons_eq_append_conv split: if_splits)
  qed
qed

lemma run_ok_exec: "run_ok r \<Longrightarrow> run_ok (conn_exec e r)"
proof (cases e)
  case (Message d)
  assume "run_ok r"
  with Message show ?thesis by (auto simp: run_ok_def conn_exec_def pump_message_def)
next
  case Disconnect
  assume "run_ok r"
  with Disconnect show ?thesis by (auto simp: run_ok_def conn_exec_def pump_end_def)
next
  case Close
  assume "run_ok r"
  with Close show ?thesis by (auto simp: run_ok_def conn_exec_def conn_close_def)
qed (use run_ok_read in simp)

lemma run_ok_init: "run_ok run_init"
  by (simp add: run_ok_def run_init_def conn_init_def)

interpretation stream: event_machine run_init conn_exec run_ok
  by unfold_locales (auto intro: run_ok_init run_ok_exec)

text \<open>C11: A tunnel connection is a faithful byte stream: after any interleaving of messages from
  the worker, reads of any size, closing and disconnection, the bytes handed to the reader are a
  leading part of the bytes the worker sent, in order; a read with a positive size reports the end
  only when the socket has ended and every byte was delivered, and from then on every read does.\<close>

theorem tunnel_stream_integrity:
  assumes "r = fold conn_exec es run_init"
  shows "(\<exists>rest. sent r = delivered r @ rest)
    \<and> (0 < n \<and> fst (conn_read n (conn r)) = Some [] \<longrightarrow>
         delivered r = sent r \<and> \<not> pumping (conn r) \<and> eof_seen (conn_exec (Read n) r))
    \<and> (eof_seen r \<longrightarrow> delivered r = sent r
         \<and> (\<forall>es' m. fst (conn_read m (conn (fold conn_exec es' r))) = Some []))"
proof -
  have ok: "run_ok (fold conn_exec xs r)" for xs
    unfolding assms by (rule stream.good_run) (rule stream.good_reachable)
  then have ok0: "run_ok r" by (metis fold_simps(1))
  have eof_keep: "eof_seen (fold conn_exec xs s)" if "eof_seen s" for xs s
    using that by (induction xs arbitrary: s)
      (auto simp: conn_exec_def split: conn_event.split prod.split option.split)
  have eof_read: "fst (conn_read m (conn s)) = Some []" if "run_ok s" "eof_seen s" for m s
    using that by (simp add: run_ok_def conn_read_def)
  have first: "\<exists>rest. sent r = delivered r @ rest" using ok0 unfolding run_ok_def by metis
  have end_read: "delivered r = sent r \<and> \<not> pumping (conn r) \<and> eof_seen (conn_exec (Read n) r)"
    if n: "0 < n" "fst (conn_read n (conn r)) = Some []"
  proof -
    obtain out c' where rd: "conn_read n (conn r) = (out, c')" by (metis surj_pair)
    then show ?thesis
      by (cases rule: conn_read_cases)
        (use n ok0 rd in \<open>auto simp: run_ok_def conn_exec_def Cons_eq_append_conv split: if_splits\<close>)
  qed
  have "eof_seen r \<Longrightarrow> delivered r = sent r" using ok0 by (auto simp: run_ok_def)
  with first end_read eof_read [OF ok] eof_keep show ?thesis by blast
qed

theorem tunnel_stream_integrity_witness:
  "delivered (fold conn_exec [Message ''abc'', Read 2, Disconnect, Read 9, Read 9] run_init) = ''abc''"
proof -
  let ?r = "fold conn_exec [Message ''abc'', Read 2, Disconnect, Read 9, Read 9] run_init"
  have "eof_seen ?r" "sent ?r = ''abc''"
    by (simp_all add: conn_exec_def run_init_def conn_init_def pump_message_def pump_end_def conn_read_def)
  with tunnel_stream_integrity [of ?r "[Message ''abc'', Read 2, Disconnect, Read 9, Read 9]" 1] show ?thesis
    by simp
qed

section \<open>TunnelRegistry\<close>

datatype conn_fut = Waiting | Got nat | Gone

text \<open>Connections are numbered; what the registry reads of one is its node, and whether it is
  closed or borrowed. Dictionaries with a default are functions.\<close>

record tunnel_registry =
  tr_node :: "nat \<Rightarrow> string"
  tr_closed :: "nat \<Rightarrow> bool"
  tr_borrowed :: "nat \<Rightarrow> bool"
  idle :: "string \<Rightarrow> nat list"
  all_conns :: "string \<Rightarrow> nat list"
  conn_waiters :: "string \<Rightarrow> nat list"
  conn_futs :: "nat \<Rightarrow> conn_fut"
  next_conn_fut :: nat

definition registry_start :: tunnel_registry where
  "registry_start = \<lparr>tr_node = (\<lambda>_. []), tr_closed = (\<lambda>_. False), tr_borrowed = (\<lambda>_. False),
     idle = (\<lambda>_. []), all_conns = (\<lambda>_. []), conn_waiters = (\<lambda>_. []), conn_futs = (\<lambda>_. Waiting),
     next_conn_fut = 0\<rparr>"

definition lend :: "nat \<Rightarrow> tunnel_registry \<Rightarrow> tunnel_registry" where
  "lend c t = t\<lparr>tr_borrowed := (tr_borrowed t)(c := True)\<rparr>"

fun hand_over :: "nat \<Rightarrow> nat list \<Rightarrow> tunnel_registry \<Rightarrow> tunnel_registry" where
  "hand_over c [] t =
     t\<lparr>conn_waiters := (conn_waiters t)(tr_node t c := []),
       idle := (idle t)(tr_node t c := idle t (tr_node t c) @ [c])\<rparr>"
| "hand_over c (f # fs) t =
     (if conn_futs t f = Waiting
      then (lend c t)\<lparr>conn_futs := (conn_futs t)(f := Got c),
                      conn_waiters := (conn_waiters t)(tr_node t c := fs)\<rparr>
      else hand_over c fs t)"

definition tunnel_add :: "nat \<Rightarrow> tunnel_registry \<Rightarrow> tunnel_registry" where
  "tunnel_add c t =
     (let n = tr_node t c;
          t1 = t\<lparr>all_conns := (all_conns t)(n := List.insert c (all_conns t n))\<rparr> in
      hand_over c (conn_waiters t1 n) t1)"

definition tunnel_remove :: "nat \<Rightarrow> tunnel_registry \<Rightarrow> tunnel_registry" where
  "tunnel_remove c t =
     (let n = tr_node t c;
          rest = removeAll c (all_conns t n) in
      t\<lparr>all_conns := (all_conns t)(n := rest),
        idle := (idle t)(n := if rest = [] then [] else remove1 c (idle t n))\<rparr>)"

fun pop_idle :: "tunnel_registry \<Rightarrow> nat list \<Rightarrow> nat option \<times> nat list" where
  "pop_idle t [] = (None, [])"
| "pop_idle t (c # cs) = (if tr_closed t c then pop_idle t cs else (Some c, cs))"

datatype acquired = Borrowed nat | WaitingOn nat

definition tunnel_acquire :: "string \<Rightarrow> tunnel_registry \<Rightarrow> acquired \<times> tunnel_registry" where
  "tunnel_acquire n t =
     (case pop_idle t (idle t n) of
        (Some c, cs) \<Rightarrow> (Borrowed c, (lend c t)\<lparr>idle := (idle t)(n := cs)\<rparr>)
      | (None, cs) \<Rightarrow>
          (WaitingOn (next_conn_fut t),
           t\<lparr>idle := (idle t)(n := cs),
             conn_waiters := (conn_waiters t)(n := conn_waiters t n @ [next_conn_fut t]),
             next_conn_fut := Suc (next_conn_fut t)\<rparr>))"

text \<open>The end of the wait in \<open>acquire\<close>: the \<open>finally\<close> clause takes the future out of the queue.
  A wait that ended by timeout or cancellation leaves its future cancelled.\<close>

definition tunnel_wait_over :: "string \<Rightarrow> nat \<Rightarrow> tunnel_registry \<Rightarrow> nat res \<times> tunnel_registry" where
  "tunnel_wait_over n f t =
     (let t1 = t\<lparr>conn_waiters := (conn_waiters t)(n := remove1 f (conn_waiters t n))\<rparr> in
      case conn_futs t f of
        Got c \<Rightarrow> (Inr c, t1)
      | _ \<Rightarrow> (Inl TimeoutErr, t1\<lparr>conn_futs := (conn_futs t)(f := Gone)\<rparr>))"

definition live_conns :: "string \<Rightarrow> tunnel_registry \<Rightarrow> nat list" where
  "live_conns n t = filter (\<lambda>c. \<not> tr_closed t c) (all_conns t n)"

definition connected :: "string \<Rightarrow> tunnel_registry \<Rightarrow> nat" where
  "connected n t = length (live_conns n t)"

definition tunnel_stats :: "string \<Rightarrow> tunnel_registry \<Rightarrow> nat \<times> nat" where
  "tunnel_stats n t = (length (live_conns n t), length (filter (\<lambda>c. \<not> tr_borrowed t c) (live_conns n t)))"

definition close_node :: "string \<Rightarrow> tunnel_registry \<Rightarrow> nat \<times> tunnel_registry" where
  "close_node n t =
     (length (all_conns t n), t\<lparr>tr_closed := (\<lambda>c. c \<in> set (all_conns t n) \<or> tr_closed t c)\<rparr>)"

definition TUNNEL_HOST_SUFFIX :: string where "TUNNEL_HOST_SUFFIX = ''.tunnel''"

definition tunnel_host :: "string \<Rightarrow> string" where
  "tunnel_host nid = nid @ TUNNEL_HOST_SUFFIX"

text \<open>\<open>TunnelNetworkBackend.connect_tcp\<close> up to the acquisition: which node a host names.\<close>

definition connect_node :: "string \<Rightarrow> string res" where
  "connect_node host =
     (if \<not> py_endswith host TUNNEL_HOST_SUFFIX then Inl (OSErr (''not a tunnel host: '' @ host))
      else Inr (take (length host - length TUNNEL_HOST_SUFFIX) host))"

lemma connect_node_tunnel_host: "connect_node (tunnel_host nid) = Inr nid"
  by (simp add: connect_node_def tunnel_host_def TUNNEL_HOST_SUFFIX_def py_endswith_def)

section \<open>The registry and its borrowers\<close>

text \<open>Who holds which connection (\<open>lent\<close>, with the node that was asked for), which requests wait
  on which future, and which connections have been accepted. \<open>dial\<close> is a worker's connection being
  accepted, \<open>hangup\<close> a connection closing at either end, \<open>leave\<close> the endpoint's cleanup,
  \<open>give_up\<close> a timeout and \<open>cancelled\<close> a cancellation, which may hit a request that was already
  handed a connection.\<close>

record tsys =
  treg :: tunnel_registry
  lent :: "(nat \<times> string) list"
  tw :: "(nat \<times> string) list"
  dialled :: "nat set"

definition tsys_init :: tsys where
  "tsys_init = \<lparr>treg = registry_start, lent = [], tw = [], dialled = {}\<rparr>"

inductive tunnel_step :: "tsys \<Rightarrow> tsys \<Rightarrow> bool" where
  dial: "c \<notin> dialled s \<Longrightarrow>
    tunnel_step s (s\<lparr>treg := tunnel_add c ((treg s)\<lparr>tr_node := (tr_node (treg s))(c := n)\<rparr>),
                    dialled := insert c (dialled s)\<rparr>)"
| borrow: "tunnel_acquire n (treg s) = (Borrowed c, t) \<Longrightarrow>
    tunnel_step s (s\<lparr>treg := t, lent := (c, n) # lent s\<rparr>)"
| queue: "tunnel_acquire n (treg s) = (WaitingOn f, t) \<Longrightarrow>
    tunnel_step s (s\<lparr>treg := t, tw := (f, n) # tw s\<rparr>)"
| resume: "(f, n) \<in> set (tw s) \<Longrightarrow> tunnel_wait_over n f (treg s) = (Inr c, t) \<Longrightarrow>
    tunnel_step s (s\<lparr>treg := t, lent := (c, n) # lent s, tw := removeAll (f, n) (tw s)\<rparr>)"
| give_up: "(f, n) \<in> set (tw s) \<Longrightarrow> tunnel_wait_over n f (treg s) = (Inl e, t) \<Longrightarrow>
    tunnel_step s (s\<lparr>treg := t, tw := removeAll (f, n) (tw s)\<rparr>)"
| cancelled: "(f, n) \<in> set (tw s) \<Longrightarrow>
    tunnel_step s (s\<lparr>treg := snd (tunnel_wait_over n f (treg s)), tw := removeAll (f, n) (tw s)\<rparr>)"
| hangup: "tunnel_step s (s\<lparr>treg := (treg s)\<lparr>tr_closed := (tr_closed (treg s))(c := True)\<rparr>\<rparr>)"
| leave: "tunnel_step s (s\<lparr>treg := tunnel_remove c (treg s)\<rparr>)"
| revoke: "tunnel_step s (s\<lparr>treg := snd (close_node n (treg s))\<rparr>)"

text \<open>A parked connection is dialled, belongs to its node and was never handed out; a connection
  in somebody's hands, or promised by a future, is marked borrowed, and by one party only.\<close>

definition idle_ok :: "tsys \<Rightarrow> bool" where
  "idle_ok s \<longleftrightarrow> (\<forall>n. distinct (idle (treg s) n) \<and> (\<forall>c \<in> set (idle (treg s) n).
     c \<in> dialled s \<and> tr_node (treg s) c = n \<and> \<not> tr_borrowed (treg s) c))"

definition lent_ok :: "tsys \<Rightarrow> bool" where
  "lent_ok s \<longleftrightarrow> distinct (map fst (lent s)) \<and> (\<forall>c n. (c, n) \<in> set (lent s) \<longrightarrow>
     c \<in> dialled s \<and> tr_borrowed (treg s) c \<and> tr_node (treg s) c = n)
   \<and> (\<forall>c. tr_borrowed (treg s) c \<longrightarrow> c \<in> dialled s)"

definition wait_ok :: "tsys \<Rightarrow> bool" where
  "wait_ok s \<longleftrightarrow> distinct (map fst (tw s))
   \<and> (\<forall>n. distinct (conn_waiters (treg s) n) \<and> (\<forall>f \<in> set (conn_waiters (treg s) n). (f, n) \<in> set (tw s)))
   \<and> (\<forall>f n. (f, n) \<in> set (tw s) \<longrightarrow> f < next_conn_fut (treg s))
   \<and> (\<forall>f \<ge> next_conn_fut (treg s). conn_futs (treg s) f = Waiting)"

definition promise_ok :: "tsys \<Rightarrow> bool" where
  "promise_ok s \<longleftrightarrow>
     (\<forall>f c. conn_futs (treg s) f = Got c \<longrightarrow> tr_borrowed (treg s) c)
   \<and> (\<forall>f g c. conn_futs (treg s) f = Got c \<and> conn_futs (treg s) g = Got c \<longrightarrow> f = g)
   \<and> (\<forall>f n c m. (f, n) \<in> set (tw s) \<and> conn_futs (treg s) f = Got c \<longrightarrow>
        tr_node (treg s) c = n \<and> (c, m) \<notin> set (lent s))"

definition tunnel_inv :: "tsys \<Rightarrow> bool" where
  "tunnel_inv s \<longleftrightarrow> idle_ok s \<and> lent_ok s \<and> wait_ok s \<and> promise_ok s"

lemmas tunnel_inv_defs = tunnel_inv_def idle_ok_def lent_ok_def wait_ok_def promise_ok_def

lemma tunnel_inv_init: "tunnel_inv tsys_init"
  by (simp add: tunnel_inv_defs tsys_init_def registry_start_def)

text \<open>A fresh connection goes to the first live waiter of its node, or is parked.\<close>

lemma hand_over_fields [simp]:
  "tr_node (hand_over c fs t) = tr_node t" "next_conn_fut (hand_over c fs t) = next_conn_fut t"
  by (induction c fs t rule: hand_over.induct) (auto simp: lend_def)

lemma tunnel_inv_hand_over:
  assumes "tunnel_inv s" "c \<in> dialled s" "\<not> tr_borrowed (treg s) c"
    and "\<forall>n. c \<notin> set (idle (treg s) n)"
    and "set fs \<subseteq> set (conn_waiters (treg s) (tr_node (treg s) c))" "distinct fs"
  shows "tunnel_inv (s\<lparr>treg := hand_over c fs (treg s)\<rparr>)"
  using assms(5,6)
proof (induction fs)
  case Nil
  with assms show ?case by (simp add: tunnel_inv_defs)
next
  case (Cons f fs)
  show ?case
  proof (cases "conn_futs (treg s) f = Waiting")
    case False
    with Cons show ?thesis by simp
  next
    case True
    let ?t = "hand_over c (f # fs) (treg s)" and ?s = "s\<lparr>treg := hand_over c (f # fs) (treg s)\<rparr>"
    have t: "?t = (lend c (treg s))\<lparr>conn_futs := (conn_futs (treg s))(f := Got c),
        conn_waiters := (conn_waiters (treg s))(tr_node (treg s) c := fs)\<rparr>" using True by simp
    have inv: "idle_ok s" "lent_ok s" "wait_ok s" "promise_ok s" using assms(1) by (simp_all add: tunnel_inv_def)
    have fw: "(f, tr_node (treg s) c) \<in> set (tw s)" using inv(3) Cons.prems(1) by (auto simp: wait_ok_def)
    have "idle_ok ?s" using inv(1) assms(4) unfolding t by (auto simp: idle_ok_def lend_def)
    moreover have "lent_ok ?s" using inv(2) assms(2) unfolding t by (auto simp: lent_ok_def lend_def)
    moreover have "wait_ok ?s"
    proof -
      have "f < next_conn_fut (treg s)" using inv(3) fw by (auto simp: wait_ok_def)
      with inv(3) Cons.prems show ?thesis unfolding t wait_ok_def lend_def by (auto simp: subset_iff)
    qed
    moreover have "promise_ok ?s"
    proof -
      have nl: "(c, m) \<notin> set (lent s)" for m using inv(2) assms(3) by (auto simp: lent_ok_def)
      have ng: "conn_futs (treg s) g \<noteq> Got c" for g using inv(4) assms(3) by (auto simp: promise_ok_def)
      have same: "n = tr_node (treg s) c" if "(f, n) \<in> set (tw s)" for n
        using eq_key_imp_eq_value [OF _ fw that] inv(3) by (simp add: wait_ok_def)
      show ?thesis using inv(4) nl ng same unfolding t promise_ok_def lend_def by (auto split: if_splits)
    qed
    ultimately show ?thesis by (simp add: tunnel_inv_def)
  qed
qed

lemma pop_idle_spec:
  "pop_idle t cs = (r, rest) \<Longrightarrow> set rest \<subseteq> set cs \<and> (distinct cs \<longrightarrow> distinct rest)
    \<and> (\<forall>c. r = Some c \<longrightarrow> c \<in> set cs \<and> \<not> tr_closed t c \<and> (distinct cs \<longrightarrow> c \<notin> set rest))"
  by (induction cs) (auto split: if_splits)

text \<open>Removing connections from the idle lists, closing connections and forgetting them keep the
  invariant: none of its clauses depends on what is parked being there.\<close>

lemma tunnel_inv_idle_subset:
  assumes "tunnel_inv s" "\<And>n. set (idl n) \<subseteq> set (idle (treg s) n)" "\<And>n. distinct (idl n)"
  shows "tunnel_inv (s\<lparr>treg := (treg s)\<lparr>idle := idl, all_conns := al, tr_closed := cl\<rparr>\<rparr>)"
  using assms by (fastforce simp: tunnel_inv_defs)

lemma tunnel_inv_dial:
  assumes inv: "tunnel_inv s" and c: "c \<notin> dialled s"
  shows "tunnel_inv (s\<lparr>treg := tunnel_add c ((treg s)\<lparr>tr_node := (tr_node (treg s))(c := n)\<rparr>),
     dialled := insert c (dialled s)\<rparr>)"
proof -
  let ?t = "(treg s)\<lparr>tr_node := (tr_node (treg s))(c := n)\<rparr>"
  let ?t1 = "?t\<lparr>all_conns := (all_conns ?t)(n := List.insert c (all_conns ?t n))\<rparr>"
  let ?s = "s\<lparr>treg := ?t1, dialled := insert c (dialled s)\<rparr>"
  have b: "\<not> tr_borrowed (treg s) c" "\<forall>m. c \<notin> set (idle (treg s) m)"
    using inv c by (auto simp: tunnel_inv_defs)
  have "idle_ok ?s" using inv c by (auto simp: tunnel_inv_def idle_ok_def)
  moreover have "lent_ok ?s" using inv c by (auto simp: tunnel_inv_def lent_ok_def)
  moreover have "wait_ok ?s" using inv by (simp add: tunnel_inv_def wait_ok_def)
  moreover have "promise_ok ?s" using inv b(1) by (auto simp: tunnel_inv_def promise_ok_def)
  ultimately have "tunnel_inv ?s" by (simp add: tunnel_inv_def)
  moreover have "distinct (conn_waiters (treg s) n)" using inv by (simp add: tunnel_inv_def wait_ok_def)
  ultimately have "tunnel_inv (?s\<lparr>treg := hand_over c (conn_waiters (treg s) n) ?t1\<rparr>)"
    using tunnel_inv_hand_over [of ?s c "conn_waiters (treg s) n"] b by simp
  then show ?thesis by (cases s) (simp add: tunnel_add_def Let_def)
qed

lemma tunnel_inv_borrow:
  assumes inv: "tunnel_inv s" and acq: "tunnel_acquire n (treg s) = (Borrowed c, t)"
  shows "tunnel_inv (s\<lparr>treg := t, lent := (c, n) # lent s\<rparr>)"
proof -
  obtain cs where pop: "pop_idle (treg s) (idle (treg s) n) = (Some c, cs)"
    and t: "t = (lend c (treg s))\<lparr>idle := (idle (treg s))(n := cs)\<rparr>"
    using acq by (auto simp: tunnel_acquire_def split: prod.splits option.splits)
  let ?s = "s\<lparr>treg := t, lent := (c, n) # lent s\<rparr>"
  have parts: "idle_ok s" "lent_ok s" "wait_ok s" "promise_ok s" using inv by (simp_all add: tunnel_inv_def)
  have c: "c \<in> set (idle (treg s) n)" "set cs \<subseteq> set (idle (treg s) n)" "c \<notin> set cs" "distinct cs"
    using pop_idle_spec [OF pop] parts(1) by (auto simp: idle_ok_def)
  have cn: "c \<in> dialled s" "tr_node (treg s) c = n" "\<not> tr_borrowed (treg s) c"
    using c(1) parts(1) by (auto simp: idle_ok_def)
  have other: "c \<notin> set (idle (treg s) m)" if "m \<noteq> n" for m using parts(1) cn that by (auto simp: idle_ok_def)
  have "idle_ok ?s" using parts(1) c other unfolding t by (auto simp: idle_ok_def lend_def)
  moreover have "lent_ok ?s" using parts(2) cn unfolding t by (auto simp: lent_ok_def lend_def)
  moreover have "wait_ok ?s" using parts(3) unfolding t by (simp add: wait_ok_def lend_def)
  moreover have "promise_ok ?s" using parts(4) cn(3) unfolding t by (auto simp: promise_ok_def lend_def)
  ultimately show ?thesis by (simp add: tunnel_inv_def)
qed

lemma tunnel_inv_queue:
  assumes inv: "tunnel_inv s" and acq: "tunnel_acquire n (treg s) = (WaitingOn f, t)"
  shows "tunnel_inv (s\<lparr>treg := t, tw := (f, n) # tw s\<rparr>)"
proof -
  obtain r cs where p: "pop_idle (treg s) (idle (treg s) n) = (r, cs)" by (metis surj_pair)
  with acq have "r = None" by (cases r) (simp_all add: tunnel_acquire_def)
  with p have pop: "pop_idle (treg s) (idle (treg s) n) = (None, cs)" by simp
  have f: "f = next_conn_fut (treg s)" using acq by (simp add: tunnel_acquire_def pop)
  have t: "t = (treg s)\<lparr>idle := (idle (treg s))(n := cs),
       conn_waiters := (conn_waiters (treg s))(n := conn_waiters (treg s) n @ [f]), next_conn_fut := Suc f\<rparr>"
    using acq by (simp add: tunnel_acquire_def pop f)
  let ?s = "s\<lparr>treg := t, tw := (f, n) # tw s\<rparr>"
  have parts: "idle_ok s" "lent_ok s" "wait_ok s" "promise_ok s" using inv by (simp_all add: tunnel_inv_def)
  have new: "f \<notin> fst ` set (tw s)" "conn_futs (treg s) f = Waiting" "\<And>m. f \<notin> set (conn_waiters (treg s) m)"
    using parts(3) f by (auto simp: wait_ok_def)
  have "idle_ok ?s" using parts(1) pop_idle_spec [OF pop] unfolding t by (auto simp: idle_ok_def)
  moreover have "lent_ok ?s" using parts(2) unfolding t by (auto simp: lent_ok_def)
  moreover have "wait_ok ?s" using parts(3) new f unfolding t by (auto simp: wait_ok_def less_Suc_eq)
  moreover have "promise_ok ?s" using parts(4) new unfolding t by (auto simp: promise_ok_def)
  ultimately show ?thesis by (simp add: tunnel_inv_def)
qed

text \<open>A request leaves the queue, with or without the connection it was promised.\<close>

lemma tunnel_inv_wait_over:
  assumes inv: "tunnel_inv s" and f: "(f, n) \<in> set (tw s)" and wo: "tunnel_wait_over n f (treg s) = (r, t)"
    and l: "l = lent s \<or> (\<exists>c. r = Inr c \<and> l = (c, n) # lent s)"
  shows "tunnel_inv (s\<lparr>treg := t, lent := l, tw := removeAll (f, n) (tw s)\<rparr>)"
proof -
  let ?s = "s\<lparr>treg := t, lent := l, tw := removeAll (f, n) (tw s)\<rparr>"
  have parts: "idle_ok s" "lent_ok s" "wait_ok s" "promise_ok s" using inv by (simp_all add: tunnel_inv_def)
  have flds: "idle t = idle (treg s)" "tr_node t = tr_node (treg s)" "tr_borrowed t = tr_borrowed (treg s)"
    "next_conn_fut t = next_conn_fut (treg s)"
    "conn_waiters t = (conn_waiters (treg s))(n := remove1 f (conn_waiters (treg s) n))"
    and futs: "conn_futs t = conn_futs (treg s) \<or> conn_futs t = (conn_futs (treg s))(f := Gone)"
    and got: "\<And>c. r = Inr c \<Longrightarrow> conn_futs (treg s) f = Got c"
    using wo by (auto simp: tunnel_wait_over_def Let_def split: conn_fut.splits)
  have only: "m = n" if "(f, m) \<in> set (tw s)" for m
    using eq_key_imp_eq_value [OF _ that f] parts(3) by (simp add: wait_ok_def)
  have gc: "tr_node (treg s) c = n \<and> (c, m) \<notin> set (lent s) \<and> tr_borrowed (treg s) c" if "r = Inr c" for c m
    using got [OF that] parts(4) f by (auto simp: promise_ok_def)
  have "idle_ok ?s" using parts(1) by (simp add: idle_ok_def flds)
  moreover have "lent_ok ?s" using parts(2) l gc by (auto simp: lent_ok_def flds)
  moreover have "wait_ok ?s"
  proof -
    have "distinct (map fst (removeAll (f, n) (tw s)))"
      using parts(3) by (simp add: wait_ok_def distinct_map_filter removeAll_filter_not_eq)
    moreover have "f < next_conn_fut (treg s)" using parts(3) f by (auto simp: wait_ok_def)
    moreover have "f \<notin> set (remove1 f (conn_waiters (treg s) n))" using parts(3) by (simp add: wait_ok_def)
    moreover have "set (remove1 f (conn_waiters (treg s) n)) \<subseteq> set (conn_waiters (treg s) n)"
      by (rule set_remove1_subset)
    ultimately show ?thesis using parts(3) futs by (auto simp: wait_ok_def flds)
  qed
  moreover have "promise_ok ?s"
  proof -
    have sub: "conn_futs t g = Got c \<Longrightarrow> conn_futs (treg s) g = Got c" for g c using futs by (auto split: if_splits)
    have neq: "(c, k) \<notin> set l" if "(g, m) \<in> set (tw s)" "(g, m) \<noteq> (f, n)" "conn_futs (treg s) g = Got c" for g m c k
    proof -
      have "g \<noteq> f" using only that by auto
      then have "conn_futs (treg s) f \<noteq> Got c" using parts(4) that(3) by (auto simp: promise_ok_def)
      with l got that parts(4) show ?thesis by (auto simp: promise_ok_def)
    qed
    show ?thesis using parts(4) sub neq unfolding promise_ok_def by (auto simp: flds) blast+
  qed
  ultimately show ?thesis by (simp add: tunnel_inv_def)
qed

lemma tunnel_inv_step: "tunnel_step s s' \<Longrightarrow> tunnel_inv s \<Longrightarrow> tunnel_inv s'"
proof (induction rule: tunnel_step.induct)
  case (dial c s n)
  then show ?case by (intro tunnel_inv_dial)
next
  case (borrow n s c t)
  then show ?case by (intro tunnel_inv_borrow)
next
  case (queue n s f t)
  then show ?case by (intro tunnel_inv_queue)
next
  case (resume f n s c t)
  from tunnel_inv_wait_over [OF resume(3) resume(1) resume(2), of "(c, n) # lent s"] show ?case by simp
next
  case (give_up f n s e t)
  from tunnel_inv_wait_over [OF give_up(3) give_up(1) give_up(2), of "lent s"] show ?case by (cases s) simp
next
  case (cancelled f n s)
  obtain r t where wo: "tunnel_wait_over n f (treg s) = (r, t)" by (metis surj_pair)
  from tunnel_inv_wait_over [OF cancelled(2,1) wo, of "lent s"] wo show ?case by (cases s) simp
next
  case (hangup s c)
  then show ?case by (auto simp: tunnel_inv_defs)
next
  case (leave s c)
  let ?n = "tr_node (treg s) c" and ?rest = "removeAll c (all_conns (treg s) (tr_node (treg s) c))"
  let ?idl = "(idle (treg s))(?n := if ?rest = [] then [] else remove1 c (idle (treg s) ?n))"
  have "tunnel_inv (s\<lparr>treg := (treg s)\<lparr>idle := ?idl, all_conns := (all_conns (treg s))(?n := ?rest),
      tr_closed := tr_closed (treg s)\<rparr>\<rparr>)"
    using leave set_remove1_subset [of c "idle (treg s) ?n"]
    by (intro tunnel_inv_idle_subset) (auto simp: tunnel_inv_def idle_ok_def)
  moreover have "tunnel_remove c (treg s) = (treg s)\<lparr>idle := ?idl, all_conns := (all_conns (treg s))(?n := ?rest),
      tr_closed := tr_closed (treg s)\<rparr>" by (simp add: tunnel_remove_def Let_def)
  ultimately show ?case by simp
next
  case (revoke s n)
  then show ?case by (auto simp: tunnel_inv_defs close_node_def)
qed

interpretation tunnels: transition_system "\<lambda>s. s = tsys_init" tunnel_step tunnel_inv
  by unfold_locales (auto intro: tunnel_inv_init tunnel_inv_step)

text \<open>A tunnel connection serves one borrower: over any interleaving of workers dialling,
  requests borrowing, waiting, timing out or being cancelled, connections closing and nodes being
  revoked, no connection is handed out twice, each one handed out belongs to the node that was
  asked for, and none of them is parked.\<close>

lemma tunnel_conn_exclusive:
  assumes "tunnel_step\<^sup>*\<^sup>* tsys_init s"
  shows "distinct (map fst (lent s))
    \<and> (\<forall>c n. (c, n) \<in> set (lent s) \<longrightarrow> tr_node (treg s) c = n \<and> c \<notin> set (idle (treg s) n))"
  using tunnels.invar_reachable [OF refl assms] by (auto simp: tunnel_inv_def lent_ok_def idle_ok_def)

lemma tunnel_conn_exclusive_witness:
  "\<exists>s. tunnel_step\<^sup>*\<^sup>* tsys_init s \<and> lent s = [(7, ''a'')] \<and> tr_node (treg s) 7 = ''a''"
proof -
  let ?t = "tunnel_add 7 ((treg tsys_init)\<lparr>tr_node := (tr_node (treg tsys_init))(7 := ''a'')\<rparr>)"
  let ?s1 = "tsys_init\<lparr>treg := ?t, dialled := insert 7 (dialled tsys_init)\<rparr>"
  have s1: "tunnel_step tsys_init ?s1" by (rule tunnel_step.dial) (simp add: tsys_init_def)
  have "fst (tunnel_acquire ''a'' (treg ?s1)) = Borrowed 7"
    by (simp add: tunnel_acquire_def tunnel_add_def tsys_init_def registry_start_def)
  then obtain t where t: "tunnel_acquire ''a'' (treg ?s1) = (Borrowed 7, t)" by (metis prod.collapse)
  have r: "tunnel_step\<^sup>*\<^sup>* tsys_init (?s1\<lparr>treg := t, lent := [(7, ''a'')]\<rparr>)"
    using s1 tunnel_step.borrow [OF t] by (simp add: tsys_init_def)
  with tunnel_conn_exclusive [OF r] show ?thesis by (intro exI [of _ "?s1\<lparr>treg := t, lent := [(7, ''a'')]\<rparr>"]) simp
qed

text \<open>Borrowing is live and never spurious: a connection taken from the park is open and was
  parked for that node; a request queues only when every parked connection of the node is closed,
  and the next connection the worker dials goes to the oldest request still waiting.\<close>

lemma tunnel_acquire_live:
  "(case tunnel_acquire n t of
      (Borrowed c, t') \<Rightarrow> c \<in> set (idle t n) \<and> \<not> tr_closed t c \<and> tr_borrowed t' c
    | (WaitingOn f, t') \<Rightarrow> (\<forall>c \<in> set (idle t n). tr_closed t c) \<and> f \<in> set (conn_waiters t' n))
   \<and> (conn_waiters t (tr_node t c) = us @ f # vs \<and> (\<forall>u \<in> set us. conn_futs t u \<noteq> Waiting)
        \<and> conn_futs t f = Waiting
      \<longrightarrow> conn_futs (tunnel_add c t) f = Got c \<and> conn_waiters (tunnel_add c t) (tr_node t c) = vs)"
proof
  have none: "pop_idle t cs = (None, rest) \<Longrightarrow> \<forall>c \<in> set cs. tr_closed t c" for cs rest
    by (induction cs) (auto split: if_splits)
  show "case tunnel_acquire n t of
      (Borrowed c, t') \<Rightarrow> c \<in> set (idle t n) \<and> \<not> tr_closed t c \<and> tr_borrowed t' c
    | (WaitingOn f, t') \<Rightarrow> (\<forall>c \<in> set (idle t n). tr_closed t c) \<and> f \<in> set (conn_waiters t' n)"
    using pop_idle_spec none
    by (auto simp: tunnel_acquire_def lend_def split: prod.splits option.splits)
  have go: "conn_futs (hand_over c (us @ f # vs) t) f = Got c
      \<and> conn_waiters (hand_over c (us @ f # vs) t) (tr_node t c) = vs"
    if "\<forall>u \<in> set us. conn_futs t u \<noteq> Waiting" "conn_futs t f = Waiting" for t
    using that by (induction us) (auto simp: lend_def)
  show "conn_waiters t (tr_node t c) = us @ f # vs \<and> (\<forall>u \<in> set us. conn_futs t u \<noteq> Waiting)
        \<and> conn_futs t f = Waiting
      \<longrightarrow> conn_futs (tunnel_add c t) f = Got c \<and> conn_waiters (tunnel_add c t) (tr_node t c) = vs"
    using go [of "t\<lparr>all_conns := (all_conns t)(tr_node t c := List.insert c (all_conns t (tr_node t c)))\<rparr>"]
    by (simp add: tunnel_add_def Let_def)
qed

lemma tunnel_acquire_live_witness:
  "conn_futs (tunnel_add 3 (registry_start\<lparr>conn_waiters := (\<lambda>_. [5])\<rparr>)) 5 = Got 3"
  using tunnel_acquire_live [of "registry_start\<lparr>conn_waiters := (\<lambda>_. [5])\<rparr>" "''a''" 3 "[]" 5 "[]"]
  by (simp add: registry_start_def)

text \<open>A request cancelled after a connection was handed to its future leaves that connection
  marked borrowed, parked nowhere and held by nobody.\<close>

lemma tunnel_cancel_strands:
  assumes "conn_futs t f = Got c" "tr_borrowed t c" "\<forall>m. c \<notin> set (idle t m)"
  shows "tr_borrowed (snd (tunnel_wait_over n f t)) c \<and> (\<forall>m. c \<notin> set (idle (snd (tunnel_wait_over n f t)) m))"
  using assms by (simp add: tunnel_wait_over_def Let_def)

end
