(* ===== verification/Router.thy ===== *)
theory Router
  imports Pool Credentials Catalog Shaping Tunnel
begin

text \<open>
  The data plane (\<open>create_router_app\<close> in \<open>src/src/oumigo/service/manager/router/server.py\<close>): which
  model a request asks for, which workers may serve it, what is sent upstream, and what happens to
  the slot the request holds on every way out. The closures over the application's arguments take
  them as the record \<open>router_cfg\<close>; what they read of the fleet is a \<open>pool_env\<close>. The upstream
  connection (httpx) and the client are outside: how a send, a body read or a relayed stream ends
  is an argument, over which the results quantify.
\<close>

record router_cfg =
  rc_spec :: "node_spec option"
  rc_catalog :: "fleet_catalog option"
  rc_queue_timeout :: real
  rc_agent_defaults :: "agent_limits option"
  rc_fleet_agent_defaults :: "agent_limits option"
  rc_client_auth :: bool
  rc_auth :: "(crypto \<times> auth_store) option"

definition ANY_MODEL :: string where "ANY_MODEL = ''any-model''"
definition CHAT_PATH :: string where "CHAT_PATH = ''/v1/chat/completions''"
definition RETRY_AFTER_S :: nat where "RETRY_AFTER_S = 30"

definition DROP_REQUEST :: "string list" where
  "DROP_REQUEST = [''host'', ''content-length'', ''connection'', ''keep-alive'', ''transfer-encoding'', ''upgrade'']"

definition DROP_RESPONSE :: "string list" where
  "DROP_RESPONSE = [''content-length'', ''content-encoding'', ''transfer-encoding'', ''connection'', ''keep-alive'', ''content-type'']"

section \<open>Replies\<close>

datatype http_reply =
    ModelError nat string "nat option"
  | Reply nat "(string \<times> string) list"

definition model_error :: "nat \<Rightarrow> string \<Rightarrow> nat option \<Rightarrow> http_reply" where
  "model_error status code retry_after = ModelError status code retry_after"

definition filter_request_headers :: "(string \<times> string) list \<Rightarrow> (string \<times> string) list" where
  "filter_request_headers hs = fold (\<lambda>(k, v) d. AList.update k v d) (filter (\<lambda>(k, v). py_lower k \<notin> set DROP_REQUEST) hs) []"

definition filter_response_headers :: "(string \<times> string) list \<Rightarrow> (string \<times> string) list" where
  "filter_response_headers hs = fold (\<lambda>(k, v) d. AList.update k v d) (filter (\<lambda>(k, v). py_lower k \<notin> set DROP_RESPONSE) hs) []"

section \<open>Models\<close>

definition default_served :: "router_cfg \<Rightarrow> string option" where
  "default_served cfg = map_option ns_served_name (rc_spec cfg)"

definition default_capacity_of :: "router_cfg \<Rightarrow> int" where
  "default_capacity_of cfg = (case rc_spec cfg of Some ns \<Rightarrow> ns_max_concurrent_requests ns | None \<Rightarrow> 4)"

definition vllm_port :: "router_cfg \<Rightarrow> int option" where
  "vllm_port cfg = map_option ns_port (rc_spec cfg)"

definition served :: "router_cfg \<Rightarrow> node_record \<Rightarrow> string option" where
  "served cfg r = str_or (served_name r) (default_served cfg)"

definition profile_of :: "router_cfg \<Rightarrow> string option \<Rightarrow> catalog_profile option" where
  "profile_of cfg mid =
     (case rc_catalog cfg of
        None \<Rightarrow> None
      | Some cat \<Rightarrow> if truthy mid then catalog_get cat (the mid) else None)"

definition caps_of :: "router_cfg \<Rightarrow> node_record \<Rightarrow> real option \<times> int option" where
  "caps_of cfg r =
     (case profile_of cfg (profile r) of
        Some p \<Rightarrow> (mc_max_audio_seconds (pf_caps p), mc_max_output_tokens (pf_caps p))
      | None \<Rightarrow> (case rc_spec cfg of
                  Some ns \<Rightarrow> (ns_max_audio_seconds ns, ns_max_output_tokens ns)
                | None \<Rightarrow> (None, None)))"

definition model_queue_seconds :: "router_cfg \<Rightarrow> string \<Rightarrow> real" where
  "model_queue_seconds cfg mid =
     (case Option.bind (profile_of cfg (Some mid)) (\<lambda>p. mc_max_queue_seconds (pf_caps p)) of
        Some s \<Rightarrow> if s = 0 then rc_queue_timeout cfg else s
      | None \<Rightarrow> rc_queue_timeout cfg)"

definition served_models :: "router_cfg \<Rightarrow> pool_env \<Rightarrow> string list" where
  "served_models cfg env = remdups (List.map_filter (served cfg) (serving env None))"

definition queue_seconds :: "router_cfg \<Rightarrow> pool_env \<Rightarrow> string option \<Rightarrow> real" where
  "queue_seconds cfg env mid =
     (case mid of
        Some m \<Rightarrow> model_queue_seconds cfg m
      | None \<Rightarrow> (case map (model_queue_seconds cfg) (served_models cfg env) of
                  [] \<Rightarrow> rc_queue_timeout cfg
                | s # ss \<Rightarrow> fold max ss s))"

definition no_limits :: agent_limits where
  "no_limits = \<lparr>turn_timeout = None, stall_timeout = None\<rparr>"

definition agent_for :: "router_cfg \<Rightarrow> string option \<Rightarrow> agent_limits" where
  "agent_for cfg mid =
     (case profile_of cfg mid of
        None \<Rightarrow> default_to no_limits (rc_agent_defaults cfg)
      | Some p \<Rightarrow> (case pf_agent p of
                    Some a \<Rightarrow> a
                  | None \<Rightarrow> default_to no_limits (rc_fleet_agent_defaults cfg)))"

definition known :: "router_cfg \<Rightarrow> pool_env \<Rightarrow> string list" where
  "known cfg env =
     (case rc_catalog cfg of Some cat \<Rightarrow> map fst (profiles cat) | None \<Rightarrow> []) @
     filter (\<lambda>m. m \<noteq> []) (List.map_filter (served cfg) (pe_records env)) @
     (if truthy (default_served cfg) then [the (default_served cfg)] else [])"

definition not_ready :: "router_cfg \<Rightarrow> pool_env \<Rightarrow> eligible \<Rightarrow> http_reply" where
  "not_ready cfg env el =
     (let records = filter (accepts el) (pe_records env);
          starting = filter (\<lambda>r. state r \<in> {REGISTERING, INITIALIZING} \<or> (state r = SERVING \<and> \<not> routable env r)) records in
      if starting \<noteq> [] then model_error 503 ''model_loading'' (Some RETRY_AFTER_S)
      else model_error 503 ''model_unavailable'' None)"

section \<open>Choosing the eligible workers\<close>

text \<open>A request: its headers, and its body as \<open>json.loads\<close> reads it (\<open>None\<close> for an empty body or one
  that is not JSON).\<close>

record client_request =
  cr_headers :: "(string \<times> string) list"
  cr_payload :: "json option"
  cr_path :: string

datatype routing = RouteAny | RouteModel string | RouteReply http_reply

definition requested_model :: "client_request \<Rightarrow> json" where
  "requested_model rq = (case cr_payload rq of Some (JObj kvs) \<Rightarrow> obj_get kvs ''model'' | _ \<Rightarrow> JNull)"

definition route_request :: "router_cfg \<Rightarrow> pool_env \<Rightarrow> client_request \<Rightarrow> routing res" where
  "route_request cfg env rq =
     (let requested = requested_model rq in
      if requested \<in> {JNull, JStr [], JStr ANY_MODEL} then Inr RouteAny
      else if \<not> json_hashable requested then Inl (TypeErr ''unhashable type'')
      else case requested of
        JStr m \<Rightarrow> if m \<in> set (known cfg env) then Inr (RouteModel m)
                  else Inr (RouteReply (model_error 404 ''model_not_found'' None))
      | _ \<Rightarrow> Inr (RouteReply (model_error 404 ''model_not_found'' None)))"

definition eligible_for :: "router_cfg \<Rightarrow> routing \<Rightarrow> eligible" where
  "eligible_for cfg rt = (case rt of RouteModel m \<Rightarrow> Some (\<lambda>r. served cfg r = Some m) | _ \<Rightarrow> None)"

section \<open>What is sent upstream\<close>

record upstream_request =
  up_url :: string
  up_headers :: "(string \<times> string) list"
  up_payload :: "json option"
  up_streaming :: bool
  up_attempts :: nat
  up_extra :: "(string \<times> string) list"

definition drop_authorization :: "(string \<times> string) list \<Rightarrow> (string \<times> string) list" where
  "drop_authorization hs = filter (\<lambda>(k, v). py_lower k \<noteq> ''authorization'') hs"

text \<open>The body: the worker's model is named, then its caps applied on the chat path. A payload that
  was not changed is forwarded as the original bytes, which say the same.\<close>

definition shape_payload ::
  "router_cfg \<Rightarrow> node_record \<Rightarrow> string \<Rightarrow> (string \<times> json) list \<Rightarrow> (string \<times> string) list \<times> (string \<times> json) list" where
  "shape_payload cfg r path payload =
     (let p1 = (case served cfg r of
                  Some m \<Rightarrow> if obj_get payload ''model'' \<noteq> JStr m then AList.update ''model'' (JStr m) payload else payload
                | None \<Rightarrow> payload);
          (max_audio, max_out) = caps_of cfg r in
      if path = CHAT_PATH then
        (case cap_audio p1 max_audio of (shaping, p2) \<Rightarrow>
           (if trimmed shaping then shaping_headers shaping else [], snd (clamp_output_tokens p2 max_out)))
      else ([], p1))"

text \<open>Where the request goes and with which headers.\<close>

definition destination ::
  "router_cfg \<Rightarrow> node_record \<Rightarrow> client_request \<Rightarrow> int \<Rightarrow> (string \<times> (string \<times> string) list) res" where
  "destination cfg r rq prt =
     (let h0 = filter_request_headers (cr_headers rq);
          h1 = (if rc_client_auth cfg then drop_authorization h0 else h0) in
      if transport r \<noteq> TUNNEL
      then Inr (''http://'' @ address r @ '':'' @ int_str prt @ cr_path rq, h1)
      else case rc_auth cfg of
        None \<Rightarrow> Inl (HTTPException 503 ''tunnel workers are not routable (no auth store)'')
      | Some (c, st) \<Rightarrow>
          Inr (''http://'' @ tunnel_host (node_id r) @ '':'' @ int_str prt @ cr_path rq,
               AList.update ''Authorization'' (''Bearer '' @ vllm_api_key c st (node_id r)) (drop_authorization h1)))"

text \<open>The body, and what follows from it.\<close>

definition compose ::
  "router_cfg \<Rightarrow> node_record \<Rightarrow> client_request \<Rightarrow> string \<times> (string \<times> string) list \<Rightarrow> upstream_request" where
  "compose cfg r rq dest =
     (let attempts = (if transport r = TUNNEL then 2 else 1) in
      case cr_payload rq of
        Some (JObj kvs) \<Rightarrow>
          (let (extra, kvs') = shape_payload cfg r (cr_path rq) kvs in
           \<lparr>up_url = fst dest, up_headers = snd dest, up_payload = Some (JObj kvs'),
            up_streaming = json_true (obj_get kvs ''stream''), up_attempts = attempts, up_extra = extra\<rparr>)
      | other \<Rightarrow>
          \<lparr>up_url = fst dest, up_headers = snd dest, up_payload = other, up_streaming = False,
           up_attempts = attempts, up_extra = []\<rparr>)"

definition prepare :: "router_cfg \<Rightarrow> node_record \<Rightarrow> client_request \<Rightarrow> upstream_request res" where
  "prepare cfg r rq =
     (case or_else (port r) (vllm_port cfg) of
        None \<Rightarrow> Inl (HTTPException 503 ''no model configured; workers have no vLLM to route to'')
      | Some prt \<Rightarrow> res_map (compose cfg r rq) (destination cfg r rq prt))"

section \<open>Sending\<close>

text \<open>One attempt: a response with its status and headers, a failure before any response
  (\<open>_RETRYABLE\<close>), another HTTP error, or cancellation of the request.\<close>

datatype attempt = Answer nat "(string \<times> string) list" | NotSent string | HttpFailure string | Cancel

text \<open>The outcomes the successive attempts would have; the result, and how many were made.\<close>

fun send_with_retry :: "nat \<Rightarrow> attempt list \<Rightarrow> attempt \<times> nat" where
  "send_with_retry n [] = (Cancel, 0)"
| "send_with_retry n (a # as) =
     (case a of
        NotSent e \<Rightarrow> if n \<le> 1 then (NotSent e, 1) else map_prod id Suc (send_with_retry (n - 1) as)
      | _ \<Rightarrow> (a, 1))"

section \<open>The life of a slot\<close>

text \<open>How reading the body of a plain response ends, and how a relayed stream ends: its generator
  runs to its \<open>finally\<close> (completely, or cut by a disconnect), or the response is dropped before the
  generator is first advanced, in which case its \<open>finally\<close> never runs.\<close>

datatype body_end = BodyRead | BodyFailure string | BodyCancelled
datatype relay_end = RelayFinished | RelayNeverStarted

record slot =
  released :: bool
  sl_pool :: pool

definition release_once :: "pool_env \<Rightarrow> node_record \<Rightarrow> slot \<Rightarrow> slot" where
  "release_once env r s =
     (if released s then s else s\<lparr>released := True, sl_pool := release env (node_id r) (sl_pool s)\<rparr>)"

datatype outcome = Answered http_reply | Raised err | Disconnected

definition forward_held ::
  "router_cfg \<Rightarrow> pool_env \<Rightarrow> node_record \<Rightarrow> client_request \<Rightarrow> attempt list \<Rightarrow> body_end \<Rightarrow> relay_end \<Rightarrow> slot \<Rightarrow>
   outcome \<times> slot"
where
  "forward_held cfg env r rq attempts body relay s =
     (case prepare cfg r rq of
        Inl e \<Rightarrow> (Raised e, release_once env r s)
      | Inr up \<Rightarrow>
          (case fst (send_with_retry (up_attempts up) attempts) of
             NotSent e \<Rightarrow> (Raised (HTTPException 502 e), release_once env r s)
           | HttpFailure e \<Rightarrow> (Raised (HTTPException 502 e), release_once env r s)
           | Cancel \<Rightarrow> (Disconnected, release_once env r s)
           | Answer status hs \<Rightarrow>
               let out = fold (\<lambda>(k, v) d. AList.update k v d) (up_extra up) (filter_response_headers hs) in
               if up_streaming up then
                 (Answered (Reply status (AList.update ''X-Accel-Buffering'' ''no'' out)),
                  case relay of RelayFinished \<Rightarrow> release_once env r s | RelayNeverStarted \<Rightarrow> s)
               else
                 (case body of
                    BodyRead \<Rightarrow> (Answered (Reply status out), release_once env r s)
                  | BodyFailure e \<Rightarrow> (Raised (HTTPException 502 e), release_once env r s)
                  | BodyCancelled \<Rightarrow> (Disconnected, release_once env r s))))"

text \<open>The whole handler up to the wait: a reply without a worker, or a worker and its slot, or a
  place in the queue.\<close>

definition forward_begin ::
  "router_cfg \<Rightarrow> pool_env \<Rightarrow> client_request \<Rightarrow> pool \<Rightarrow> (http_reply + acquire_result) res \<times> pool" where
  "forward_begin cfg env rq p =
     (case route_request cfg env rq of
        Inl e \<Rightarrow> (Inl e, p)
      | Inr (RouteReply reply) \<Rightarrow> (Inr (Inl reply), p)
      | Inr rt \<Rightarrow>
          (case acquire_begin env (eligible_for cfg rt) p of
             (Refused _, p') \<Rightarrow> (Inr (Inl (not_ready cfg env (eligible_for cfg rt))), p')
           | (res, p') \<Rightarrow> (Inr (Inr res), p')))"

definition queue_timed_out :: http_reply where
  "queue_timed_out = model_error 503 ''model_busy'' (Some RETRY_AFTER_S)"

definition require_client :: "router_cfg \<Rightarrow> (string \<times> string) list \<Rightarrow> unit res" where
  "require_client cfg hs =
     (if \<not> rc_client_auth cfg then Inr ()
      else case rc_auth cfg of
        None \<Rightarrow> Inl (ValueErr ''client_auth needs an auth_store holding the client API keys'')
      | Some (c, st) \<Rightarrow>
          if check_api_key c (bearer (map_of hs ''authorization'')) st = None
          then Inl (HTTPException 401 ''missing or invalid API key'') else Inr ())"

section \<open>Other endpoints\<close>

record model_entry =
  me_id :: string
  me_owned_by :: string
  me_weights :: string
  me_max_model_len :: "int option"
  me_serving :: nat

definition model_entry_for :: "router_cfg \<Rightarrow> pool_env \<Rightarrow> string \<Rightarrow> model_entry" where
  "model_entry_for cfg env mid =
     (let records = filter (\<lambda>r. served cfg r = Some mid) (serving env None);
          prof = profile_of cfg (Some mid);
          weights = (case prof of
                       Some p \<Rightarrow> pf_model p
                     | None \<Rightarrow> if records \<noteq> [] \<and> truthy (model (hd records)) then the (model (hd records)) else mid);
          max_len = (case prof of
                       Some p \<Rightarrow> es_max_model_len (pf_engine p)
                     | None \<Rightarrow> (case rc_spec cfg of
                                 Some ns \<Rightarrow> if Some mid = default_served cfg then ns_max_model_len ns else None
                               | None \<Rightarrow> None)) in
      \<lparr>me_id = mid,
       me_owned_by = (if CHR ''/'' \<in> set weights then fst (py_partition (CHR ''/'') weights) else ''oumigo''),
       me_weights = weights, me_max_model_len = max_len, me_serving = length records\<rparr>)"

definition models :: "router_cfg \<Rightarrow> pool_env \<Rightarrow> string \<times> model_entry list" where
  "models cfg env = (ANY_MODEL, map (model_entry_for cfg env) (sort (filter (\<lambda>m. m \<noteq> []) (served_models cfg env))))"

definition merge_limit :: "real option \<Rightarrow> real option \<Rightarrow> real option" where
  "merge_limit current value =
     (case (value, current) of (Some v, Some c) \<Rightarrow> Some (max c v) | _ \<Rightarrow> None)"

definition merge_limits :: "agent_limits \<Rightarrow> agent_limits \<Rightarrow> agent_limits" where
  "merge_limits l acc =
     \<lparr>turn_timeout = merge_limit (turn_timeout acc) (turn_timeout l),
      stall_timeout = merge_limit (stall_timeout acc) (stall_timeout l)\<rparr>"

definition agent_defaults :: "router_cfg \<Rightarrow> pool_env \<Rightarrow> string option \<Rightarrow> agent_limits" where
  "agent_defaults cfg env mdl =
     (if mdl \<notin> {None, Some [], Some ANY_MODEL} then agent_for cfg mdl
      else case sort (served_models cfg env) of
        [] \<Rightarrow> default_to no_limits (rc_agent_defaults cfg)
      | ms \<Rightarrow> fold (\<lambda>m acc. merge_limits (agent_for cfg (Some m)) acc) ms \<lparr>turn_timeout = Some 0, stall_timeout = Some 0\<rparr>)"

definition healthz :: "pool_env \<Rightarrow> bool \<times> nat" where
  "healthz env = (healthy_count env None \<noteq> 0, healthy_count env None)"

section \<open>Headers\<close>

lemma set_fold_update: "set (fold (\<lambda>(k, v) d. AList.update k v d) xs d) \<subseteq> set xs \<union> set d"
proof (induction xs arbitrary: d)
  case (Cons x xs)
  have "set (AList.update (fst x) (snd x) d) \<subseteq> insert x (set d)" using set_update_subset [of "fst x" "snd x" d] by simp
  with Cons [of "AList.update (fst x) (snd x) d"] show ?case by (auto simp: split_def)
qed simp

lemma filter_request_headers_drop: "(k, v) \<in> set (filter_request_headers hs) \<Longrightarrow> py_lower k \<notin> set DROP_REQUEST"
  using set_fold_update [of "filter (\<lambda>(k, v). py_lower k \<notin> set DROP_REQUEST) hs" "[]"]
  by (auto simp: filter_request_headers_def)

lemma lower_authorization: "py_lower ''Authorization'' = ''authorization''"
  by code_simp

lemma authorization_not_dropped: "''authorization'' \<notin> set DROP_REQUEST"
  by (simp add: DROP_REQUEST_def)

lemma compose_simps [simp]: "up_headers (compose cfg r rq d) = snd d" "up_url (compose cfg r rq d) = fst d"
  by (simp_all add: compose_def Let_def split: option.split json.split prod.split)

lemma prepare_Inr:
  assumes "prepare cfg r rq = Inr up"
  obtains prt d where "destination cfg r rq prt = Inr d" "up = compose cfg r rq d"
  using assms by (auto simp: prepare_def res_map_def res_bind_Inr split: option.splits)

lemma drop_authorization_mem: "(k, v) \<in> set (drop_authorization hs) \<longleftrightarrow> (k, v) \<in> set hs \<and> py_lower k \<noteq> ''authorization''"
  by (auto simp: drop_authorization_def)

text \<open>Every header sent on is one of the client's, less the dropped ones, or the backend key.\<close>

lemma destination_headers:
  assumes "destination cfg r rq prt = Inr (url, hs)" "(k, v) \<in> set hs"
  shows "(k, v) \<in> set (filter_request_headers (cr_headers rq))
      \<and> (rc_client_auth cfg \<or> transport r = TUNNEL \<longrightarrow> py_lower k \<noteq> ''authorization'')
    \<or> transport r = TUNNEL \<and> k = ''Authorization''
      \<and> (\<exists>c st. rc_auth cfg = Some (c, st) \<and> v = ''Bearer '' @ vllm_api_key c st (node_id r))"
proof (cases "transport r = TUNNEL")
  case False
  with assms show ?thesis
    by (auto simp: destination_def Let_def drop_authorization_mem split: if_splits)
next
  case True
  then obtain c st h where h: "rc_auth cfg = Some (c, st)"
    "hs = AList.update ''Authorization'' (''Bearer '' @ vllm_api_key c st (node_id r)) (drop_authorization h)"
    "set h \<subseteq> set (filter_request_headers (cr_headers rq))"
    using assms(1) by (auto simp: destination_def Let_def drop_authorization_def split: option.splits if_splits)
  have "(k, v) = (''Authorization'', ''Bearer '' @ vllm_api_key c st (node_id r)) \<or> (k, v) \<in> set (drop_authorization h)"
    using assms(2) set_update_subset [of "''Authorization''" "''Bearer '' @ vllm_api_key c st (node_id r)" "drop_authorization h"]
    unfolding h(2) by blast
  with True h show ?thesis by (auto simp: drop_authorization_mem)
qed

section \<open>Payloads\<close>

lemma cap_audio_other: "k \<noteq> ''messages'' \<Longrightarrow> map_of (snd (cap_audio p l)) k = map_of p k"
  using cap_audio_cut [of p l "fst (cap_audio p l)" "snd (cap_audio p l)"] by auto

lemma clamp_other:
  assumes "k \<noteq> ''max_tokens''" "k \<noteq> ''max_completion_tokens''"
  shows "map_of (snd (clamp_output_tokens p c)) k = map_of p k"
proof (cases "c = None \<or> the c \<le> 0")
  case True
  then show ?thesis by (auto simp: clamp_output_tokens_def split: option.split)
next
  case False
  then obtain n where c: "c = Some n" "0 < n" by auto
  obtain b1 p1 where one: "clamp_field n ''max_tokens'' (False, p) = (b1, p1)" by (metis surj_pair)
  obtain b2 p2 where two: "clamp_field n ''max_completion_tokens'' (b1, p1) = (b2, p2)" by (metis surj_pair)
  from clamp_field_other [OF one assms(1)] clamp_field_other [OF two assms(2)] c one two show ?thesis
    by (simp add: clamp_output_tokens_def)
qed

definition name_model :: "string \<Rightarrow> (string \<times> json) list \<Rightarrow> (string \<times> json) list" where
  "name_model m kvs = (if obj_get kvs ''model'' \<noteq> JStr m then AList.update ''model'' (JStr m) kvs else kvs)"

lemma name_model_model: "map_of (name_model m kvs) ''model'' = Some (JStr m)"
  by (cases "map_of kvs ''model''") (auto simp: name_model_def obj_get_def update_conv')

lemma shape_payload_named:
  assumes "served cfg r = Some m"
  shows "snd (shape_payload cfg r path kvs) =
    (if path = CHAT_PATH
     then snd (clamp_output_tokens (snd (cap_audio (name_model m kvs) (fst (caps_of cfg r)))) (snd (caps_of cfg r)))
     else name_model m kvs)"
  using assms by (simp add: shape_payload_def name_model_def [symmetric] split_def Let_def)

lemma shape_payload_model:
  assumes "served cfg r = Some m"
  shows "map_of (snd (shape_payload cfg r path kvs)) ''model'' = Some (JStr m)"
  by (simp add: shape_payload_named [OF assms] clamp_other cap_audio_other name_model_model)

lemma shape_payload_audio:
  assumes "served cfg r = Some m" "fst (caps_of cfg r) = Some l" "0 \<le> l"
  shows "seconds_of (request_audio (payload_messages (snd (shape_payload cfg r CHAT_PATH kvs)))) \<le> l"
proof -
  let ?q = "snd (cap_audio (name_model m kvs) (Some l))"
  have "payload_messages (snd (clamp_output_tokens ?q c)) = payload_messages ?q" for c
    by (simp add: payload_messages_def obj_get_def clamp_other)
  then have "payload_messages (snd (shape_payload cfg r CHAT_PATH kvs)) = payload_messages ?q"
    using assms(2) by (simp add: shape_payload_named [OF assms(1)])
  with cap_audio_cut [of "name_model m kvs" "Some l" "fst (cap_audio (name_model m kvs) (Some l))" ?q] assms(3)
  show ?thesis by auto
qed

section \<open>Properties\<close>

text \<open>C24: A request that names a model reaches a worker of that model: whether it is granted a slot
  at once or woken from the queue, the worker is a listed, routable one that serves the requested
  id, the payload sent to it names that id, and on the chat path its audio is within that model's
  cap.\<close>

theorem request_reaches_its_model:
  assumes route: "route_request cfg env rq = Inr (RouteModel m)"
    and got: "fst (acquire_begin env (eligible_for cfg (RouteModel m)) p) = Granted r
      \<or> distinct (map fst (waiters p)) \<and> (f, eligible_for cfg (RouteModel m)) \<in> set (waiters p)
        \<and> futs p f = Pending \<and> futs (promote env p) f = Done r"
    and prep: "prepare cfg r rq = Inr up"
  shows "m \<in> set (known cfg env) \<and> r \<in> set (pe_records env) \<and> state r = SERVING \<and> served cfg r = Some m
    \<and> (\<exists>kvs. up_payload up = Some (JObj kvs) \<and> map_of kvs ''model'' = Some (JStr m)
         \<and> (\<forall>l. cr_path rq = CHAT_PATH \<and> fst (caps_of cfg r) = Some l \<and> 0 \<le> l \<longrightarrow>
              seconds_of (request_audio (payload_messages kvs)) \<le> l))"
proof -
  have r: "r \<in> set (pe_records env)" "routable env r" "accepts (eligible_for cfg (RouteModel m)) r"
    using got acquire_gives_accepted promote_gives_accepted by blast+
  then have served: "served cfg r = Some m" by (simp add: accepts_def eligible_for_def)
  have known: "m \<in> set (known cfg env)" and req: "requested_model rq = JStr m" "m \<noteq> []"
    using route by (auto simp: route_request_def Let_def split: if_splits json.splits)
  from req obtain kvs where kvs: "cr_payload rq = Some (JObj kvs)"
    by (auto simp: requested_model_def split: option.splits json.splits)
  obtain d where "up = compose cfg r rq d" using prep by (rule prepare_Inr)
  then have "up_payload up = Some (JObj (snd (shape_payload cfg r (cr_path rq) kvs)))"
    using kvs by (simp add: compose_def Let_def split_def)
  with shape_payload_model [OF served] shape_payload_audio [OF served] known r served show ?thesis
    by (auto simp: routable_def split: if_splits)
qed

definition demo_cfg :: router_cfg where
  "demo_cfg = \<lparr>rc_spec = None, rc_catalog = None, rc_queue_timeout = 300, rc_agent_defaults = None,
     rc_fleet_agent_defaults = None, rc_client_auth = True, rc_auth = Some (demo_crypto, empty_tables)\<rparr>"

definition demo_request :: client_request where
  "demo_request = \<lparr>cr_headers = [(''authorization'', ''Bearer oumigo-key-z'')],
     cr_payload = Some (JObj [(''model'', JStr ''m'')]), cr_path = CHAT_PATH\<rparr>"

lemma demo_route: "route_request demo_cfg demo_env demo_request = Inr (RouteModel ''m'')"
  by (simp add: route_request_def requested_model_def demo_request_def obj_get_def ANY_MODEL_def known_def
      demo_cfg_def demo_env_def demo_worker_def served_def served_name_def str_or_def map_filter_def Let_def)

lemma demo_prepare: "\<exists>up. prepare demo_cfg (demo_worker ''a'') demo_request = Inr up"
  by (simp add: prepare_def demo_worker_def destination_def Let_def)

theorem request_reaches_its_model_witness:
  "served demo_cfg (demo_worker ''a'') = Some ''m'' \<and> state (demo_worker ''a'') = SERVING"
proof -
  have "fst (acquire_begin demo_env (eligible_for demo_cfg (RouteModel ''m'')) pool_init) = Granted (demo_worker ''a'')"
    by (simp add: acquire_begin_def demo_defs eligible_for_def served_def served_name_def str_or_def)
  with request_reaches_its_model [OF demo_route] demo_prepare show ?thesis by blast
qed

text \<open>C25: The client's credential never leaves the manager: with client authentication on, or
  towards a tunnel worker, the only \<open>Authorization\<close> header sent upstream is that worker's own
  backend key, and a direct worker gets none; connection-specific headers are never copied.\<close>

theorem client_key_never_forwarded:
  assumes "prepare cfg r rq = Inr up" "rc_client_auth cfg \<or> transport r = TUNNEL" "(k, v) \<in> set (up_headers up)"
  shows "(py_lower k = ''authorization'' \<longrightarrow> transport r = TUNNEL
       \<and> (\<exists>c st. rc_auth cfg = Some (c, st) \<and> v = ''Bearer '' @ vllm_api_key c st (node_id r)))
    \<and> py_lower k \<notin> set DROP_REQUEST"
proof -
  obtain prt d where d: "destination cfg r rq prt = Inr d" "up = compose cfg r rq d"
    using assms(1) by (rule prepare_Inr)
  have "destination cfg r rq prt = Inr (fst d, snd d)" "(k, v) \<in> set (snd d)" using d assms(3) by simp_all
  from destination_headers [OF this] assms(2) show ?thesis
    using filter_request_headers_drop [of k v] authorization_not_dropped lower_authorization by auto
qed

theorem client_key_never_forwarded_witness:
  "\<exists>up. prepare demo_cfg (demo_worker ''a'') demo_request = Inr up
     \<and> (\<forall>(k, v) \<in> set (up_headers up). py_lower k \<noteq> ''authorization'')"
proof -
  obtain up where up: "prepare demo_cfg (demo_worker ''a'') demo_request = Inr up" using demo_prepare by blast
  have "rc_client_auth demo_cfg" "transport (demo_worker ''a'') \<noteq> TUNNEL" by (simp_all add: demo_cfg_def demo_worker_def)
  with client_key_never_forwarded [OF up] up show ?thesis by blast
qed


text \<open>A stream that never starts keeps its slot: when the worker has answered a streaming
  request and the response is dropped before its generator is first advanced, nothing releases the
  slot, so the worker's capacity is one lower for good.\<close>

lemma stream_never_started_keeps_slot:
  assumes "prepare cfg r rq = Inr up" "up_streaming up"
    and "fst (send_with_retry (up_attempts up) attempts) = Answer status hs"
  shows "snd (forward_held cfg env r rq attempts body RelayNeverStarted s) = s"
  using assms by (simp add: forward_held_def Let_def)

lemma stream_never_started_keeps_slot_witness:
  "\<exists>rq. snd (forward_held demo_cfg demo_env (demo_worker ''a'') rq [Answer 200 []] BodyRead RelayNeverStarted
      \<lparr>released = False, sl_pool = pool_init\<rparr>) = \<lparr>released = False, sl_pool = pool_init\<rparr>"
proof -
  let ?rq = "demo_request\<lparr>cr_payload := Some (JObj [(''model'', JStr ''m''), (''stream'', JBool True)])\<rparr>"
  obtain d where "destination demo_cfg (demo_worker ''a'') ?rq 7001 = Inr d"
    by (simp add: destination_def demo_worker_def Let_def)
  then have "prepare demo_cfg (demo_worker ''a'') ?rq = Inr (compose demo_cfg (demo_worker ''a'') ?rq d)"
    by (simp add: prepare_def demo_worker_def)
  moreover have "up_streaming (compose demo_cfg (demo_worker ''a'') ?rq d)"
    by (simp add: compose_def Let_def split_def obj_get_def)
  ultimately show ?thesis
    using stream_never_started_keeps_slot [of demo_cfg "demo_worker ''a''" ?rq _ "[Answer 200 []]" 200 "[]"] by force
qed

text \<open>What a client's \<open>model\<close> field does: absent, empty or \<open>any-model\<close> accepts every worker; a
  known id restricts the request to its workers; any other scalar is answered 404 without touching
  the queue; and a list or an object, which Python cannot look up in a set, raises \<open>TypeError\<close>.\<close>

lemma route_request_cases:
  "(requested_model rq \<in> {JNull, JStr [], JStr ANY_MODEL} \<longrightarrow> route_request cfg env rq = Inr RouteAny)
   \<and> (\<forall>m. requested_model rq = JStr m \<and> m \<notin> {[], ANY_MODEL} \<longrightarrow>
        route_request cfg env rq =
          (if m \<in> set (known cfg env) then Inr (RouteModel m) else Inr (RouteReply (ModelError 404 ''model_not_found'' None))))
   \<and> (json_hashable (requested_model rq) \<and> requested_model rq \<noteq> JNull \<and> json_str (requested_model rq) = None \<longrightarrow>
        forward_begin cfg env rq p = (Inr (Inl (ModelError 404 ''model_not_found'' None)), p))
   \<and> (\<not> json_hashable (requested_model rq) \<longrightarrow> (\<exists>msg. forward_begin cfg env rq p = (Inl (TypeErr msg), p)))"
  by (cases "requested_model rq") (auto simp: route_request_def forward_begin_def model_error_def Let_def)

lemma route_request_cases_witness:
  "\<exists>msg. forward_begin demo_cfg demo_env (demo_request\<lparr>cr_payload := Some (JObj [(''model'', JList [])])\<rparr>) pool_init
     = (Inl (TypeErr msg), pool_init)"
  using route_request_cases [of "demo_request\<lparr>cr_payload := Some (JObj [(''model'', JList [])])\<rparr>" demo_cfg demo_env pool_init]
  by (simp add: requested_model_def obj_get_def)

section \<open>Timeouts\<close>

text \<open>A request for any model waits at least as long as a request for any of the models served.\<close>

lemma fold_max_ge: "x \<in> set (s # ss) \<Longrightarrow> x \<le> fold max ss (s :: real)"
proof (induction ss arbitrary: s x)
  case (Cons a ss)
  have m: "max a s \<le> fold max ss (max a s)" by (rule Cons.IH) simp
  show ?case
  proof (cases "x \<in> set ss")
    case True
    then show ?thesis using Cons.IH [of x "max a s"] by simp
  next
    case False
    with Cons.prems have "x \<le> max a s" by auto
    also note m
    finally show ?thesis by simp
  qed
qed simp

lemma any_model_waits_longest:
  "m \<in> set (served_models cfg env) \<Longrightarrow> queue_seconds cfg env (Some m) \<le> queue_seconds cfg env None"
  using fold_max_ge [of "model_queue_seconds cfg m"]
  by (auto simp: queue_seconds_def split: list.split)

text \<open>A send is repeated only while nothing was answered, and at most as often as allowed.\<close>

lemma send_with_retry_bounded: "0 < n \<Longrightarrow> snd (send_with_retry n as) \<le> n"
  by (induction n as rule: send_with_retry.induct) (auto split: attempt.split)

end
