(* ===== verification/Timestamps.thy ===== *)
theory Timestamps
  imports Prelude
begin

text \<open>
  UTC timestamps in the format \<open>TS_FORMAT\<close> (\<open>%Y-%m-%d %H:%M:%S\<close>), shared by the manager's metric
  store (\<open>control/store.py\<close>) and the worker's collector (\<open>worker/metrics.py\<close>). A moment is a
  number of seconds since the epoch; the calendar is the proleptic Gregorian one, given by the
  successor of a day. The main result is that comparing two stamps as strings compares the
  moments, which the store's pruning and the mirror's watermark rely on.
\<close>

definition leap :: "nat \<Rightarrow> bool" where
  "leap y \<longleftrightarrow> y mod 4 = 0 \<and> (y mod 100 \<noteq> 0 \<or> y mod 400 = 0)"

definition month_days :: "nat \<Rightarrow> nat \<Rightarrow> nat" where
  "month_days y m = (if m = 2 then (if leap y then 29 else 28) else if m \<in> {4, 6, 9, 11} then 30 else 31)"

fun next_day :: "nat \<times> nat \<times> nat \<Rightarrow> nat \<times> nat \<times> nat" where
  "next_day (y, m, d) =
     (if d < month_days y m then (y, m, Suc d)
      else if m < 12 then (y, Suc m, 1) else (Suc y, 1, 1))"

primrec civil_date :: "nat \<Rightarrow> nat \<times> nat \<times> nat" where
  "civil_date 0 = (1970, 1, 1)"
| "civil_date (Suc n) = next_day (civil_date n)"

definition fixed_dec :: "nat \<Rightarrow> nat \<Rightarrow> string" where
  "fixed_dec w n = pad_left w (nat_str n)"

definition date_stamp :: "nat \<times> nat \<times> nat \<Rightarrow> string" where
  "date_stamp ymd = (case ymd of (y, m, d) \<Rightarrow> fixed_dec 4 y @ ''-'' @ fixed_dec 2 m @ ''-'' @ fixed_dec 2 d)"

definition time_stamp :: "nat \<Rightarrow> string" where
  "time_stamp s = fixed_dec 2 (s div 3600) @ '':'' @ fixed_dec 2 (s div 60 mod 60) @ '':'' @ fixed_dec 2 (s mod 60)"

text \<open>\<open>datetime.fromtimestamp(t, utc).strftime(TS_FORMAT)\<close> for a whole second \<open>t\<close>\<close>

definition stamp :: "nat \<Rightarrow> string" where
  "stamp t = date_stamp (civil_date (t div 86400)) @ '' '' @ time_stamp (t mod 86400)"

text \<open>The same for a moment with a fraction: \<open>strftime\<close> drops it.\<close>

definition stamp_at :: "real \<Rightarrow> string" where
  "stamp_at t = stamp (nat \<lfloor>t\<rfloor>)"

section \<open>Fixed-width decimals\<close>

lemma nat_str_length: "0 < k \<Longrightarrow> n < 10 ^ k \<Longrightarrow> length (nat_str n) \<le> k"
proof (induction n arbitrary: k rule: nat_str.induct)
  case (1 n)
  show ?case
  proof (cases "n < 10")
    case True
    then show ?thesis using 1 by (simp add: nat_str.simps [of n])
  next
    case False
    then obtain j where k: "k = Suc j" "0 < j" using 1(2,3) by (cases k; cases "k - 1") auto
    have "n div 10 < 10 ^ j" using 1(3) k by (simp add: less_mult_imp_div_less)
    from 1(1) [OF False k(2) this] False k show ?thesis by (simp add: nat_str.simps [of n])
  qed
qed

lemma fixed_dec_length: "0 < w \<Longrightarrow> n < 10 ^ w \<Longrightarrow> length (fixed_dec w n) = w"
  using nat_str_length [of w n] by (simp add: fixed_dec_def pad_left_def)

lemma fixed_dec_Suc:
  assumes "0 < w"
  shows "fixed_dec (Suc w) n = fixed_dec w (n div 10) @ [digit_char (n mod 10)]"
proof (cases "n < 10")
  case True
  have "nat_str 0 = ''0''" by (simp add: nat_str.simps [of 0] digit_char_def) code_simp
  with True assms show ?thesis
    by (cases w) (simp_all add: fixed_dec_def pad_left_def nat_str.simps [of n] replicate_app_Cons_same)
next
  case False
  then show ?thesis by (simp add: fixed_dec_def pad_left_def nat_str.simps [of n])
qed

lemma digit_char_less: "a < b \<Longrightarrow> b < 10 \<Longrightarrow> digit_char a < digit_char b"
  by (simp add: digit_char_def less_char_def)

section \<open>String order\<close>

lemma less_append_same: "(xs @ us < xs @ vs) \<longleftrightarrow> (us < vs)" for us vs :: string
  by (induction xs) auto

lemma less_append_prefix:
  "xs < ys \<Longrightarrow> length xs = length ys \<Longrightarrow> xs @ us < ys @ vs" for xs ys :: string
  unfolding list_less_def by (rule lexord_sufI) auto

lemma fixed_dec_less: "0 < w \<Longrightarrow> a < b \<Longrightarrow> b < 10 ^ w \<Longrightarrow> fixed_dec w a < fixed_dec w b"
proof (induction w arbitrary: a b)
  case (Suc w)
  show ?case
  proof (cases "w = 0")
    case True
    with Suc.prems show ?thesis
      by (simp add: fixed_dec_def pad_left_def nat_str.simps [of a] nat_str.simps [of b] digit_char_less)
  next
    case w: False
    have b: "b div 10 < 10 ^ w" using Suc.prems(3) by (simp add: less_mult_imp_div_less)
    show ?thesis
    proof (cases "a div 10 = b div 10")
      case True
      then have "a mod 10 < b mod 10" using Suc.prems(2) by (metis div_mult_mod_eq nat_add_left_cancel_less)
      with True w show ?thesis by (simp add: fixed_dec_Suc less_append_same digit_char_less)
    next
      case False
      then have lt: "a div 10 < b div 10" using Suc.prems(2) by (simp add: div_le_mono le_neq_implies_less)
      then have "length (fixed_dec w (a div 10)) = length (fixed_dec w (b div 10))"
        using w b by (simp add: fixed_dec_length)
      with Suc.IH [OF _ lt b] w show ?thesis by (simp add: fixed_dec_Suc less_append_prefix)
    qed
  qed
qed simp

section \<open>The calendar\<close>

definition date_ok :: "nat \<times> nat \<times> nat \<Rightarrow> bool" where
  "date_ok ymd = (case ymd of (y, m, d) \<Rightarrow> 1970 \<le> y \<and> 1 \<le> m \<and> m \<le> 12 \<and> 1 \<le> d \<and> d \<le> month_days y m)"

lemma month_days_bounds: "28 \<le> month_days y m" "month_days y m \<le> 31"
  by (simp_all add: month_days_def)

lemma date_ok_next: "date_ok x \<Longrightarrow> date_ok (next_day x)"
proof -
  have "1 \<le> month_days y m" for y m using month_days_bounds(1) [of y m] by linarith
  then show "date_ok x \<Longrightarrow> date_ok (next_day x)" by (cases x) (auto simp: date_ok_def)
qed

lemma date_ok_civil: "date_ok (civil_date n)"
proof (induction n)
  case 0
  show ?case by (simp add: date_ok_def month_days_def)
next
  case (Suc n)
  then show ?case by (simp only: civil_date.simps date_ok_next)
qed

lemma civil_year_mono: "m \<le> n \<Longrightarrow> fst (civil_date m) \<le> fst (civil_date n)"
proof (rule lift_Suc_mono_le [of "\<lambda>k. fst (civil_date k)"])
  show "fst (civil_date k) \<le> fst (civil_date (Suc k))" for k by (cases "civil_date k") auto
qed

lemma date_stamp_length:
  assumes "date_ok x" "fst x < 10000" shows "length (date_stamp x) = 10"
  using assms month_days_bounds(2) [of "fst x" "fst (snd x)"]
  by (cases x) (simp add: date_ok_def date_stamp_def fixed_dec_length)

lemma date_stamp_next:
  assumes "date_ok x" "fst (next_day x) < 10000" shows "date_stamp x < date_stamp (next_day x)"
proof -
  obtain y m d where x: "x = (y, m, d)" by (cases x)
  have d: "month_days y m \<le> 31" by (rule month_days_bounds)
  consider (day) "d < month_days y m" | (month) "\<not> d < month_days y m" "m < 12"
    | (year) "\<not> d < month_days y m" "\<not> m < 12" by blast
  then show ?thesis
  proof cases
    case day
    then have "fixed_dec 2 d < fixed_dec 2 (Suc d)" using d by (intro fixed_dec_less) auto
    with day show ?thesis by (simp add: x date_stamp_def less_append_same)
  next
    case month
    then have "fixed_dec 2 m < fixed_dec 2 (Suc m)" by (intro fixed_dec_less) auto
    with month show ?thesis
      by (simp add: x date_stamp_def less_append_same less_append_prefix fixed_dec_length)
  next
    case year
    then have "Suc y < 10000" using assms(2) by (simp add: x)
    then have "fixed_dec 4 y < fixed_dec 4 (Suc y)" by (intro fixed_dec_less) auto
    with year \<open>Suc y < 10000\<close> show ?thesis
      by (simp add: x date_stamp_def less_append_prefix fixed_dec_length)
  qed
qed

text \<open>The days before the year 10000, the range of Python's \<open>datetime\<close>.\<close>

definition in_range :: "nat \<Rightarrow> bool" where
  "in_range t \<longleftrightarrow> fst (civil_date (t div 86400)) < 10000"

lemma date_stamp_less:
  "a < b \<Longrightarrow> fst (civil_date b) < 10000 \<Longrightarrow> date_stamp (civil_date a) < date_stamp (civil_date b)"
proof (induction b)
  case (Suc b)
  have y: "fst (civil_date b) < 10000" using civil_year_mono [of b "Suc b"] Suc.prems(2) by simp
  have step: "date_stamp (civil_date b) < date_stamp (civil_date (Suc b))"
    using date_stamp_next [OF date_ok_civil] Suc.prems(2) by simp
  show ?case
  proof (cases "a = b")
    case False
    with Suc.IH [OF _ y] Suc.prems(1) step show ?thesis by (meson less_SucE less_trans)
  qed (use step in simp)
qed simp

lemma time_stamp_less: "a < b \<Longrightarrow> b < 86400 \<Longrightarrow> time_stamp a < time_stamp b"
proof -
  assume ab: "a < b" "b < 86400"
  consider (hour) "a div 3600 < b div 3600"
    | (minute) "a div 3600 = b div 3600" "a div 60 mod 60 < b div 60 mod 60"
    | (sec) "a div 3600 = b div 3600" "a div 60 mod 60 = b div 60 mod 60" "a mod 60 < b mod 60"
  proof -
    assume hour: "a div 3600 < b div 3600 \<Longrightarrow> thesis"
      and minute: "a div 3600 = b div 3600 \<Longrightarrow> a div 60 mod 60 < b div 60 mod 60 \<Longrightarrow> thesis"
      and sec: "a div 3600 = b div 3600 \<Longrightarrow> a div 60 mod 60 = b div 60 mod 60 \<Longrightarrow> a mod 60 < b mod 60 \<Longrightarrow> thesis"
    have le: "a div 3600 \<le> b div 3600" "a div 60 \<le> b div 60" using ab by (simp_all add: div_le_mono)
    have h: "a div 60 = a div 3600 * 60 + a div 60 mod 60" "b div 60 = b div 3600 * 60 + b div 60 mod 60"
      by (simp_all add: div_mult2_eq [of _ 60 60, simplified])
    have m: "a = a div 60 * 60 + a mod 60" "b = b div 60 * 60 + b mod 60" by simp_all
    show thesis
    proof (cases "a div 3600 = b div 3600")
      case False
      with le(1) show thesis by (intro hour) linarith
    next
      case eh: True
      show thesis
      proof (cases "a div 60 mod 60 = b div 60 mod 60")
        case True
        then have "a div 60 = b div 60" using h eh by metis
        then have "a mod 60 < b mod 60" using m ab(1) by linarith
        with eh True show thesis by (rule sec)
      next
        case False
        with h le(2) eh have "a div 60 mod 60 < b div 60 mod 60" by linarith
        with eh show thesis by (rule minute)
      qed
    qed
  qed
  then show ?thesis
  proof cases
    case hour
    then have "fixed_dec 2 (a div 3600) < fixed_dec 2 (b div 3600)" using ab by (intro fixed_dec_less) auto
    with ab hour show ?thesis by (simp add: time_stamp_def less_append_prefix fixed_dec_length)
  next
    case minute
    then have "fixed_dec 2 (a div 60 mod 60) < fixed_dec 2 (b div 60 mod 60)" by (intro fixed_dec_less) auto
    with minute show ?thesis by (simp add: time_stamp_def less_append_same less_append_prefix fixed_dec_length)
  next
    case sec
    then have "fixed_dec 2 (a mod 60) < fixed_dec 2 (b mod 60)" by (intro fixed_dec_less) auto
    with sec show ?thesis by (simp add: time_stamp_def less_append_same)
  qed
qed

lemma stamp_strict_mono: "a < b \<Longrightarrow> in_range b \<Longrightarrow> stamp a < stamp b"
proof (cases "a div 86400 = b div 86400")
  case True
  assume "a < b"
  with True have "a mod 86400 < b mod 86400" by (metis div_mult_mod_eq nat_add_left_cancel_less)
  with True show ?thesis by (simp add: stamp_def less_append_same time_stamp_less)
next
  case False
  assume ab: "a < b" and r: "in_range b"
  have lt: "a div 86400 < b div 86400" using ab False by (simp add: div_le_mono le_neq_implies_less)
  have "fst (civil_date (a div 86400)) < 10000"
    using civil_year_mono [of "a div 86400" "b div 86400"] lt r by (simp add: in_range_def)
  with date_stamp_less [OF lt] r show ?thesis
    by (simp add: stamp_def in_range_def less_append_prefix date_stamp_length date_ok_civil)
qed

text \<open>Comparing two timestamps as strings compares the moments they stand for: up to the year
  9999, \<open>strftime\<close> with \<open>TS_FORMAT\<close> is strictly monotone in the number of seconds, so the string
  comparisons of the store and of the mirror are chronological, and equal stamps mean equal
  seconds.\<close>

lemma stamp_order:
  assumes "in_range a" "in_range b"
  shows "(stamp a < stamp b \<longleftrightarrow> a < b) \<and> (stamp a = stamp b \<longleftrightarrow> a = b)"
  using stamp_strict_mono [of a b] stamp_strict_mono [of b a] assms
  by (metis less_asym linorder_neqE_nat)

lemma stamp_order_witness: "stamp 59 < stamp 60 \<and> stamp 86399 < stamp 86400"
  using stamp_order [of 59 60] stamp_order [of 86399 86400] by (simp add: in_range_def month_days_def)

end
