(* ===== verification/MetricStore.thy ===== *)
theory MetricStore
  imports Protocol Timestamps
begin

text \<open>
  The manager's metric history (\<open>src/src/oumigo/service/manager/control/store.py\<close>): the SQLite
  table \<open>metric_fact\<close> as an association list from its primary key (node, metric, timestamp) to
  the value. Text comparison is SQLite's \<open>BINARY\<close> collation, the order on strings. \<open>LIKE\<close> is
  modelled with its wildcards and its case folding of ASCII letters.
\<close>

type_synonym fact_key = "string \<times> string \<times> string"

record metric_store =
  retention_s :: real
  facts :: "(fact_key \<times> real) list"

definition RETENTION_S :: real where "RETENTION_S = 24 * 60 * 60"

definition store_init :: "real \<Rightarrow> metric_store" where
  "store_init ret = \<lparr>retention_s = ret, facts = []\<rparr>"

definition cutoff :: "real \<Rightarrow> metric_store \<Rightarrow> string" where
  "cutoff now ms = stamp_at (now - retention_s ms)"

definition fact_ts :: "fact_key \<times> real \<Rightarrow> string" where
  "fact_ts f = snd (snd (fst f))"

definition fact_node :: "fact_key \<times> real \<Rightarrow> string" where
  "fact_node f = fst (fst f)"

definition fact_metric :: "fact_key \<times> real \<Rightarrow> string" where
  "fact_metric f = fst (snd (fst f))"

definition upsert :: "string \<Rightarrow> metric_point \<Rightarrow> (fact_key \<times> real) list \<Rightarrow> (fact_key \<times> real) list" where
  "upsert nid p fs = AList.update (nid, mp_metric p, mp_timestamp p) (mp_value p) fs"

definition prune_locked :: "real \<Rightarrow> metric_store \<Rightarrow> metric_store" where
  "prune_locked now ms = ms\<lparr>facts := filter (\<lambda>f. \<not> fact_ts f < cutoff now ms) (facts ms)\<rparr>"

definition ingest :: "string \<Rightarrow> metric_point list \<Rightarrow> real \<Rightarrow> metric_store \<Rightarrow> nat \<times> metric_store" where
  "ingest nid pts now ms =
     (length pts, prune_locked now (ms\<lparr>facts := fold (upsert nid) pts (facts ms)\<rparr>))"

definition store_count :: "metric_store \<Rightarrow> nat" where
  "store_count ms = length (facts ms)"

record latest_row =
  lr_node_id :: string
  lr_timestamp :: string
  lr_metrics :: "(string \<times> real) list"

definition latest_ts :: "string \<Rightarrow> metric_store \<Rightarrow> string" where
  "latest_ts nid ms = Max (set (map fact_ts (filter (\<lambda>f. fact_node f = nid) (facts ms))))"

definition latest_per_node :: "metric_store \<Rightarrow> latest_row list" where
  "latest_per_node ms =
     map (\<lambda>nid. let ts = latest_ts nid ms in
            \<lparr>lr_node_id = nid, lr_timestamp = ts,
             lr_metrics = sort_key fst (map (\<lambda>f. (fact_metric f, snd f))
               (filter (\<lambda>f. fact_node f = nid \<and> fact_ts f = ts) (facts ms)))\<rparr>)
       (sort (remdups (map fact_node (facts ms))))"

text \<open>\<open>metric LIKE pattern\<close>: \<open>%\<close> matches any run of characters and \<open>_\<close> any one character;
  ASCII letters match in either case.\<close>

definition ascii_fold :: "char \<Rightarrow> char" where
  "ascii_fold ch = (let n = (of_char ch :: nat) in if 65 \<le> n \<and> n \<le> 90 then char_of (n + 32) else ch)"

fun sql_like :: "string \<Rightarrow> string \<Rightarrow> bool" where
  "sql_like [] s = (s = [])"
| "sql_like (p # ps) [] = (p = CHR ''%'' \<and> sql_like ps [])"
| "sql_like (p # ps) (x # xs) =
     (if p = CHR ''%'' then sql_like ps (x # xs) \<or> sql_like (p # ps) xs
      else (p = CHR ''_'' \<or> ascii_fold p = ascii_fold x) \<and> sql_like ps xs)"

definition since :: "string \<Rightarrow> string list \<Rightarrow> metric_store \<Rightarrow> (fact_key \<times> real) list" where
  "since after prefixes ms =
     sort_key fact_ts (filter (\<lambda>f. after < fact_ts f \<and>
       (prefixes = [] \<or> list_ex (\<lambda>p. sql_like (p @ ''%'') (fact_metric f)) prefixes)) (facts ms))"

section \<open>The table as a map\<close>

definition fact_value :: "metric_store \<Rightarrow> fact_key \<Rightarrow> real option" where
  "fact_value ms k = map_of (facts ms) k"

text \<open>The value a batch writes for a key: its last point with that key.\<close>

definition batch_value :: "string \<Rightarrow> metric_point list \<Rightarrow> fact_key \<Rightarrow> real option" where
  "batch_value nid pts k =
     map_option mp_value (find (\<lambda>p. (nid, mp_metric p, mp_timestamp p) = k) (rev pts))"

definition store_ok :: "metric_store \<Rightarrow> bool" where
  "store_ok ms = dict_wf (facts ms)"

lemma fold_upsert_wf: "dict_wf fs \<Longrightarrow> dict_wf (fold (upsert nid) pts fs)"
  by (induction pts arbitrary: fs) (simp_all add: upsert_def)

lemma map_of_filter_wf:
  "dict_wf d \<Longrightarrow> map_of (filter P d) k = (case map_of d k of None \<Rightarrow> None | Some v \<Rightarrow> if P (k, v) then Some v else None)"
proof (induction d)
  case (Cons a d)
  have "map_of d (fst a) = None" using Cons.prems by (simp add: dict_wf_def map_of_eq_None_iff)
  with Cons show ?case by (auto simp: dict_wf_def split: option.splits)
qed simp

lemma fold_upsert_map_of:
  "map_of (fold (upsert nid) pts fs) k = or_else (batch_value nid pts k) (map_of fs k)"
  by (induction pts rule: rev_induct) (auto simp: batch_value_def upsert_def update_conv' find_Some_iff)

lemma store_ok_ingest: "store_ok ms \<Longrightarrow> store_ok (snd (ingest nid pts now ms))"
  by (simp add: store_ok_def ingest_def prune_locked_def fold_upsert_wf)

lemma fact_ingest:
  assumes "store_ok ms"
  shows "fact_value (snd (ingest nid pts now ms)) k =
    (if snd (snd k) < cutoff now ms then None else or_else (batch_value nid pts k) (fact_value ms k))"
  using assms
  by (auto simp: fact_value_def store_ok_def ingest_def prune_locked_def map_of_filter_wf fold_upsert_wf
      fold_upsert_map_of cutoff_def fact_ts_def split: option.split)

interpretation store: event_machine "store_init ret"
  "\<lambda>(nid, pts, now) ms. snd (ingest nid pts now ms)" store_ok for ret
  by unfold_locales (auto simp: store_init_def store_ok_def intro: store_ok_ingest [unfolded store_ok_def])

section \<open>Properties\<close>

text \<open>Ingest is an upsert with retention: whatever batches came before, after a batch the
  value under a key is the batch's last value for it, or else the old one, unless its timestamp is
  older than the retention window, in which case nothing is kept under it. Hence the batch may be
  sent again (a retry after a lost reply) without any effect.\<close>

lemma ingest_upsert_retention:
  assumes ms: "ms = fold (\<lambda>(nid, pts, now) ms. snd (ingest nid pts now ms)) bs (store_init ret)"
  shows "fact_value (snd (ingest nid pts now ms)) k =
      (if snd (snd k) < cutoff now ms then None else or_else (batch_value nid pts k) (fact_value ms k))
    \<and> fact_value (snd (ingest nid pts now (snd (ingest nid pts now ms)))) k = fact_value (snd (ingest nid pts now ms)) k"
proof -
  have ok: "store_ok ms" unfolding ms by (rule store.good_reachable)
  have "cutoff now (snd (ingest nid pts now ms)) = cutoff now ms"
    by (simp add: cutoff_def ingest_def prune_locked_def)
  then show ?thesis
    by (auto simp: fact_ingest [OF ok] fact_ingest [OF store_ok_ingest [OF ok]] or_else_def split: option.splits)
qed

definition demo_point :: metric_point where
  "demo_point = \<lparr>mp_timestamp = ''1970-01-02 00:00:05'', mp_metric = ''gpu:#0_util_pct'', mp_value = 50\<rparr>"

lemma ingest_upsert_retention_witness:
  "fact_value (snd (ingest ''a'' [demo_point] 86405 (store_init RETENTION_S)))
     (''a'', ''gpu:#0_util_pct'', ''1970-01-02 00:00:05'') = Some 50"
proof -
  have "cutoff 86405 (store_init RETENTION_S) = ''1970-01-01 00:00:05''"
    by (simp add: cutoff_def store_init_def RETENTION_S_def stamp_at_def stamp_def date_stamp_def time_stamp_def
        fixed_dec_def pad_left_def nat_str.simps digit_char_def) code_simp
  then show ?thesis
    using ingest_upsert_retention [of "store_init RETENTION_S" "[]" RETENTION_S "''a''" "[demo_point]" 86405
        "(''a'', ''gpu:#0_util_pct'', ''1970-01-02 00:00:05'')"]
    by (simp add: batch_value_def demo_point_def)
qed

text \<open>The incremental pull loses nothing: the rows after a watermark are exactly the retained
  rows with a later timestamp, in ascending order of timestamp, each once; with a later watermark,
  the rows up to it and the rows after it make up the rows after the earlier one.\<close>

lemma since_incremental:
  assumes "store_ok ms"
  shows "set (since a [] ms) = {f \<in> set (facts ms). a < fact_ts f}
    \<and> sorted (map fact_ts (since a [] ms)) \<and> distinct (since a [] ms)
    \<and> (a \<le> b \<longrightarrow> since a [] ms = filter (\<lambda>f. fact_ts f \<le> b) (since a [] ms) @ since b [] ms)"
proof -
  have d: "distinct (facts ms)" using assms by (simp add: store_ok_def dict_wf_def distinct_map)
  have split: "sort_key f xs = filter (\<lambda>x. f x \<le> b) (sort_key f xs) @ filter (\<lambda>x. b < f x) (sort_key f xs)"
    for f :: "fact_key \<times> real \<Rightarrow> string" and xs
  proof -
    have "sorted (map f ys) \<Longrightarrow> ys = filter (\<lambda>x. f x \<le> b) ys @ filter (\<lambda>x. b < f x) ys" for ys
    proof (induction ys)
      case (Cons y ys)
      have "filter (\<lambda>x. f x \<le> b) ys = []" "filter (\<lambda>x. b < f x) ys = ys" if "\<not> f y \<le> b"
        using that Cons.prems by (auto simp: filter_empty_conv filter_id_conv not_le intro: less_le_trans)
      with Cons show ?case by (auto simp: not_le)
    qed simp
    then show ?thesis by simp
  qed
  have "since b [] ms = filter (\<lambda>f. b < fact_ts f) (since a [] ms)" if "a \<le> b"
    using that by (simp add: since_def filter_sort) (metis (no_types, lifting) filter_cong le_less_trans)
  with split [of fact_ts] d show ?thesis by (auto simp: since_def)
qed

lemma since_incremental_witness:
  "sorted (map fact_ts (since ''1970'' [] (snd (ingest ''a'' [demo_point] 5 (store_init 1)))))"
proof -
  have "store_ok (snd (ingest ''a'' [demo_point] 5 (store_init 1)))"
    by (rule store_ok_ingest) (simp add: store_ok_def store_init_def)
  from since_incremental [OF this] show ?thesis by simp
qed

lemma sort_key_empty: "sort_key f xs = [] \<longleftrightarrow> xs = []"
  by (metis length_0_conv length_sort)

text \<open>The fleet overview: one row per node that has data, ordered by node id, carrying that
  node's latest timestamp and exactly the values stored under it.\<close>

lemma latest_per_node_spec:
  assumes "store_ok ms"
  shows "sorted (map lr_node_id (latest_per_node ms)) \<and> distinct (map lr_node_id (latest_per_node ms))
    \<and> set (map lr_node_id (latest_per_node ms)) = fact_node ` set (facts ms)
    \<and> (\<forall>row \<in> set (latest_per_node ms).
         (\<forall>f \<in> set (facts ms). fact_node f = lr_node_id row \<longrightarrow> fact_ts f \<le> lr_timestamp row)
         \<and> lr_metrics row \<noteq> []
         \<and> (\<forall>m v. (m, v) \<in> set (lr_metrics row) \<longleftrightarrow>
              fact_value ms (lr_node_id row, m, lr_timestamp row) = Some v))"
proof -
  have ids: "map lr_node_id (latest_per_node ms) = sort (remdups (map fact_node (facts ms)))"
    by (simp add: latest_per_node_def Let_def comp_def)
  have rows: "(\<forall>f \<in> set (facts ms). fact_node f = nid \<longrightarrow> fact_ts f \<le> latest_ts nid ms)
      \<and> (\<exists>f \<in> set (facts ms). fact_node f = nid \<and> fact_ts f = latest_ts nid ms)"
    if "nid \<in> fact_node ` set (facts ms)" for nid
  proof -
    let ?T = "set (map fact_ts (filter (\<lambda>f. fact_node f = nid) (facts ms)))"
    have "?T \<noteq> {}" using that by (auto simp: filter_empty_conv)
    then have "Max ?T \<in> ?T" "\<forall>t \<in> ?T. t \<le> Max ?T" by (auto intro: Max_in)
    then show ?thesis unfolding latest_ts_def by auto
  qed
  have val: "(m, v) \<in> set (map (\<lambda>f. (fact_metric f, snd f)) (filter (\<lambda>f. fact_node f = nid \<and> fact_ts f = ts) (facts ms)))
      \<longleftrightarrow> fact_value ms (nid, m, ts) = Some v" for m v nid ts
    using assms dict_wf_mem [of "facts ms" "(nid, m, ts)" v]
    by (force simp: store_ok_def fact_value_def fact_metric_def fact_node_def fact_ts_def)
  show ?thesis unfolding ids
    using rows val by (auto simp: latest_per_node_def Let_def filter_empty_conv sort_key_empty)
qed

lemma latest_per_node_spec_witness:
  "map lr_node_id (latest_per_node \<lparr>retention_s = 1,
     facts = [((''b'', ''x'', ''2''), 1), ((''a'', ''x'', ''1''), 2)]\<rparr>) = [''a'', ''b'']"
  using latest_per_node_spec [of "\<lparr>retention_s = 1, facts = [((''b'', ''x'', ''2''), 1), ((''a'', ''x'', ''1''), 2)]\<rparr>"]
  by (simp add: latest_per_node_def store_ok_def dict_wf_def fact_node_def Let_def)

lemma sql_like_percent: "sql_like ''%'' s"
  by (induction s) auto

text \<open>The prefix filter of a pull compares letters without regard to case: for a prefix
  without wildcard characters, \<open>LIKE\<close> keeps exactly the metrics that start with it up to the case
  of ASCII letters.\<close>

lemma like_prefix_folds_case:
  assumes "CHR ''%'' \<notin> set p" "CHR ''_'' \<notin> set p"
  shows "sql_like (p @ ''%'') s \<longleftrightarrow> map ascii_fold (take (length p) s) = map ascii_fold p"
  using assms
proof (induction p arbitrary: s)
  case Nil
  show ?case using sql_like_percent [of s] by simp
next
  case (Cons c p)
  then show ?case by (cases s) auto
qed

lemma like_prefix_folds_case_witness: "sql_like (''gpu:'' @ ''%'') ''GPU:x''"
proof -
  have "map ascii_fold ''GPU:'' = map ascii_fold ''gpu:''" by code_simp
  with like_prefix_folds_case [of "''gpu:''" "''GPU:x''"] show ?thesis by simp
qed

end
