(* ===== verification/Access.thy ===== *)
theory Access
  imports Prelude
begin

text \<open>
  Who may reach the manager: the source-address allowlist and the failure limiter
  (\<open>src/src/oumigo/service/manager/access.py\<close>), the network posture check
  (\<open>posture.py\<close>) and the resolution of the shared token (\<open>auth.py\<close>). The part of Python's
  \<open>ipaddress\<close> module these use is modelled first: textual addresses and networks of both
  versions, membership, loopback and IPv4-mapped addresses. Addresses are numbers below
  \<open>2 ^ 32\<close> or \<open>2 ^ 128\<close>.
\<close>

section \<open>ipaddress\<close>

datatype ip = V4 int | V6 int

text \<open>A network: version, network address with the host bits cleared, prefix length.\<close>

datatype network = Net nat int nat

definition dec_digit :: "char \<Rightarrow> int option" where
  "dec_digit ch = (let n = (of_char ch :: int) in if 48 \<le> n \<and> n \<le> 57 then Some (n - 48) else None)"

definition hex_value :: "char \<Rightarrow> int option" where
  "hex_value ch = (let n = (of_char ch :: int) in
     if 48 \<le> n \<and> n \<le> 57 then Some (n - 48)
     else if 97 \<le> n \<and> n \<le> 102 then Some (n - 87)
     else if 65 \<le> n \<and> n \<le> 70 then Some (n - 55) else None)"

fun digits_value :: "(char \<Rightarrow> int option) \<Rightarrow> int \<Rightarrow> int \<Rightarrow> string \<Rightarrow> int option" where
  "digits_value d base acc [] = Some acc"
| "digits_value d base acc (x # xs) =
     (case d x of None \<Rightarrow> None | Some v \<Rightarrow> digits_value d base (acc * base + v) xs)"

definition parse_octet :: "string \<Rightarrow> int option" where
  "parse_octet s =
     (if s = [] \<or> 3 < length s \<or> (1 < length s \<and> hd s = CHR ''0'') then None
      else Option.bind (digits_value dec_digit 10 0 s) (\<lambda>v. if 255 < v then None else Some v))"

definition parse_v4 :: "string \<Rightarrow> int option" where
  "parse_v4 s =
     (case map parse_octet (py_split (CHR ''.'') s) of
        [Some a, Some b, Some c, Some d] \<Rightarrow> Some (((a * 256 + b) * 256 + c) * 256 + d)
      | _ \<Rightarrow> None)"

definition parse_hextet :: "string \<Rightarrow> int option" where
  "parse_hextet s = (if s = [] \<or> 4 < length s then None else digits_value hex_value 16 0 s)"

fun hextets_value :: "int \<Rightarrow> string list \<Rightarrow> int option" where
  "hextets_value acc [] = Some acc"
| "hextets_value acc (p # ps) =
     (case parse_hextet p of None \<Rightarrow> None | Some v \<Rightarrow> hextets_value (acc * 65536 + v) ps)"

definition hex_nibble :: "int \<Rightarrow> char" where
  "hex_nibble n = (if n < 10 then char_of (48 + n) else char_of (87 + n))"

definition hex4 :: "int \<Rightarrow> string" where
  "hex4 n = [hex_nibble (n div 4096 mod 16), hex_nibble (n div 256 mod 16), hex_nibble (n div 16 mod 16),
             hex_nibble (n mod 16)]"

text \<open>\<open>IPv6Address._ip_int_from_string\<close>: an embedded IPv4 tail becomes two groups, at most one
  inner empty group (\<open>::\<close>) is allowed and stands for at least one zero group.\<close>

definition parse_v6_parts :: "string list \<Rightarrow> int option" where
  "parse_v6_parts ps =
     (let n = length ps;
          skips = filter (\<lambda>i. ps ! i = []) [1..<n - 1] in
      if n < 3 \<or> 9 < n then None
      else case skips of
        [] \<Rightarrow> if n \<noteq> 8 then None else hextets_value 0 ps
      | [i] \<Rightarrow>
          (let lead = (hd ps = []); trail = (last ps = []);
               hi = (if lead then i - 1 else i);
               lo = (if trail then n - i - 2 else n - i - 1) in
           if (lead \<and> hi \<noteq> 0) \<or> (trail \<and> lo \<noteq> 0) \<or> 8 < hi + lo + 1 then None
           else Option.bind (hextets_value 0 (take hi ps)) (\<lambda>v.
                  hextets_value (v * 65536 ^ (8 - (hi + lo))) (drop (n - lo) ps)))
      | _ \<Rightarrow> None)"

definition parse_v6 :: "string \<Rightarrow> int option" where
  "parse_v6 s =
     (let (addr, sep, scope) = py_partition (CHR ''%'') s;
          ps = py_split (CHR '':'') addr in
      if sep \<and> (scope = [] \<or> CHR ''%'' \<in> set scope) then None
      else if length ps < 3 then None
      else if CHR ''.'' \<in> set (last ps) then
        (case parse_v4 (last ps) of None \<Rightarrow> None
         | Some v \<Rightarrow> parse_v6_parts (butlast ps @ [hex4 (v div 65536), hex4 (v mod 65536)]))
      else parse_v6_parts ps)"

text \<open>\<open>ipaddress.ip_address(s)\<close>; \<open>None\<close> is its \<open>ValueError\<close>.\<close>

definition ip_address :: "string \<Rightarrow> ip option" where
  "ip_address s =
     (if CHR ''/'' \<in> set s then None
      else case parse_v4 s of Some v \<Rightarrow> Some (V4 v) | None \<Rightarrow> map_option V6 (parse_v6 s))"

definition ip_bits :: "ip \<Rightarrow> nat" where
  "ip_bits a = (case a of V4 _ \<Rightarrow> 32 | V6 _ \<Rightarrow> 128)"

definition ip_value :: "ip \<Rightarrow> int" where
  "ip_value a = (case a of V4 v \<Rightarrow> v | V6 v \<Rightarrow> v)"

definition ip_version :: "ip \<Rightarrow> nat" where
  "ip_version a = (case a of V4 _ \<Rightarrow> 4 | V6 _ \<Rightarrow> 6)"

text \<open>The prefix of an IPv4 netmask or hostmask written as an address.\<close>

definition mask_prefix :: "int \<Rightarrow> nat option" where
  "mask_prefix m =
     (case find (\<lambda>p. 2 ^ 32 - 2 ^ (32 - p) = m) [0..<33] of
        Some p \<Rightarrow> Some p
      | None \<Rightarrow> find (\<lambda>p. 2 ^ (32 - p) - 1 = m) [0..<33])"

definition parse_prefix :: "ip \<Rightarrow> string \<Rightarrow> nat option" where
  "parse_prefix a s =
     (case (if s = [] then None else digits_value dec_digit 10 0 s) of
        Some p \<Rightarrow> if p \<le> int (ip_bits a) then Some (nat p) else None
      | None \<Rightarrow> (case a of V4 _ \<Rightarrow> Option.bind (parse_v4 s) mask_prefix | V6 _ \<Rightarrow> None))"

definition clear_host :: "nat \<Rightarrow> nat \<Rightarrow> int \<Rightarrow> int" where
  "clear_host bits p v = v div 2 ^ (bits - p) * 2 ^ (bits - p)"

text \<open>\<open>ipaddress.ip_network(s, strict=False)\<close>\<close>

definition ip_network :: "string \<Rightarrow> network option" where
  "ip_network s =
     (let (addr, sep, pre) = py_partition (CHR ''/'') s in
      Option.bind (ip_address addr) (\<lambda>a.
        Option.bind (if sep then parse_prefix a pre else Some (ip_bits a)) (\<lambda>p.
          Some (Net (ip_version a) (clear_host (ip_bits a) p (ip_value a)) p))))"

definition ip_in :: "ip \<Rightarrow> network \<Rightarrow> bool" where
  "ip_in a net = (case net of Net ver base p \<Rightarrow>
     ip_version a = ver \<and> clear_host (ip_bits a) p (ip_value a) = base)"

definition ipv4_mapped :: "ip \<Rightarrow> ip option" where
  "ipv4_mapped a = (case a of V4 _ \<Rightarrow> None
     | V6 v \<Rightarrow> if v div 2 ^ 32 = 65535 then Some (V4 (v mod 2 ^ 32)) else None)"

definition ip_is_loopback :: "ip \<Rightarrow> bool" where
  "ip_is_loopback a =
     (case ipv4_mapped a of
        Some b \<Rightarrow> ip_value b div 2 ^ 24 = 127
      | None \<Rightarrow> (case a of V4 v \<Rightarrow> v div 2 ^ 24 = 127 | V6 v \<Rightarrow> v = 1))"

section \<open>WorkerAllowlist\<close>

record worker_allowlist =
  wa_enabled :: bool
  networks :: "network list"

fun parse_networks :: "string list \<Rightarrow> network list res" where
  "parse_networks [] = Inr []"
| "parse_networks (e # es) =
     (case ip_network (py_strip e) of
        None \<Rightarrow> Inl (ValueErr (py_strip e))
      | Some net \<Rightarrow> res_map (\<lambda>ns. net # ns) (parse_networks es))"

definition make_allowlist :: "string list option \<Rightarrow> worker_allowlist res" where
  "make_allowlist entries =
     res_map (\<lambda>ns. \<lparr>wa_enabled = (entries \<noteq> None), networks = ns\<rparr>)
       (parse_networks (default_to [] entries))"

definition allows :: "worker_allowlist \<Rightarrow> string option \<Rightarrow> bool" where
  "allows wa host =
     (if \<not> wa_enabled wa then True
      else case ip_address (default_to [] host) of
        None \<Rightarrow> False
      | Some a \<Rightarrow>
          let a' = (case ipv4_mapped a of Some b \<Rightarrow> b | None \<Rightarrow> a) in
          list_ex (ip_in a') (networks wa))"

section \<open>FailureLimiter\<close>

record failure_limiter =
  max_failures :: int
  window_s :: real
  failures :: "(string \<times> real list) list"

definition make_limiter :: "int \<Rightarrow> real \<Rightarrow> failure_limiter" where
  "make_limiter m w = \<lparr>max_failures = m, window_s = w, failures = []\<rparr>"

definition recent :: "real \<Rightarrow> string \<Rightarrow> failure_limiter \<Rightarrow> real list \<times> failure_limiter" where
  "recent now host fl =
     (let times = default_to [] (map_of (failures fl) host);
          cutoff = now - window_s fl;
          times' = dropWhile (\<lambda>t. t < cutoff) times in
      (times', fl\<lparr>failures := AList.update host times' (failures fl)\<rparr>))"

definition blocked :: "real \<Rightarrow> string option \<Rightarrow> failure_limiter \<Rightarrow> bool \<times> failure_limiter" where
  "blocked now host fl =
     (case host of None \<Rightarrow> (False, fl)
      | Some h \<Rightarrow> let (times, fl') = recent now h fl in (max_failures fl \<le> int (length times), fl'))"

definition record_failure :: "real \<Rightarrow> string option \<Rightarrow> failure_limiter \<Rightarrow> failure_limiter" where
  "record_failure now host fl =
     (case host of None \<Rightarrow> fl
      | Some h \<Rightarrow>
          let (times, fl') = recent now h fl in
          fl'\<lparr>failures := AList.update h (times @ [now]) (failures fl')\<rparr>)"

section \<open>Network posture\<close>

definition is_loopback :: "string \<Rightarrow> bool" where
  "is_loopback host =
     (if py_lower (py_strip host) = ''localhost'' then True
      else
        let brk = (\<lambda>ch. ch \<in> {CHR ''['', CHR '']''});
            bare = rev (dropWhile brk (rev (dropWhile brk host))) in
        case ip_address bare of None \<Rightarrow> False | Some a \<Rightarrow> ip_is_loopback a)"

definition CUSTOM :: string where "CUSTOM = ''CUSTOM''"

datatype violation =
    ControlExposed string
  | RouterExposed string
  | ClientAuthOff
  | DashboardExposed string

definition check_posture ::
  "string \<Rightarrow> string \<Rightarrow> bool \<Rightarrow> string \<Rightarrow> bool \<Rightarrow> bool \<Rightarrow> string \<Rightarrow> violation list" where
  "check_posture provider control_host control_tls data_host client_auth dashboard_enabled dashboard_host =
     (if provider \<noteq> CUSTOM then []
      else
        (if \<not> is_loopback control_host \<and> \<not> control_tls then [ControlExposed control_host] else []) @
        (if \<not> is_loopback data_host then [RouterExposed data_host] else []) @
        (if \<not> client_auth then [ClientAuthOff] else []) @
        (if dashboard_enabled \<and> \<not> is_loopback dashboard_host then [DashboardExposed dashboard_host] else []))"

section \<open>The shared token\<close>

text \<open>The environment variable, and the token file: \<open>None\<close> not configured, \<open>Some None\<close> missing,
  \<open>Some (Some text)\<close> its contents.\<close>

definition resolve_manager_token ::
  "string option \<Rightarrow> string option option \<Rightarrow> string option res" where
  "resolve_manager_token env_token token_file =
     (if truthy env_token \<and> py_strip (the env_token) \<noteq> [] then Inr (Some (py_strip (the env_token)))
      else case token_file of
        None \<Rightarrow> Inr None
      | Some None \<Rightarrow> Inl (FileNotFound ''token file not found'')
      | Some (Some txt) \<Rightarrow> Inr (if py_strip txt \<noteq> [] then Some (py_strip txt) else None))"

section \<open>The limiter as a sliding window\<close>

datatype limiter_event = LBlocked real "string option" | LRecord real "string option"

primrec limiter_exec :: "limiter_event \<Rightarrow> failure_limiter \<Rightarrow> failure_limiter" where
  "limiter_exec (LBlocked now h) fl = snd (blocked now h fl)"
| "limiter_exec (LRecord now h) fl = record_failure now h fl"

primrec event_time :: "limiter_event \<Rightarrow> real" where
  "event_time (LBlocked now h) = now"
| "event_time (LRecord now h) = now"

text \<open>The abstract view: the times of all failures ever recorded for a host.\<close>

fun recorded :: "string \<Rightarrow> limiter_event list \<Rightarrow> real list" where
  "recorded h [] = []"
| "recorded h (LRecord t (Some h') # es) = (if h' = h then t # recorded h es else recorded h es)"
| "recorded h (_ # es) = recorded h es"

lemma recorded_append [simp]: "recorded h (xs @ ys) = recorded h xs @ recorded h ys"
  by (induction h xs rule: recorded.induct) auto

lemma recorded_subset: "set (recorded h es) \<subseteq> event_time ` set es"
  by (induction h es rule: recorded.induct) auto

lemma sorted_recorded: "sorted (map event_time es) \<Longrightarrow> sorted (recorded h es)"
  by (induction h es rule: recorded.induct) (use recorded_subset in fastforce)+

lemma dropWhile_sorted:
  fixes c :: real
  assumes "sorted xs" shows "dropWhile (\<lambda>t. t < c) xs = filter (\<lambda>t. c \<le> t) xs"
proof (cases "\<exists>x \<in> set xs. c \<le> x")
  case True
  with assms show ?thesis
  proof (induction xs)
    case (Cons a xs)
    have "filter (\<lambda>t. c \<le> t) xs = xs" if "c \<le> a"
      using that Cons.prems by (intro filter_True) auto
    with Cons show ?case by (auto simp: not_less)
  qed simp
qed (auto simp: not_le intro!: filter_False [symmetric])

definition window_sim :: "limiter_event list \<Rightarrow> real \<Rightarrow> failure_limiter \<Rightarrow> bool" where
  "window_sim es now fl \<longleftrightarrow> (\<forall>h. \<exists>c \<le> now - window_s fl.
     default_to [] (map_of (failures fl) h) = filter (\<lambda>t. c \<le> t) (recorded h es))"

lemma window_sim_later: "window_sim es t fl \<Longrightarrow> t \<le> now \<Longrightarrow> window_sim es now fl"
  unfolding window_sim_def by (meson diff_right_mono order_trans)

lemma recent_window:
  assumes "window_sim es now fl" "sorted (map event_time es)"
  shows "fst (recent now h fl) = filter (\<lambda>t. now - window_s fl \<le> t) (recorded h es)"
proof -
  obtain c where c: "c \<le> now - window_s fl"
    "default_to [] (map_of (failures fl) h) = filter (\<lambda>t. c \<le> t) (recorded h es)"
    using assms(1) by (auto simp: window_sim_def)
  have "sorted (filter (\<lambda>t. c \<le> t) (recorded h es))"
    using sorted_recorded [OF assms(2)] by (simp add: sorted_wrt_filter)
  then show ?thesis using c
    by (auto simp: recent_def Let_def dropWhile_sorted filter_filter intro: filter_cong)
qed

lemma recent_simps [simp]:
  "window_s (snd (recent now h fl)) = window_s fl" "max_failures (snd (recent now h fl)) = max_failures fl"
  "failures (snd (recent now h fl)) = AList.update h (fst (recent now h fl)) (failures fl)"
  by (simp_all add: recent_def Let_def)

lemma window_sim_recent:
  assumes "window_sim es now fl" "sorted (map event_time es)"
  shows "window_sim es now (snd (recent now h fl))"
  unfolding window_sim_def
proof
  fix k
  show "\<exists>c \<le> now - window_s (snd (recent now h fl)).
      default_to [] (map_of (failures (snd (recent now h fl))) k) = filter (\<lambda>t. c \<le> t) (recorded k es)"
  proof (cases "k = h")
    case True
    with recent_window [OF assms, of h] show ?thesis by (auto simp: update_conv')
  next
    case False
    with assms(1) show ?thesis by (simp add: window_sim_def update_conv')
  qed
qed

lemma recorded_snoc:
  "recorded h (es @ [LBlocked t k']) = recorded h es"
  "recorded h (es @ [LRecord t None]) = recorded h es"
  "recorded h (es @ [LRecord t (Some k)]) = recorded h es @ (if k = h then [t] else [])"
  by auto

lemma window_sim_exec:
  assumes sim: "window_sim es (event_time e) fl" and sorted: "sorted (map event_time es)"
    and w: "0 \<le> window_s fl"
  shows "window_sim (es @ [e]) (event_time e) (limiter_exec e fl)"
proof (cases e)
  case (LBlocked t h)
  have "snd (blocked t (Some k) fl) = snd (recent t k fl)" for k
    by (simp add: blocked_def split_def Let_def)
  with LBlocked window_sim_recent [OF sim sorted] sim show ?thesis
    by (cases h) (simp_all add: blocked_def window_sim_def recorded_snoc del: recorded.simps recorded_append)
next
  case (LRecord t h)
  show ?thesis
  proof (cases h)
    case None
    with LRecord sim show ?thesis by (simp add: record_failure_def window_sim_def recorded_snoc)
  next
    case (Some k)
    have r: "fst (recent t k fl) = filter (\<lambda>x. t - window_s fl \<le> x) (recorded k es)"
      using recent_window sim sorted LRecord by simp
    have "limiter_exec e fl = (snd (recent t k fl))\<lparr>failures :=
        AList.update k (fst (recent t k fl) @ [t]) (failures (snd (recent t k fl)))\<rparr>"
      using LRecord Some by (simp add: record_failure_def Let_def split_def)
    then have "failures (limiter_exec e fl) =
        AList.update k (fst (recent t k fl) @ [t]) (AList.update k (fst (recent t k fl)) (failures fl))"
      "window_s (limiter_exec e fl) = window_s fl" by simp_all
    then show ?thesis using sim w r LRecord Some
      by (auto simp: window_sim_def recorded_snoc update_conv' intro!: exI [of _ "t - window_s fl"])
  qed
qed

lemma limiter_exec_params [simp]:
  "window_s (limiter_exec e fl) = window_s fl" "max_failures (limiter_exec e fl) = max_failures fl"
  by (cases e; auto simp: blocked_def record_failure_def split_def Let_def split: option.split)+

lemma limiter_run_params [simp]:
  "window_s (fold limiter_exec es fl) = window_s fl" "max_failures (fold limiter_exec es fl) = max_failures fl"
  by (induction es arbitrary: fl) auto

lemma window_sim_run:
  assumes "0 \<le> w" "sorted (map event_time es)" "\<forall>e \<in> set es. event_time e \<le> now"
  shows "window_sim es now (fold limiter_exec es (make_limiter m w))"
  using assms(2,3)
proof (induction es arbitrary: now rule: rev_induct)
  case Nil
  show ?case by (auto simp: window_sim_def make_limiter_def intro: exI [of _ "now - w"])
next
  case (snoc e es)
  let ?fl = "fold limiter_exec es (make_limiter m w)"
  have "window_sim es (event_time e) ?fl"
    using snoc by (auto simp: sorted_append)
  from window_sim_exec [OF this] snoc.prems assms(1)
  have "window_sim (es @ [e]) (event_time e) (limiter_exec e ?fl)"
    by (simp add: sorted_append make_limiter_def)
  with window_sim_later [OF this, of now] snoc.prems show ?case by simp
qed

section \<open>Properties\<close>

text \<open>C22: The failure limiter is a sliding window: after any sequence of checks and recorded
  failures at non-decreasing times, an address is blocked exactly when at least
  \<open>max_failures\<close> of its own failures are no older than the window. Dropping old entries eagerly
  and per host loses nothing, and other hosts' failures never count.\<close>

theorem limiter_sliding_window:
  assumes "0 \<le> w" "sorted (map event_time es)" "\<forall>e \<in> set es. event_time e \<le> now"
  shows "fst (blocked now (Some h) (fold limiter_exec es (make_limiter m w))) \<longleftrightarrow>
    m \<le> int (length (filter (\<lambda>t. now - w \<le> t) (recorded h es)))"
proof -
  let ?fl = "fold limiter_exec es (make_limiter m w)"
  have "fst (recent now h ?fl) = filter (\<lambda>t. now - w \<le> t) (recorded h es)"
    using recent_window [OF window_sim_run [OF assms] assms(2), of h] by (simp add: make_limiter_def)
  then show ?thesis by (simp add: blocked_def split_def Let_def make_limiter_def)
qed

theorem limiter_sliding_window_witness:
  "fst (blocked 50 (Some ''a'') (fold limiter_exec
      [LRecord 1 (Some ''a''), LRecord 20 (Some ''b''), LRecord 40 (Some ''a'')] (make_limiter 2 60)))"
  using limiter_sliding_window [of 60 "[LRecord 1 (Some ''a''), LRecord 20 (Some ''b''), LRecord 40 (Some ''a'')]" 50 "''a''" 2]
  by simp

text \<open>Under provider \<open>CUSTOM\<close> no violation is reported exactly when the router and an enabled
  dashboard bind loopback addresses, client API keys are required, and the control plane binds
  loopback or serves TLS itself.\<close>

lemma posture_safe_iff:
  "check_posture CUSTOM ch tls dh ca de dsh = [] \<longleftrightarrow>
     (is_loopback ch \<or> tls) \<and> is_loopback dh \<and> ca \<and> (de \<longrightarrow> is_loopback dsh)"
  by (auto simp: check_posture_def)

text \<open>A wildcard or any other bind address is not taken for loopback.\<close>

lemma is_loopback_examples:
  "is_loopback ''::1''" "is_loopback ''[::1]''" "is_loopback '' LocalHost ''" "\<not> is_loopback ''0.0.0.0''"
  "\<not> is_loopback ''::''" "\<not> is_loopback ''gpu-box.lan''" "\<not> is_loopback ''128.0.0.1''"
  by code_simp+

end
