(* ===== verification/Settings.thy ===== *)
theory Settings
  imports Catalog Access
begin

text \<open>
  The manager's settings (\<open>src/src/oumigo/service/manager/settings.py\<close>) and the choice of provider
  (\<open>providers/factory.py\<close>, \<open>providers/static.py\<close>). A configuration file is a JSON-like object. The
  text of floats and containers (\<open>str\<close>), the reading of floats from text (\<open>float\<close>) and
  \<open>str(Path(x).expanduser())\<close> are the fields of \<open>py_text\<close>; integers are read from text as Python does.
\<close>

record py_text =
  text_of :: "json \<Rightarrow> string"
  float_of :: "string \<Rightarrow> real option"
  expand_path :: "string \<Rightarrow> string"

type_synonym config = "(string \<times> json) list"

definition py_str :: "py_text \<Rightarrow> json \<Rightarrow> string" where
  "py_str t v =
     (case v of JStr s \<Rightarrow> s | JInt i \<Rightarrow> int_str i | JBool b \<Rightarrow> if b then ''True'' else ''False''
      | JNull \<Rightarrow> ''None'' | _ \<Rightarrow> text_of t v)"

text \<open>\<open>int(s)\<close>: surrounding space, a sign, digits, single underscores between digits.\<close>

fun int_digits :: "int \<Rightarrow> bool \<Rightarrow> string \<Rightarrow> int option" where
  "int_digits acc prev_digit [] = (if prev_digit then Some acc else None)"
| "int_digits acc prev_digit (x # xs) =
     (case dec_digit x of
        Some d \<Rightarrow> int_digits (acc * 10 + d) True xs
      | None \<Rightarrow> if x = CHR ''_'' \<and> prev_digit then int_digits acc False xs else None)"

definition int_of_text :: "string \<Rightarrow> int option" where
  "int_of_text s0 =
     (case py_strip s0 of
        [] \<Rightarrow> None
      | c # cs \<Rightarrow>
          if c = CHR ''-'' then map_option uminus (int_digits 0 False cs)
          else if c = CHR ''+'' then int_digits 0 False cs
          else int_digits 0 False (c # cs))"

definition py_int :: "json \<Rightarrow> int res" where
  "py_int v =
     (case v of
        JInt i \<Rightarrow> Inr i
      | JBool b \<Rightarrow> Inr (if b then 1 else 0)
      | JReal r \<Rightarrow> Inr (if r < 0 then \<lceil>r\<rceil> else \<lfloor>r\<rfloor>)
      | JStr s \<Rightarrow> (case int_of_text s of Some i \<Rightarrow> Inr i | None \<Rightarrow> Inl (ValueErr s))
      | _ \<Rightarrow> Inl (TypeErr ''int()''))"

definition py_float :: "py_text \<Rightarrow> json \<Rightarrow> real res" where
  "py_float t v =
     (case v of
        JStr s \<Rightarrow> (case float_of t s of Some r \<Rightarrow> Inr r | None \<Rightarrow> Inl (ValueErr s))
      | _ \<Rightarrow> (case json_num v of Some r \<Rightarrow> Inr r | None \<Rightarrow> Inl (TypeErr ''float()'')))"

text \<open>\<open>config.get(k) or {}\<close>; using a value that is no dictionary as one raises.\<close>

definition block :: "config \<Rightarrow> string \<Rightarrow> config res" where
  "block cfg k =
     (case obj_get cfg k of
        JObj kvs \<Rightarrow> Inr kvs
      | v \<Rightarrow> if json_true v then Inl (TypeErr ''no attribute get'') else Inr [])"

definition get_or :: "config \<Rightarrow> string \<Rightarrow> json \<Rightarrow> json" where
  "get_or kvs k d = default_to d (map_of kvs k)"

definition get_provider_name :: "py_text \<Rightarrow> config \<Rightarrow> string" where
  "get_provider_name t cfg = py_str t (get_or cfg ''provider'' (JStr ''LAN''))"

definition get_data_plane :: "py_text \<Rightarrow> config \<Rightarrow> (string \<times> int) res" where
  "get_data_plane t cfg =
     res_bind (block cfg ''data_plane'') (\<lambda>dp.
       res_map (Pair (py_str t (get_or dp ''host'' (JStr ''0.0.0.0'')))) (py_int (get_or dp ''port'' (JInt 7012))))"

definition get_client_auth :: "py_text \<Rightarrow> config \<Rightarrow> bool res" where
  "get_client_auth t cfg =
     res_bind (block cfg ''data_plane'') (\<lambda>dp.
       Inr (case obj_get dp ''client_auth'' of
              JNull \<Rightarrow> py_upper (get_provider_name t cfg) = ''CUSTOM''
            | v \<Rightarrow> json_true v))"

definition get_control_tls :: "py_text \<Rightarrow> config \<Rightarrow> (string \<times> string) option res" where
  "get_control_tls t cfg =
     res_bind (block cfg ''control_plane'') (\<lambda>cp.
       let cert = obj_get cp ''tls_cert_file''; key = obj_get cp ''tls_key_file'' in
       if \<not> json_true cert \<and> \<not> json_true key then Inr None
       else if \<not> (json_true cert \<and> json_true key)
       then Inl (ValueErr ''tls_cert_file and tls_key_file must be set together'')
       else Inr (Some (expand_path t (py_str t cert), expand_path t (py_str t key))))"

definition get_trusted_proxies :: "py_text \<Rightarrow> config \<Rightarrow> string list res" where
  "get_trusted_proxies t cfg =
     res_bind (block cfg ''control_plane'') (\<lambda>cp.
       case obj_get cp ''trusted_proxies'' of
         JNull \<Rightarrow> Inr [''127.0.0.1'']
       | JList ps \<Rightarrow> Inr (map (py_str t) ps)
       | _ \<Rightarrow> Inl (TypeErr ''not iterable''))"

definition get_tunnel :: "config \<Rightarrow> (bool \<times> int) res" where
  "get_tunnel cfg =
     res_bind (block cfg ''tunnel'') (\<lambda>tb.
       res_map (\<lambda>n. (json_true (get_or tb ''enabled'' (JBool True)), max 0 n)) (py_int (get_or tb ''pool_spare'' (JInt 1))))"

definition get_worker_allowlist :: "py_text \<Rightarrow> config \<Rightarrow> string list option res" where
  "get_worker_allowlist t cfg =
     res_bind (block cfg ''worker_allowlist'') (\<lambda>wl.
       if \<not> json_true (get_or wl ''enabled'' (JBool False)) then Inr None
       else case obj_get wl ''addresses'' of
         JList as \<Rightarrow> Inr (Some (map (py_str t) as))
       | v \<Rightarrow> if json_true v then Inl (TypeErr ''not iterable'') else Inr (Some []))"

definition opt_seconds :: "py_text \<Rightarrow> json \<Rightarrow> real option res" where
  "opt_seconds t v =
     (case v of
        JNull \<Rightarrow> Inr None
      | _ \<Rightarrow> (case py_float t v of
               Inl _ \<Rightarrow> Inl (ValueErr ''must be a number of seconds'')
             | Inr s \<Rightarrow> if s \<le> 0 then Inl (ValueErr ''must be positive'') else Inr (Some s)))"

definition get_fleet_agent_defaults :: "py_text \<Rightarrow> config \<Rightarrow> agent_limits res" where
  "get_fleet_agent_defaults t cfg =
     res_bind (block cfg ''agent'') (\<lambda>b.
       res_bind (opt_seconds t (obj_get b ''turn_timeout'')) (\<lambda>tt.
         res_map (\<lambda>stl. \<lparr>turn_timeout = tt, stall_timeout = stl\<rparr>) (opt_seconds t (obj_get b ''stall_timeout''))))"

definition get_agent_defaults :: "py_text \<Rightarrow> config \<Rightarrow> fleet_catalog \<Rightarrow> catalog_profile option \<Rightarrow> agent_limits res" where
  "get_agent_defaults t cfg cat p0 =
     (let p = (case p0 of None \<Rightarrow> default_profile cat | Some _ \<Rightarrow> p0) in
      case Option.bind p pf_agent of
        Some a \<Rightarrow> Inr a
      | None \<Rightarrow> get_fleet_agent_defaults t cfg)"

definition get_dashboard :: "py_text \<Rightarrow> config \<Rightarrow> (bool \<times> string \<times> int) res" where
  "get_dashboard t cfg =
     res_bind (block cfg ''dashboard'') (\<lambda>db.
       res_map (\<lambda>prt. (json_true (get_or db ''enabled'' (JBool True)), py_str t (get_or db ''host'' (JStr ''0.0.0.0'')), prt))
         (py_int (get_or db ''port'' (JInt 7080))))"

definition get_vllm_port :: "config \<Rightarrow> int res" where
  "get_vllm_port cfg =
     res_bind (block cfg ''worker'') (\<lambda>w.
       if obj_get w ''vllm_port'' \<noteq> JNull then py_int (obj_get w ''vllm_port'')
       else res_bind (block cfg ''model'') (\<lambda>m. py_int (get_or m ''port'' (JInt 7001))))"

section \<open>Providers\<close>

definition create_provider :: "string \<Rightarrow> string res" where
  "create_provider name =
     (let key = py_upper (py_strip name) in
      if key \<in> {''LAN'', ''CUSTOM''} then Inr key else Inl (ValueErr name))"

definition is_wan :: "string \<Rightarrow> bool" where
  "is_wan provider = (provider = CUSTOM)"

section \<open>Properties\<close>

lemma opt_seconds_positive: "opt_seconds t v = Inr (Some s) \<Longrightarrow> 0 < s"
  by (auto simp: opt_seconds_def split: json.splits sum.splits if_splits)

lemma get_tunnel_spare: "get_tunnel cfg = Inr (e, n) \<Longrightarrow> 0 \<le> n"
  by (auto simp: get_tunnel_def res_bind_Inr res_map_def)

text \<open>The settings of a wide-area fleet are safe by default: under provider \<open>CUSTOM\<close> a
  configuration that says nothing about client keys requires them, and the manager is refused a
  start with any setting of the configuration that turns them off or binds the router or an enabled
  dashboard to anything but loopback.\<close>

lemma custom_fleet_guarded:
  assumes "get_provider_name t cfg = CUSTOM" "get_client_auth t cfg = Inr ca"
    and "get_data_plane t cfg = Inr (dh, dp)" "get_dashboard t cfg = Inr (de, dsh, dsp)"
  shows "(map_of cfg ''data_plane'' = None \<longrightarrow> ca)
    \<and> (check_posture (get_provider_name t cfg) ch tls dh ca de dsh = [] \<longrightarrow>
         ca \<and> is_loopback dh \<and> (de \<longrightarrow> is_loopback dsh) \<and> (is_loopback ch \<or> tls))"
proof
  have up: "py_upper CUSTOM = ''CUSTOM''" by code_simp
  show "map_of cfg ''data_plane'' = None \<longrightarrow> ca"
    using assms(1,2) by (auto simp: get_client_auth_def block_def obj_get_def up)
  show "check_posture (get_provider_name t cfg) ch tls dh ca de dsh = [] \<longrightarrow>
      ca \<and> is_loopback dh \<and> (de \<longrightarrow> is_loopback dsh) \<and> (is_loopback ch \<or> tls)"
    unfolding assms(1) by (simp add: posture_safe_iff)
qed

definition demo_text :: py_text where
  "demo_text = \<lparr>text_of = (\<lambda>_. []), float_of = (\<lambda>_. None), expand_path = (\<lambda>s. s)\<rparr>"

lemma custom_fleet_guarded_witness:
  "get_client_auth demo_text [(''provider'', JStr ''CUSTOM'')] = Inr True"
proof -
  let ?cfg = "[(''provider'', JStr ''CUSTOM'')]"
  have p: "get_provider_name demo_text ?cfg = CUSTOM"
    by (simp add: get_provider_name_def get_or_def py_str_def CUSTOM_def)
  obtain ca where ca: "get_client_auth demo_text ?cfg = Inr ca"
    by (simp add: get_client_auth_def block_def obj_get_def)
  have d: "get_data_plane demo_text ?cfg = Inr (''0.0.0.0'', 7012)" "get_dashboard demo_text ?cfg = Inr (True, ''0.0.0.0'', 7080)"
    by (simp_all add: get_data_plane_def get_dashboard_def block_def obj_get_def get_or_def py_str_def py_int_def)
  from custom_fleet_guarded [OF p ca d] ca show ?thesis by simp
qed

end
