(* ===== verification/Control.thy ===== *)
theory Control
  imports Registry Credentials Access Catalog MetricStore Tunnel
begin

text \<open>
  The control plane (\<open>create_app\<close> in \<open>src/src/oumigo/service/manager/control/server.py\<close>): the
  worker-facing endpoints over the registry, the auth store, the metric store, the tunnel registry
  and the failure limiter. Each handler is one function from a request and the state to a result
  and the state; an \<open>HTTPException\<close> is \<open>Inl\<close>. Handlers run on one event loop without awaiting
  between their checks and their updates, so an execution is a sequence of them. The wall clock and
  the monotonic clock are arguments; request bodies arrive validated (pydantic).
\<close>

record control_cfg =
  cc_crypto :: crypto
  cc_auth :: authenticator
  cc_spec :: "node_spec option"
  cc_catalog :: "fleet_catalog option"
  cc_vllm_port :: "int option"
  cc_tunnel_enabled :: bool
  cc_pool_spare :: int
  cc_allowlist :: worker_allowlist
  cc_heartbeat_interval :: int
  cc_provider :: string

record control_state =
  cs_registry :: registry
  cs_auth :: auth_store
  cs_metrics :: metric_store
  cs_tunnels :: tunnel_registry
  cs_limiter :: failure_limiter

definition port_hint :: "control_cfg \<Rightarrow> int" where
  "port_hint cfg =
     (case cc_vllm_port cfg of
        Some p \<Rightarrow> p
      | None \<Rightarrow> (case cc_spec cfg of Some ns \<Rightarrow> ns_port ns | None \<Rightarrow> 7001))"

definition closed_fleet :: "control_cfg \<Rightarrow> bool" where
  "closed_fleet cfg = (case cc_catalog cfg of None \<Rightarrow> False | Some cat \<Rightarrow> profiles cat \<noteq> [])"

definition the_catalog :: "control_cfg \<Rightarrow> fleet_catalog" where
  "the_catalog cfg = default_to \<lparr>profiles = [], default_id = None\<rparr> (cc_catalog cfg)"

definition resolve_spec :: "control_cfg \<Rightarrow> string option \<Rightarrow> string option \<Rightarrow> node_spec option res" where
  "resolve_spec cfg prof mdl =
     (let cat = the_catalog cfg in
      if \<not> closed_fleet cfg then Inr (cc_spec cfg)
      else
        let chosen =
          (if truthy prof then
             (case catalog_get cat (the prof) of
                None \<Rightarrow> Inl (HTTPException 403 ''profile is not allowed in this fleet'')
              | Some p \<Rightarrow> Inr p)
           else if truthy mdl then
             (case filter (\<lambda>p. pf_model p = the mdl) (map snd (profiles cat)) of
                [p] \<Rightarrow> Inr p
              | _ \<Rightarrow> Inl (HTTPException 403 ''MODEL_NAME does not name one allowed profile''))
           else
             (case default_profile cat of
                None \<Rightarrow> Inl (HTTPException 403 ''this fleet has no default profile'')
              | Some p \<Rightarrow> Inr p)) in
        res_map (\<lambda>p. Some (profile_node_spec p (port_hint cfg))) chosen)"

definition pool_size :: "control_cfg \<Rightarrow> int option \<Rightarrow> int" where
  "pool_size cfg cap =
     default_to (case cc_spec cfg of Some ns \<Rightarrow> ns_max_concurrent_requests ns | None \<Rightarrow> 4) cap + cc_pool_spare cfg"

text \<open>\<open>worker_source\<close>: the allowlist, then the throttle (which drops old failures).\<close>

definition worker_source :: "control_cfg \<Rightarrow> real \<Rightarrow> string option \<Rightarrow> control_state \<Rightarrow> unit res \<times> control_state" where
  "worker_source cfg mt host s =
     (if \<not> allows (cc_allowlist cfg) host then (Inl (HTTPException 403 ''source address not allowed''), s)
      else case blocked mt host (cs_limiter s) of
        (b, fl) \<Rightarrow>
          (if b then Inl (HTTPException 429 ''too many failed auth attempts'') else Inr (), s\<lparr>cs_limiter := fl\<rparr>))"

definition deny :: "real \<Rightarrow> string option \<Rightarrow> string option \<Rightarrow> control_state \<Rightarrow> err \<times> control_state" where
  "deny mt host nid s =
     ((case nid of
         Some n \<Rightarrow> if is_node_revoked n (cs_auth s) then HTTPException 403 ''node is revoked''
                   else HTTPException 401 ''invalid or missing bearer token''
       | None \<Rightarrow> HTTPException 401 ''invalid or missing bearer token''),
      s\<lparr>cs_limiter := record_failure mt host (cs_limiter s)\<rparr>)"

record source =
  src_host :: "string option"
  src_authorization :: "string option"
  src_now :: real
  src_mono :: real

text \<open>A handler behind the gate: the gate's refusal, or the body.\<close>

definition gated :: "control_cfg \<Rightarrow> source \<Rightarrow> (control_state \<Rightarrow> 'a res \<times> control_state) \<Rightarrow> control_state \<Rightarrow> 'a res \<times> control_state" where
  "gated cfg src body s =
     (case worker_source cfg (src_mono src) (src_host src) s of
        (Inl e, s') \<Rightarrow> (Inl e, s')
      | (Inr _, s') \<Rightarrow> body s')"

text \<open>An authorisation that raises, refuses, or lets the rest of the handler run.\<close>

definition authorized ::
  "source \<Rightarrow> string option \<Rightarrow> bool res \<Rightarrow> (control_state \<Rightarrow> 'a res \<times> control_state) \<Rightarrow> control_state \<Rightarrow> 'a res \<times> control_state" where
  "authorized src nid verdict body s =
     (case verdict of
        Inl e \<Rightarrow> (Inl e, s)
      | Inr False \<Rightarrow> (case deny (src_mono src) (src_host src) nid s of (e, s') \<Rightarrow> (Inl e, s'))
      | Inr True \<Rightarrow> body s)"

section \<open>/spec\<close>

definition spec :: "control_cfg \<Rightarrow> source \<Rightarrow> string option \<Rightarrow> string option \<Rightarrow> control_state \<Rightarrow> node_spec option res \<times> control_state" where
  "spec cfg src prof mdl =
     gated cfg src (\<lambda>s.
       authorized src None (may_read_spec (cc_crypto cfg) (src_now src) (cc_auth cfg) (src_authorization src) (cs_auth s))
         (\<lambda>s. (resolve_spec cfg prof mdl, s)) s)"

section \<open>/register\<close>

record register_response =
  rr_node_id :: string
  rr_heartbeat_interval_s :: int
  rr_node_spec :: "node_spec option"
  rr_node_token :: string
  rr_vllm_api_key :: "string option"
  rr_tunnel_pool_size :: "int option"

text \<open>The profile check, before any join token is spent.\<close>

definition check_profile :: "control_cfg \<Rightarrow> register_request \<Rightarrow> node_spec option res" where
  "check_profile cfg req =
     (if \<not> closed_fleet cfg then Inr (cc_spec cfg)
      else if \<not> truthy (rq_profile req)
      then Inl (HTTPException 403 ''this manager runs a model catalog: upgrade the worker and choose a profile'')
      else res_bind (resolve_spec cfg (rq_profile req) None) (\<lambda>resolved.
        case (rq_model req, resolved) of
          (Some m, Some ns) \<Rightarrow>
            if ns_model ns \<noteq> m then Inl (HTTPException 403 ''worker loads another model than the profile needs'')
            else Inr resolved
        | _ \<Rightarrow> Inr resolved))"

definition do_register :: "control_cfg \<Rightarrow> source \<Rightarrow> register_request \<Rightarrow> node_spec option \<Rightarrow> control_state \<Rightarrow> register_response \<times> control_state" where
  "do_register cfg src req resolved s =
     (let tunneled = (rq_transport req = TUNNEL);
          profile_id = (if closed_fleet cfg then Option.bind resolved ns_profile else rq_profile req);
          (rec, reg) = registry_register (src_now src) (rq_node_id req) (rq_address req) (rq_state req)
             (rq_incarnation req) (rq_capabilities req) (rq_vllm_port req) (rq_model req) (rq_backend req)
             (rq_transport req) profile_id (cs_registry s) in
      (\<lparr>rr_node_id = rq_node_id req, rr_heartbeat_interval_s = cc_heartbeat_interval cfg, rr_node_spec = resolved,
        rr_node_token = node_token (cc_crypto cfg) (cs_auth s) (rq_node_id req),
        rr_vllm_api_key = (if tunneled then Some (vllm_api_key (cc_crypto cfg) (cs_auth s) (rq_node_id req)) else None),
        rr_tunnel_pool_size =
          (if tunneled then Some (pool_size cfg (if rq_backend req = Some ''transformer'' then Some 1 else None)) else None)\<rparr>,
       s\<lparr>cs_registry := reg\<rparr>))"

definition register_body :: "control_cfg \<Rightarrow> source \<Rightarrow> register_request \<Rightarrow> control_state \<Rightarrow> register_response res \<times> control_state" where
  "register_body cfg src req s =
     (if rq_transport req = TUNNEL \<and> \<not> cc_tunnel_enabled cfg
      then (Inl (HTTPException 400 ''this manager does not accept tunnel workers''), s)
      else
        authorized src (Some (rq_node_id req))
          (may_read_spec (cc_crypto cfg) (src_now src) (cc_auth cfg) (src_authorization src) (cs_auth s))
          (\<lambda>s. case check_profile cfg req of
             Inl e \<Rightarrow> (Inl e, s)
           | Inr resolved \<Rightarrow>
               (case may_register (cc_crypto cfg) (src_now src) (cc_auth cfg) (src_authorization src) (rq_node_id req) (cs_auth s) of
                  (verdict, st) \<Rightarrow>
                    authorized src (Some (rq_node_id req)) verdict
                      (\<lambda>s. map_prod Inr id (do_register cfg src req resolved s)) (s\<lparr>cs_auth := st\<rparr>))) s)"

definition register :: "control_cfg \<Rightarrow> source \<Rightarrow> register_request \<Rightarrow> control_state \<Rightarrow> register_response res \<times> control_state" where
  "register cfg src req = gated cfg src (register_body cfg src req)"

section \<open>/heartbeat\<close>

definition do_heartbeat :: "control_cfg \<Rightarrow> source \<Rightarrow> heartbeat_request \<Rightarrow> control_state \<Rightarrow> heartbeat_response \<times> control_state" where
  "do_heartbeat cfg src req s =
     (let (kn, reg) = registry_heartbeat (src_now src) (hb_node_id req) (hb_node_state req) (hb_run_state req)
             (hb_vllm_port req) (hb_max_concurrent_requests req) (hb_tunnel_rtt_ms req) (cs_registry s);
          rec = (if kn then registry_get reg (hb_node_id req) else None);
          size = (case rec of
                    Some r \<Rightarrow> if transport r = TUNNEL then Some (pool_size cfg (max_concurrent_requests r)) else None
                  | None \<Rightarrow> None) in
      (\<lparr>hr_ok = True, hr_known = kn, hr_command = None, hr_tunnel_pool_size = size\<rparr>, s\<lparr>cs_registry := reg\<rparr>))"

definition heartbeat :: "control_cfg \<Rightarrow> source \<Rightarrow> heartbeat_request \<Rightarrow> control_state \<Rightarrow> heartbeat_response res \<times> control_state" where
  "heartbeat cfg src req =
     gated cfg src (\<lambda>s.
       authorized src (Some (hb_node_id req)) (may_act_as (cc_crypto cfg) (cc_auth cfg) (src_authorization src) (hb_node_id req) (cs_auth s))
         (\<lambda>s. map_prod Inr id (do_heartbeat cfg src req s)) s)"

section \<open>/metrics\<close>

definition metrics :: "control_cfg \<Rightarrow> source \<Rightarrow> metrics_report \<Rightarrow> control_state \<Rightarrow> nat res \<times> control_state" where
  "metrics cfg src rep =
     gated cfg src (\<lambda>s.
       authorized src (Some (mr_node_id rep)) (may_act_as (cc_crypto cfg) (cc_auth cfg) (src_authorization src) (mr_node_id rep) (cs_auth s))
         (\<lambda>s. case ingest (mr_node_id rep) (mr_points rep) (src_now src) (cs_metrics s) of
                (n, ms) \<Rightarrow> (Inr n, s\<lparr>cs_metrics := ms\<rparr>)) s)"

definition metrics_since :: "string \<Rightarrow> string \<Rightarrow> control_state \<Rightarrow> (fact_key \<times> real) list" where
  "metrics_since after prefix s = since after (filter (\<lambda>p. p \<noteq> []) (py_split (CHR '','') prefix)) (cs_metrics s)"

section \<open>/tunnel\<close>

text \<open>Whether the connection numbered \<open>c\<close> is accepted, and for which node; \<open>None\<close> closes it.\<close>

definition tunnel_endpoint :: "control_cfg \<Rightarrow> source \<Rightarrow> nat \<Rightarrow> control_state \<Rightarrow> string option res \<times> control_state" where
  "tunnel_endpoint cfg src c s =
     (if \<not> allows (cc_allowlist cfg) (src_host src) then (Inr None, s)
      else case blocked (src_mono src) (src_host src) (cs_limiter s) of
        (b, fl) \<Rightarrow>
          let s1 = s\<lparr>cs_limiter := fl\<rparr> in
          if b then (Inr None, s1)
          else case tunnel_node (cc_crypto cfg) (src_authorization src) (cs_auth s) of
            Inl e \<Rightarrow> (Inl e, s1)
          | Inr node \<Rightarrow>
              (case Option.bind node (registry_get (cs_registry s)) of
                 Some r \<Rightarrow>
                   if \<not> cc_tunnel_enabled cfg \<or> transport r \<noteq> TUNNEL then (Inr None, s1)
                   else (Inr node, s1\<lparr>cs_tunnels :=
                          tunnel_add c ((cs_tunnels s)\<lparr>tr_node := (tr_node (cs_tunnels s))(c := the node)\<rparr>)\<rparr>)
               | None \<Rightarrow>
                   (Inr None, if node = None then s1\<lparr>cs_limiter := record_failure (src_mono src) (src_host src) fl\<rparr> else s1)))"

section \<open>Read endpoints and background loops\<close>

definition workers :: "control_state \<Rightarrow> (node_record \<times> (nat \<times> nat) option) list" where
  "workers s = map (\<lambda>r. (r, if transport r = TUNNEL then Some (tunnel_stats (node_id r) (cs_tunnels s)) else None))
     (registry_list (cs_registry s))"

definition status :: "control_cfg \<Rightarrow> control_state \<Rightarrow> nat \<times> bool" where
  "status cfg s = (registry_count (cs_registry s), enforced (cc_auth cfg))"

definition reaper_pass :: "real \<Rightarrow> real \<Rightarrow> real option \<Rightarrow> control_state \<Rightarrow> control_state" where
  "reaper_pass now timeout_s forget_s s = s\<lparr>cs_registry := snd (registry_reap now timeout_s forget_s (cs_registry s))\<rparr>"

definition reaper_interval :: "real \<Rightarrow> real" where
  "reaper_interval timeout_s = max 1 (timeout_s / 5)"

text \<open>One turn of the loop over the registered nodes, with the set of revoked ids read before it.\<close>

definition drop_revoked :: "string list \<Rightarrow> node_record \<Rightarrow> control_state \<Rightarrow> control_state" where
  "drop_revoked revoked r s =
     (if node_id r \<in> set revoked
      then s\<lparr>cs_registry := snd (registry_remove (node_id r) (cs_registry s)),
             cs_tunnels := snd (close_node (node_id r) (cs_tunnels s))\<rparr>
      else s)"

definition revocation_pass :: "control_state \<Rightarrow> control_state" where
  "revocation_pass s = fold (drop_revoked (map fst (revoked_nodes (cs_auth s)))) (registry_list (cs_registry s)) s"

section \<open>A refused request changes nothing but the failure limiter\<close>

definition only_limiter :: "control_state \<Rightarrow> control_state \<Rightarrow> bool" where
  "only_limiter s s' \<longleftrightarrow> (\<exists>fl. s' = s\<lparr>cs_limiter := fl\<rparr>)"

lemma only_limiter_refl [simp, intro]: "only_limiter s s"
  unfolding only_limiter_def by (rule exI [of _ "cs_limiter s"]) simp

lemma only_limiter_update [simp, intro]: "only_limiter s (s\<lparr>cs_limiter := fl\<rparr>)"
  by (auto simp: only_limiter_def)

lemma only_limiter_trans: "only_limiter s t \<Longrightarrow> only_limiter t u \<Longrightarrow> only_limiter s u"
  by (auto simp: only_limiter_def)

lemma only_limiter_fields:
  "only_limiter s s' \<Longrightarrow> cs_registry s' = cs_registry s \<and> cs_auth s' = cs_auth s
     \<and> cs_metrics s' = cs_metrics s \<and> cs_tunnels s' = cs_tunnels s"
  by (auto simp: only_limiter_def)

text \<open>The contract of a worker-facing endpoint, and what a client of it may conclude.\<close>

locale endpoint =
  fixes handle :: "control_state \<Rightarrow> 'a res \<times> control_state"
  assumes refused_inert: "handle s = (Inl e, s') \<Longrightarrow> only_limiter s s'"
begin

lemma refused_keeps: "handle s = (Inl e, s') \<Longrightarrow> cs_registry s' = cs_registry s \<and> cs_auth s' = cs_auth s
     \<and> cs_metrics s' = cs_metrics s \<and> cs_tunnels s' = cs_tunnels s"
  by (rule only_limiter_fields) (rule refused_inert)

lemma changed_accepted: "handle s = (v, s') \<Longrightarrow> \<not> only_limiter s s' \<Longrightarrow> \<exists>x. v = Inr x"
  using refused_inert by (cases v) auto

end

lemma map_prod_Inr_iff [simp]:
  "map_prod Inr id p = (Inl e, s) \<longleftrightarrow> False" "map_prod Inr id p = (Inr x, s) \<longleftrightarrow> p = (x, s)"
  by (cases p; simp)+

lemma worker_source_inert: "worker_source cfg mt host s = (v, s') \<Longrightarrow> only_limiter s s'"
  by (auto simp: worker_source_def split: if_splits prod.splits)

lemma gated_refused:
  assumes body: "\<And>s s' e. body s = (Inl e, s') \<Longrightarrow> only_limiter s s'"
    and g: "gated cfg src body s = (Inl e, s')"
  shows "only_limiter s s'"
proof -
  obtain v s1 where w: "worker_source cfg (src_mono src) (src_host src) s = (v, s1)" by fastforce
  show ?thesis
    using worker_source_inert [OF w] g w body [of s1 e s'] only_limiter_trans [of s s1 s']
    by (cases v) (auto simp: gated_def)
qed

lemma authorized_refused:
  assumes "\<And>s s' e. body s = (Inl e, s') \<Longrightarrow> only_limiter s s'"
    and "authorized src nid v body s = (Inl e, s')"
  shows "only_limiter s s'"
  using assms by (auto simp: authorized_def deny_def split: sum.splits bool.splits)

lemma authorized_accepted:
  "authorized src nid v body s = (Inr x, s') \<Longrightarrow> v = Inr True \<and> body s = (Inr x, s')"
  by (auto simp: authorized_def deny_def split: sum.splits bool.splits)

lemma gated_accepted:
  assumes "gated cfg src body s = (Inr x, s')"
  shows "\<exists>fl. allows (cc_allowlist cfg) (src_host src) \<and> body (s\<lparr>cs_limiter := fl\<rparr>) = (Inr x, s')"
  using assms by (auto simp: gated_def worker_source_def split: if_splits prod.splits)

lemma check_join_token_False: "check_join_token c now t b st = (ok, st') \<Longrightarrow> ok \<or> st' = st"
  by (auto simp: check_join_token_def Let_def split: if_splits)

lemma may_register_refused:
  "may_register c now au a nid st = (v, st') \<Longrightarrow> v \<noteq> Inr True \<Longrightarrow> st' = st"
  by (auto simp: may_register_def Let_def map_prod_def split: if_splits sum.splits bool.splits option.splits
      prod.splits dest: check_join_token_False)

interpretation spec_ep: endpoint "spec cfg src prof mdl" for cfg src prof mdl
proof
  fix s e s' assume "spec cfg src prof mdl s = (Inl e, s')"
  then show "only_limiter s s'"
    unfolding spec_def by (rule gated_refused [rotated]) (auto elim!: authorized_refused [rotated])
qed

interpretation heartbeat_ep: endpoint "heartbeat cfg src req" for cfg src req
proof
  fix s e s' assume "heartbeat cfg src req s = (Inl e, s')"
  then show "only_limiter s s'"
    unfolding heartbeat_def by (rule gated_refused [rotated]) (auto elim!: authorized_refused [rotated])
qed

interpretation metrics_ep: endpoint "metrics cfg src rep" for cfg src rep
proof
  fix s e s' assume "metrics cfg src rep s = (Inl e, s')"
  then show "only_limiter s s'"
    unfolding metrics_def
    by (rule gated_refused [rotated]) (auto elim!: authorized_refused [rotated] split: prod.splits)
qed

lemma register_admit_refused:
  assumes m: "may_register c now au a nid (cs_auth s) = (v, st)"
    and a: "authorized src n v (\<lambda>s. map_prod Inr id (do_register cfg src req resolved s)) (s\<lparr>cs_auth := st\<rparr>) = (Inl e, s')"
  shows "only_limiter s s'"
proof -
  have "v \<noteq> Inr True" using a by (auto simp: authorized_def)
  then have "s\<lparr>cs_auth := st\<rparr> = s" using may_register_refused [OF m] by simp
  with a show ?thesis by (auto elim!: authorized_refused [rotated])
qed

interpretation register_ep: endpoint "register cfg src req" for cfg src req
proof
  fix s e s' assume "register cfg src req s = (Inl e, s')"
  moreover have "only_limiter s s'" if "register_body cfg src req s = (Inl e, s')" for s e s'
    using that unfolding register_body_def
    by (auto elim!: authorized_refused [rotated] dest: register_admit_refused
        split: if_splits sum.splits prod.splits)
  ultimately show "only_limiter s s'" unfolding register_def by (rule gated_refused [rotated])
qed

section \<open>Registration\<close>

text \<open>The profiles a closed fleet accepts, each keyed by its own id.\<close>

definition closed_catalog :: "control_cfg \<Rightarrow> fleet_catalog \<Rightarrow> bool" where
  "closed_catalog cfg cat \<longleftrightarrow> cc_catalog cfg = Some cat \<and> profiles cat \<noteq> [] \<and> keyed (profiles cat)"

lemma closed_catalog_fleet: "closed_catalog cfg cat \<Longrightarrow> closed_fleet cfg \<and> the_catalog cfg = cat"
  by (simp add: closed_catalog_def closed_fleet_def the_catalog_def)

lemma check_profile_closed:
  assumes cat: "closed_catalog cfg cat" and ok: "check_profile cfg req = Inr resolved"
  shows "\<exists>i p. rq_profile req = Some i \<and> catalog_get cat i = Some p \<and> pf_id p = i
     \<and> (rq_model req = None \<or> rq_model req = Some (pf_model p))
     \<and> resolved = Some (profile_node_spec p (port_hint cfg))"
proof -
  have cl: "closed_fleet cfg" "the_catalog cfg = cat" using closed_catalog_fleet [OF cat] by auto
  then obtain i where i: "rq_profile req = Some i" "i \<noteq> []"
    using ok by (cases "rq_profile req") (auto simp: check_profile_def split: if_splits)
  with cl ok obtain p where p: "catalog_get cat i = Some p"
    by (cases "catalog_get cat i") (auto simp: check_profile_def resolve_spec_def Let_def)
  then have "pf_id p = i" using cat keyed_map_of by (auto simp: catalog_get_def closed_catalog_def)
  moreover have "(rq_model req = None \<or> rq_model req = Some (pf_model p))
      \<and> resolved = Some (profile_node_spec p (port_hint cfg))"
    using ok i p cl
    by (auto simp: check_profile_def resolve_spec_def Let_def profile_node_spec_def split: option.splits if_splits)
  ultimately show ?thesis using i p by blast
qed

definition registered_as :: "control_cfg \<Rightarrow> source \<Rightarrow> register_request \<Rightarrow> node_spec option \<Rightarrow> registry \<Rightarrow> node_record \<times> registry" where
  "registered_as cfg src req resolved g =
     registry_register (src_now src) (rq_node_id req) (rq_address req) (rq_state req)
       (rq_incarnation req) (rq_capabilities req) (rq_vllm_port req) (rq_model req) (rq_backend req)
       (rq_transport req) (if closed_fleet cfg then Option.bind resolved ns_profile else rq_profile req) g"

lemma do_register_eq:
  "cs_registry (snd (do_register cfg src req resolved s)) = snd (registered_as cfg src req resolved (cs_registry s))"
  "cs_auth (snd (do_register cfg src req resolved s)) = cs_auth s"
  "cs_tunnels (snd (do_register cfg src req resolved s)) = cs_tunnels s"
  "cs_metrics (snd (do_register cfg src req resolved s)) = cs_metrics s"
  "rr_node_token (fst (do_register cfg src req resolved s)) = node_token (cc_crypto cfg) (cs_auth s) (rq_node_id req)"
  "rr_node_spec (fst (do_register cfg src req resolved s)) = resolved"
  by (simp_all add: do_register_def registered_as_def Let_def split_def)

text \<open>Everything an accepted registration went through, in terms of the state it started from.\<close>

lemma register_accepted:
  assumes "register cfg src req s = (Inr resp, s')"
  shows "\<exists>fl st resolved. allows (cc_allowlist cfg) (src_host src)
    \<and> (rq_transport req = TUNNEL \<longrightarrow> cc_tunnel_enabled cfg)
    \<and> check_profile cfg req = Inr resolved
    \<and> may_register (cc_crypto cfg) (src_now src) (cc_auth cfg) (src_authorization src) (rq_node_id req) (cs_auth s) = (Inr True, st)
    \<and> do_register cfg src req resolved (s\<lparr>cs_limiter := fl, cs_auth := st\<rparr>) = (resp, s')"
proof -
  obtain fl where al: "allows (cc_allowlist cfg) (src_host src)"
    and b: "register_body cfg src req (s\<lparr>cs_limiter := fl\<rparr>) = (Inr resp, s')"
    using gated_accepted [of cfg src "register_body cfg src req" s resp s'] assms unfolding register_def by blast
  have tun: "rq_transport req = TUNNEL \<longrightarrow> cc_tunnel_enabled cfg"
    using b by (auto simp: register_body_def split: if_splits)
  obtain st resolved v where ch: "check_profile cfg req = Inr resolved"
    and m: "may_register (cc_crypto cfg) (src_now src) (cc_auth cfg) (src_authorization src) (rq_node_id req) (cs_auth s) = (v, st)"
    and a: "authorized src (Some (rq_node_id req)) v
         (\<lambda>s. map_prod Inr id (do_register cfg src req resolved s)) (s\<lparr>cs_limiter := fl, cs_auth := st\<rparr>) = (Inr resp, s')"
    using b by (auto simp: register_body_def split: if_splits sum.splits prod.splits dest!: authorized_accepted)
  from authorized_accepted [OF a] al tun ch m show ?thesis by auto
qed

lemma may_register_unrevoked: "may_register c now au a nid st = (Inr True, st') \<Longrightarrow> \<not> is_node_revoked nid st"
  by (auto simp: may_register_def)

section \<open>Runs of the control plane\<close>

text \<open>What can happen between two moments of a running manager: requests to the endpoints, a tunnel
  connection ending, the router borrowing one, a reaper pass, one turn of the revocation loop
  (other handlers may run between two turns, so the ids it read may be out of date), and the
  operator's command line writing to the auth store.\<close>

datatype control_event =
    EvSpec source "string option" "string option"
  | EvRegister source register_request
  | EvHeartbeat source heartbeat_request
  | EvMetrics source metrics_report
  | EvTunnel source nat
  | EvLeave nat
  | EvBorrow string
  | EvReap real real "real option"
  | EvDrop "string list" node_record
  | EvStore store_event

primrec control_exec :: "control_cfg \<Rightarrow> control_event \<Rightarrow> control_state \<Rightarrow> control_state" where
  "control_exec cfg (EvSpec src prof mdl) s = snd (spec cfg src prof mdl s)"
| "control_exec cfg (EvRegister src req) s = snd (register cfg src req s)"
| "control_exec cfg (EvHeartbeat src req) s = snd (heartbeat cfg src req s)"
| "control_exec cfg (EvMetrics src rep) s = snd (metrics cfg src rep s)"
| "control_exec cfg (EvTunnel src c) s = snd (tunnel_endpoint cfg src c s)"
| "control_exec cfg (EvLeave c) s = s\<lparr>cs_tunnels := tunnel_remove c (cs_tunnels s)\<rparr>"
| "control_exec cfg (EvBorrow n) s = s\<lparr>cs_tunnels := snd (tunnel_acquire n (cs_tunnels s))\<rparr>"
| "control_exec cfg (EvReap now t f) s = reaper_pass now t f s"
| "control_exec cfg (EvDrop revoked r) s = drop_revoked revoked r s"
| "control_exec cfg (EvStore e) s = s\<lparr>cs_auth := store_exec (cc_crypto cfg) e (cs_auth s)\<rparr>"

definition control_start :: "auth_store \<Rightarrow> real \<Rightarrow> control_state" where
  "control_start st retention =
     \<lparr>cs_registry = registry_init, cs_auth = st, cs_metrics = store_init retention,
      cs_tunnels = registry_start, cs_limiter = make_limiter 30 60\<rparr>"

text \<open>How a step changes the registry: it leaves it alone, registers a node that passed the profile
  check and was admitted, or performs a heartbeat, a removal or a reaper pass.\<close>

inductive registry_step :: "control_cfg \<Rightarrow> auth_store \<Rightarrow> registry \<Rightarrow> registry \<Rightarrow> bool" for cfg st where
  unchanged: "registry_step cfg st g g"
| admitted: "check_profile cfg req = Inr resolved \<Longrightarrow> \<not> is_node_revoked (rq_node_id req) st \<Longrightarrow>
    registry_step cfg st g (snd (registered_as cfg src req resolved g))"
| beat: "registry_step cfg st g (snd (registry_heartbeat now nid ns rst prt mcr rtt g))"
| removed: "registry_step cfg st g (snd (registry_remove nid g))"
| reaped: "registry_step cfg st g (snd (registry_reap now t f g))"

lemma registry_step_register: "registry_step cfg (cs_auth s) (cs_registry s) (cs_registry (snd (register cfg src req s)))"
proof -
  obtain v s' where r: "register cfg src req s = (v, s')" by fastforce
  show ?thesis
  proof (cases v)
    case (Inl e)
    with r register_ep.refused_keeps [of cfg src req s e s'] show ?thesis by (auto intro: registry_step.intros)
  next
    case (Inr resp)
    with register_accepted [of cfg src req s resp s'] r obtain fl st resolved where
      "check_profile cfg req = Inr resolved"
      "may_register (cc_crypto cfg) (src_now src) (cc_auth cfg) (src_authorization src) (rq_node_id req) (cs_auth s) = (Inr True, st)"
      and d: "do_register cfg src req resolved (s\<lparr>cs_limiter := fl, cs_auth := st\<rparr>) = (resp, s')"
      by auto
    moreover have "cs_registry s' = snd (registered_as cfg src req resolved (cs_registry s))"
      using do_register_eq(1) [of cfg src req resolved "s\<lparr>cs_limiter := fl, cs_auth := st\<rparr>"] d by simp
    ultimately show ?thesis using r by (auto intro!: registry_step.admitted dest: may_register_unrevoked)
  qed
qed

lemma registry_step_heartbeat: "registry_step cfg (cs_auth s) (cs_registry s) (cs_registry (snd (heartbeat cfg src req s)))"
proof -
  obtain v s' where r: "heartbeat cfg src req s = (v, s')" by fastforce
  show ?thesis
  proof (cases v)
    case (Inl e)
    with r heartbeat_ep.refused_keeps [of cfg src req s e s'] show ?thesis by (auto intro: registry_step.intros)
  next
    case (Inr resp)
    with r obtain fl where "do_heartbeat cfg src req (s\<lparr>cs_limiter := fl\<rparr>) = (resp, s')"
      by (auto simp: heartbeat_def dest!: gated_accepted authorized_accepted)
    then have "cs_registry s' = snd (registry_heartbeat (src_now src) (hb_node_id req) (hb_node_state req)
        (hb_run_state req) (hb_vllm_port req) (hb_max_concurrent_requests req) (hb_tunnel_rtt_ms req) (cs_registry s))"
      by (auto simp: do_heartbeat_def Let_def split: prod.splits)
    with r show ?thesis by (auto intro: registry_step.beat)
  qed
qed

lemma gated_keeps:
  assumes "\<And>s. f (snd (body s)) = f s" "\<And>s fl. f (s\<lparr>cs_limiter := fl\<rparr>) = f s"
  shows "f (snd (gated cfg src body s)) = f s"
  using assms by (auto simp: gated_def worker_source_def split: prod.splits sum.splits)

lemma authorized_keeps:
  assumes "\<And>s. f (snd (body s)) = f s" "\<And>s fl. f (s\<lparr>cs_limiter := fl\<rparr>) = f s"
  shows "f (snd (authorized src nid v body s)) = f s"
  using assms by (auto simp: authorized_def deny_def split: sum.splits bool.splits)

lemma spec_keeps: "cs_registry (snd (spec cfg src prof mdl s)) = cs_registry s"
  "cs_auth (snd (spec cfg src prof mdl s)) = cs_auth s" "cs_tunnels (snd (spec cfg src prof mdl s)) = cs_tunnels s"
  unfolding spec_def by (rule gated_keeps authorized_keeps | simp)+

lemma metrics_keeps: "cs_registry (snd (metrics cfg src rep s)) = cs_registry s"
  "cs_auth (snd (metrics cfg src rep s)) = cs_auth s" "cs_tunnels (snd (metrics cfg src rep s)) = cs_tunnels s"
  unfolding metrics_def by (rule gated_keeps authorized_keeps | simp split: prod.splits)+

lemma heartbeat_keeps: "cs_auth (snd (heartbeat cfg src req s)) = cs_auth s"
  "cs_tunnels (snd (heartbeat cfg src req s)) = cs_tunnels s"
  unfolding heartbeat_def
  by (rule gated_keeps authorized_keeps | simp add: do_heartbeat_def Let_def split: prod.splits)+

lemma tunnel_endpoint_keeps: "cs_registry (snd (tunnel_endpoint cfg src c s)) = cs_registry s"
  "cs_auth (snd (tunnel_endpoint cfg src c s)) = cs_auth s"
  by (auto simp: tunnel_endpoint_def Let_def split: prod.splits sum.splits option.splits)

lemma registry_step_exec: "registry_step cfg (cs_auth s) (cs_registry s) (cs_registry (control_exec cfg e s))"
  by (cases e) (auto simp: registry_step_register registry_step_heartbeat spec_keeps metrics_keeps tunnel_endpoint_keeps
    reaper_pass_def drop_revoked_def intro: registry_step.intros)

text \<open>Every registered node runs a profile of the catalog.\<close>

definition catalog_inv :: "control_cfg \<Rightarrow> control_state \<Rightarrow> bool" where
  "catalog_inv cfg s \<longleftrightarrow> registry_wf (cs_registry s)
     \<and> (\<forall>cat nid r. closed_catalog cfg cat \<longrightarrow> registry_get (cs_registry s) nid = Some r
          \<longrightarrow> (\<exists>i p. profile r = Some i \<and> catalog_get cat i = Some p))"

lemma profile_registered_as:
  assumes "closed_catalog cfg cat" "check_profile cfg req = Inr resolved"
  shows "\<exists>i p. profile (fst (registered_as cfg src req resolved g)) = Some i \<and> catalog_get cat i = Some p"
proof -
  obtain i p where "catalog_get cat i = Some p" "pf_id p = i"
    and r: "resolved = Some (profile_node_spec p (port_hint cfg))"
    using check_profile_closed [OF assms] by blast
  moreover have "closed_fleet cfg" using closed_catalog_fleet [OF assms(1)] by simp
  ultimately show ?thesis
    by (simp add: registered_as_def registry_register_def Let_def keep_def profile_node_spec_def split_def)
qed

lemma registered_as_get:
  "registry_get (snd (registered_as cfg src req resolved g)) k =
     (if k = rq_node_id req then Some (fst (registered_as cfg src req resolved g)) else registry_get g k)"
  by (simp add: registered_as_def registry_get_register)

lemma registry_step_wf: "registry_step cfg st g g' \<Longrightarrow> registry_wf g \<Longrightarrow> registry_wf g'"
  by (induction rule: registry_step.induct)
    (auto simp: registered_as_def intro: inv_intros)

lemma registry_step_profile:
  assumes "registry_step cfg st g g'" "closed_catalog cfg cat" "registry_wf g" "registry_get g' nid = Some r"
  shows "(\<exists>r0. registry_get g nid = Some r0 \<and> profile r0 = profile r)
     \<or> (\<exists>i p. profile r = Some i \<and> catalog_get cat i = Some p)"
  using assms
proof (induction rule: registry_step.induct)
  case (admitted req resolved g src)
  with profile_registered_as [of cfg cat req resolved src g] show ?case
    by (auto simp: registered_as_get split: if_splits)
next
  case (beat g now n ns rst prt mcr rtt)
  then show ?case
    by (cases "n = nid") (auto simp: registry_get_heartbeat_same registry_get_heartbeat_other)
next
  case (removed g n)
  then show ?case by (auto simp: registry_get_remove split: if_splits)
next
  case (reaped g now t f)
  then show ?case by (auto simp: registry_get_reap reap_record_def split: option.splits if_splits)
qed auto

lemma catalog_inv_exec: "catalog_inv cfg s \<Longrightarrow> catalog_inv cfg (control_exec cfg e s)"
  unfolding catalog_inv_def
  using registry_step_exec [of cfg s e] registry_step_wf registry_step_profile by metis

lemma catalog_inv_start: "catalog_inv cfg (control_start st retention)"
  by (simp add: catalog_inv_def control_start_def registry_init_def registry_wf_def registry_get_def)

interpretation control: event_machine "control_start st retention" "control_exec cfg" "catalog_inv cfg" for st retention cfg
  by unfold_locales (auto intro: catalog_inv_exec catalog_inv_start)

section \<open>Revocation on a running manager\<close>

lemma fold_drop_revoked:
  "registry_get (cs_registry (fold (drop_revoked R) rs s)) k =
     (if k \<in> node_id ` set rs \<inter> set R then None else registry_get (cs_registry s) k)"
  "all_conns (cs_tunnels (fold (drop_revoked R) rs s)) = all_conns (cs_tunnels s)"
  "cs_auth (fold (drop_revoked R) rs s) = cs_auth s"
  by (induction rs arbitrary: s) (auto simp: drop_revoked_def registry_get_remove close_node_def)

lemma fold_drop_closed:
  "tr_closed (cs_tunnels (fold (drop_revoked R) rs s)) c \<longleftrightarrow>
     tr_closed (cs_tunnels s) c \<or> (\<exists>r \<in> set rs. node_id r \<in> set R \<and> c \<in> set (all_conns (cs_tunnels s) (node_id r)))"
  by (induction rs arbitrary: s) (auto simp: drop_revoked_def close_node_def)

lemma registry_get_list:
  assumes "registry_wf g" "registry_get g k = Some r"
  shows "r \<in> set (registry_list g)" "node_id r = k"
  using assms map_of_SomeD [of "nodes g" k r]
  by (force simp: registry_list_def registry_get_def registry_wf_def list_all_iff)+

text \<open>A node that is revoked, not registered and without a live tunnel connection.\<close>

definition cut_off :: "string \<Rightarrow> control_state \<Rightarrow> bool" where
  "cut_off nid s \<longleftrightarrow> is_node_revoked nid (cs_auth s) \<and> registry_get (cs_registry s) nid = None
     \<and> connected nid (cs_tunnels s) = 0"

lemma connected_0: "connected nid t = 0 \<longleftrightarrow> (\<forall>c \<in> set (all_conns t nid). tr_closed t c)"
  by (auto simp: connected_def live_conns_def filter_empty_conv)

lemma revocation_pass_cuts:
  assumes wf: "registry_wf (cs_registry s)" and rev: "is_node_revoked nid (cs_auth s)"
    and reg: "registry_get (cs_registry s) nid = Some r"
  shows "cut_off nid (revocation_pass s)"
proof -
  note r = registry_get_list [OF wf reg]
  have "nid \<in> node_id ` set (registry_list (cs_registry s))" using r by force
  moreover have R: "nid \<in> set (map fst (revoked_nodes (cs_auth s)))" using rev by (simp add: is_node_revoked_def)
  moreover have "connected nid (cs_tunnels (revocation_pass s)) = 0"
    unfolding connected_0 revocation_pass_def fold_drop_revoked fold_drop_closed using r R by blast
  ultimately show ?thesis using rev by (simp add: cut_off_def revocation_pass_def fold_drop_revoked)
qed

lemma registry_step_revoked:
  "registry_step cfg st g g' \<Longrightarrow> is_node_revoked nid st \<Longrightarrow> registry_wf g \<Longrightarrow> registry_get g nid = None
     \<Longrightarrow> registry_get g' nid = None"
proof (induction rule: registry_step.induct)
  case (beat g now n ns rst prt mcr rtt)
  then show ?case
    by (cases "n = nid") (auto simp: registry_get_heartbeat_same registry_get_heartbeat_other)
qed (auto simp: registered_as_get registry_get_remove registry_get_reap)

lemma may_register_keeps_revoked:
  "revoked_nodes (snd (may_register c now au a nid st)) = revoked_nodes st"
  by (auto simp: may_register_def check_join_token_def Let_def split: sum.splits bool.splits option.splits)

lemma register_keeps:
  "revoked_nodes (cs_auth (snd (register cfg src req s))) = revoked_nodes (cs_auth s)
   \<and> cs_tunnels (snd (register cfg src req s)) = cs_tunnels s"
proof -
  obtain v s' where r: "register cfg src req s = (v, s')" by fastforce
  show ?thesis
  proof (cases v)
    case (Inl e)
    with r register_ep.refused_keeps [of cfg src req s e s'] show ?thesis by simp
  next
    case (Inr resp)
    with register_accepted [of cfg src req s resp s'] r obtain fl st resolved where
      m: "may_register (cc_crypto cfg) (src_now src) (cc_auth cfg) (src_authorization src) (rq_node_id req) (cs_auth s) = (Inr True, st)"
      and d: "do_register cfg src req resolved (s\<lparr>cs_limiter := fl, cs_auth := st\<rparr>) = (resp, s')"
      by auto
    have "s' = snd (do_register cfg src req resolved (s\<lparr>cs_limiter := fl, cs_auth := st\<rparr>))" using d by simp
    moreover have "revoked_nodes st = revoked_nodes (cs_auth s)"
      using may_register_keeps_revoked [of "cc_crypto cfg" "src_now src" "cc_auth cfg" "src_authorization src" "rq_node_id req" "cs_auth s"] m
      by simp
    ultimately show ?thesis using r by (simp add: do_register_eq)
  qed
qed

lemma store_exec_revoked:
  "is_node_revoked nid st \<Longrightarrow> e \<noteq> UnrevokeNode nid \<Longrightarrow> is_node_revoked nid (store_exec c e st)"
  by (cases e) (auto simp: is_node_revoked_def store_op_defs Let_def AList.delete_eq image_iff)

lemma exec_revoked:
  assumes "is_node_revoked nid (cs_auth s)" "e \<noteq> EvStore (UnrevokeNode nid)"
  shows "is_node_revoked nid (cs_auth (control_exec cfg e s))"
  using assms register_keeps [of cfg]
  by (cases e) (auto simp: spec_keeps metrics_keeps heartbeat_keeps tunnel_endpoint_keeps is_node_revoked_def
      reaper_pass_def drop_revoked_def store_exec_revoked [unfolded is_node_revoked_def])

lemma hand_over_conns [simp]:
  "all_conns (hand_over c fs t) = all_conns t" "tr_closed (hand_over c fs t) = tr_closed t"
  by (induction fs) (auto simp: lend_def)

lemma tunnel_add_other:
  "all_conns (tunnel_add c (t\<lparr>tr_node := (tr_node t)(c := n)\<rparr>)) k = (if k = n then List.insert c (all_conns t n) else all_conns t k)"
  "tr_closed (tunnel_add c (t\<lparr>tr_node := (tr_node t)(c := n)\<rparr>)) = tr_closed t"
  by (simp_all add: tunnel_add_def Let_def)

lemma tunnel_endpoint_revoked:
  assumes "is_node_revoked nid (cs_auth s)"
  shows "all_conns (cs_tunnels (snd (tunnel_endpoint cfg src c s))) nid = all_conns (cs_tunnels s) nid
    \<and> tr_closed (cs_tunnels (snd (tunnel_endpoint cfg src c s))) = tr_closed (cs_tunnels s)"
proof -
  have "tunnel_node (cc_crypto cfg) (src_authorization src) (cs_auth s) \<noteq> Inr (Some nid)"
    using assms by (auto simp: tunnel_node_def valid_node_Some)
  then show ?thesis
    by (auto simp: tunnel_endpoint_def Let_def tunnel_add_other bind_eq_Some_conv
        split: prod.splits sum.splits option.splits)
qed

lemma tunnel_acquire_conns [simp]:
  "all_conns (snd (tunnel_acquire n t)) = all_conns t" "tr_closed (snd (tunnel_acquire n t)) = tr_closed t"
  by (auto simp: tunnel_acquire_def lend_def split: prod.splits option.splits)

lemma exec_disconnected:
  assumes "is_node_revoked nid (cs_auth s)" "connected nid (cs_tunnels s) = 0"
  shows "connected nid (cs_tunnels (control_exec cfg e s)) = 0"
  using assms register_keeps [of cfg] tunnel_endpoint_revoked [OF assms(1), of cfg]
  by (cases e) (auto simp: connected_0 spec_keeps metrics_keeps heartbeat_keeps reaper_pass_def drop_revoked_def
      close_node_def tunnel_remove_def Let_def)

lemma cut_off_run:
  assumes "cut_off nid s" "registry_wf (cs_registry s)" "EvStore (UnrevokeNode nid) \<notin> set es"
  shows "cut_off nid (fold (control_exec cfg) es s)"
  using assms
proof (induction es arbitrary: s)
  case (Cons e es)
  have step: "registry_step cfg (cs_auth s) (cs_registry s) (cs_registry (control_exec cfg e s))"
    by (rule registry_step_exec)
  have "cut_off nid (control_exec cfg e s)"
    using Cons.prems exec_revoked [of nid s e cfg] exec_disconnected [of nid s cfg e]
      registry_step_revoked [OF step, of nid] by (auto simp: cut_off_def)
  then show ?case using Cons registry_step_wf [OF step] by simp
qed simp

section \<open>An example fleet\<close>

text \<open>A fleet with one profile and no worker authentication, and a worker that registers.\<close>

definition demo_profile :: catalog_profile where
  "demo_profile = \<lparr>pf_id = ''g@8k'', pf_model = ''a/g'', pf_storage_location = None, pf_download_dir = None,
     pf_engine = \<lparr>es_max_model_len = Some 8192, es_gpu_memory_utilization = 9/10, es_dtype = ''auto'',
       es_tensor_parallel_size = 1, es_max_concurrent_requests = 4, es_extra_args = []\<rparr>,
     pf_caps = \<lparr>mc_max_output_tokens = None, mc_max_audio_seconds = None, mc_max_queue_seconds = None\<rparr>,
     pf_agent = None, pf_requires = \<lparr>rq_min_vram_gib = None, rq_vllm = None\<rparr>\<rparr>"

definition demo_catalog :: fleet_catalog where
  "demo_catalog = \<lparr>profiles = [(''g@8k'', demo_profile)], default_id = Some ''g@8k''\<rparr>"

definition demo_cfg :: control_cfg where
  "demo_cfg = \<lparr>cc_crypto = demo_crypto, cc_auth = make_authenticator None False, cc_spec = None,
     cc_catalog = Some demo_catalog, cc_vllm_port = None, cc_tunnel_enabled = True, cc_pool_spare = 2,
     cc_allowlist = \<lparr>wa_enabled = False, networks = []\<rparr>, cc_heartbeat_interval = 10, cc_provider = ''LOCAL''\<rparr>"

definition demo_source :: source where
  "demo_source = \<lparr>src_host = None, src_authorization = None, src_now = 5, src_mono = 5\<rparr>"

definition demo_request :: "string \<Rightarrow> register_request" where
  "demo_request prof = \<lparr>rq_node_id = ''n'', rq_address = ''10.0.0.7'', rq_transport = TUNNEL, rq_vllm_port = Some 7001,
     rq_model = Some ''a/g'', rq_profile = Some prof, rq_backend = Some ''vllm'', rq_incarnation = 1,
     rq_state = REGISTERING, rq_capabilities = no_caps\<rparr>"

definition demo_state :: control_state where
  "demo_state = fold (control_exec demo_cfg)
     [EvRegister demo_source (demo_request ''g@8k''), EvStore (RevokeNode 6 ''n'')] (control_start empty_tables 86400)"

lemmas demo_defs = demo_cfg_def demo_source_def demo_request_def demo_catalog_def demo_profile_def no_caps_def

lemma demo_closed: "closed_catalog demo_cfg demo_catalog"
  by (simp add: closed_catalog_def demo_defs keyed_def dict_wf_def)

lemma demo_check: "check_profile demo_cfg (demo_request ''g@8k'') = Inr (Some (profile_node_spec demo_profile 7001))"
  by (simp add: check_profile_def resolve_spec_def demo_defs closed_fleet_def the_catalog_def catalog_get_def
      profile_node_spec_def port_hint_def Let_def)

lemma demo_cfg_fields [simp]:
  "wa_enabled (cc_allowlist demo_cfg) = False" "enforced (cc_auth demo_cfg) = False" "cc_tunnel_enabled demo_cfg"
  "src_host demo_source = None" "rq_node_id (demo_request prof) = ''n''"
  by (simp_all add: demo_cfg_def demo_source_def demo_request_def make_authenticator_def)

lemma demo_gate [simp]: "gated demo_cfg demo_source body s = body s"
  by (simp add: gated_def worker_source_def allows_def blocked_def)

lemma demo_accept:
  "register demo_cfg demo_source (demo_request ''g@8k'') (control_start empty_tables 86400)
     = map_prod Inr id (do_register demo_cfg demo_source (demo_request ''g@8k'') (Some (profile_node_spec demo_profile 7001))
         (control_start empty_tables 86400))"
  by (simp add: register_def register_body_def authorized_def demo_check may_read_spec_def may_register_def
      is_node_revoked_def control_start_def empty_tables_def)

lemma demo_registered:
  "\<exists>r. registry_get (cs_registry demo_state) ''n'' = Some r" "is_node_revoked ''n'' (cs_auth demo_state)"
  by (simp_all add: demo_state_def demo_accept do_register_eq registered_as_get revoke_node_def is_node_revoked_def)

section \<open>Properties\<close>

text \<open>C15: A refused request changes nothing but the failure limiter. When a registration, a heartbeat,
  a metrics report or a spec request is answered with an error, the registry, the auth store, the
  metric store and the tunnels are as before: in particular no use of a join token is spent on a
  registration that is refused, whatever the reason.\<close>

theorem refused_request_inert:
  assumes "register cfg src req s = (Inl e, s') \<or> heartbeat cfg src hb s = (Inl e, s')
    \<or> metrics cfg src rep s = (Inl e, s') \<or> spec cfg src prof mdl s = (Inl e, s')"
  shows "cs_registry s' = cs_registry s \<and> cs_auth s' = cs_auth s \<and> cs_metrics s' = cs_metrics s
    \<and> cs_tunnels s' = cs_tunnels s"
  using assms
  by (elim disjE) (erule register_ep.refused_keeps heartbeat_ep.refused_keeps metrics_ep.refused_keeps
      spec_ep.refused_keeps)+

theorem refused_request_inert_witness:
  "\<exists>e s'. register demo_cfg demo_source (demo_request ''other@8k'') demo_state = (Inl e, s')
     \<and> cs_registry s' = cs_registry demo_state \<and> cs_auth s' = cs_auth demo_state"
proof -
  let ?req = "demo_request ''other@8k''"
  have "check_profile demo_cfg ?req = Inl (HTTPException 403 ''profile is not allowed in this fleet'')"
    by (simp add: check_profile_def resolve_spec_def demo_defs closed_fleet_def the_catalog_def catalog_get_def Let_def)
  then obtain e s' where r: "register demo_cfg demo_source ?req demo_state = (Inl e, s')"
    by (simp add: register_def register_body_def authorized_def may_read_spec_def)
  from refused_request_inert [OF disjI1, OF r] r show ?thesis by blast
qed

text \<open>What an accepted registration went through, in a fleet with a model catalog. The source is
  on the allowlist, the requested profile is in the catalog, the model the worker loads (if it says
  so) is that profile's model, and the node is not revoked; a tunnel worker is accepted only where
  tunnels are enabled. The node is stored under that profile and gets that profile's specification
  and its own node token; no other node, no metric and no tunnel changes.\<close>

lemma registration_admitted:
  assumes cat: "closed_catalog cfg cat" and r: "register cfg src req s = (Inr resp, s')"
  shows "\<exists>p rec. rq_profile req = Some (pf_id p) \<and> catalog_get cat (pf_id p) = Some p
    \<and> (rq_model req = None \<or> rq_model req = Some (pf_model p))
    \<and> allows (cc_allowlist cfg) (src_host src) \<and> \<not> is_node_revoked (rq_node_id req) (cs_auth s)
    \<and> (rq_transport req = TUNNEL \<longrightarrow> cc_tunnel_enabled cfg)
    \<and> rr_node_spec resp = Some (profile_node_spec p (port_hint cfg))
    \<and> rr_node_token resp = node_token (cc_crypto cfg) (cs_auth s') (rq_node_id req)
    \<and> registry_get (cs_registry s') (rq_node_id req) = Some rec \<and> profile rec = Some (pf_id p)
    \<and> (\<forall>k. k \<noteq> rq_node_id req \<longrightarrow> registry_get (cs_registry s') k = registry_get (cs_registry s) k)
    \<and> cs_metrics s' = cs_metrics s \<and> cs_tunnels s' = cs_tunnels s"
proof -
  obtain fl st resolved where al: "allows (cc_allowlist cfg) (src_host src)"
    "rq_transport req = TUNNEL \<longrightarrow> cc_tunnel_enabled cfg" and ch: "check_profile cfg req = Inr resolved"
    and m: "may_register (cc_crypto cfg) (src_now src) (cc_auth cfg) (src_authorization src) (rq_node_id req) (cs_auth s) = (Inr True, st)"
    and d: "do_register cfg src req resolved (s\<lparr>cs_limiter := fl, cs_auth := st\<rparr>) = (resp, s')"
    using register_accepted [OF r] by blast
  obtain p where p: "rq_profile req = Some (pf_id p)" "catalog_get cat (pf_id p) = Some p"
    "rq_model req = None \<or> rq_model req = Some (pf_model p)" "resolved = Some (profile_node_spec p (port_hint cfg))"
    using check_profile_closed [OF cat ch] by blast
  let ?s = "s\<lparr>cs_limiter := fl, cs_auth := st\<rparr>"
  have e: "resp = fst (do_register cfg src req resolved ?s)" "s' = snd (do_register cfg src req resolved ?s)"
    using d by simp_all
  have "profile (fst (registered_as cfg src req resolved (cs_registry s))) = Some (pf_id p)"
    using p(4) closed_catalog_fleet [OF cat]
    by (simp add: registered_as_def registry_register_def Let_def keep_def profile_node_spec_def split_def)
  with al p may_register_unrevoked [OF m] show ?thesis
    by (intro exI [of _ p] exI [of _ "fst (registered_as cfg src req resolved (cs_registry s))"])
      (simp add: e do_register_eq registered_as_get)
qed

lemma registration_admitted_witness:
  "\<exists>resp s' rec. register demo_cfg demo_source (demo_request ''g@8k'') (control_start empty_tables 86400) = (Inr resp, s')
     \<and> registry_get (cs_registry s') ''n'' = Some rec \<and> profile rec = Some ''g@8k''"
proof -
  obtain resp s' where r: "register demo_cfg demo_source (demo_request ''g@8k'') (control_start empty_tables 86400) = (Inr resp, s')"
    unfolding demo_accept by (metis map_prod_simp id_apply surj_pair)
  from registration_admitted [OF demo_closed r] r show ?thesis
    by (auto simp: demo_request_def)
qed

text \<open>C3: In a fleet with a model catalog, every worker in the registry runs an allowed profile, at
  every moment of every run: any sequence of requests (refused or accepted), tunnel connections,
  reaper passes, turns of the revocation loop and operator commands, from the manager's start.\<close>

theorem registered_profiles_allowed:
  assumes "closed_catalog cfg cat"
    and "registry_get (cs_registry (fold (control_exec cfg) es (control_start st retention))) nid = Some r"
  shows "\<exists>i p. profile r = Some i \<and> catalog_get cat i = Some p"
  using control.good_reachable [of cfg es st retention] assms unfolding catalog_inv_def by blast

theorem registered_profiles_allowed_witness:
  "\<exists>r i p. registry_get (cs_registry demo_state) ''n'' = Some r \<and> profile r = Some i \<and> catalog_get demo_catalog i = Some p"
proof -
  obtain r where r: "registry_get (cs_registry demo_state) ''n'' = Some r" using demo_registered(1) by blast
  from registered_profiles_allowed [OF demo_closed r [unfolded demo_state_def]] r show ?thesis by blast
qed

text \<open>C16: Revoking a node takes it off a running manager for good. A pass of the revocation loop
  removes a registered revoked node and closes every tunnel connection it holds, and until the
  operator lifts the revocation no sequence of events brings the node back into the registry or
  gives it a live tunnel connection.\<close>

theorem revocation_cuts_off:
  assumes "registry_wf (cs_registry s)" "is_node_revoked nid (cs_auth s)"
    and "registry_get (cs_registry s) nid = Some r" "EvStore (UnrevokeNode nid) \<notin> set es"
  shows "registry_get (cs_registry (fold (control_exec cfg) es (revocation_pass s))) nid = None
    \<and> connected nid (cs_tunnels (fold (control_exec cfg) es (revocation_pass s))) = 0"
proof -
  have "registry_wf (cs_registry (fold (drop_revoked R) rs s))" for R rs
    using assms(1)
    by (induction rs arbitrary: s) (simp_all add: drop_revoked_def registry_wf_remove)
  then have "registry_wf (cs_registry (revocation_pass s))" by (simp add: revocation_pass_def)
  from cut_off_run [OF revocation_pass_cuts [OF assms(1-3)] this assms(4)] show ?thesis
    by (simp add: cut_off_def)
qed

theorem revocation_cuts_off_witness:
  "registry_get (cs_registry (fold (control_exec demo_cfg) [EvRegister demo_source (demo_request ''g@8k''), EvTunnel demo_source 3]
      (revocation_pass demo_state))) ''n'' = None"
proof -
  obtain r where r: "registry_get (cs_registry demo_state) ''n'' = Some r" using demo_registered(1) by blast
  have "registry_wf (cs_registry demo_state)"
    using control.good_reachable unfolding demo_state_def catalog_inv_def by blast
  from revocation_cuts_off [OF this demo_registered(2) r, of "[EvRegister demo_source (demo_request ''g@8k''), EvTunnel demo_source 3]"]
  show ?thesis by simp
qed

end
