(* ===== verification/Supervisor.thy ===== *)
theory Supervisor
  imports Protocol Catalog
begin

text \<open>
  The backend subprocess seam of a worker (\<open>src/src/oumigo/service/worker/supervisor.py\<close>): the port
  preflight, the two argv builders, the run state read off \<open>/metrics\<close>, and what a child process
  does under \<open>start\<close>, \<open>poll\<close> and \<open>stop\<close>; the paths of \<open>NodeSpec\<close> (\<open>config/spec.py\<close>); and the
  node identity (\<open>service/worker/identity.py\<close>, \<open>common/identity.py\<close>). Binding a socket, running a
  child and answering HTTP belong to the operating system and the child: their results are arguments.
\<close>

section \<open>Numerals: int(s) and float(s)\<close>

text \<open>Digits with single underscores between them: the value and the number of digits.\<close>

fun digit_run :: "string \<Rightarrow> nat \<Rightarrow> nat \<Rightarrow> (nat \<times> nat) option" where
  "digit_run [] v n = (if n = 0 then None else Some (v, n))"
| "digit_run (x # xs) v n =
     (if id_digit x then digit_run xs (10 * v + (of_char x - 48)) (Suc n)
      else if x = CHR ''_'' \<and> n \<noteq> 0 \<and> xs \<noteq> [] \<and> id_digit (hd xs) then digit_run xs v n
      else None)"

definition split_sign :: "string \<Rightarrow> bool \<times> string" where
  "split_sign s = (case s of [] \<Rightarrow> (False, [])
     | x # xs \<Rightarrow> if x = CHR ''-'' then (True, xs) else if x = CHR ''+'' then (False, xs) else (False, s))"

definition py_int :: "string \<Rightarrow> int option" where
  "py_int s = (let (neg, ds) = split_sign (py_strip s) in
     map_option (\<lambda>(v, _). if neg then - int v else int v) (digit_run ds 0 0))"

text \<open>\<open>float(s)\<close> on finite numerals; the spellings of infinity and NaN are not modelled.\<close>

definition mantissa :: "string \<Rightarrow> real option" where
  "mantissa s =
     (let (ip, dot, fp) = py_partition (CHR ''.'') s;
          whole = (if ip = [] then Some (0, 0) else digit_run ip 0 0);
          frac = (if fp = [] then Some (0, 0) else digit_run fp 0 0) in
      case (whole, frac) of
        (Some (v, n), Some (w, m)) \<Rightarrow>
          if n = 0 \<and> m = 0 then None else Some (real v + real w / 10 ^ m)
      | _ \<Rightarrow> None)"

definition py_float :: "string \<Rightarrow> real option" where
  "py_float s =
     (let (neg, body) = split_sign (py_strip s);
          (m, e, ex) = py_partition (CHR ''e'') (map (\<lambda>c. if c = CHR ''E'' then CHR ''e'' else c) body);
          (eneg, eds) = split_sign ex;
          expo = (if e then map_option fst (digit_run eds 0 0) else Some 0) in
      case (mantissa m, expo) of
        (Some x, Some k) \<Rightarrow> Some ((if neg then -1 else 1) * (if eneg then x / 10 ^ k else x * 10 ^ k))
      | _ \<Rightarrow> None)"

section \<open>Port preflight\<close>

text \<open>What \<open>sock.bind((host, port))\<close> does at a port in range.\<close>

datatype bind_result = Bound | InUse | BindErr string

fun scan_ports :: "(int \<Rightarrow> bind_result) \<Rightarrow> int \<Rightarrow> nat \<Rightarrow> int res" where
  "scan_ports bind candidate 0 = Inl (PortUnavailable ''no free port'')"
| "scan_ports bind candidate (Suc n) =
     (if candidate < 0 \<or> 65535 < candidate then Inl (OverflowErr ''bind(): port must be 0-65535'')
      else case bind candidate of
        Bound \<Rightarrow> Inr candidate
      | InUse \<Rightarrow> scan_ports bind (candidate + 1) n
      | BindErr e \<Rightarrow> Inl (OSErr e))"

definition MAX_TRIES :: nat where "MAX_TRIES = 64"

definition find_free_port :: "(int \<Rightarrow> bind_result) \<Rightarrow> int \<Rightarrow> int res" where
  "find_free_port bind preferred = scan_ports bind preferred MAX_TRIES"

section \<open>Paths of a spec\<close>

text \<open>\<open>urllib.parse.unquote\<close> for percent escapes of ASCII bytes and of the two-byte UTF-8 sequences
  (code points below 256, as everywhere in the development).\<close>

definition pct :: "string \<Rightarrow> nat option" where
  "pct s = (case s of p # a # b # _ \<Rightarrow>
      if p \<noteq> CHR ''%'' then None
      else (let h = (\<lambda>c. let n = (of_char c :: nat) in
              if 48 \<le> n \<and> n \<le> 57 then Some (n - 48) else if 97 \<le> n \<and> n \<le> 102 then Some (n - 87)
              else if 65 \<le> n \<and> n \<le> 70 then Some (n - 55) else None) in
            case (h a, h b) of (Some x, Some y) \<Rightarrow> Some (16 * x + y) | _ \<Rightarrow> None)
    | _ \<Rightarrow> None)"

function unquote :: "string \<Rightarrow> string" where
  "unquote s =
     (case s of
        [] \<Rightarrow> []
      | x # xs \<Rightarrow>
          (case pct s of
             None \<Rightarrow> x # unquote xs
           | Some b \<Rightarrow>
               if b < 128 then char_of b # unquote (drop 3 s)
               else (case pct (drop 3 s) of
                  Some b2 \<Rightarrow> if b \<in> {194, 195} \<and> 128 \<le> b2 \<and> b2 < 192
                             then char_of ((b - 192) * 64 + (b2 - 128)) # unquote (drop 6 s)
                             else x # unquote xs
                | None \<Rightarrow> x # unquote xs)))"
  by auto
termination by (relation "measure length") auto

declare unquote.simps [simp del]

text \<open>\<open>str(Path(p))\<close> for an absolute POSIX path: empty and \<open>.\<close> segments go; exactly two leading
  slashes stay.\<close>

definition path_str :: "string \<Rightarrow> string" where
  "path_str p =
     (let segs = filter (\<lambda>w. w \<noteq> [] \<and> w \<noteq> ''.'') (py_split (CHR ''/'') p);
          root = (if take 2 p = ''//'' \<and> take 3 p \<noteq> ''///'' then ''//'' else ''/'') in
      root @ py_join ''/'' segs)"

definition local_path :: "node_spec \<Rightarrow> string option" where
  "local_path ns =
     map_option (\<lambda>loc. path_str (unquote (snd (snd (url_split loc))))) (ns_storage_location ns)"

definition model_ref :: "node_spec \<Rightarrow> string" where
  "model_ref ns = default_to (ns_model ns) (local_path ns)"

section \<open>Argument vectors\<close>

definition VLLM_CLI_MODULE :: string where "VLLM_CLI_MODULE = ''vllm.entrypoints.cli.main''"

text \<open>\<open>sys.executable\<close> and the rendering of a float are arguments.\<close>

definition served_args :: "node_spec \<Rightarrow> string list" where
  "served_args ns = (if ns_served_name ns \<noteq> model_ref ns then [''--served-model-name'', ns_served_name ns] else [])"

definition len_args :: "node_spec \<Rightarrow> string list" where
  "len_args ns = (case ns_max_model_len ns of None \<Rightarrow> [] | Some n \<Rightarrow> [''--max-model-len'', int_str n])"

definition build_argv :: "string \<Rightarrow> (real \<Rightarrow> string) \<Rightarrow> node_spec \<Rightarrow> int option \<Rightarrow> string list" where
  "build_argv exe float_repr ns prt =
     [exe, ''-m'', VLLM_CLI_MODULE, ''serve'', model_ref ns, ''--host'', ns_host ns,
      ''--port'', int_str (default_to (ns_port ns) prt), ''--dtype'', ns_dtype ns,
      ''--tensor-parallel-size'', int_str (ns_tensor_parallel_size ns),
      ''--gpu-memory-utilization'', float_repr (ns_gpu_memory_utilization ns)]
     @ len_args ns
     @ (if truthy (ns_download_dir ns) then [''--download-dir'', the (ns_download_dir ns)] else [])
     @ served_args ns @ ns_extra_args ns"

definition build_hf_argv :: "string \<Rightarrow> node_spec \<Rightarrow> int option \<Rightarrow> string list" where
  "build_hf_argv exe ns prt =
     [exe, ''-m'', ''oumigo.service.worker.hf_server'', ''--model'', model_ref ns, ''--host'', ns_host ns,
      ''--port'', int_str (default_to (ns_port ns) prt), ''--dtype'', ns_dtype ns]
     @ len_args ns @ served_args ns @ ns_extra_args ns"

section \<open>The run state\<close>

definition gauge_line :: "string list \<Rightarrow> string \<Rightarrow> real" where
  "gauge_line wanted line =
     (if py_startswith line ''#'' \<or> py_strip line = [] then 0
      else if \<not> list_ex (py_startswith line) wanted then 0
      else if CHR '' '' \<notin> set line then 0
      else default_to 0 (py_float (rev (takeWhile (\<lambda>c. c \<noteq> CHR '' '') (rev line)))))"

definition sum_gauges :: "string \<Rightarrow> string list \<Rightarrow> real" where
  "sum_gauges text wanted = fold (\<lambda>line total. total + gauge_line wanted line) (py_splitlines text) 0"

text \<open>\<open>None\<close>: the request failed.\<close>

definition server_run_state :: "(nat \<times> string) option \<Rightarrow> run_state" where
  "server_run_state resp =
     (case resp of
        None \<Rightarrow> IDLE
      | Some (code, text) \<Rightarrow>
          if code \<noteq> 200 then IDLE
          else if 0 < sum_gauges text [''vllm:num_requests_running'', ''vllm:num_requests_waiting''] then EXECUTING
          else IDLE)"

definition is_healthy :: "(nat \<times> string) option \<Rightarrow> bool" where
  "is_healthy resp = (case resp of None \<Rightarrow> False | Some (code, _) \<Rightarrow> code = 200)"

section \<open>The child process\<close>

text \<open>A child that was never started, runs, or has exited with a code. \<open>members\<close> are the other
  processes of its group (vLLM's engine and its workers), which outlive the leader.\<close>

datatype child = NotStarted | Alive | Exited int

record server_process =
  sp_argv :: "string list"
  sp_port :: int
  sp_child :: child
  sp_members :: nat

definition make_process :: "string list \<Rightarrow> int \<Rightarrow> server_process" where
  "make_process argv prt = \<lparr>sp_argv = argv, sp_port = prt, sp_child = NotStarted, sp_members = 0\<rparr>"

definition sp_running :: "server_process \<Rightarrow> bool" where
  "sp_running sp = (sp_child sp = Alive)"

definition sp_start :: "server_process \<Rightarrow> server_process res" where
  "sp_start sp = (if sp_child sp = Alive then Inl (RuntimeErr ''process already running'')
     else Inr (sp\<lparr>sp_child := Alive\<rparr>))"

definition sp_poll :: "server_process \<Rightarrow> int option" where
  "sp_poll sp = (case sp_child sp of Exited code \<Rightarrow> Some code | _ \<Rightarrow> None)"

text \<open>The signals \<open>stop\<close> sends to the group, in order. \<open>obeys\<close> is the exit code the leader
  ends with within the grace time after SIGTERM, if it does; a SIGKILL ends every member.\<close>

datatype posix_signal = SIGTERM | SIGKILL

definition sp_stop :: "int option \<Rightarrow> server_process \<Rightarrow> (int option \<times> posix_signal list) \<times> server_process" where
  "sp_stop obeys sp =
     (case sp_child sp of
        NotStarted \<Rightarrow> ((None, []), sp)
      | Exited code \<Rightarrow> ((Some code, [SIGKILL]), sp\<lparr>sp_members := 0\<rparr>)
      | Alive \<Rightarrow>
          (case obeys of
             Some code \<Rightarrow> ((Some code, [SIGTERM, SIGKILL]), sp\<lparr>sp_child := Exited code, sp_members := 0\<rparr>)
           | None \<Rightarrow> ((Some (-9), [SIGTERM, SIGKILL, SIGKILL]), sp\<lparr>sp_child := Exited (-9), sp_members := 0\<rparr>)))"

section \<open>Identity\<close>

definition NODE_ID_HEX_LEN :: nat where "NODE_ID_HEX_LEN = 16"

definition compute_node_id :: "(string \<Rightarrow> string) \<Rightarrow> string \<Rightarrow> int \<Rightarrow> string" where
  "compute_node_id sha256 host_id prt =
     take NODE_ID_HEX_LEN (sha256 (''oumigo:'' @ host_id @ '':'' @ int_str prt))"

text \<open>The two files of the state directory. A missing or unreadable incarnation file is \<open>None\<close>.\<close>

record identity_dir =
  host_id_file :: "string option"
  incarnations :: "(string \<times> int) list option"

definition resolve_host_id :: "string \<Rightarrow> string \<Rightarrow> identity_dir \<Rightarrow> string \<times> identity_dir" where
  "resolve_host_id env_host_id fresh_uuid d =
     (if py_strip env_host_id \<noteq> [] then (py_strip env_host_id, d)
      else
        let stored = py_strip (default_to [] (host_id_file d)) in
        if stored \<noteq> [] then (stored, d)
        else (fresh_uuid, d\<lparr>host_id_file := Some (fresh_uuid @ [char_of (10 :: nat)])\<rparr>))"

definition resolve_worker_identity ::
  "(string \<Rightarrow> string) \<Rightarrow> string \<Rightarrow> string \<Rightarrow> int \<Rightarrow> identity_dir \<Rightarrow> (string \<times> int) \<times> identity_dir" where
  "resolve_worker_identity sha256 env_host_id fresh_uuid prt d =
     (let (hid, d1) = resolve_host_id env_host_id fresh_uuid d;
          nid = compute_node_id sha256 hid prt;
          inc = default_to [] (incarnations d1);
          n = default_to 0 (map_of inc nid) + 1 in
      ((nid, n), d1\<lparr>incarnations := Some (AList.update nid n inc)\<rparr>))"

section \<open>The port preflight finds the first free port\<close>

lemma scan_ports_Inr:
  "scan_ports bind c n = Inr p \<longleftrightarrow>
     c \<le> p \<and> p < c + int n \<and> 0 \<le> c \<and> p \<le> 65535 \<and> bind p = Bound \<and> (\<forall>q. c \<le> q \<and> q < p \<longrightarrow> bind q = InUse)"
proof (induction n arbitrary: c)
  case 0
  then show ?case by auto
next
  case (Suc n)
  have split: "(\<forall>q. c \<le> q \<and> q < p \<longrightarrow> bind q = InUse) \<longleftrightarrow>
      (c < p \<longrightarrow> bind c = InUse) \<and> (\<forall>q. c + 1 \<le> q \<and> q < p \<longrightarrow> bind q = InUse)"
    by (metis add1_zle_eq order_le_less order_less_imp_le)
  show ?case
  proof (cases "c < 0 \<or> 65535 < c")
    case True
    then show ?thesis by auto
  next
    case False
    have "scan_ports bind c (Suc n) = Inr p \<longleftrightarrow>
        (bind c = Bound \<and> p = c \<or> bind c = InUse \<and> scan_ports bind (c + 1) n = Inr p)"
      using False by (cases "bind c") auto
    then show ?thesis unfolding Suc.IH split using False
      by (cases "p = c") auto
  qed
qed

lemma scan_ports_unavailable:
  "scan_ports bind c n = Inl (PortUnavailable m) \<Longrightarrow> \<forall>q. c \<le> q \<and> q < c + int n \<longrightarrow> bind q = InUse"
proof (induction n arbitrary: c)
  case (Suc n)
  then have "bind c = InUse" "\<forall>q. c + 1 \<le> q \<and> q < c + 1 + int n \<longrightarrow> bind q = InUse"
    by (auto split: if_splits bind_result.splits)
  then show ?case
    by (metis add.assoc add1_zle_eq of_nat_Suc order_le_less)
qed auto

section \<open>Stopping a child\<close>

lemma sp_stop_ends:
  assumes "sp_child sp \<noteq> NotStarted" "sp_stop obeys sp = ((code, sigs), sp')"
  shows "\<not> sp_running sp'" "sp_members sp' = 0" "last sigs = SIGKILL" "sp_poll sp' = code"
    "sp_child sp = Alive \<Longrightarrow> hd sigs = SIGTERM"
  using assms by (auto simp: sp_stop_def sp_running_def sp_poll_def split: child.splits option.splits)

section \<open>The identity of a restarted worker\<close>

lemma dropWhile_same_length: "length (dropWhile P xs) = length xs \<Longrightarrow> dropWhile P xs = xs"
  by (metis append_eq_append_conv append_Nil takeWhile_dropWhile_id)

lemma py_strip_fixed: "py_strip s = s \<Longrightarrow> py_lstrip s = s \<and> py_rstrip s = s"
proof -
  assume s: "py_strip s = s"
  have "length (py_strip s) \<le> length (py_lstrip s)" "length (py_lstrip s) \<le> length s"
    by (simp_all add: py_strip_def py_rstrip_def py_lstrip_def length_dropWhile_le
        order_trans [OF length_dropWhile_le])
  then have "py_lstrip s = s"
    unfolding s py_lstrip_def by (intro dropWhile_same_length) simp
  with s show ?thesis by (simp add: py_strip_def)
qed

lemma py_strip_newline:
  assumes "py_strip s = s" "s \<noteq> []" shows "py_strip (s @ [char_of (10 :: nat)]) = s"
proof -
  have fixed: "py_lstrip s = s" "py_rstrip s = s" using py_strip_fixed [OF assms(1)] by auto
  obtain x xs where x: "s = x # xs" using assms(2) by (cases s) auto
  have "\<not> py_isspace x"
  proof
    assume "py_isspace x"
    then have "length (py_lstrip s) \<le> length xs" using x by (simp add: py_lstrip_def length_dropWhile_le)
    then show False using fixed(1) x by simp
  qed
  then have "py_lstrip (s @ [char_of (10 :: nat)]) = s @ [char_of (10 :: nat)]"
    using x by (simp add: py_lstrip_def)
  then show ?thesis using fixed(2) by (simp add: py_strip_def py_rstrip_def py_isspace_def)
qed

lemma resolve_host_id_stable:
  assumes "py_strip uuid = uuid" "uuid \<noteq> []" "resolve_host_id env uuid d = (h, d')"
  shows "resolve_host_id env uuid' d' = (h, d')"
  using assms py_strip_newline [OF assms(1,2)]
  by (auto simp: resolve_host_id_def Let_def split: if_splits)

lemma resolve_host_id_incarnations:
  "resolve_host_id env uuid d = (h, d') \<Longrightarrow> incarnations d' = incarnations d"
  by (auto simp: resolve_host_id_def Let_def split: if_splits)

lemma resolve_host_id_update:
  "resolve_host_id env uuid (d\<lparr>incarnations := i\<rparr>) = map_prod id (incarnations_update (\<lambda>_. i)) (resolve_host_id env uuid d)"
  by (simp add: resolve_host_id_def Let_def)

section \<open>Reading an argument vector back\<close>

text \<open>The value a list of flags and values gives a flag: the last occurrence wins, as in \<open>argparse\<close>.\<close>

fun flag_value :: "string \<Rightarrow> string list \<Rightarrow> string option" where
  "flag_value f (a # b # rest) = or_else (flag_value f rest) (if a = f then Some b else None)"
| "flag_value f _ = None"

lemma or_else_assoc: "or_else (or_else a b) c = or_else a (or_else b c)"
  by (cases a) auto

lemma or_else_None [simp]: "or_else a None = a"
  by (cases a) auto

lemma flag_value_append: "even (length xs) \<Longrightarrow> flag_value f (xs @ ys) = or_else (flag_value f ys) (flag_value f xs)"
  by (induction f xs rule: flag_value.induct) (auto simp: or_else_assoc)

lemma flag_value_optional:
  "flag_value f (len_args ns @ ys) =
     or_else (flag_value f ys) (if f = ''--max-model-len'' then map_option int_str (ns_max_model_len ns) else None)"
  "flag_value f (served_args ns @ ys) =
     or_else (flag_value f ys) (if f = ''--served-model-name'' \<and> ns_served_name ns \<noteq> model_ref ns then Some (ns_served_name ns) else None)"
  by (auto simp: len_args_def served_args_def split: option.splits)

lemma model_ref_hub: "ns_storage_location ns = None \<Longrightarrow> model_ref ns = ns_model ns"
  by (simp add: model_ref_def local_path_def)

section \<open>Properties\<close>

text \<open>The port preflight returns the first bindable port at or after the preferred one among 64
  candidates, never a port above 65535, and it skips only ports that are in use: any other bind
  error is raised at once. \<open>PortUnavailable\<close> means that every candidate is in use.\<close>

lemma find_free_port_first:
  "(find_free_port bind preferred = Inr p \<longleftrightarrow>
      preferred \<le> p \<and> p < preferred + 64 \<and> 0 \<le> preferred \<and> p \<le> 65535 \<and> bind p = Bound
      \<and> (\<forall>q. preferred \<le> q \<and> q < p \<longrightarrow> bind q = InUse))
   \<and> (find_free_port bind preferred = Inl (PortUnavailable m) \<longrightarrow>
      (\<forall>q. preferred \<le> q \<and> q < preferred + 64 \<longrightarrow> bind q = InUse))"
  using scan_ports_Inr [of bind preferred MAX_TRIES p] scan_ports_unavailable [of bind preferred MAX_TRIES m]
  by (simp add: find_free_port_def MAX_TRIES_def)

lemma find_free_port_first_witness:
  "find_free_port (\<lambda>q. if q = 7001 then InUse else Bound) 7001 = Inr 7002"
  using find_free_port_first [of "\<lambda>q. if q = 7001 then InUse else Bound" 7001 7002 "[]"] by auto

text \<open>Both backends are told the same thing about the spec. The command line points the backend at
  the model reference, on the port the preflight chose (else the spec's), with the spec's context
  length; and unless the operator's extra arguments rename it, the backend answers to the id the
  router routes by: the name it is told to serve is the profile id (or the Hub id), whether the
  weights come from the Hub or from a local directory.\<close>

lemma argv_serves_profile:
  fixes exe :: string and float_repr :: "real \<Rightarrow> string"
  defines "v ns prt \<equiv> drop 5 (build_argv exe float_repr ns prt)" and "h ns prt \<equiv> drop 3 (build_hf_argv exe ns prt)"
  assumes "\<forall>f. flag_value f (ns_extra_args ns) = None"
  shows "build_argv exe float_repr ns prt ! 4 = model_ref ns \<and> flag_value ''--model'' (h ns prt) = Some (model_ref ns)
    \<and> default_to (model_ref ns) (flag_value ''--served-model-name'' (v ns prt)) = ns_served_name ns
    \<and> default_to (model_ref ns) (flag_value ''--served-model-name'' (h ns prt)) = ns_served_name ns
    \<and> flag_value ''--port'' (v ns prt) = Some (int_str (default_to (ns_port ns) prt))
    \<and> flag_value ''--port'' (h ns prt) = Some (int_str (default_to (ns_port ns) prt))
    \<and> flag_value ''--max-model-len'' (v ns prt) = map_option int_str (ns_max_model_len ns)
    \<and> flag_value ''--max-model-len'' (h ns prt) = map_option int_str (ns_max_model_len ns)"
  using assms(3) by (auto simp: v_def h_def build_argv_def build_hf_argv_def flag_value_optional)

definition demo_spec :: node_spec where
  "demo_spec = \<lparr>ns_model = ''a/g'', ns_profile = Some ''g@8k'', ns_storage_location = Some ''file:///models/g%201/'',
     ns_host = ''0.0.0.0'', ns_port = 7001, ns_dtype = ''auto'', ns_tensor_parallel_size = 1,
     ns_gpu_memory_utilization = 9/10, ns_max_concurrent_requests = 4, ns_max_model_len = Some 8192,
     ns_max_audio_seconds = None, ns_max_output_tokens = None, ns_download_dir = None, ns_extra_args = [],
     ns_min_vram_gib = None, ns_requires_vllm = None\<rparr>"

lemma demo_spec_ref: "model_ref demo_spec = ''/models/g 1''"
  by code_simp

lemma argv_serves_profile_witness:
  "build_argv ''python'' (\<lambda>_. ''0.9'') demo_spec (Some 7002) ! 4 = ''/models/g 1''
   \<and> default_to (model_ref demo_spec) (flag_value ''--served-model-name'' (drop 5 (build_argv ''python'' (\<lambda>_. ''0.9'') demo_spec (Some 7002)))) = ''g@8k''"
proof -
  have "\<forall>f. flag_value f (ns_extra_args demo_spec) = None" by (simp add: demo_spec_def)
  from argv_serves_profile [OF this, of "''python''" "\<lambda>_. ''0.9''" "Some 7002"] demo_spec_ref show ?thesis
    by (simp add: ns_served_name_def demo_spec_def)
qed

text \<open>A restarted worker keeps its identity. Two starts on the same port in the same state
  directory give the same node id, whatever fresh UUID each would have minted, and the second
  incarnation is one higher; the counters of the other nodes of the host are untouched.\<close>

lemma identity_survives_restart:
  assumes "py_strip uuid = uuid" "uuid \<noteq> []"
    and "resolve_worker_identity sha env uuid prt d = ((nid, n), d')"
    and "resolve_worker_identity sha env uuid' prt d' = ((nid', n'), d'')"
  shows "nid' = nid \<and> n' = n + 1 \<and> host_id_file d'' = host_id_file d'
    \<and> (\<forall>k. k \<noteq> nid \<longrightarrow> map_of (default_to [] (incarnations d'')) k = map_of (default_to [] (incarnations d)) k)"
proof -
  obtain h d1 where h: "resolve_host_id env uuid d = (h, d1)" by fastforce
  note i1 = resolve_host_id_incarnations [OF h]
  have d': "nid = compute_node_id sha h prt" "d' = d1\<lparr>incarnations := Some (AList.update nid n (default_to [] (incarnations d)))\<rparr>"
    using assms(3) h i1 by (auto simp: resolve_worker_identity_def Let_def)
  have "resolve_host_id env uuid' d' = (h, d')"
    using resolve_host_id_stable [OF assms(1,2) h] d' by (simp add: resolve_host_id_update)
  then show ?thesis using assms(4) d' h
    by (auto simp: resolve_worker_identity_def Let_def update_conv')
qed

lemma identity_survives_restart_witness:
  "let d = \<lparr>host_id_file = None, incarnations = Some [(''w'', 4)]\<rparr>;
       (r1, d1) = resolve_worker_identity (\<lambda>s. s) [] ''ab-1'' 7001 d;
       (r2, d2) = resolve_worker_identity (\<lambda>s. s) [] ''cd-2'' 7001 d1 in
   fst r2 = fst r1 \<and> snd r2 = snd r1 + 1"
proof -
  define d where "d = \<lparr>host_id_file = None, incarnations = Some [(''w'', 4)]\<rparr>"
  obtain nid n d1 where r1: "resolve_worker_identity (\<lambda>s. s) [] ''ab-1'' 7001 d = ((nid, n), d1)" by (metis surj_pair)
  obtain nid' n' d2 where r2: "resolve_worker_identity (\<lambda>s. s) [] ''cd-2'' 7001 d1 = ((nid', n'), d2)" by (metis surj_pair)
  have "py_strip ''ab-1'' = ''ab-1''" by code_simp
  from identity_survives_restart [OF this _ r1 r2] show ?thesis
    unfolding d_def [symmetric] Let_def by (simp add: r1 r2)
qed

end
