(* ===== verification/Coordinator.thy ===== *)
theory Coordinator
  imports Supervisor
begin

text \<open>
  The worker process (\<open>src/src/oumigo/service/worker/coordinator.py\<close>): \<open>WorkerCoordinator\<close> with its
  state machine, its loop and its shutdown, and the preflight of \<open>run_worker\<close>. Everything outside
  the process is an argument: for each turn of the loop a \<open>tick\<close> says which signals arrived, what
  the backend child did, which ports can be bound and how the manager answered. The heartbeats the
  worker sends are recorded in \<open>outbox\<close>, the processes it launches in \<open>launched\<close>.
\<close>

section \<open>State\<close>

datatype worker_backend = VLLM | TRANSFORMER

record tunnel_client =
  tc_backend_port :: int
  tc_pool_size :: int
  tc_rtt_ms :: "real option"
  tc_wakes :: nat

record worker_cfg =
  wc_node_id :: string
  wc_spec :: node_spec
  wc_backend :: worker_backend
  wc_transport :: transport
  wc_max_restarts :: nat
  wc_restart_backoff_s :: real
  wc_drain_timeout_s :: real
  wc_metrics_enabled :: bool
  wc_exe :: string
  wc_float_repr :: "real \<Rightarrow> string"

record worker =
  w_state :: node_state
  w_run :: "run_state option"
  w_interval :: real
  w_port :: "int option"
  w_sup :: "server_process option"
  w_tunnel :: "tunnel_client option"
  w_metrics_port :: "int option option"
  w_serving_marked :: bool
  w_restarts :: nat
  w_stop :: bool
  w_force :: bool
  w_token :: "string option"
  w_join_token :: "string option"
  w_env_key :: "string option"
  outbox :: "heartbeat_request list"
  launched :: "(int \<times> string list) list"

definition new_worker :: "string option \<Rightarrow> int \<Rightarrow> worker" where
  "new_worker tok prt =
     \<lparr>w_state = REGISTERING, w_run = None, w_interval = 10, w_port = Some prt, w_sup = None, w_tunnel = None,
      w_metrics_port = None, w_serving_marked = False, w_restarts = 0, w_stop = False, w_force = False,
      w_token = tok, w_join_token = tok, w_env_key = None, outbox = [], launched = []\<rparr>"

text \<open>The signal handler.\<close>

definition on_signal :: "worker \<Rightarrow> worker" where
  "on_signal w = (if w_stop w then w\<lparr>w_force := True\<rparr> else w\<lparr>w_stop := True\<rparr>)"

section \<open>Heartbeats\<close>

datatype 'a http = Answer 'a | Status nat | Unreachable

definition report_max_concurrent :: "worker_cfg \<Rightarrow> int option" where
  "report_max_concurrent cfg = (if wc_backend cfg = TRANSFORMER then Some 1 else None)"

definition heartbeat_of :: "worker_cfg \<Rightarrow> worker \<Rightarrow> heartbeat_request" where
  "heartbeat_of cfg w =
     \<lparr>hb_node_id = wc_node_id cfg, hb_node_state = w_state w, hb_run_state = w_run w, hb_vllm_port = w_port w,
      hb_max_concurrent_requests = report_max_concurrent cfg,
      hb_tunnel_rtt_ms = Option.bind (w_tunnel w) tc_rtt_ms\<rparr>"

definition send_heartbeat :: "worker_cfg \<Rightarrow> heartbeat_response http \<Rightarrow> worker \<Rightarrow> heartbeat_response option \<times> worker" where
  "send_heartbeat cfg answer w =
     (let w1 = w\<lparr>outbox := outbox w @ [heartbeat_of cfg w]\<rparr> in
      case answer of
        Answer r \<Rightarrow> (Some r, w1)
      | Status code \<Rightarrow> (None, if code = 403 then w1\<lparr>w_stop := True\<rparr> else w1)
      | Unreachable \<Rightarrow> (None, w1))"

section \<open>The backend\<close>

definition backend_argv :: "worker_cfg \<Rightarrow> int \<Rightarrow> string list" where
  "backend_argv cfg prt =
     (if wc_backend cfg = TRANSFORMER then build_hf_argv (wc_exe cfg) (wc_spec cfg) (Some prt)
      else build_argv (wc_exe cfg) (wc_float_repr cfg) (wc_spec cfg) (Some prt))"

text \<open>\<open>_make_process\<close> and \<open>start\<close> on the new process object.\<close>

definition launch :: "worker_cfg \<Rightarrow> int \<Rightarrow> worker \<Rightarrow> worker" where
  "launch cfg prt w =
     w\<lparr>w_sup := Some ((make_process (backend_argv cfg prt) prt)\<lparr>sp_child := Alive\<rparr>),
       launched := launched w @ [(prt, backend_argv cfg prt)]\<rparr>"

definition start_vllm :: "worker_cfg \<Rightarrow> worker \<Rightarrow> worker" where
  "start_vllm cfg w =
     (case w_port w of
        None \<Rightarrow> w\<lparr>w_state := FAILED\<rparr>
      | Some prt \<Rightarrow> launch cfg prt (w\<lparr>w_state := INITIALIZING\<rparr>))"

definition select_port :: "worker_cfg \<Rightarrow> (int \<Rightarrow> bind_result) \<Rightarrow> worker \<Rightarrow> int option res \<times> worker" where
  "select_port cfg bind w =
     (let preferred = default_to (ns_port (wc_spec cfg)) (w_port w) in
      case find_free_port bind preferred of
        Inr prt \<Rightarrow> (Inr (Some prt), w\<lparr>w_port := Some prt\<rparr>)
      | Inl (PortUnavailable m) \<Rightarrow> (Inr None, w\<lparr>w_state := FAILED\<rparr>)
      | Inl e \<Rightarrow> (Inl e, w))"

definition restart_backoff :: "worker_cfg \<Rightarrow> nat \<Rightarrow> real" where
  "restart_backoff cfg attempt = min (wc_restart_backoff_s cfg * real attempt) 30"

text \<open>What the worker reads of a \<open>RegisterResponse\<close>.\<close>

record register_answer =
  ra_interval :: int
  ra_node_token :: "string option"
  ra_api_key :: "string option"
  ra_pool_size :: "int option"

text \<open>What the world does during one turn of the loop.\<close>

record tick =
  tk_signals :: nat
  tk_exit :: "int option"
  tk_health :: "(nat \<times> string) option"
  tk_metrics :: "(nat \<times> string) option"
  tk_backoff_signals :: nat
  tk_bind :: "int \<Rightarrow> bind_result"
  tk_heartbeat :: "heartbeat_response http"
  tk_register :: "register_answer http"
  tk_rejoin :: "register_answer http"
  tk_obeys :: "int option"

text \<open>The child exits (or not) before the worker looks at it.\<close>

definition observe_exit :: "tick \<Rightarrow> worker \<Rightarrow> worker" where
  "observe_exit t w =
     (case (w_sup w, tk_exit t) of
        (Some sp, Some code) \<Rightarrow> if sp_child sp = Alive then w\<lparr>w_sup := Some (sp\<lparr>sp_child := Exited code\<rparr>)\<rparr> else w
      | _ \<Rightarrow> w)"

definition handle_crash :: "worker_cfg \<Rightarrow> tick \<Rightarrow> worker \<Rightarrow> unit res \<times> worker" where
  "handle_crash cfg t w =
     (let w1 = w\<lparr>w_run := None, w_serving_marked := False\<rparr> in
      if wc_max_restarts cfg \<le> w_restarts w1 then (Inr (), w1\<lparr>w_state := FAILED\<rparr>)
      else
        let w2 = w1\<lparr>w_restarts := Suc (w_restarts w1), w_state := INITIALIZING\<rparr>;
            w3 = (on_signal ^^ tk_backoff_signals t) w2 in
        if w_stop w3 then (Inr (), w3)
        else case select_port cfg (tk_bind t) w3 of
          (Inl e, w4) \<Rightarrow> (Inl e, w4)
        | (Inr None, w4) \<Rightarrow> (Inr (), w4)
        | (Inr (Some prt), w4) \<Rightarrow>
            (Inr (), launch cfg prt (w4\<lparr>w_tunnel := map_option (tc_backend_port_update (\<lambda>_. prt)) (w_tunnel w4)\<rparr>)))"

definition reconcile_running :: "tick \<Rightarrow> worker \<Rightarrow> worker" where
  "reconcile_running t w =
     (let w1 = (if w_state w = INITIALIZING \<and> is_healthy (tk_health t)
                then w\<lparr>w_state := SERVING, w_serving_marked := (w_metrics_port w \<noteq> None)\<rparr> else w) in
      if w_state w1 = SERVING then w1\<lparr>w_run := Some (server_run_state (tk_metrics t))\<rparr> else w1)"

definition reconcile :: "worker_cfg \<Rightarrow> tick \<Rightarrow> worker \<Rightarrow> unit res \<times> worker" where
  "reconcile cfg t w =
     (case w_sup w of
        None \<Rightarrow> (Inr (), w)
      | Some sp \<Rightarrow> if sp_running sp then (Inr (), reconcile_running t w) else handle_crash cfg t w)"

section \<open>Registration\<close>

definition register_node :: "register_answer http \<Rightarrow> worker \<Rightarrow> register_answer res \<times> worker" where
  "register_node answer w =
     (case answer of
        Answer r \<Rightarrow>
          (Inr r, w\<lparr>w_interval := (if ra_interval r = 0 then 10 else of_int (ra_interval r)),
                    w_token := (if truthy (ra_node_token r) then ra_node_token r else w_token w)\<rparr>)
      | Status code \<Rightarrow>
          (Inl (SystemExit (if code = 401 then ''registration rejected (401)''
                            else if code = 403 then ''registration refused (403)'' else ''registration failed'')), w)
      | Unreachable \<Rightarrow> (Inl (SystemExit ''could not reach manager''), w))"

definition adopt_registration :: "tick \<Rightarrow> register_answer \<Rightarrow> worker \<Rightarrow> worker" where
  "adopt_registration t r w =
     (let w1 = w\<lparr>w_token := (if truthy (ra_node_token r) then ra_node_token r else w_token w),
                 w_tunnel := map_option (tc_wakes_update Suc) (w_tunnel w)\<rparr> in
      if truthy (ra_api_key r) \<and> ra_api_key r \<noteq> w_env_key w1
      then w1\<lparr>w_env_key := ra_api_key r, w_sup := map_option (\<lambda>sp. snd (sp_stop (tk_obeys t) sp)) (w_sup w1)\<rparr>
      else w1)"

definition reregister :: "tick \<Rightarrow> worker \<Rightarrow> worker" where
  "reregister t w =
     (case tk_register t of
        Answer r \<Rightarrow> adopt_registration t r w
      | Status code \<Rightarrow>
          if code \<noteq> 401 \<or> w_token w = w_join_token w then w
          else (case tk_rejoin t of Answer r \<Rightarrow> adopt_registration t r w | _ \<Rightarrow> w)
      | Unreachable \<Rightarrow> w)"

definition set_pool_size :: "int option \<Rightarrow> tunnel_client \<Rightarrow> tunnel_client" where
  "set_pool_size sz tc =
     (case sz of None \<Rightarrow> tc
      | Some n \<Rightarrow> if max 1 n = tc_pool_size tc then tc else tc\<lparr>tc_pool_size := max 1 n\<rparr>)"

definition start_tunnel :: "register_answer \<Rightarrow> worker \<Rightarrow> worker res" where
  "start_tunnel r w =
     (if \<not> truthy (ra_api_key r) \<or> ra_pool_size r \<in> {None, Some 0}
      then Inl (SystemExit ''manager did not hand out tunnel settings'')
      else Inr (w\<lparr>w_env_key := ra_api_key r,
                  w_tunnel := Some \<lparr>tc_backend_port = the (w_port w), tc_pool_size = max 1 (the (ra_pool_size r)),
                                    tc_rtt_ms = None, tc_wakes = 0\<rparr>\<rparr>))"

definition start_metrics :: "worker_cfg \<Rightarrow> worker \<Rightarrow> worker" where
  "start_metrics cfg w = (if wc_metrics_enabled cfg then w\<lparr>w_metrics_port := Some (w_port w)\<rparr> else w)"

definition stop_metrics :: "worker \<Rightarrow> worker" where
  "stop_metrics w = w\<lparr>w_metrics_port := None\<rparr>"

section \<open>The loop\<close>

datatype outcome = Going worker | Done worker | Raised err worker

definition after_heartbeat :: "tick \<Rightarrow> heartbeat_response option \<times> worker \<Rightarrow> outcome" where
  "after_heartbeat t rw =
     (case rw of
        (None, w) \<Rightarrow> Going w
      | (Some r, w) \<Rightarrow>
          let w1 = w\<lparr>w_tunnel := map_option (set_pool_size (hr_tunnel_pool_size r)) (w_tunnel w)\<rparr> in
          if \<not> hr_known r then Going (reregister t w1)
          else if hr_command r = Some CMD_STOP then Done (w1\<lparr>w_stop := True\<rparr>)
          else Going w1)"

definition turn :: "worker_cfg \<Rightarrow> tick \<Rightarrow> worker \<Rightarrow> outcome" where
  "turn cfg t w =
     (let w1 = (on_signal ^^ tk_signals t) w in
      if w_stop w1 then Done w1
      else case reconcile cfg t (observe_exit t w1) of
        (Inl e, w2) \<Rightarrow> Raised e w2
      | (Inr _, w2) \<Rightarrow>
          if w_state w2 = FAILED then Done (snd (send_heartbeat cfg (tk_heartbeat t) w2))
          else after_heartbeat t (send_heartbeat cfg (tk_heartbeat t) w2))"

fun loop :: "worker_cfg \<Rightarrow> tick list \<Rightarrow> worker \<Rightarrow> outcome" where
  "loop cfg [] w = Going w"
| "loop cfg (t # ts) w = (case turn cfg t w of Going w' \<Rightarrow> loop cfg ts w' | r \<Rightarrow> r)"

section \<open>Shutdown\<close>

record drain_tick =
  dt_now :: real
  dt_metrics :: "(nat \<times> string) option"
  dt_signals :: nat
  dt_heartbeat :: "heartbeat_response http"

definition still_draining :: "real \<Rightarrow> drain_tick \<Rightarrow> worker \<Rightarrow> bool" where
  "still_draining deadline t w \<longleftrightarrow> \<not> w_force w \<and> dt_now t < deadline \<and> server_run_state (dt_metrics t) = EXECUTING"

text \<open>How long one turn of the drain loop sleeps.\<close>

definition drain_sleep :: "real \<Rightarrow> drain_tick \<Rightarrow> worker \<Rightarrow> real" where
  "drain_sleep deadline t w = min (w_interval w) (max 0 (deadline - dt_now t))"

fun drain_loop :: "worker_cfg \<Rightarrow> real \<Rightarrow> drain_tick list \<Rightarrow> worker \<Rightarrow> worker option" where
  "drain_loop cfg deadline [] w = None"
| "drain_loop cfg deadline (t # ts) w =
     (if still_draining deadline t w
      then drain_loop cfg deadline ts
             ((on_signal ^^ dt_signals t) (snd (send_heartbeat cfg (dt_heartbeat t) (w\<lparr>w_run := Some EXECUTING\<rparr>))))
      else Some w)"

definition finish_stop :: "worker_cfg \<Rightarrow> int option \<Rightarrow> heartbeat_response http \<Rightarrow> worker \<Rightarrow> worker" where
  "finish_stop cfg obeys answer w =
     snd (send_heartbeat cfg answer
       (w\<lparr>w_sup := map_option (\<lambda>sp. snd (sp_stop obeys sp)) (w_sup w), w_state := STOPPED, w_run := None\<rparr>))"

text \<open>\<open>None\<close> while it drains.\<close>

definition drain_and_stop ::
  "worker_cfg \<Rightarrow> real \<Rightarrow> drain_tick list \<Rightarrow> int option \<Rightarrow> heartbeat_response http \<Rightarrow> worker \<Rightarrow> worker option" where
  "drain_and_stop cfg now ts obeys answer w =
     (if (case w_sup w of None \<Rightarrow> True | Some sp \<Rightarrow> \<not> sp_running sp)
      then Some (snd (send_heartbeat cfg answer (w\<lparr>w_state := STOPPED, w_run := None\<rparr>)))
      else map_option (finish_stop cfg obeys answer)
             (drain_loop cfg (now + wc_drain_timeout_s cfg) ts (w\<lparr>w_state := DRAINING\<rparr>)))"

section \<open>run\<close>

definition boot :: "worker_cfg \<Rightarrow> register_answer http \<Rightarrow> worker \<Rightarrow> worker res" where
  "boot cfg answer w =
     (case register_node answer w of
        (Inl e, _) \<Rightarrow> Inl e
      | (Inr r, w1) \<Rightarrow>
          res_map (\<lambda>w2. start_metrics cfg (start_vllm cfg w2))
            (if wc_transport cfg = TUNNEL then start_tunnel r w1 else Inr w1))"

definition shut_down ::
  "worker_cfg \<Rightarrow> real \<Rightarrow> drain_tick list \<Rightarrow> int option \<Rightarrow> heartbeat_response http \<Rightarrow> worker \<Rightarrow> worker option" where
  "shut_down cfg now ds obeys answer w =
     map_option (\<lambda>w1. (stop_metrics w1)\<lparr>w_tunnel := None\<rparr>)
       (if w_state w \<noteq> FAILED then drain_and_stop cfg now ds obeys answer w else Some w)"

definition run ::
  "worker_cfg \<Rightarrow> register_answer http \<Rightarrow> tick list \<Rightarrow> real \<Rightarrow> drain_tick list \<Rightarrow> int option \<Rightarrow> heartbeat_response http
    \<Rightarrow> worker \<Rightarrow> outcome" where
  "run cfg answer ts now ds obeys last_answer w =
     (case boot cfg answer w of
        Inl e \<Rightarrow> Raised e w
      | Inr w1 \<Rightarrow>
          (case loop cfg ts w1 of
             Done w2 \<Rightarrow> (case shut_down cfg now ds obeys last_answer w2 of Some w3 \<Rightarrow> Done w3 | None \<Rightarrow> Going w2)
           | r \<Rightarrow> r))"

section \<open>What a turn changes\<close>

lemma on_signal_funpow [simp]:
  "w_state ((on_signal ^^ n) w) = w_state w" "w_run ((on_signal ^^ n) w) = w_run w"
  "w_port ((on_signal ^^ n) w) = w_port w" "w_sup ((on_signal ^^ n) w) = w_sup w"
  "w_tunnel ((on_signal ^^ n) w) = w_tunnel w" "w_restarts ((on_signal ^^ n) w) = w_restarts w"
  "outbox ((on_signal ^^ n) w) = outbox w" "launched ((on_signal ^^ n) w) = launched w"
  "w_interval ((on_signal ^^ n) w) = w_interval w" "w_metrics_port ((on_signal ^^ n) w) = w_metrics_port w"
  by (induction n) (auto simp: on_signal_def)

lemma on_signal_stop: "w_stop ((on_signal ^^ n) w) \<longleftrightarrow> w_stop w \<or> 0 < n"
  by (induction n) (auto simp: on_signal_def)

lemma send_heartbeat_simps [simp]:
  "w_state (snd (send_heartbeat cfg a w)) = w_state w" "w_run (snd (send_heartbeat cfg a w)) = w_run w"
  "w_port (snd (send_heartbeat cfg a w)) = w_port w" "w_sup (snd (send_heartbeat cfg a w)) = w_sup w"
  "w_tunnel (snd (send_heartbeat cfg a w)) = w_tunnel w" "w_restarts (snd (send_heartbeat cfg a w)) = w_restarts w"
  "outbox (snd (send_heartbeat cfg a w)) = outbox w @ [heartbeat_of cfg w]"
  "launched (snd (send_heartbeat cfg a w)) = launched w" "w_interval (snd (send_heartbeat cfg a w)) = w_interval w"
  by (simp_all add: send_heartbeat_def Let_def split: http.split)

text \<open>The transition map of the node states, one report after the other.\<close>

fun moves :: "node_state \<Rightarrow> node_state \<Rightarrow> bool" where
  "moves INITIALIZING t = (t \<in> {INITIALIZING, SERVING, FAILED, DRAINING, STOPPED})"
| "moves SERVING t = (t \<in> {SERVING, INITIALIZING, FAILED, DRAINING, STOPPED})"
| "moves DRAINING t = (t \<in> {DRAINING, STOPPED})"
| "moves _ t = False"

fun path_from :: "node_state \<Rightarrow> node_state list \<Rightarrow> bool" where
  "path_from s [] = True"
| "path_from s (t # ts) = (moves s t \<and> path_from t ts)"

lemma path_from_snoc: "path_from s (ts @ [t]) \<longleftrightarrow> path_from s ts \<and> moves (last (s # ts)) t"
  by (induction ts arbitrary: s) auto

definition reported :: "worker \<Rightarrow> node_state list" where
  "reported w = map hb_node_state (outbox w)"

definition run_state_ok :: "node_state \<Rightarrow> run_state option \<Rightarrow> bool" where
  "run_state_ok st r \<longleftrightarrow> (r \<noteq> None \<longrightarrow> st \<in> {SERVING, DRAINING})"

definition reports_ok :: "worker \<Rightarrow> bool" where
  "reports_ok w \<longleftrightarrow> path_from INITIALIZING (reported w) \<and> (\<forall>h \<in> set (outbox w). run_state_ok (hb_node_state h) (hb_run_state h))"

text \<open>The worker between two turns of the loop.\<close>

definition ports_ok :: "worker \<Rightarrow> bool" where
  "ports_ok w \<longleftrightarrow> launched w \<noteq> [] \<and> w_port w = Some (fst (last (launched w)))
     \<and> (\<exists>sp. w_sup w = Some sp \<and> sp_port sp = fst (last (launched w)))
     \<and> (\<forall>tc. w_tunnel w = Some tc \<longrightarrow> tc_backend_port tc = fst (last (launched w)))"

definition budget_ok :: "worker_cfg \<Rightarrow> worker \<Rightarrow> bool" where
  "budget_ok cfg w \<longleftrightarrow> w_restarts w \<le> wc_max_restarts cfg \<and> length (launched w) \<le> Suc (w_restarts w)"

definition between_turns :: "worker_cfg \<Rightarrow> worker \<Rightarrow> bool" where
  "between_turns cfg w \<longleftrightarrow> w_state w \<in> {INITIALIZING, SERVING} \<and> w_state w = last (INITIALIZING # reported w)
     \<and> run_state_ok (w_state w) (w_run w) \<and> reports_ok w \<and> ports_ok w \<and> budget_ok cfg w"

definition backend_down :: "worker \<Rightarrow> bool" where
  "backend_down w \<longleftrightarrow> (\<forall>sp. w_sup w = Some sp \<longrightarrow> \<not> sp_running sp)"

text \<open>After the fold of the child's status, before the heartbeat.\<close>

definition reconciled :: "worker_cfg \<Rightarrow> worker \<Rightarrow> bool" where
  "reconciled cfg w \<longleftrightarrow> moves (last (INITIALIZING # reported w)) (w_state w) \<and> w_state w \<in> {INITIALIZING, SERVING, FAILED}
     \<and> run_state_ok (w_state w) (w_run w) \<and> reports_ok w \<and> ports_ok w \<and> budget_ok cfg w
     \<and> (w_state w = FAILED \<longrightarrow> backend_down w)"

lemma observe_exit_simps [simp]:
  "w_state (observe_exit t w) = w_state w" "w_run (observe_exit t w) = w_run w" "w_port (observe_exit t w) = w_port w"
  "w_tunnel (observe_exit t w) = w_tunnel w" "w_restarts (observe_exit t w) = w_restarts w"
  "outbox (observe_exit t w) = outbox w" "launched (observe_exit t w) = launched w"
  by (auto simp: observe_exit_def split: option.split)

lemma observe_exit_sup: "w_sup w = Some sp \<Longrightarrow> \<exists>sp'. w_sup (observe_exit t w) = Some sp' \<and> sp_port sp' = sp_port sp"
  by (auto simp: observe_exit_def split: option.split)

lemma ports_ok_observe: "ports_ok w \<Longrightarrow> ports_ok (observe_exit t w)"
  unfolding ports_ok_def using observe_exit_sup by fastforce

lemma reported_cong: "outbox w' = outbox w \<Longrightarrow> reported w' = reported w \<and> reports_ok w' = reports_ok w"
  by (simp add: reported_def reports_ok_def)

lemma select_port_cases:
  assumes "select_port cfg bind w = (r, w')"
  obtains (found) prt where "r = Inr (Some prt)" "w' = w\<lparr>w_port := Some prt\<rparr>"
  | (full) "r = Inr None" "w' = w\<lparr>w_state := FAILED\<rparr>"
  | (err) e where "r = Inl e" "w' = w"
  using assms by (auto simp: select_port_def Let_def split: sum.splits err.splits)

lemma launch_simps [simp]:
  "w_state (launch cfg p w) = w_state w" "w_run (launch cfg p w) = w_run w" "w_port (launch cfg p w) = w_port w"
  "w_tunnel (launch cfg p w) = w_tunnel w" "w_restarts (launch cfg p w) = w_restarts w" "outbox (launch cfg p w) = outbox w"
  "launched (launch cfg p w) = launched w @ [(p, backend_argv cfg p)]"
  "w_sup (launch cfg p w) = Some \<lparr>sp_argv = backend_argv cfg p, sp_port = p, sp_child = Alive, sp_members = 0\<rparr>"
  by (simp_all add: launch_def make_process_def)

lemma handle_crash_cases:
  assumes "handle_crash cfg t w = (r, w')"
  obtains (exhausted) "wc_max_restarts cfg \<le> w_restarts w" "r = Inr ()"
      "w' = w\<lparr>w_run := None, w_serving_marked := False, w_state := FAILED\<rparr>"
  | (retry) w3 where "w_restarts w < wc_max_restarts cfg"
      "w3 = (on_signal ^^ tk_backoff_signals t)
         (w\<lparr>w_run := None, w_serving_marked := False, w_restarts := Suc (w_restarts w), w_state := INITIALIZING\<rparr>)"
      "w_stop w3 \<and> r = Inr () \<and> w' = w3
        \<or> (\<exists>prt. r = Inr () \<and> w' = launch cfg prt (w3\<lparr>w_port := Some prt,
             w_tunnel := map_option (tc_backend_port_update (\<lambda>_. prt)) (w_tunnel w3)\<rparr>))
        \<or> r = Inr () \<and> w' = w3\<lparr>w_state := FAILED\<rparr>
        \<or> (\<exists>e. r = Inl e \<and> w' = w3)"
proof (cases "wc_max_restarts cfg \<le> w_restarts w")
  case True
  with assms exhausted show ?thesis by (simp add: handle_crash_def)
next
  case False
  let ?w3 = "(on_signal ^^ tk_backoff_signals t)
         (w\<lparr>w_run := None, w_serving_marked := False, w_restarts := Suc (w_restarts w), w_state := INITIALIZING\<rparr>)"
  obtain q w4 where s: "select_port cfg (tk_bind t) ?w3 = (q, w4)" by fastforce
  have h: "handle_crash cfg t w = (if w_stop ?w3 then (Inr (), ?w3) else
      case (q, w4) of (Inl e, w4) \<Rightarrow> (Inl e, w4) | (Inr None, w4) \<Rightarrow> (Inr (), w4)
      | (Inr (Some prt), w4) \<Rightarrow>
          (Inr (), launch cfg prt (w4\<lparr>w_tunnel := map_option (tc_backend_port_update (\<lambda>_. prt)) (w_tunnel w4)\<rparr>)))"
    using False s unfolding handle_crash_def Let_def by simp
  show ?thesis
  proof (rule retry [of ?w3], use False in simp, rule refl)
    show "w_stop ?w3 \<and> r = Inr () \<and> w' = ?w3
        \<or> (\<exists>prt. r = Inr () \<and> w' = launch cfg prt (?w3\<lparr>w_port := Some prt,
             w_tunnel := map_option (tc_backend_port_update (\<lambda>_. prt)) (w_tunnel ?w3)\<rparr>))
        \<or> r = Inr () \<and> w' = ?w3\<lparr>w_state := FAILED\<rparr>
        \<or> (\<exists>e. r = Inl e \<and> w' = ?w3)"
      using s
    proof (cases rule: select_port_cases)
      case (found prt)
      with h assms show ?thesis by (cases "w_stop ?w3") auto
    next
      case full
      with h assms show ?thesis by (cases "w_stop ?w3") auto
    next
      case (err e)
      with h assms show ?thesis by (cases "w_stop ?w3") auto
    qed
  qed
qed

lemma ports_ok_cong:
  "launched w' = launched w \<Longrightarrow> w_port w' = w_port w \<Longrightarrow> w_sup w' = w_sup w \<Longrightarrow> w_tunnel w' = w_tunnel w
    \<Longrightarrow> ports_ok w' = ports_ok w"
  by (simp add: ports_ok_def)

lemma moves_live: "w_state w \<in> {INITIALIZING, SERVING} \<Longrightarrow> s \<in> {INITIALIZING, SERVING, FAILED} \<Longrightarrow> moves (w_state w) s"
  by auto

lemma reconciled_crash:
  assumes b: "between_turns cfg w" and d: "backend_down w" and h: "handle_crash cfg t w = (Inr u, w')"
  shows "reconciled cfg w'"
  using h
proof (cases rule: handle_crash_cases)
  case exhausted
  with b d show ?thesis
    by (auto simp: reconciled_def between_turns_def reported_def reports_ok_def ports_ok_def budget_ok_def
        run_state_ok_def backend_down_def)
next
  case (retry w3)
  have o: "outbox w' = outbox w" using retry by auto
  have st: "w_state w' \<in> {INITIALIZING, FAILED}" "w_run w' = None" "w_restarts w' = Suc (w_restarts w)"
    using retry by auto
  moreover have "ports_ok w'" using retry b by (auto simp: between_turns_def ports_ok_def)
  moreover have "w_state w' = FAILED \<Longrightarrow> backend_down w'" using retry d by (auto simp: backend_down_def)
  moreover have "length (launched w') \<le> Suc (Suc (w_restarts w))"
    using retry b by (auto simp: between_turns_def budget_ok_def)
  ultimately show ?thesis using b retry(1) reported_cong [OF o]
    by (auto simp: reconciled_def between_turns_def budget_ok_def run_state_ok_def)
qed

lemma reconciled_running:
  assumes "between_turns cfg w" shows "reconciled cfg (reconcile_running t w)"
proof -
  have "outbox (reconcile_running t w) = outbox w" "ports_ok (reconcile_running t w) = ports_ok w"
    "budget_ok cfg (reconcile_running t w) = budget_ok cfg w"
    by (simp_all add: reconcile_running_def Let_def ports_ok_def budget_ok_def)
  moreover have "w_state (reconcile_running t w) \<in> {w_state w, SERVING}"
    "run_state_ok (w_state w) (w_run w) \<Longrightarrow> run_state_ok (w_state (reconcile_running t w)) (w_run (reconcile_running t w))"
    by (auto simp: reconcile_running_def Let_def run_state_ok_def)
  ultimately show ?thesis using assms reported_cong [of "reconcile_running t w" w]
    by (auto simp: reconciled_def between_turns_def)
qed

lemma between_turns_cong:
  assumes "w_state w' = w_state w" "outbox w' = outbox w" "w_run w' = w_run w" "ports_ok w' = ports_ok w"
    "w_restarts w' = w_restarts w" "launched w' = launched w"
  shows "between_turns cfg w' = between_turns cfg w"
  using assms unfolding between_turns_def reported_def reports_ok_def budget_ok_def by simp

lemma between_turns_signals: "between_turns cfg ((on_signal ^^ n) w) = between_turns cfg w"
  by (rule between_turns_cong) (simp_all add: ports_ok_def)

lemma between_turns_observe:
  assumes "between_turns cfg w" shows "between_turns cfg (observe_exit t w)"
proof -
  have "ports_ok w" using assms by (simp add: between_turns_def)
  then have "between_turns cfg (observe_exit t w) = between_turns cfg w"
    by (intro between_turns_cong) (simp_all add: ports_ok_observe)
  with assms show ?thesis by simp
qed

lemma reconciled_reconcile:
  assumes "between_turns cfg w" "reconcile cfg t w = (Inr u, w')" shows "reconciled cfg w'"
proof -
  obtain sp where "w_sup w = Some sp" using assms(1) by (auto simp: between_turns_def ports_ok_def)
  with assms reconciled_crash [OF assms(1)] reconciled_running [OF assms(1)] show ?thesis
    by (auto simp: reconcile_def backend_down_def split: if_splits)
qed

text \<open>A heartbeat reports the reconciled state.\<close>

lemma reported_heartbeat:
  assumes "reconciled cfg w"
  shows "reports_ok (snd (send_heartbeat cfg a w)) \<and> last (INITIALIZING # reported (snd (send_heartbeat cfg a w))) = w_state w"
  using assms by (auto simp: reconciled_def reports_ok_def reported_def path_from_snoc heartbeat_of_def)

lemma between_turns_heartbeat:
  assumes "reconciled cfg w" "w_state w \<noteq> FAILED"
  shows "between_turns cfg (snd (send_heartbeat cfg a w))"
  using assms reported_heartbeat [OF assms(1), of a]
  by (auto simp: between_turns_def reconciled_def budget_ok_def ports_ok_def)

lemma sp_stop_port: "sp_port (snd (sp_stop obeys sp)) = sp_port sp"
  by (auto simp: sp_stop_def split: child.split option.split)

lemma adopt_registration_simps [simp]:
  "w_state (adopt_registration t r w) = w_state w" "outbox (adopt_registration t r w) = outbox w"
  "w_run (adopt_registration t r w) = w_run w" "w_restarts (adopt_registration t r w) = w_restarts w"
  "launched (adopt_registration t r w) = launched w"
  "ports_ok (adopt_registration t r w) = ports_ok w"
  by (auto simp: adopt_registration_def Let_def ports_ok_def sp_stop_port)

lemma between_turns_reregister: "between_turns cfg (reregister t w) = between_turns cfg w"
  by (rule between_turns_cong; simp add: reregister_def split: http.split)

lemma set_pool_size_port [simp]: "tc_backend_port (set_pool_size n tc) = tc_backend_port tc"
  by (simp add: set_pool_size_def split: option.split)

lemma between_turns_pool_size:
  "between_turns cfg (w\<lparr>w_tunnel := map_option (set_pool_size n) (w_tunnel w)\<rparr>) = between_turns cfg w"
proof (rule between_turns_cong)
  show "ports_ok (w\<lparr>w_tunnel := map_option (set_pool_size n) (w_tunnel w)\<rparr>) = ports_ok w"
    by (cases "w_tunnel w") (simp_all add: ports_ok_def)
qed simp_all

lemma between_turns_stop: "between_turns cfg (w\<lparr>w_stop := True\<rparr>) = between_turns cfg w"
  by (rule between_turns_cong) (auto simp: ports_ok_def)

text \<open>The worker when the loop has returned, or raised.\<close>

definition gave_up :: "worker_cfg \<Rightarrow> worker \<Rightarrow> bool" where
  "gave_up cfg w \<longleftrightarrow> w_state w = FAILED \<and> last (INITIALIZING # reported w) = FAILED \<and> reports_ok w \<and> budget_ok cfg w
     \<and> backend_down w"

fun outcome_ok :: "worker_cfg \<Rightarrow> outcome \<Rightarrow> bool" where
  "outcome_ok cfg (Going w) = between_turns cfg w"
| "outcome_ok cfg (Done w) = (between_turns cfg w \<or> gave_up cfg w)"
| "outcome_ok cfg (Raised e w) = (reports_ok w \<and> budget_ok cfg w)"

lemma after_heartbeat_ok: "between_turns cfg w \<Longrightarrow> outcome_ok cfg (after_heartbeat t (r, w))"
  by (auto simp: after_heartbeat_def Let_def between_turns_reregister between_turns_pool_size between_turns_stop
      split: option.split)

lemma reconcile_raised:
  assumes "between_turns cfg w" "reconcile cfg t w = (Inl e, w')"
  shows "reports_ok w' \<and> budget_ok cfg w'"
proof -
  obtain sp where "w_sup w = Some sp" using assms(1) by (auto simp: between_turns_def ports_ok_def)
  then have "handle_crash cfg t w = (Inl e, w')" using assms(2) by (auto simp: reconcile_def split: if_splits)
  then show ?thesis
  proof (cases rule: handle_crash_cases)
    case (retry w3)
    then have "w' = w3" by auto
    with retry(1,2) assms(1) show ?thesis
      by (auto simp: between_turns_def reports_ok_def reported_def budget_ok_def)
  qed simp
qed

lemma turn_ok:
  assumes "between_turns cfg w" shows "outcome_ok cfg (turn cfg t w)"
proof -
  let ?w1 = "(on_signal ^^ tk_signals t) w"
  let ?w2 = "observe_exit t ?w1"
  obtain v w3 where r: "reconcile cfg t ?w2 = (v, w3)" by fastforce
  have b: "between_turns cfg ?w1" "between_turns cfg ?w2"
    using assms by (simp_all add: between_turns_signals between_turns_observe)
  show ?thesis
  proof (cases "w_stop ?w1")
    case True
    with b show ?thesis by (simp add: turn_def)
  next
    case go: False
    show ?thesis
    proof (cases v)
      case (Inl e)
      with go r reconcile_raised [OF b(2)] show ?thesis by (simp add: turn_def)
    next
      case (Inr u)
      with r have rc: "reconciled cfg w3" using reconciled_reconcile [OF b(2)] by simp
      obtain resp w4 where h: "send_heartbeat cfg (tk_heartbeat t) w3 = (resp, w4)" by fastforce
      show ?thesis
      proof (cases "w_state w3 = FAILED")
        case True
        with rc reported_heartbeat [OF rc, of "tk_heartbeat t"]
        have "gave_up cfg (snd (send_heartbeat cfg (tk_heartbeat t) w3))"
          by (simp add: gave_up_def reconciled_def budget_ok_def backend_down_def)
        with go r Inr True show ?thesis by (simp add: turn_def)
      next
        case False
        with between_turns_heartbeat [OF rc False, of "tk_heartbeat t"] h
        have "outcome_ok cfg (after_heartbeat t (resp, w4))" by (intro after_heartbeat_ok) simp
        with go r Inr False h show ?thesis by (simp add: turn_def)
      qed
    qed
  qed
qed

lemma loop_ok: "between_turns cfg w \<Longrightarrow> outcome_ok cfg (loop cfg ts w)"
proof (induction ts arbitrary: w)
  case (Cons t ts)
  with turn_ok [OF Cons.prems, of t] show ?case by (cases "turn cfg t w") auto
qed simp

section \<open>Shutting down\<close>

definition draining :: "worker_cfg \<Rightarrow> worker \<Rightarrow> bool" where
  "draining cfg w \<longleftrightarrow> w_state w = DRAINING \<and> last (INITIALIZING # reported w) \<in> {INITIALIZING, SERVING, DRAINING}
     \<and> reports_ok w \<and> budget_ok cfg w"

definition stopped :: "worker_cfg \<Rightarrow> worker \<Rightarrow> bool" where
  "stopped cfg w \<longleftrightarrow> w_state w = STOPPED \<and> last (INITIALIZING # reported w) = STOPPED \<and> reports_ok w
     \<and> budget_ok cfg w \<and> backend_down w"

lemma draining_cong:
  "w_state w' = w_state w \<Longrightarrow> outbox w' = outbox w \<Longrightarrow> w_restarts w' = w_restarts w \<Longrightarrow> launched w' = launched w
    \<Longrightarrow> draining cfg w' = draining cfg w"
  by (simp add: draining_def reported_def reports_ok_def budget_ok_def)

lemma draining_report: "draining cfg w \<Longrightarrow> draining cfg (snd (send_heartbeat cfg a w))"
  by (auto simp: draining_def reports_ok_def reported_def path_from_snoc heartbeat_of_def run_state_ok_def budget_ok_def)

lemma drain_loop_ok:
  "drain_loop cfg d ts w = Some w' \<Longrightarrow> draining cfg w \<Longrightarrow> draining cfg w' \<and> w_sup w' = w_sup w"
proof (induction ts arbitrary: w)
  case (Cons t ts)
  let ?w = "(on_signal ^^ dt_signals t) (snd (send_heartbeat cfg (dt_heartbeat t) (w\<lparr>w_run := Some EXECUTING\<rparr>)))"
  have "draining cfg (w\<lparr>w_run := Some EXECUTING\<rparr>)"
    using Cons.prems(2) draining_cong [of "w\<lparr>w_run := Some EXECUTING\<rparr>" w cfg] by simp
  then have "draining cfg (snd (send_heartbeat cfg (dt_heartbeat t) (w\<lparr>w_run := Some EXECUTING\<rparr>)))"
    by (rule draining_report)
  then have "draining cfg ?w" by (subst draining_cong) simp_all
  with Cons show ?case by (auto split: if_splits)
qed simp

lemma stopped_report:
  assumes "w_state w = STOPPED" "w_run w = None" "last (INITIALIZING # reported w) \<in> {INITIALIZING, SERVING, DRAINING}"
    "reports_ok w" "budget_ok cfg w" "backend_down w"
  shows "stopped cfg (snd (send_heartbeat cfg a w))"
  using assms
  by (auto simp: stopped_def reports_ok_def reported_def path_from_snoc heartbeat_of_def run_state_ok_def budget_ok_def
      backend_down_def)

lemma drain_and_stop_ok:
  assumes b: "between_turns cfg w" and d: "drain_and_stop cfg now ts obeys answer w = Some w'"
  shows "stopped cfg w'"
proof (cases "backend_down w")
  case True
  then have "w' = snd (send_heartbeat cfg answer (w\<lparr>w_state := STOPPED, w_run := None\<rparr>))"
    using d by (auto simp: drain_and_stop_def backend_down_def split: option.splits if_splits)
  moreover have "stopped cfg (snd (send_heartbeat cfg answer (w\<lparr>w_state := STOPPED, w_run := None\<rparr>)))"
    using b True by (intro stopped_report) (auto simp: between_turns_def reported_def reports_ok_def budget_ok_def backend_down_def)
  ultimately show ?thesis by simp
next
  case False
  then obtain sp where sp: "w_sup w = Some sp" "sp_child sp = Alive" by (auto simp: backend_down_def sp_running_def)
  with d obtain w1 where l: "drain_loop cfg (now + wc_drain_timeout_s cfg) ts (w\<lparr>w_state := DRAINING\<rparr>) = Some w1"
    and w': "w' = finish_stop cfg obeys answer w1" by (auto simp: drain_and_stop_def sp_running_def)
  have "draining cfg (w\<lparr>w_state := DRAINING\<rparr>)"
    using b by (auto simp: between_turns_def draining_def reported_def reports_ok_def budget_ok_def)
  with drain_loop_ok [OF l] sp have w1: "draining cfg w1" "w_sup w1 = Some sp" by simp_all
  have "\<not> sp_running (snd (sp_stop obeys sp))" using sp(2) by (auto simp: sp_stop_def sp_running_def split: option.split)
  with w1 show ?thesis unfolding w' finish_stop_def
    by (intro stopped_report) (auto simp: draining_def reported_def reports_ok_def budget_ok_def backend_down_def)
qed

section \<open>Whole runs\<close>

lemma boot_ok:
  assumes "boot cfg answer (new_worker tok prt) = Inr w" shows "between_turns cfg w"
proof -
  have *: "between_turns cfg (start_metrics cfg (start_vllm cfg w2))"
    if "w_port w2 = Some prt" "outbox w2 = []" "w_run w2 = None" "launched w2 = []" "w_restarts w2 = 0"
      "\<forall>tc. w_tunnel w2 = Some tc \<longrightarrow> tc_backend_port tc = prt" for w2
    using that by (auto simp: between_turns_def start_metrics_def start_vllm_def reported_def reports_ok_def ports_ok_def
        budget_ok_def run_state_ok_def)
  obtain r where a: "answer = Answer r"
    using assms by (cases answer) (auto simp: boot_def register_node_def)
  then obtain w1 where r: "register_node answer (new_worker tok prt) = (Inr r, w1)"
    by (simp add: register_node_def)
  have w1: "w_port w1 = Some prt" "outbox w1 = []" "w_run w1 = None" "launched w1 = []" "w_restarts w1 = 0" "w_tunnel w1 = None"
    using r a by (auto simp: register_node_def new_worker_def)
  show ?thesis
  proof (cases "wc_transport cfg = TUNNEL")
    case True
    with assms r obtain w2 where w2: "start_tunnel r w1 = Inr w2" "w = start_metrics cfg (start_vllm cfg w2)"
      by (cases "start_tunnel r w1") (auto simp: boot_def)
    with w1 show ?thesis by (auto simp: start_tunnel_def split: if_splits intro!: *)
  next
    case False
    with assms r w1 show ?thesis by (auto simp: boot_def intro!: *)
  qed
qed


lemma shut_down_ok:
  assumes "between_turns cfg w \<or> gave_up cfg w" "shut_down cfg now ds obeys answer w = Some w'"
  shows "stopped cfg w' \<or> gave_up cfg w'"
proof (cases "w_state w = FAILED")
  case True
  with assms have "gave_up cfg w" "w' = (stop_metrics w)\<lparr>w_tunnel := None\<rparr>"
    by (auto simp: between_turns_def shut_down_def)
  then show ?thesis
    by (auto simp: gave_up_def stop_metrics_def reported_def reports_ok_def budget_ok_def backend_down_def)
next
  case False
  with assms obtain w1 where "drain_and_stop cfg now ds obeys answer w = Some w1" "w' = (stop_metrics w1)\<lparr>w_tunnel := None\<rparr>"
    and "between_turns cfg w" by (auto simp: shut_down_def gave_up_def)
  with drain_and_stop_ok show ?thesis
    by (fastforce simp: stopped_def stop_metrics_def reported_def reports_ok_def budget_ok_def backend_down_def)
qed

lemma run_cases:
  obtains (noboot) e where "boot cfg answer w = Inl e" "run cfg answer ts now ds obeys la w = Raised e w"
  | (ended) w1 w2 w3 where "boot cfg answer w = Inr w1" "loop cfg ts w1 = Done w2"
      "shut_down cfg now ds obeys la w2 = Some w3" "run cfg answer ts now ds obeys la w = Done w3"
  | (drains) w1 w2 where "boot cfg answer w = Inr w1" "loop cfg ts w1 = Done w2"
      "run cfg answer ts now ds obeys la w = Going w2"
  | (other) w1 where "boot cfg answer w = Inr w1" "\<forall>w2. loop cfg ts w1 \<noteq> Done w2"
      "run cfg answer ts now ds obeys la w = loop cfg ts w1"
proof (cases "boot cfg answer w")
  case (Inr w1)
  then show ?thesis
  proof (cases "loop cfg ts w1")
    case (Done w2)
    with Inr ended drains show ?thesis by (cases "shut_down cfg now ds obeys la w2") (auto simp: run_def)
  qed (use Inr other in \<open>auto simp: run_def\<close>)
qed (use noboot in \<open>auto simp: run_def\<close>)


section \<open>Giving up on a backend that keeps crashing\<close>

text \<open>A turn in which the backend has exited, no stop is asked for, the manager does not refuse the
  node, and the port preflight does not fail for a reason other than occupied ports.\<close>

definition crash_tick :: "tick \<Rightarrow> bool" where
  "crash_tick t \<longleftrightarrow> tk_signals t = 0 \<and> tk_backoff_signals t = 0 \<and> tk_exit t \<noteq> None
     \<and> (case tk_heartbeat t of Answer r \<Rightarrow> hr_command r \<noteq> Some CMD_STOP | Status c \<Rightarrow> c \<noteq> 403 | Unreachable \<Rightarrow> True)
     \<and> (\<forall>p e. 0 \<le> p \<and> p \<le> 65535 \<and> find_free_port (tk_bind t) p = Inl e \<longrightarrow> (\<exists>m. e = PortUnavailable m))"

definition port_valid :: "worker \<Rightarrow> bool" where
  "port_valid w \<longleftrightarrow> (\<exists>p. w_port w = Some p \<and> 0 \<le> p \<and> p \<le> 65535)"

lemma adopt_registration_stop [simp]: "w_stop (adopt_registration t r w) = w_stop w"
  by (simp add: adopt_registration_def Let_def)

lemma adopt_registration_port [simp]: "w_port (adopt_registration t r w) = w_port w"
  by (simp add: adopt_registration_def Let_def)

lemma after_heartbeat_crash:
  assumes "case a of Answer r \<Rightarrow> hr_command r \<noteq> Some CMD_STOP | Status c \<Rightarrow> c \<noteq> 403 | Unreachable \<Rightarrow> True"
  shows "\<exists>w'. after_heartbeat t (send_heartbeat cfg a w) = Going w' \<and> w_restarts w' = w_restarts w \<and> w_stop w' = w_stop w
    \<and> w_port w' = w_port w"
  using assms
  by (auto simp: send_heartbeat_def after_heartbeat_def Let_def reregister_def split: http.splits)

lemma select_port_crash:
  assumes "crash_tick t" "port_valid w"
  shows "select_port cfg (tk_bind t) w \<noteq> (Inl e, w')"
    and "select_port cfg (tk_bind t) w = (Inr (Some p), w') \<Longrightarrow> port_valid w'"
proof -
  obtain p0 where p0: "w_port w = Some p0" "0 \<le> p0" "p0 \<le> 65535" using assms(2) by (auto simp: port_valid_def)
  with assms(1) have "find_free_port (tk_bind t) p0 = Inl e \<Longrightarrow> \<exists>m. e = PortUnavailable m" for e
    unfolding crash_tick_def by blast
  then show "select_port cfg (tk_bind t) w \<noteq> (Inl e, w')"
    using p0 by (fastforce simp: select_port_def Let_def split: sum.splits err.splits)
  show "port_valid w'" if "select_port cfg (tk_bind t) w = (Inr (Some p), w')"
    using that p0 scan_ports_Inr [of "tk_bind t" p0 MAX_TRIES]
    by (auto simp: select_port_def find_free_port_def Let_def port_valid_def split: sum.splits err.splits)
qed

lemma launch_stop [simp]: "w_stop (launch cfg p w) = w_stop w"
  by (simp add: launch_def)

lemma handle_crash_step:
  assumes "crash_tick t" "\<not> w_stop w" "port_valid w"
  shows "\<exists>w'. handle_crash cfg t w = (Inr (), w') \<and> \<not> w_stop w' \<and> port_valid w'
    \<and> (w_state w' = FAILED \<or> w_restarts w' = Suc (w_restarts w))"
proof (cases "wc_max_restarts cfg \<le> w_restarts w")
  case True
  with assms show ?thesis by (auto simp: handle_crash_def port_valid_def)
next
  case False
  let ?w = "w\<lparr>w_run := None, w_serving_marked := False, w_restarts := Suc (w_restarts w), w_state := INITIALIZING\<rparr>"
  obtain q w4 where s: "select_port cfg (tk_bind t) ?w = (q, w4)" by fastforce
  have pv: "port_valid ?w" using assms(3) by (simp add: port_valid_def)
  have "handle_crash cfg t w = (case (q, w4) of (Inl e, w4) \<Rightarrow> (Inl e, w4) | (Inr None, w4) \<Rightarrow> (Inr (), w4)
      | (Inr (Some prt), w4) \<Rightarrow>
          (Inr (), launch cfg prt (w4\<lparr>w_tunnel := map_option (tc_backend_port_update (\<lambda>_. prt)) (w_tunnel w4)\<rparr>)))"
    using False assms(1,2) s by (simp add: handle_crash_def crash_tick_def)
  with s show ?thesis
  proof (cases rule: select_port_cases)
    case (found prt)
    with s select_port_crash(2) [OF assms(1) pv, of cfg prt w4] have "port_valid w4" by simp
    with found assms(2) \<open>handle_crash cfg t w = _\<close> show ?thesis by (auto simp: port_valid_def)
  next
    case full
    with pv assms(2) \<open>handle_crash cfg t w = _\<close> show ?thesis by (auto simp: port_valid_def)
  next
    case (err e)
    with s select_port_crash(1) [OF assms(1) pv] show ?thesis by blast
  qed
qed

lemma crash_turn:
  assumes b: "between_turns cfg w" and s: "\<not> w_stop w" and pv: "port_valid w" and c: "crash_tick t"
  shows "(\<exists>w'. turn cfg t w = Done w' \<and> gave_up cfg w') \<or>
    (\<exists>w'. turn cfg t w = Going w' \<and> w_restarts w' = Suc (w_restarts w) \<and> \<not> w_stop w' \<and> port_valid w')"
proof -
  let ?w = "observe_exit t w"
  obtain sp where sp: "w_sup w = Some sp" using b by (auto simp: between_turns_def ports_ok_def)
  obtain code where code: "tk_exit t = Some code" and sig: "tk_signals t = 0" using c by (auto simp: crash_tick_def)
  then have down: "\<exists>sp'. w_sup ?w = Some sp' \<and> \<not> sp_running sp'"
    using sp by (auto simp: observe_exit_def sp_running_def)
  have stop: "\<not> w_stop ?w" using s by (auto simp: observe_exit_def split: option.split)
  have "port_valid ?w" using pv by (simp add: port_valid_def)
  then obtain w' where h: "handle_crash cfg t ?w = (Inr (), w')" and ns: "\<not> w_stop w'" "port_valid w'"
    and w': "w_state w' = FAILED \<or> w_restarts w' = Suc (w_restarts w)"
    using handle_crash_step [OF c stop, of cfg] by auto
  have r: "reconcile cfg t ?w = (Inr (), w')" using down h by (auto simp: reconcile_def)
  have ok: "outcome_ok cfg (turn cfg t w)" by (rule turn_ok [OF b])
  show ?thesis
  proof (cases "w_state w' = FAILED")
    case True
    with r s sig have "turn cfg t w = Done (snd (send_heartbeat cfg (tk_heartbeat t) w'))" by (simp add: turn_def)
    with ok True show ?thesis by (auto simp: between_turns_def)
  next
    case False
    with r s sig have "turn cfg t w = after_heartbeat t (send_heartbeat cfg (tk_heartbeat t) w')" by (simp add: turn_def)
    with after_heartbeat_crash [of "tk_heartbeat t" t cfg w'] c False w' ns show ?thesis
      by (auto simp: crash_tick_def port_valid_def)
  qed
qed

lemma crash_loop:
  assumes "between_turns cfg w" "\<not> w_stop w" "port_valid w" "\<forall>t \<in> set ts. crash_tick t" "wc_max_restarts cfg < w_restarts w + length ts"
  shows "\<exists>w'. loop cfg ts w = Done w' \<and> gave_up cfg w'"
  using assms
proof (induction ts arbitrary: w)
  case Nil
  then show ?case by (simp add: between_turns_def budget_ok_def)
next
  case (Cons t ts)
  from crash_turn [OF Cons.prems(1-3), of t] Cons.prems(4)
  consider w' where "turn cfg t w = Done w'" "gave_up cfg w'"
    | w' where "turn cfg t w = Going w'" "w_restarts w' = Suc (w_restarts w)" "\<not> w_stop w'" "port_valid w'" by auto
  then show ?case
  proof cases
    case 1
    then show ?thesis by simp
  next
    case 2
    with turn_ok [OF Cons.prems(1), of t] have "between_turns cfg w'" by simp
    with 2 Cons.IH [of w'] Cons.prems show ?thesis by simp
  qed
qed

section \<open>The drain loop ends\<close>

text \<open>The clock between two turns of the drain loop: it has advanced by the time the loop sleeps.\<close>

fun paced :: "real \<Rightarrow> real \<Rightarrow> drain_tick list \<Rightarrow> bool" where
  "paced interval deadline (t # u # ts) =
     (dt_now t + min interval (max 0 (deadline - dt_now t)) \<le> dt_now u \<and> paced interval deadline (u # ts))"
| "paced interval deadline _ = True"

lemma drain_loop_returns:
  assumes "0 < w_interval w" "ts \<noteq> []" "paced (w_interval w) deadline ts"
    and "deadline - dt_now (hd ts) \<le> real (length ts - 1) * w_interval w"
  shows "\<exists>w'. drain_loop cfg deadline ts w = Some w'"
  using assms
proof (induction ts arbitrary: w)
  case (Cons t ts)
  let ?w = "(on_signal ^^ dt_signals t) (snd (send_heartbeat cfg (dt_heartbeat t) (w\<lparr>w_run := Some EXECUTING\<rparr>)))"
  have iv: "w_interval ?w = w_interval w" by simp
  show ?case
  proof (cases "still_draining deadline t w")
    case True
    then have lt: "dt_now t < deadline" by (simp add: still_draining_def)
    with Cons.prems obtain u us where ts: "ts = u # us" by (cases ts) auto
    have "min (dt_now t + w_interval w) deadline \<le> dt_now u" using Cons.prems(3) lt ts by auto
    moreover have "deadline - (dt_now t + w_interval w) \<le> real (length us) * w_interval w"
      using Cons.prems(4) ts by (simp add: algebra_simps)
    ultimately have "deadline - dt_now u \<le> real (length us) * w_interval w"
      using Cons.prems(1) by (auto simp: min_def split: if_splits intro: order_trans [of _ 0])
    with Cons.IH [of ?w] Cons.prems ts iv True show ?thesis by simp
  qed simp
qed simp

section \<open>An example worker\<close>

text \<open>A tunnel worker whose backend becomes healthy in the first turn; then it keeps crashing, or it is
  told to stop while a request is running.\<close>

definition wk_cfg :: worker_cfg where
  "wk_cfg = \<lparr>wc_node_id = ''n'', wc_spec = demo_spec, wc_backend = VLLM, wc_transport = TUNNEL, wc_max_restarts = 1,
     wc_restart_backoff_s = 5, wc_drain_timeout_s = 15, wc_metrics_enabled = True, wc_exe = ''python'',
     wc_float_repr = (\<lambda>_. ''0.9'')\<rparr>"

definition wk_registered :: "register_answer http" where
  "wk_registered = Answer \<lparr>ra_interval = 10, ra_node_token = Some ''t'', ra_api_key = Some ''k'', ra_pool_size = Some 6\<rparr>"

definition wk_alive :: tick where
  "wk_alive = \<lparr>tk_signals = 0, tk_exit = None, tk_health = Some (200, []), tk_metrics = None, tk_backoff_signals = 0,
     tk_bind = (\<lambda>_. Bound), tk_heartbeat = Unreachable, tk_register = Unreachable, tk_rejoin = Unreachable, tk_obeys = None\<rparr>"

definition wk_crash :: tick where
  "wk_crash = wk_alive\<lparr>tk_exit := Some 1, tk_bind := (\<lambda>p. if p = 7001 then InUse else Bound)\<rparr>"

definition wk_stop :: tick where
  "wk_stop = wk_alive\<lparr>tk_signals := 1\<rparr>"

definition wk_drain :: "real \<Rightarrow> drain_tick" where
  "wk_drain now = \<lparr>dt_now = now, dt_metrics = None, dt_signals = 0, dt_heartbeat = Unreachable\<rparr>"

lemmas wk_defs = wk_cfg_def wk_registered_def wk_alive_def wk_crash_def wk_stop_def wk_drain_def new_worker_def

definition wk_boot :: worker where
  "wk_boot = (case boot wk_cfg wk_registered (new_worker None 7001) of Inr w \<Rightarrow> w | Inl _ \<Rightarrow> new_worker None 7001)"

lemma wk_boot: "boot wk_cfg wk_registered (new_worker None 7001) = Inr wk_boot" "\<not> w_stop wk_boot" "w_interval wk_boot = 10"
  "port_valid wk_boot" "w_restarts wk_boot = 0"
  by (simp_all add: wk_boot_def boot_def register_node_def start_tunnel_def start_metrics_def start_vllm_def launch_def
      port_valid_def wk_defs)

lemma wk_boot_between: "between_turns wk_cfg wk_boot"
  by (rule boot_ok [OF wk_boot(1)])

lemma wk_crash_tick: "crash_tick wk_crash"
proof -
  let ?b = "\<lambda>p. if p = 7001 then InUse else Bound"
  have "\<exists>q. find_free_port ?b p = Inr q" if "0 \<le> p" "p \<le> 65535" for p
  proof (cases "p = 7001")
    case True
    then show ?thesis using scan_ports_Inr [of ?b p MAX_TRIES 7002] by (auto simp: find_free_port_def MAX_TRIES_def)
  next
    case False
    then show ?thesis using that scan_ports_Inr [of ?b p MAX_TRIES p] by (auto simp: find_free_port_def MAX_TRIES_def)
  qed
  then show ?thesis unfolding crash_tick_def by (fastforce simp: wk_crash_def wk_alive_def)
qed

section \<open>Properties\<close>



text \<open>C17: When the process returns, it has reported a final state, STOPPED or FAILED, as its last
  report, and its backend is not running.\<close>

theorem run_ends_clean:
  assumes "run cfg answer ts now ds obeys la (new_worker tok prt) = Done w"
  shows "w_state w \<in> {STOPPED, FAILED} \<and> outbox w \<noteq> [] \<and> hb_node_state (last (outbox w)) = w_state w
    \<and> (\<forall>sp. w_sup w = Some sp \<longrightarrow> \<not> sp_running sp)"
proof (cases rule: run_cases [of cfg answer "new_worker tok prt" ts now ds obeys la])
  case (ended w1 w2 w3)
  with loop_ok [OF boot_ok, of cfg answer tok prt w1 ts] shut_down_ok [of cfg w2 now ds obeys la w3] assms
  have "stopped cfg w \<or> gave_up cfg w" by auto
  then show ?thesis
    by (auto simp: stopped_def gave_up_def backend_down_def reported_def last_map split: if_splits)
next
  case (other w1)
  with assms have "loop cfg ts w1 = Done w" by simp
  with other(2) show ?thesis by blast
qed (use assms in auto)

lemma wk_stop_run: "\<exists>w. run wk_cfg wk_registered [wk_stop] 30 [wk_drain 30] None Unreachable (new_worker None 7001) = Done w"
  using wk_boot
  by (auto simp: run_def turn_def wk_stop_def wk_alive_def on_signal_def shut_down_def drain_and_stop_def
      still_draining_def wk_drain_def server_run_state_def split: option.split)

theorem run_ends_clean_witness:
  "\<exists>w. run wk_cfg wk_registered [wk_stop] 30 [wk_drain 30] None Unreachable (new_worker None 7001) = Done w
     \<and> w_state w \<in> {STOPPED, FAILED} \<and> hb_node_state (last (outbox w)) = w_state w"
proof -
  obtain w where w: "run wk_cfg wk_registered [wk_stop] 30 [wk_drain 30] None Unreachable (new_worker None 7001) = Done w"
    using wk_stop_run by blast
  from run_ends_clean [OF w] w show ?thesis by blast
qed

text \<open>C18: A backend that keeps crashing is given up. From any state between two turns, once
  the backend has been found dead in more turns than the restarts it has left, the loop has returned
  with the state FAILED, reported to the manager.\<close>

theorem crash_loop_gives_up:
  assumes "between_turns cfg w" "\<not> w_stop w" "port_valid w" "\<forall>t \<in> set ts. crash_tick t"
    and "wc_max_restarts cfg < w_restarts w + length ts"
  shows "\<exists>w'. loop cfg ts w = Done w' \<and> w_state w' = FAILED \<and> hb_node_state (last (outbox w')) = FAILED"
proof -
  obtain w' where w': "loop cfg ts w = Done w'" "gave_up cfg w'" using crash_loop [OF assms] by blast
  then have "w_state w' = FAILED \<and> hb_node_state (last (outbox w')) = FAILED"
    by (auto simp: gave_up_def reported_def last_map split: if_splits)
  with w'(1) show ?thesis by blast
qed

theorem crash_loop_gives_up_witness:
  "\<exists>w. loop wk_cfg [wk_crash, wk_crash] wk_boot = Done w \<and> w_state w = FAILED \<and> hb_node_state (last (outbox w)) = FAILED"
  using crash_loop_gives_up [OF wk_boot_between wk_boot(2,4), of "[wk_crash, wk_crash]"] wk_crash_tick wk_boot(5)
  by (simp add: wk_cfg_def)

text \<open>C19: A graceful stop always ends. If the clock advances by at least the time each turn sleeps, the
  drain loop returns within \<open>drain_timeout_s / interval\<close> turns (and one more), however long requests
  keep running, and the worker is STOPPED with its backend gone.\<close>

theorem shutdown_terminates:
  assumes "between_turns cfg w" "0 < w_interval w" "ds \<noteq> []" "now \<le> dt_now (hd ds)"
    and "paced (w_interval w) (now + wc_drain_timeout_s cfg) ds"
    and "wc_drain_timeout_s cfg \<le> real (length ds - 1) * w_interval w"
  shows "\<exists>w'. drain_and_stop cfg now ds obeys answer w = Some w' \<and> w_state w' = STOPPED
    \<and> hb_node_state (last (outbox w')) = STOPPED \<and> (\<forall>sp. w_sup w' = Some sp \<longrightarrow> \<not> sp_running sp)"
proof -
  have "\<exists>w1. drain_loop cfg (now + wc_drain_timeout_s cfg) ds (w\<lparr>w_state := DRAINING\<rparr>) = Some w1"
    using assms by (intro drain_loop_returns) simp_all
  then obtain w' where w': "drain_and_stop cfg now ds obeys answer w = Some w'"
    by (cases "case w_sup w of None \<Rightarrow> True | Some sp \<Rightarrow> \<not> sp_running sp") (auto simp: drain_and_stop_def)
  with drain_and_stop_ok [OF assms(1) w'] show ?thesis
    by (auto simp: stopped_def backend_down_def reported_def last_map split: if_splits)
qed

theorem shutdown_terminates_witness:
  "\<exists>w. drain_and_stop wk_cfg 30 [wk_drain 30, wk_drain 40, wk_drain 45] None Unreachable wk_boot = Some w \<and> w_state w = STOPPED"
proof -
  let ?ds = "[wk_drain 30, wk_drain 40, wk_drain 45]"
  have t: "wc_drain_timeout_s wk_cfg = 15" by (simp add: wk_cfg_def)
  have "paced (w_interval wk_boot) (30 + wc_drain_timeout_s wk_cfg) ?ds"
    "wc_drain_timeout_s wk_cfg \<le> real (length ?ds - 1) * w_interval wk_boot" "30 \<le> dt_now (hd ?ds)" "0 < w_interval wk_boot"
    by (simp_all add: wk_boot(3) t wk_drain_def)
  from shutdown_terminates [OF wk_boot_between this(4) _ this(3) this(1,2), of None Unreachable] show ?thesis by auto
qed

text \<open>The backend stays reachable where the worker says it is. Between any two turns of the loop,
  also after restarts that moved to another port, the port the heartbeat reports is the one the
  supervised backend was launched on, and so is the port the tunnel forwards to.\<close>

lemma restart_keeps_ports:
  assumes "boot cfg answer (new_worker tok prt) = Inr w0" and "loop cfg ts w0 = Going w"
  shows "\<exists>p sp. hb_vllm_port (heartbeat_of cfg w) = Some p \<and> w_sup w = Some sp \<and> sp_port sp = p
    \<and> fst (last (launched w)) = p \<and> (\<forall>tc. w_tunnel w = Some tc \<longrightarrow> tc_backend_port tc = p)"
  using loop_ok [OF boot_ok [OF assms(1)], of ts] assms(2)
  by (auto simp: between_turns_def ports_ok_def heartbeat_of_def)

lemma wk_fallover: "\<exists>w. loop wk_cfg [wk_crash] wk_boot = Going w \<and> w_port w = Some 7002"
proof -
  have free: "find_free_port (\<lambda>p. if p = 7001 then InUse else Bound) 7001 = Inr 7002"
    using scan_ports_Inr [of "\<lambda>p. if p = 7001 then InUse else Bound" 7001 MAX_TRIES 7002]
    by (auto simp: find_free_port_def MAX_TRIES_def)
  obtain sp where "w_sup wk_boot = Some sp" "sp_child sp = Alive" "w_port wk_boot = Some 7001"
    by (simp add: wk_boot_def boot_def register_node_def start_tunnel_def start_metrics_def start_vllm_def launch_def wk_defs)
  then show ?thesis using wk_boot(2,5) free
    by (simp add: turn_def reconcile_def observe_exit_def sp_running_def handle_crash_def select_port_def
        wk_crash_def wk_alive_def send_heartbeat_def after_heartbeat_def wk_cfg_def launch_def)
qed

lemma restart_keeps_ports_witness:
  "\<exists>w sp. loop wk_cfg [wk_crash] wk_boot = Going w \<and> hb_vllm_port (heartbeat_of wk_cfg w) = Some 7002
     \<and> w_sup w = Some sp \<and> sp_port sp = 7002"
proof -
  obtain w where w: "loop wk_cfg [wk_crash] wk_boot = Going w" "w_port w = Some 7002" using wk_fallover by blast
  from restart_keeps_ports [OF wk_boot(1) w(1)] w show ?thesis by (auto simp: heartbeat_of_def)
qed

text \<open>The metrics collector is not told: it keeps the port it was started with.\<close>

lemma handle_crash_metrics_port: "handle_crash cfg t w = (r, w') \<Longrightarrow> w_metrics_port w' = w_metrics_port w"
  by (erule handle_crash_cases) (auto simp: launch_def)

lemma metrics_port_stale:
  assumes "w_metrics_port w = Some (Some p)" "handle_crash cfg t w = (r, w')" "w_port w' = Some q" "p \<noteq> q"
  shows "w_metrics_port w' \<noteq> Some (w_port w')"
  using assms handle_crash_metrics_port by fastforce

text \<open>A backend key that changed on re-registration stops the backend, and the next turn counts that
  as a crash: at the restart limit the worker fails.\<close>

lemma key_change_spends_restart:
  assumes "w_sup w = Some sp" "sp_child sp = Alive" "truthy (ra_api_key r)" "ra_api_key r \<noteq> w_env_key w"
    and "wc_max_restarts cfg \<le> w_restarts w"
  shows "w_state (snd (reconcile cfg t' (adopt_registration t r w))) = FAILED"
  using assms
  by (auto simp: adopt_registration_def Let_def reconcile_def sp_running_def sp_stop_def handle_crash_def
      split: option.split)

end
