(* ===== verification/Preflight.thy ===== *)
theory Preflight
  imports Coordinator
begin

text \<open>
  The preflight of a worker process: \<open>run_worker\<close> and its helpers in
  \<open>src/src/oumigo/service/worker/coordinator.py\<close>, from the environment and the manager's answer to
  \<open>/spec\<close> up to the registration request handed to the coordinator. Finding the manager on the LAN
  and setting up TLS are outside.
\<close>

section \<open>The preflight of run\_worker\<close>

text \<open>The environment of the process, as an association list; \<open>expand\<close> is the expansion of \<open>~\<close> and of
  variables in a path, which asks the operating system.\<close>

type_synonym environ = "(string \<times> string) list"

definition env_get :: "environ \<Rightarrow> string \<Rightarrow> string" where
  "env_get env k = default_to [] (map_of env k)"

definition setdefault :: "string \<Rightarrow> string \<Rightarrow> environ \<Rightarrow> environ" where
  "setdefault k v env = (case map_of env k of None \<Rightarrow> AList.update k v env | Some _ \<Rightarrow> env)"

definition normalize_env :: "(string \<Rightarrow> string) \<Rightarrow> environ \<Rightarrow> environ" where
  "normalize_env expand env =
     (let e1 = setdefault ''VLLM_USE_FLASHINFER_SAMPLER'' ''0'' env;
          e2 = setdefault ''VLLM_HTTP_TIMEOUT_KEEP_ALIVE'' ''120'' e1;
          e3 = (if env_get e2 ''HF_HOME'' \<noteq> [] then AList.update ''HF_HOME'' (expand (env_get e2 ''HF_HOME'')) e2 else e2) in
      if py_strip (env_get e3 ''HF_TOKEN'') = [] then AList.delete ''HF_TOKEN'' e3 else e3)"

text \<open>What the worker's file system shows at the path of a storage location.\<close>

datatype weights = Missing | NotADirectory | NoConfig | Weights

definition check_local_weights :: "(string \<Rightarrow> weights) \<Rightarrow> node_spec \<Rightarrow> unit res" where
  "check_local_weights fs ns =
     (case local_path ns of
        None \<Rightarrow> Inr ()
      | Some path \<Rightarrow>
          (case fs path of
             Missing \<Rightarrow> Inl (SystemExit ''storage_location does not exist on this worker'')
           | NotADirectory \<Rightarrow> Inl (SystemExit ''storage_location is not a directory'')
           | NoConfig \<Rightarrow> Inl (SystemExit ''storage_location has no config.json'')
           | Weights \<Rightarrow> Inr ()))"

definition default_spec :: "string \<Rightarrow> node_spec" where
  "default_spec mdl =
     \<lparr>ns_model = mdl, ns_profile = None, ns_storage_location = None, ns_host = ''0.0.0.0'', ns_port = 7001,
      ns_dtype = ''auto'', ns_tensor_parallel_size = 1, ns_gpu_memory_utilization = 9/10,
      ns_max_concurrent_requests = 4, ns_max_model_len = None, ns_max_audio_seconds = None,
      ns_max_output_tokens = None, ns_download_dir = None, ns_extra_args = [], ns_min_vram_gib = None,
      ns_requires_vllm = None\<rparr>"

definition with_storage_override :: "(string \<Rightarrow> weights) \<Rightarrow> environ \<Rightarrow> node_spec \<Rightarrow> node_spec res" where
  "with_storage_override fs env ns =
     res_bind
       (case map_of env ''MODEL_STORAGE_LOCATION'' of
          None \<Rightarrow> Inr ns
        | Some storage \<Rightarrow>
            (case normalize_storage_location (Some storage) of
               Inl _ \<Rightarrow> Inl (SystemExit ''MODEL_STORAGE_LOCATION is invalid'')
             | Inr loc \<Rightarrow> Inr (ns\<lparr>ns_storage_location := loc\<rparr>)))
       (\<lambda>resolved. res_map (\<lambda>_. resolved) (check_local_weights fs resolved))"

text \<open>\<open>str(spec.max_model_len)\<close>\<close>

definition str_len :: "int option \<Rightarrow> string" where
  "str_len n = (case n of None \<Rightarrow> ''None'' | Some k \<Rightarrow> int_str k)"

definition negotiate_len :: "environ \<Rightarrow> int option \<Rightarrow> int option res" where
  "negotiate_len env cur =
     (if env_get env ''MAX_MODEL_LEN'' = [] then Inr cur
      else case py_int (env_get env ''MAX_MODEL_LEN'') of
        None \<Rightarrow> Inl (SystemExit ''MAX_MODEL_LEN must be an integer'')
      | Some n \<Rightarrow> Inr (Some n))"

definition apply_env_overrides :: "(string \<Rightarrow> weights) \<Rightarrow> environ \<Rightarrow> node_spec option \<Rightarrow> node_spec res" where
  "apply_env_overrides fs env spec =
     (case spec of
        Some ns \<Rightarrow>
          if ns_profile ns \<noteq> None
          then
            (if env_get env ''MAX_MODEL_LEN'' \<noteq> [] \<and> py_strip (env_get env ''MAX_MODEL_LEN'') \<noteq> str_len (ns_max_model_len ns)
             then Inl (SystemExit ''MAX_MODEL_LEN conflicts with profile'')
             else with_storage_override fs env ns)
          else
            let mdl = (if env_get env ''MODEL_NAME'' \<noteq> [] then env_get env ''MODEL_NAME'' else ns_model ns) in
            if mdl = [] then Inl (SystemExit ''no model to serve'')
            else res_bind (negotiate_len env (ns_max_model_len ns)) (\<lambda>len.
              with_storage_override fs env (ns\<lparr>ns_model := mdl, ns_max_model_len := len\<rparr>))
      | None \<Rightarrow>
          let mdl = env_get env ''MODEL_NAME'' in
          if mdl = [] then Inl (SystemExit ''no model to serve'')
          else res_bind (negotiate_len env None) (\<lambda>len.
            with_storage_override fs env ((default_spec mdl)\<lparr>ns_max_model_len := len,
              ns_profile := Some (last (py_split (CHR ''/'') mdl) @ ''@'' @ context_label len)\<rparr>)))"

text \<open>\<open>vram\<close> is GPU 0's memory if it can be read; \<open>satisfies\<close> is the version check of the \<open>packaging\<close>
  library, \<open>None\<close> when it is not installed; \<open>installed\<close> is the version of vLLM.\<close>

definition check_requirements ::
  "real option \<Rightarrow> (string \<Rightarrow> string \<Rightarrow> bool) option \<Rightarrow> string option \<Rightarrow> worker_backend \<Rightarrow> node_spec \<Rightarrow> unit res" where
  "check_requirements vram satisfies installed backend ns =
     (if (case (ns_min_vram_gib ns, vram) of (Some need, Some have) \<Rightarrow> have < need | _ \<Rightarrow> False)
      then Inl (SystemExit ''profile needs a larger GPU'')
      else if truthy (ns_requires_vllm ns) \<and> backend = VLLM then
        (case satisfies of
           None \<Rightarrow> Inr ()
         | Some sat \<Rightarrow>
             (case installed of
                None \<Rightarrow> Inl (SystemExit ''profile needs vLLM, but vLLM is not installed'')
              | Some v \<Rightarrow> if sat v (the (ns_requires_vllm ns)) then Inr ()
                          else Inl (SystemExit ''profile needs another vLLM'')))
      else Inr ())"

text \<open>The profile id or, failing that, the deprecated model name the worker asks \<open>/spec\<close> for.\<close>

definition choose_profile :: "environ \<Rightarrow> string option \<times> string option" where
  "choose_profile env =
     (let pick = (\<lambda>k. let v = py_strip (env_get env k) in if v = [] then None else Some v);
          choice = pick ''OUMIGO_MODEL_PROFILE'' in
      (choice, if choice \<noteq> None then None else pick ''MODEL_NAME''))"

definition fetched :: "(node_spec option \<times> string option) http \<Rightarrow> (node_spec option \<times> string option) res" where
  "fetched answer =
     (case answer of
        Answer r \<Rightarrow> Inr r
      | Status code \<Rightarrow> Inl (SystemExit (if code = 401 then ''manager rejected the join token (401)'' else ''manager refused /spec''))
      | Unreachable \<Rightarrow> Inl (SystemExit ''could not fetch spec from manager''))"

text \<open>What the node is: its environment, files, GPU, installed software and identity files.\<close>

record host =
  h_environ :: environ
  h_weights :: "string \<Rightarrow> weights"
  h_vram :: "real option"
  h_satisfies :: "(string \<Rightarrow> string \<Rightarrow> bool) option"
  h_vllm :: "string option"
  h_bind :: "string \<Rightarrow> int \<Rightarrow> bind_result"
  h_lan_ip :: string
  h_gpu :: "string option"
  h_sha256 :: "string \<Rightarrow> string"
  h_uuid :: string
  h_identity :: identity_dir

definition settled_spec :: "host \<Rightarrow> worker_backend \<Rightarrow> transport \<Rightarrow> node_spec option \<Rightarrow> node_spec res" where
  "settled_spec h backend via spec =
     res_bind (apply_env_overrides (h_weights h) (h_environ h) spec) (\<lambda>ns.
     res_bind (check_requirements (h_vram h) (h_satisfies h) (h_vllm h) backend ns) (\<lambda>_.
     Inr (if via = TUNNEL then ns\<lparr>ns_host := ''127.0.0.1''\<rparr> else ns)))"

definition backend_name :: "worker_backend \<Rightarrow> string" where
  "backend_name b = (case b of VLLM \<Rightarrow> ''vllm'' | TRANSFORMER \<Rightarrow> ''transformer'')"

definition registration :: "host \<Rightarrow> worker_backend \<Rightarrow> transport \<Rightarrow> node_spec \<Rightarrow> int \<Rightarrow> register_request" where
  "registration h backend via ns prt =
     (let ((nid, inc), _) = resolve_worker_identity (h_sha256 h) (env_get (h_environ h) ''OUMIGO_HOST_ID'') (h_uuid h) prt (h_identity h) in
      \<lparr>rq_node_id = nid, rq_address = h_lan_ip h, rq_transport = via, rq_vllm_port = Some prt, rq_model = Some (ns_model ns),
       rq_profile = ns_profile ns, rq_backend = Some (backend_name backend), rq_incarnation = inc, rq_state = REGISTERING,
       rq_capabilities = \<lparr>gpu = h_gpu h, vram_gb = map_option (py_round 1) (h_vram h)\<rparr>\<rparr>)"

definition port_exit :: "int res \<Rightarrow> int res" where
  "port_exit r = (case r of Inl (PortUnavailable m) \<Rightarrow> Inl (SystemExit ''cannot start backend'') | _ \<Rightarrow> r)"

definition run_worker ::
  "host \<Rightarrow> worker_backend \<Rightarrow> transport \<Rightarrow> string \<Rightarrow> (node_spec option \<times> string option) http \<Rightarrow>
   (node_spec \<times> int \<times> register_request) res" where
  "run_worker h backend via manager_url answer =
     res_bind (fetched answer) (\<lambda>(spec, provider).
       if provider = Some ''CUSTOM'' \<and> \<not> py_startswith (py_lower manager_url) ''https://''
       then Inl (SystemExit ''provider CUSTOM requires TLS'')
       else
         res_bind (settled_spec h backend via spec) (\<lambda>ns.
         res_bind (port_exit (find_free_port (h_bind h (ns_host ns)) (ns_port ns))) (\<lambda>prt.
         Inr (ns, prt, registration h backend via ns prt))))"

lemma with_storage_override_keeps:
  "with_storage_override fs env ns = Inr ns' \<Longrightarrow> \<exists>loc. ns' = ns\<lparr>ns_storage_location := loc\<rparr>"
  by (auto simp: with_storage_override_def res_bind_Inr res_map_def split: option.splits sum.splits
      intro: exI [of _ "ns_storage_location ns"])

lemma apply_env_overrides_profile:
  assumes "ns_profile ns \<noteq> None" "apply_env_overrides fs env (Some ns) = Inr ns'"
  shows "\<exists>loc. ns' = ns\<lparr>ns_storage_location := loc\<rparr>"
  using assms with_storage_override_keeps by (auto simp: apply_env_overrides_def split: if_splits)

lemma run_worker_Inr:
  assumes "run_worker h backend via url (Answer (spec, provider)) = Inr (ns, prt, req)"
  shows "(provider = Some ''CUSTOM'' \<longrightarrow> py_startswith (py_lower url) ''https://'')
    \<and> settled_spec h backend via spec = Inr ns
    \<and> find_free_port (h_bind h (ns_host ns)) (ns_port ns) = Inr prt \<and> req = registration h backend via ns prt"
  using assms
  by (auto simp: run_worker_def fetched_def res_bind_Inr port_exit_def split: if_splits sum.splits err.splits)

lemma registration_fields:
  "rq_model (registration h backend via ns prt) = Some (ns_model ns)"
  "rq_profile (registration h backend via ns prt) = ns_profile ns"
  "rq_transport (registration h backend via ns prt) = via"
  "rq_vllm_port (registration h backend via ns prt) = Some prt"
  by (simp_all add: registration_def Let_def split_def)

lemma settled_spec_profile:
  assumes "ns_profile ns \<noteq> None" "settled_spec h backend via (Some ns) = Inr ns'"
  shows "\<exists>loc hst. ns' = ns\<lparr>ns_storage_location := loc, ns_host := hst\<rparr> \<and> (via = TUNNEL \<longrightarrow> hst = ''127.0.0.1'')
    \<and> (via \<noteq> TUNNEL \<longrightarrow> hst = ns_host ns)"
proof -
  obtain ns1 where a: "apply_env_overrides (h_weights h) (h_environ h) (Some ns) = Inr ns1"
    and n: "ns' = (if via = TUNNEL then ns1\<lparr>ns_host := ''127.0.0.1''\<rparr> else ns1)"
    using assms(2) by (auto simp: settled_spec_def res_bind_Inr)
  obtain loc where l: "ns1 = ns\<lparr>ns_storage_location := loc\<rparr>" using apply_env_overrides_profile [OF assms(1) a] by blast
  have "ns1 = ns\<lparr>ns_storage_location := loc, ns_host := ns_host ns\<rparr>" using l by simp
  with n l show ?thesis by (cases "via = TUNNEL") auto
qed

section \<open>Properties\<close>

text \<open>C20: What a worker that passed its preflight runs. When the manager named a profile, the worker
  changes nothing of its specification but where the weights are and, for a tunnel worker, the bind
  address, which is then the loopback address; the context length the operator set locally, if any, is
  the profile's. It registers with the profile's id and model, on a port that can be bound, and under
  provider CUSTOM only over an \<open>https\<close> URL.\<close>

theorem preflight_fixes_profile:
  assumes "ns_profile ns \<noteq> None"
    and "run_worker h backend via url (Answer (Some ns, provider)) = Inr (ns', prt, req)"
  shows "ns' = ns\<lparr>ns_storage_location := ns_storage_location ns', ns_host := ns_host ns'\<rparr>
    \<and> (via = TUNNEL \<longrightarrow> ns_host ns' = ''127.0.0.1'') \<and> (via = DIRECT \<longrightarrow> ns_host ns' = ns_host ns)
    \<and> (env_get (h_environ h) ''MAX_MODEL_LEN'' \<noteq> [] \<longrightarrow>
         py_strip (env_get (h_environ h) ''MAX_MODEL_LEN'') = str_len (ns_max_model_len ns))
    \<and> rq_profile req = ns_profile ns \<and> rq_model req = Some (ns_model ns) \<and> rq_vllm_port req = Some prt
    \<and> rq_transport req = via \<and> h_bind h (ns_host ns') prt = Bound
    \<and> (provider = Some ''CUSTOM'' \<longrightarrow> py_startswith (py_lower url) ''https://'')"
proof -
  note r = run_worker_Inr [OF assms(2)]
  then obtain loc hst where n: "ns' = ns\<lparr>ns_storage_location := loc, ns_host := hst\<rparr>"
    and hst: "via = TUNNEL \<longrightarrow> hst = ''127.0.0.1''" "via \<noteq> TUNNEL \<longrightarrow> hst = ns_host ns"
    using settled_spec_profile [OF assms(1), of h backend via ns'] by blast
  have "env_get (h_environ h) ''MAX_MODEL_LEN'' \<noteq> [] \<longrightarrow>
         py_strip (env_get (h_environ h) ''MAX_MODEL_LEN'') = str_len (ns_max_model_len ns)"
    using r assms(1) by (auto simp: settled_spec_def res_bind_Inr apply_env_overrides_def split: if_splits)
  moreover have "h_bind h (ns_host ns') prt = Bound"
    using r by (auto simp: find_free_port_def scan_ports_Inr)
  ultimately show ?thesis using r n hst by (auto simp: registration_fields)
qed

definition demo_host :: host where
  "demo_host = \<lparr>h_environ = [(''MODEL_STORAGE_LOCATION'', ''none''), (''MAX_MODEL_LEN'', ''8192'')], h_weights = (\<lambda>_. Missing),
     h_vram = Some 24, h_satisfies = None, h_vllm = None, h_bind = (\<lambda>_ _. Bound), h_lan_ip = ''10.0.0.7'', h_gpu = None,
     h_sha256 = (\<lambda>s. s), h_uuid = ''u-1'', h_identity = \<lparr>host_id_file = None, incarnations = None\<rparr>\<rparr>"

lemma demo_preflight:
  "\<exists>ns' prt req. run_worker demo_host VLLM TUNNEL ''https://m'' (Answer (Some demo_spec, Some ''CUSTOM'')) = Inr (ns', prt, req)"
proof -
  have len: "py_strip ''8192'' = str_len (Some 8192)"
    by (simp add: str_len_def int_str_def nat_str.simps digit_char_def) code_simp
  have "normalize_storage_location (Some ''none'') = Inr None" by code_simp
  then have "apply_env_overrides (h_weights demo_host) (h_environ demo_host) (Some demo_spec) = Inr (demo_spec\<lparr>ns_storage_location := None\<rparr>)"
    using len by (simp add: apply_env_overrides_def with_storage_override_def check_local_weights_def local_path_def
        demo_host_def env_get_def demo_spec_def)
  then have s: "settled_spec demo_host VLLM TUNNEL (Some demo_spec) =
      Inr (demo_spec\<lparr>ns_storage_location := None, ns_host := ''127.0.0.1''\<rparr>)"
    by (simp add: settled_spec_def check_requirements_def demo_spec_def)
  have p: "find_free_port (\<lambda>_. Bound) 7001 = Inr 7001" by (simp add: find_free_port_def scan_ports_Inr MAX_TRIES_def)
  have "py_startswith (py_lower ''https://m'') ''https://''" by code_simp
  with s p show ?thesis by (simp add: run_worker_def fetched_def port_exit_def demo_host_def demo_spec_def)
qed

theorem preflight_fixes_profile_witness:
  "\<exists>ns' prt req. run_worker demo_host VLLM TUNNEL ''https://m'' (Answer (Some demo_spec, Some ''CUSTOM'')) = Inr (ns', prt, req)
     \<and> ns_host ns' = ''127.0.0.1'' \<and> rq_profile req = Some ''g@8k'' \<and> rq_model req = Some ''a/g''"
proof -
  obtain ns' prt req where r: "run_worker demo_host VLLM TUNNEL ''https://m'' (Answer (Some demo_spec, Some ''CUSTOM'')) = Inr (ns', prt, req)"
    using demo_preflight by blast
  have "ns_profile demo_spec = Some ''g@8k''" "ns_model demo_spec = ''a/g''" by (simp_all add: demo_spec_def)
  with preflight_fixes_profile [OF _ r] r show ?thesis by auto
qed

end
