(* ===== verification/Telemetry.thy ===== *)
theory Telemetry
  imports Supervisor
begin

text \<open>
  What a worker measures (\<open>src/src/oumigo/service/worker/metrics.py\<close>, first part): the parsers of
  \<open>/proc/stat\<close>, \<open>/proc/meminfo\<close> and the \<open>nvidia-smi\<close> table, the flattening of the backend's Prometheus
  page with its histogram summaries, and the completion rate. A reading is a dictionary from metric
  names to values. The contents of files, command output and HTTP answers are arguments; NaN and
  infinite sample values are not modelled.
\<close>

type_synonym readings = "(string \<times> real) list"

definition put :: "string \<Rightarrow> real \<Rightarrow> readings \<Rightarrow> readings" where
  "put k v out = AList.update k v out"

definition put_opt :: "string \<Rightarrow> real option \<Rightarrow> readings \<Rightarrow> readings" where
  "put_opt k v out = (case v of None \<Rightarrow> out | Some x \<Rightarrow> put k x out)"

text \<open>\<open>out.update(new)\<close>\<close>

definition merge :: "readings \<Rightarrow> readings \<Rightarrow> readings" where
  "merge out new = fold (\<lambda>(k, v). put k v) new out"

section \<open>Host readings\<close>

definition M_CPU_CORES :: string where "M_CPU_CORES = ''worker:cpu_cores''"
definition M_CPU_UTIL :: string where "M_CPU_UTIL = ''worker:cpu_util_pct''"
definition M_MEM_TOTAL :: string where "M_MEM_TOTAL = ''worker:mem_total_bytes''"
definition M_MEM_USED :: string where "M_MEM_USED = ''worker:mem_used_bytes''"
definition M_MEM_USED_PCT :: string where "M_MEM_USED_PCT = ''worker:mem_used_pct''"

fun py_ints :: "string list \<Rightarrow> int list res" where
  "py_ints [] = Inr []"
| "py_ints (w # ws) =
     (case py_int w of None \<Rightarrow> Inl (ValueErr w) | Some n \<Rightarrow> res_map (\<lambda>ns. n # ns) (py_ints ws))"

definition parse_cpu_times :: "string \<Rightarrow> (int \<times> int) res" where
  "parse_cpu_times stat_text =
     (case py_splitlines stat_text of
        [] \<Rightarrow> Inl (KeyErr ''list index out of range'')
      | first # _ \<Rightarrow>
          res_bind (py_ints (tl (py_words first))) (\<lambda>vals.
            if length vals \<le> 3 then Inl (KeyErr ''list index out of range'')
            else Inr (vals ! 3 + (if 4 < length vals then vals ! 4 else 0), sum_list vals)))"

definition cpu_util_pct :: "int \<times> int \<Rightarrow> int \<times> int \<Rightarrow> real" where
  "cpu_util_pct prev cur =
     (let didle = fst cur - fst prev; dtotal = snd cur - snd prev in
      if dtotal \<le> 0 then 0 else py_round 2 (100 * (1 - of_int didle / of_int dtotal)))"

definition meminfo_line :: "string \<Rightarrow> (string \<times> int) list \<Rightarrow> (string \<times> int) list" where
  "meminfo_line line info =
     (let (key, _, rest) = py_partition (CHR '':'') line in
      case py_words rest of
        [] \<Rightarrow> info
      | w # _ \<Rightarrow> (case py_int w of None \<Rightarrow> info | Some n \<Rightarrow> AList.update key (n * 1024) info))"

definition parse_meminfo :: "string \<Rightarrow> int \<times> int \<times> real" where
  "parse_meminfo text =
     (let info = fold meminfo_line (py_splitlines text) [];
          tot = default_to 0 (map_of info ''MemTotal'');
          avail = default_to (default_to 0 (map_of info ''MemFree'')) (map_of info ''MemAvailable'');
          used = max 0 (tot - avail) in
      (tot, used, if tot \<noteq> 0 then py_round 2 (100 * of_int used / of_int tot) else 0))"

text \<open>\<open>_CpuSampler\<close>: the previous snapshot is the state; a file that cannot be read is \<open>None\<close>.\<close>

definition cpu_prime :: "string option \<Rightarrow> (int \<times> int) option res" where
  "cpu_prime stat = (case stat of None \<Rightarrow> Inr None | Some txt \<Rightarrow> res_map Some (parse_cpu_times txt))"

definition cpu_utilization :: "string option \<Rightarrow> (int \<times> int) option \<Rightarrow> (real option \<times> (int \<times> int) option) res" where
  "cpu_utilization stat prev =
     (case stat of
        None \<Rightarrow> Inr (None, prev)
      | Some txt \<Rightarrow> res_map (\<lambda>cur. (map_option (\<lambda>p. cpu_util_pct p cur) prev, Some cur)) (parse_cpu_times txt))"

definition collect_host_metrics ::
  "nat \<Rightarrow> string option \<Rightarrow> string option \<Rightarrow> (int \<times> int) option \<Rightarrow> (readings \<times> (int \<times> int) option) res" where
  "collect_host_metrics cores stat meminfo prev =
     res_map (\<lambda>(util, cur).
        let o1 = (if cores \<noteq> 0 then put M_CPU_CORES (real cores) [] else []);
            o2 = put_opt M_CPU_UTIL util o1 in
        (case meminfo of
           None \<Rightarrow> o2
         | Some txt \<Rightarrow> let (tot, used, pct) = parse_meminfo txt in
             put M_MEM_USED_PCT pct (put M_MEM_USED (of_int used) (put M_MEM_TOTAL (of_int tot) o2)), cur))
       (cpu_utilization stat prev)"

section \<open>GPU readings\<close>

record gpu_reading =
  g_util :: "real option"
  g_vram_used :: "real option"
  g_vram_total :: "real option"
  g_temp :: "real option"
  g_power :: "real option"

definition gpu_emit :: "int \<Rightarrow> gpu_reading \<Rightarrow> readings \<Rightarrow> readings" where
  "gpu_emit index g out =
     (let p = ''gpu:#'' @ int_str index @ ''_'' in
      put_opt (p @ ''power_w'') (map_option (py_round 2) (g_power g))
      (put_opt (p @ ''temp_c'') (g_temp g)
      (put_opt (p @ ''vram_used_pct'')
         (case (g_vram_used g, g_vram_total g) of
            (Some u, Some t) \<Rightarrow> if t \<noteq> 0 then Some (py_round 2 (100 * u / t)) else None
          | _ \<Rightarrow> None)
      (put_opt (p @ ''vram_total_bytes'') (g_vram_total g)
      (put_opt (p @ ''vram_used_bytes'') (g_vram_used g)
      (put_opt (p @ ''util_pct'') (g_util g) out))))))"

definition smi_float :: "string \<Rightarrow> real option" where
  "smi_float token = py_float (py_strip token)"

text \<open>\<open>int(x)\<close> on a float truncates towards zero.\<close>

definition trunc :: "real \<Rightarrow> int" where
  "trunc x = (if x < 0 then - \<lfloor>- x\<rfloor> else \<lfloor>x\<rfloor>)"

definition parse_smi_line :: "string \<Rightarrow> readings \<Rightarrow> readings" where
  "parse_smi_line line out =
     (case map py_strip (py_split (CHR '','') line) of
        [c0, c1, c2, c3, c4, c5] \<Rightarrow>
          (case smi_float c0 of
             None \<Rightarrow> out
           | Some idx \<Rightarrow>
               gpu_emit (trunc idx)
                 \<lparr>g_util = smi_float c1, g_vram_used = map_option (\<lambda>m. m * 1024 * 1024) (smi_float c2),
                  g_vram_total = map_option (\<lambda>m. m * 1024 * 1024) (smi_float c3),
                  g_temp = smi_float c4, g_power = smi_float c5\<rparr> out)
      | _ \<Rightarrow> out)"

definition parse_smi_csv :: "string \<Rightarrow> readings" where
  "parse_smi_csv text = fold parse_smi_line (py_splitlines text) []"

text \<open>\<open>_GpuSampler.sample\<close>: NVML's answers per device (each failed query is \<open>None\<close>), or the output of
  \<open>nvidia-smi\<close> (\<open>None\<close> when it failed), or nothing.\<close>

datatype gpu_mode = NoGpu | Nvml "gpu_reading list" | Smi "string option"

definition gpu_sample :: "gpu_mode \<Rightarrow> readings" where
  "gpu_sample m =
     (case m of
        NoGpu \<Rightarrow> []
      | Nvml gs \<Rightarrow> fold (\<lambda>(i, g). gpu_emit (int i) g) (zip [0..<length gs] gs) []
      | Smi None \<Rightarrow> []
      | Smi (Some txt) \<Rightarrow> parse_smi_csv txt)"

section \<open>Prometheus text\<close>

text \<open>\<open>\w\<close> on code points below 256.\<close>

definition word_char :: "char \<Rightarrow> bool" where
  "word_char c = (let n = (of_char c :: nat) in
     id_alnum c \<or> c = CHR ''_'' \<or> n \<in> {170, 178, 179, 181, 185, 186, 188, 189, 190}
     \<or> (192 \<le> n \<and> n \<noteq> 215 \<and> n \<noteq> 247))"

text \<open>The body of a quoted label value, up to its closing quote: the value and what follows.\<close>

fun quoted :: "string \<Rightarrow> string \<Rightarrow> (string \<times> string) option" where
  "quoted acc [] = None"
| "quoted acc (c # cs) =
     (if c = CHR 0x22 then Some (rev acc, cs)
      else if c = CHR 0x5C then
        (case cs of [] \<Rightarrow> None
         | d # ds \<Rightarrow> if d = CHR 0x0A then None else quoted (d # c # acc) ds)
      else quoted (c # acc) cs)"

lemma quoted_length: "quoted acc s = Some (v, rest) \<Longrightarrow> length rest < length s"
  by (induction acc s rule: quoted.induct) (auto split: if_splits list.splits)

text \<open>\<open>_LABEL_RE.findall\<close>\<close>

definition label_at :: "string \<Rightarrow> (string \<times> string \<times> string) option" where
  "label_at s =
     (let w = takeWhile word_char s; after = dropWhile word_char s in
      if w = [] \<or> take 2 after \<noteq> [CHR ''='', CHR 0x22] then None
      else map_option (\<lambda>(v, rest). (w, v, rest)) (quoted [] (drop 2 after)))"

lemma label_at_length: "label_at s = Some (w, v, rest) \<Longrightarrow> length rest < length s"
proof -
  assume "label_at s = Some (w, v, rest)"
  then have "length rest < length (drop 2 (dropWhile word_char s))"
    by (auto simp: label_at_def Let_def split: if_splits dest: quoted_length)
  also have "\<dots> \<le> length s" using length_dropWhile_le [of word_char s] by simp
  finally show ?thesis .
qed

function label_findall :: "string \<Rightarrow> (string \<times> string) list" where
  "label_findall s =
     (case s of
        [] \<Rightarrow> []
      | c # cs \<Rightarrow>
          (case label_at s of
             Some (w, v, rest) \<Rightarrow> (w, v) # label_findall rest
           | None \<Rightarrow> label_findall cs))"
  by auto
termination by (relation "measure length") (auto dest: label_at_length)

declare label_findall.simps [simp del]

definition NOISE_LABELS :: "string list" where
  "NOISE_LABELS = [''model_name'', ''model'', ''engine'']"

definition HIST_AGGREGATE_METRICS :: "string list" where
  "HIST_AGGREGATE_METRICS =
     [''vllm:e2e_request_latency_seconds'', ''vllm:time_to_first_token_seconds'',
      ''vllm:request_time_per_output_token_seconds'', ''vllm:request_queue_time_seconds'',
      ''vllm:request_prompt_tokens'', ''vllm:request_generation_tokens'']"

definition EXCLUDED_PREFIXES :: "string list" where
  "EXCLUDED_PREFIXES = [''vllm:engine_sleep_state'', ''vllm:estimated_'']"

fun squash :: "bool \<Rightarrow> string \<Rightarrow> string" where
  "squash prev [] = []"
| "squash prev (c # cs) =
     (if id_alnum c then c # squash False cs else if prev then squash True cs else CHR ''_'' # squash True cs)"

definition sanitize :: "string \<Rightarrow> string" where
  "sanitize value = py_lower (py_rstrip_char (CHR ''_'') (dropWhile (\<lambda>c. c = CHR ''_'') (squash False value)))"

section \<open>Histogram summaries\<close>

text \<open>A bucket's upper bound; \<open>None\<close> is infinity.\<close>

definition bucket_bound :: "string \<Rightarrow> real option option" where
  "bucket_bound le =
     (if py_lower (dropWhile (\<lambda>c. c = CHR ''+'') le) = ''inf'' then Some None else map_option Some (py_float le))"

definition bucket_points :: "readings \<Rightarrow> (real option \<times> real) list" where
  "bucket_points buckets =
     (let pts = List.map_filter (\<lambda>(le, cnt). map_option (\<lambda>b. (b, cnt)) (bucket_bound le)) buckets in
      sort_key (\<lambda>p. the (fst p)) (filter (\<lambda>p. fst p \<noteq> None) pts) @ filter (\<lambda>p. fst p = None) pts)"

fun quantile_loop :: "real \<Rightarrow> real option \<Rightarrow> real \<Rightarrow> (real option \<times> real) list \<Rightarrow> real option option" where
  "quantile_loop rank prev_bound prev_count [] = None"
| "quantile_loop rank prev_bound prev_count ((bound, cnt) # pts) =
     (if rank \<le> cnt then
        Some (case bound of
           None \<Rightarrow> if 0 < prev_count then prev_bound else None
         | Some b \<Rightarrow>
             let p = default_to 0 prev_bound in
             if cnt - prev_count \<le> 0 then Some (py_round 6 b)
             else Some (py_round 6 (p + (b - p) * (rank - prev_count) / (cnt - prev_count))))
      else quantile_loop rank bound cnt pts)"

text \<open>A rank beyond every count leaves through the end of the list. An infinite result is given as no
  value. (An infinite bound is never followed by a finite one, so the default is not used.)\<close>

definition quantile_interp :: "(real option \<times> real) list \<Rightarrow> real \<Rightarrow> real \<Rightarrow> real option" where
  "quantile_interp pts tot q =
     (if tot \<le> 0 \<or> pts = [] then None
      else case quantile_loop (q * tot) (Some 0) 0 pts of
        Some r \<Rightarrow> r
      | None \<Rightarrow> map_option (py_round 6) (fst (last pts)))"

definition hist_min :: "(real option \<times> real) list \<Rightarrow> real option" where
  "hist_min pts =
     (let finite = filter (\<lambda>p. fst p \<noteq> None) pts in
      case find (\<lambda>p. 0 < snd p) pts of
        None \<Rightarrow> None
      | Some (Some b, _) \<Rightarrow> Some b
      | Some (None, _) \<Rightarrow> if finite = [] then None else fst (last finite))"

fun max_loop :: "real option \<Rightarrow> real \<Rightarrow> (real option \<times> real) list \<Rightarrow> real option" where
  "max_loop best prev [] = best"
| "max_loop best prev ((b, cnt) # pts) = max_loop (if prev < cnt then b else best) cnt pts"

definition hist_max :: "(real option \<times> real) list \<Rightarrow> real option" where
  "hist_max pts =
     (let finite = filter (\<lambda>p. fst p \<noteq> None) pts in
      max_loop (if finite = [] then None else fst (last finite)) 0 finite)"

definition histogram_aggregates :: "string \<Rightarrow> readings \<Rightarrow> real \<Rightarrow> real \<Rightarrow> readings" where
  "histogram_aggregates base buckets hsum hcount =
     (let o1 = put (base @ ''_count'') hcount [] in
      if hcount \<le> 0 then o1
      else
        let o2 = put (base @ ''_mean'') (py_round 6 (hsum / hcount)) o1;
            pts = bucket_points buckets in
        if pts = [] then o2
        else
          put_opt (base @ ''_max'') (hist_max pts)
          (put_opt (base @ ''_tile75'') (quantile_interp pts hcount (3/4))
          (put_opt (base @ ''_median'') (quantile_interp pts hcount (1/2))
          (put_opt (base @ ''_tile25'') (quantile_interp pts hcount (1/4))
          (put_opt (base @ ''_min'') (hist_min pts) o2)))))"

section \<open>Flattening the page\<close>

record family =
  fam_buckets :: readings
  fam_sum :: real
  fam_count :: real
  fam_stats :: readings

definition no_family :: family where
  "no_family = \<lparr>fam_buckets = [], fam_sum = 0, fam_count = 0, fam_stats = []\<rparr>"

type_synonym families = "((string \<times> string) \<times> family) list"

text \<open>\<open>hist.setdefault(key, empty)\<close> and the assignment into the family it returns.\<close>

definition in_family :: "string \<Rightarrow> string \<Rightarrow> (family \<Rightarrow> family) \<Rightarrow> families \<Rightarrow> families" where
  "in_family base suffix f hist =
     AList.update (base, suffix) (f (default_to no_family (map_of hist (base, suffix)))) hist"

definition chop :: "string \<Rightarrow> string \<Rightarrow> string" where
  "chop name ending = take (length name - length ending) name"

text \<open>The name, labels and rest of a line.\<close>

definition split_line :: "string \<Rightarrow> string \<times> string \<times> string" where
  "split_line line =
     (if CHR ''{'' \<in> set line then
        let (name, _, rest) = py_partition (CHR ''{'') line;
            (labels, _, tail) = py_partition (CHR ''}'') rest in
        (py_strip name, labels, tail)
      else let (name, _, tail) = py_partition (CHR '' '') line in (py_strip name, [], tail))"

definition kept_name :: "string \<Rightarrow> string \<Rightarrow> bool" where
  "kept_name prefix name \<longleftrightarrow> py_startswith name prefix \<and> \<not> py_endswith name ''_info'' \<and> \<not> py_endswith name ''_created''
     \<and> \<not> list_ex (py_startswith name) EXCLUDED_PREFIXES"

definition label_dict :: "string \<Rightarrow> (string \<times> string) list" where
  "label_dict labels = fold (\<lambda>(k, v). AList.update k v) (label_findall labels) []"

definition label_suffix :: "(string \<times> string) list \<Rightarrow> string" where
  "label_suffix ls =
     (let sig = filter (\<lambda>(k, _). k \<notin> set NOISE_LABELS \<and> k \<noteq> ''le'') ls in
      py_join ''_'' (map (\<lambda>k. sanitize (default_to [] (map_of sig k))) (sort (map fst sig))))"

definition suffixed :: "string \<Rightarrow> string \<Rightarrow> string" where
  "suffixed name suffix = (if suffix = [] then name else name @ ''_'' @ suffix)"

text \<open>One sample: where its value goes.\<close>

definition route_sample ::
  "string \<Rightarrow> string option \<Rightarrow> string \<Rightarrow> real \<Rightarrow> readings \<times> families \<Rightarrow> readings \<times> families" where
  "route_sample name le suffix value acc =
     (case acc of (scalars, hist) \<Rightarrow>
      let agg = (\<lambda>ending. chop name ending \<in> set HIST_AGGREGATE_METRICS) in
      if py_endswith name ''_bucket'' then
        (scalars, if agg ''_bucket'' \<and> le \<noteq> None
                  then in_family (chop name ''_bucket'') suffix (fam_buckets_update (put (the le) value)) hist else hist)
      else if py_endswith name ''_sum'' then
        (scalars, if agg ''_sum'' then in_family (chop name ''_sum'') suffix (fam_sum_update (\<lambda>_. value)) hist else hist)
      else if py_endswith name ''_count'' then
        (scalars, if agg ''_count'' then in_family (chop name ''_count'') suffix (fam_count_update (\<lambda>_. value)) hist else hist)
      else case find (\<lambda>st. py_endswith name (''_'' @ st)) [''min'', ''max'', ''mean''] of
        Some st \<Rightarrow>
          if agg (''_'' @ st) then (scalars, in_family (chop name (''_'' @ st)) suffix (fam_stats_update (put st value)) hist)
          else (put (suffixed name suffix) value scalars, hist)
      | None \<Rightarrow> (put (suffixed name suffix) value scalars, hist))"

definition parse_line :: "string \<Rightarrow> string \<Rightarrow> readings \<times> families \<Rightarrow> readings \<times> families" where
  "parse_line prefix raw acc =
     (let line = py_strip raw in
      if line = [] \<or> py_startswith line ''#'' then acc
      else
        let (name, labels, tail) = split_line line in
        if \<not> kept_name prefix name then acc
        else case py_words tail of
          [] \<Rightarrow> acc
        | tok # _ \<Rightarrow>
            (case py_float tok of
               None \<Rightarrow> acc
             | Some value \<Rightarrow>
                 let ls = label_dict labels in route_sample name (map_of ls ''le'') (label_suffix ls) value acc))"

definition family_summary :: "(string \<times> string) \<times> family \<Rightarrow> readings \<Rightarrow> readings" where
  "family_summary entry out =
     (case entry of ((base, suffix), h) \<Rightarrow>
      let agg_base = suffixed base suffix in
      if fam_buckets h \<noteq> []
      then merge out (histogram_aggregates agg_base (fam_buckets h) (fam_sum h) (fam_count h))
      else
        fold (\<lambda>st. put_opt (agg_base @ ''_'' @ st) (map_option (py_round 6) (map_of (fam_stats h) st)))
          [''min'', ''max'', ''mean''] (put (agg_base @ ''_count'') (fam_count h) out))"

definition parse_prometheus :: "string \<Rightarrow> string \<Rightarrow> readings" where
  "parse_prometheus prefix text =
     (case fold (parse_line prefix) (py_splitlines text) ([], []) of
        (scalars, hist) \<Rightarrow> fold family_summary hist scalars)"

text \<open>The answer of the backend: \<open>None\<close> when the request failed.\<close>

definition collect_vllm_metrics :: "string option \<Rightarrow> (nat \<times> string) option \<Rightarrow> readings" where
  "collect_vllm_metrics vllm_url resp =
     (if \<not> truthy vllm_url then []
      else case resp of
        None \<Rightarrow> []
      | Some (code, txt) \<Rightarrow> if code \<noteq> 200 then [] else parse_prometheus ''vllm:'' txt)"

section \<open>The completion rate\<close>

definition WINDOW_MIN_S :: int where "WINDOW_MIN_S = 60"
definition WINDOW_MAX_S :: int where "WINDOW_MAX_S = 180"

definition rate_update :: "int \<Rightarrow> real option \<Rightarrow> (int \<times> real) list \<Rightarrow> real option \<times> (int \<times> real) list" where
  "rate_update grid_epoch cumulative samples =
     (case cumulative of
        None \<Rightarrow> (None, samples)
      | Some c \<Rightarrow>
          let kept = dropWhile (\<lambda>s. fst s < grid_epoch - WINDOW_MAX_S) samples in
          (case kept of
             [] \<Rightarrow> None
           | (ref_epoch, ref_count) # _ \<Rightarrow>
               if WINDOW_MIN_S \<le> grid_epoch - ref_epoch \<and> 0 \<le> c - ref_count
               then Some (py_round 2 ((c - ref_count) / of_int (grid_epoch - ref_epoch) * 60)) else None,
           kept @ [(grid_epoch, c)]))"

section \<open>Keys stay in their domain\<close>

definition in_domain :: "string \<Rightarrow> readings \<Rightarrow> bool" where
  "in_domain p out \<longleftrightarrow> (\<forall>k \<in> fst ` set out. py_startswith k p)"

lemma in_domain_Nil [simp]: "in_domain p []"
  by (simp add: in_domain_def)

lemma in_domain_put [simp, intro]: "in_domain p out \<Longrightarrow> py_startswith k p \<Longrightarrow> in_domain p (put k v out)"
  by (auto simp: in_domain_def put_def dom_update)

lemma in_domain_put_opt [simp, intro]: "in_domain p out \<Longrightarrow> py_startswith k p \<Longrightarrow> in_domain p (put_opt k v out)"
  by (auto simp: put_opt_def split: option.split)

lemma in_domain_merge [intro]: "in_domain p out \<Longrightarrow> in_domain p new \<Longrightarrow> in_domain p (merge out new)"
proof (induction new arbitrary: out)
  case (Cons kv new)
  then have "in_domain p new" "py_startswith (fst kv) p" by (auto simp: in_domain_def)
  with Cons.IH [of "put (fst kv) (snd kv) out"] Cons.prems show ?case by (simp add: merge_def split_def)
qed (simp add: merge_def)

lemma startswith_append [simp, intro]: "py_startswith k p \<Longrightarrow> py_startswith (k @ r) p"
  by (auto simp: py_startswith_iff)

lemma startswith_suffixed [simp, intro]: "py_startswith k p \<Longrightarrow> py_startswith (suffixed k suf) p"
  by (auto simp: suffixed_def)

lemma in_domain_histogram: "py_startswith base p \<Longrightarrow> in_domain p (histogram_aggregates base bs hs hc)"
  by (simp add: histogram_aggregates_def Let_def)

definition fams_ok :: "string \<Rightarrow> families \<Rightarrow> bool" where
  "fams_ok p hist \<longleftrightarrow> (\<forall>base suffix h. ((base, suffix), h) \<in> set hist \<longrightarrow> py_startswith base p)"

lemma fams_ok_in_family [intro]: "fams_ok p hist \<Longrightarrow> py_startswith base p \<Longrightarrow> fams_ok p (in_family base suf f hist)"
  using set_update_subset unfolding fams_ok_def in_family_def by fastforce

lemma aggregate_metric_domain: "base \<in> set HIST_AGGREGATE_METRICS \<Longrightarrow> py_startswith base ''vllm:''"
  by (auto simp: HIST_AGGREGATE_METRICS_def py_startswith_def)

lemma route_sample_domain:
  assumes "in_domain ''vllm:'' scalars" "fams_ok ''vllm:'' hist" "py_startswith name ''vllm:''"
    and "route_sample name le suffix value (scalars, hist) = (scalars', hist')"
  shows "in_domain ''vllm:'' scalars' \<and> fams_ok ''vllm:'' hist'"
proof -
  have s: "in_domain ''vllm:'' (put (suffixed name suffix) value scalars)" using assms by simp
  have f: "fams_ok ''vllm:'' (in_family (chop name e) suffix g hist)" if "chop name e \<in> set HIST_AGGREGATE_METRICS" for e g
    using assms(2) aggregate_metric_domain [OF that] by auto
  show ?thesis using assms(4) assms(1,2) s f
    by (auto simp: route_sample_def Let_def split: if_splits option.splits)
qed

lemma parse_line_domain:
  assumes "in_domain ''vllm:'' scalars" "fams_ok ''vllm:'' hist" "parse_line ''vllm:'' raw (scalars, hist) = (scalars', hist')"
  shows "in_domain ''vllm:'' scalars' \<and> fams_ok ''vllm:'' hist'"
  using assms route_sample_domain [OF assms(1,2)]
  by (fastforce simp: parse_line_def Let_def kept_name_def split: if_splits prod.splits list.splits option.splits)

lemma parse_lines_domain:
  "in_domain ''vllm:'' (fst acc) \<Longrightarrow> fams_ok ''vllm:'' (snd acc) \<Longrightarrow>
     in_domain ''vllm:'' (fst (fold (parse_line ''vllm:'') ls acc)) \<and> fams_ok ''vllm:'' (snd (fold (parse_line ''vllm:'') ls acc))"
proof (induction ls arbitrary: acc)
  case (Cons l ls)
  obtain s h where "parse_line ''vllm:'' l (fst acc, snd acc) = (s, h)" by fastforce
  with parse_line_domain [OF Cons.prems this] Cons.IH [of "(s, h)"] show ?case by simp
qed simp

lemma family_summary_domain:
  assumes "py_startswith base p" "in_domain p out" shows "in_domain p (family_summary ((base, suf), h) out)"
  using assms by (simp add: family_summary_def Let_def in_domain_histogram in_domain_merge)

lemma parse_prometheus_domain: "in_domain ''vllm:'' (parse_prometheus ''vllm:'' text)"
proof -
  obtain scalars hist where f: "fold (parse_line ''vllm:'') (py_splitlines text) ([], []) = (scalars, hist)" by fastforce
  have ok: "in_domain ''vllm:'' scalars" "fams_ok ''vllm:'' hist"
    using parse_lines_domain [of "([], [])" "py_splitlines text"] f by (simp_all add: fams_ok_def)
  have "in_domain ''vllm:'' (fold family_summary hs out)" if "fams_ok ''vllm:'' hs" "in_domain ''vllm:'' out" for hs out
    using that
  proof (induction hs arbitrary: out)
    case (Cons e hs)
    obtain base suf h where e: "e = ((base, suf), h)" by (metis surj_pair)
    from Cons.prems e have "py_startswith base ''vllm:''" "fams_ok ''vllm:'' hs" by (auto simp: fams_ok_def)
    with Cons family_summary_domain e show ?case by simp
  qed simp
  with ok show ?thesis by (simp add: parse_prometheus_def f)
qed

lemma collect_vllm_domain: "in_domain ''vllm:'' (collect_vllm_metrics url resp)"
  by (auto simp: collect_vllm_metrics_def parse_prometheus_domain split: option.split)

lemma host_names [simp]:
  "py_startswith M_CPU_CORES ''worker:''" "py_startswith M_CPU_UTIL ''worker:''" "py_startswith M_MEM_TOTAL ''worker:''"
  "py_startswith M_MEM_USED ''worker:''" "py_startswith M_MEM_USED_PCT ''worker:''"
  by (simp_all add: py_startswith_def M_CPU_CORES_def M_CPU_UTIL_def M_MEM_TOTAL_def M_MEM_USED_def M_MEM_USED_PCT_def)

lemma collect_host_domain:
  assumes "collect_host_metrics cores stat mem prev = Inr (out, cur)" shows "in_domain ''worker:'' out"
proof -
  obtain util c where "cpu_utilization stat prev = Inr (util, c)"
    using assms by (cases "cpu_utilization stat prev") (auto simp: collect_host_metrics_def)
  with assms show ?thesis
    by (cases mem) (auto simp: collect_host_metrics_def Let_def split_def)
qed

lemma gpu_emit_domain [intro]: "in_domain ''gpu:#'' out \<Longrightarrow> in_domain ''gpu:#'' (gpu_emit i g out)"
  by (simp add: gpu_emit_def Let_def py_startswith_def)

lemma fold_domain: "(\<And>x out. in_domain p out \<Longrightarrow> in_domain p (f x out)) \<Longrightarrow> in_domain p out \<Longrightarrow> in_domain p (fold f xs out)"
  by (induction xs arbitrary: out) auto

lemma parse_smi_line_domain: "in_domain ''gpu:#'' out \<Longrightarrow> in_domain ''gpu:#'' (parse_smi_line l out)"
  by (auto simp: parse_smi_line_def split: list.split option.split)

lemma gpu_sample_domain: "in_domain ''gpu:#'' (gpu_sample m)"
  by (auto simp: gpu_sample_def parse_smi_csv_def split: gpu_mode.split option.split
      intro!: fold_domain parse_smi_line_domain)

section \<open>Quantiles\<close>

text \<open>Points of a cumulative histogram, after the point \<open>(p, c)\<close>: bounds and counts do not
  decrease, infinite bounds come last, and finite bounds have at most six decimals.\<close>

fun cumulative :: "real option \<Rightarrow> real \<Rightarrow> (real option \<times> real) list \<Rightarrow> bool" where
  "cumulative p c [] = True"
| "cumulative p c ((b, n) # pts) =
     (c \<le> n \<and> (case b of None \<Rightarrow> True | Some x \<Rightarrow> py_round 6 x = x \<and> (\<exists>y. p = Some y \<and> y \<le> x)) \<and> cumulative b n pts)"

lemma round_half_even_mono:
  assumes "x \<le> y" shows "round_half_even x \<le> round_half_even y"
proof (cases "\<lfloor>x\<rfloor> = \<lfloor>y\<rfloor>")
  case True
  with assms show ?thesis by (auto simp: round_half_even_def Let_def)
next
  case False
  with floor_mono [OF assms] have "\<lfloor>x\<rfloor> + 1 \<le> \<lfloor>y\<rfloor>" by simp
  moreover have "round_half_even x \<le> \<lfloor>x\<rfloor> + 1" "\<lfloor>y\<rfloor> \<le> round_half_even y"
    by (auto simp: round_half_even_def Let_def)
  ultimately show ?thesis by linarith
qed

lemma py_round_mono: "x \<le> y \<Longrightarrow> py_round d x \<le> py_round d y"
  unfolding py_round_def by (intro divide_right_mono of_int_le_iff [THEN iffD2] round_half_even_mono mult_right_mono) auto

lemma cumulative_inf: "cumulative None c pts \<Longrightarrow> quantile_loop r None c pts \<in> {None, Some None}"
proof (induction pts arbitrary: c)
  case (Cons pt pts)
  then show ?case by (cases pt; cases "fst pt") auto
qed simp

lemma interp_bounds:
  fixes p :: real
  assumes "p \<le> b" "pc \<le> r" "r \<le> n" "0 < n - pc"
  shows "p \<le> p + (b - p) * (r - pc) / (n - pc)" "p + (b - p) * (r - pc) / (n - pc) \<le> b"
proof -
  have t: "0 \<le> (r - pc) / (n - pc)" "(r - pc) / (n - pc) \<le> 1" using assms by (auto simp: divide_simps)
  then show "p \<le> p + (b - p) * (r - pc) / (n - pc)" using assms by simp
  have "(b - p) * ((r - pc) / (n - pc)) \<le> (b - p) * 1" using t assms by (intro mult_left_mono) auto
  then show "p + (b - p) * (r - pc) / (n - pc) \<le> b" by simp
qed

lemma quantile_loop_lower:
  assumes "cumulative (Some p) pc pts" "py_round 6 p = p" "pc \<le> r" "quantile_loop r (Some p) pc pts = Some (Some v)"
  shows "p \<le> v"
  using assms
proof (induction pts arbitrary: p pc)
  case (Cons pt pts)
  obtain b n where pt: "pt = (b, n)" by (cases pt)
  show ?case
  proof (cases b)
    case None
    then show ?thesis using Cons.prems pt cumulative_inf [of n pts r] by (auto split: if_splits)
  next
    case (Some x)
    with Cons.prems pt have c: "p \<le> x" "py_round 6 x = x" "pc \<le> n" "cumulative (Some x) n pts" by auto
    show ?thesis
    proof (cases "r \<le> n")
      case True
      have "p \<le> py_round 6 (p + (x - p) * (r - pc) / (n - pc))" if "0 < n - pc"
        using py_round_mono [OF interp_bounds(1) [OF c(1) Cons.prems(3) True that], of 6] Cons.prems(2) by simp
      with True Cons.prems pt Some c show ?thesis by (auto simp: Let_def split: if_splits)
    next
      case False
      with Cons.IH [OF c(4,2)] Cons.prems pt Some c(1) show ?thesis by simp
    qed
  qed
qed simp

lemma interp_mono:
  fixes p :: real
  assumes "p \<le> b" "r \<le> r'" "0 < n - pc"
  shows "p + (b - p) * (r - pc) / (n - pc) \<le> p + (b - p) * (r' - pc) / (n - pc)"
  using assms by (intro add_left_mono divide_right_mono mult_left_mono) auto

lemma quantile_loop_mono:
  assumes "cumulative (Some p) pc pts" "py_round 6 p = p" "pc \<le> r" "r \<le> r'"
    and "quantile_loop r (Some p) pc pts = Some (Some v)" "quantile_loop r' (Some p) pc pts = Some (Some v')"
  shows "v \<le> v'"
  using assms
proof (induction pts arbitrary: p pc)
  case (Cons pt pts)
  obtain b n where pt: "pt = (b, n)" by (cases pt)
  show ?case
  proof (cases b)
    case None
    then show ?thesis
      using Cons.prems pt cumulative_inf [of n pts r] cumulative_inf [of n pts r'] by (auto split: if_splits)
  next
    case (Some x)
    with Cons.prems pt have c: "p \<le> x" "py_round 6 x = x" "pc \<le> n" "cumulative (Some x) n pts" by auto
    consider "r' \<le> n" | "r \<le> n" "n < r'" | "n < r" using Cons.prems(4) by linarith
    then show ?thesis
    proof cases
      case 1
      then show ?thesis using Cons.prems(4-6) pt Some c py_round_mono [OF interp_mono [OF c(1) Cons.prems(4)], of n pc 6]
        by (auto simp: Let_def split: if_splits)
    next
      case 2
      have "py_round 6 (p + (x - p) * (r - pc) / (n - pc)) \<le> x" if "0 < n - pc"
        using py_round_mono [OF interp_bounds(2) [OF c(1) Cons.prems(3) 2(1) that], of 6] c(2) by simp
      then have "v \<le> x" using Cons.prems(5) pt Some 2 c(2) by (auto simp: Let_def split: if_splits)
      moreover have "x \<le> v'" using quantile_loop_lower [OF c(4,2), of r' v'] Cons.prems(6) pt Some 2 by simp
      ultimately show ?thesis by simp
    next
      case 3
      with Cons.IH [OF c(4,2)] Cons.prems pt Some show ?thesis by simp
    qed
  qed
qed simp

lemma quantile_loop_total: "pts \<noteq> [] \<Longrightarrow> r \<le> snd (last pts) \<Longrightarrow> \<exists>v. quantile_loop r p c pts = Some v"
  by (induction pts arbitrary: p c) (auto split: if_splits)

section \<open>Properties\<close>

text \<open>Quantile estimates are ordered. On a consistent cumulative histogram (the last bucket counts
  every observation, bucket edges have at most six decimals) a higher quantile never gets a smaller estimate, so the reported quartiles satisfy
  tile25 \<open>\<le>\<close> median \<open>\<le>\<close> tile75; no estimate is negative.\<close>

lemma quantile_ordered:
  assumes "cumulative (Some 0) 0 pts" "snd (last pts) = tot" "0 \<le> q" "q \<le> q'" "q' \<le> 1"
    and "quantile_interp pts tot q = Some v" "quantile_interp pts tot q' = Some v'"
  shows "0 \<le> v \<and> v \<le> v'"
proof -
  have ne: "0 < tot" "pts \<noteq> []" using assms(6) by (auto simp: quantile_interp_def split: if_splits)
  have le: "q * tot \<le> q' * tot" "0 \<le> q * tot" "q' * tot \<le> tot"
    using ne assms(3-5) by (auto simp: mult_right_mono mult_left_le_one_le)
  have z: "py_round 6 0 = 0" by (simp add: py_round_def round_half_even_def)
  have "quantile_loop (q * tot) (Some 0) 0 pts = Some (Some v)" "quantile_loop (q' * tot) (Some 0) 0 pts = Some (Some v')"
    using assms(2,6,7) ne le quantile_loop_total [OF ne(2), of "q * tot" "Some 0" 0]
      quantile_loop_total [OF ne(2), of "q' * tot" "Some 0" 0]
    by (auto simp: quantile_interp_def split: if_splits)
  with quantile_loop_mono [OF assms(1) z le(2,1)] quantile_loop_lower [OF assms(1) z le(2)] show ?thesis by blast
qed

text \<open>The minimum is the upper edge of the lowest populated bucket, so it may lie above the quartiles.\<close>

lemma min_above_median:
  "hist_min [(Some 1, 4), (None, 4)] = Some 1" "quantile_interp [(Some 1, 4), (None, 4)] 4 (1/2) = Some (1/2)"
  by (simp_all add: hist_min_def quantile_interp_def Let_def py_round_def round_half_even_def)

lemma quantile_ordered_witness:
  "0 \<le> (1/4 :: real) \<and> quantile_interp [(Some 1, 4), (Some 2, 8), (None, 8)] 8 (1/8) = Some (1/4)
   \<and> quantile_interp [(Some 1, 4), (Some 2, 8), (None, 8)] 8 (3/4) = Some (3/2) \<and> (1/4 :: real) \<le> 3/2"
proof -
  let ?p = "[(Some 1, 4), (Some 2, 8), (None, 8)] :: (real option \<times> real) list"
  have c: "cumulative (Some 0) 0 ?p" by (simp add: py_round_def round_half_even_def)
  have v: "quantile_interp ?p 8 (1/8) = Some (1/4)" "quantile_interp ?p 8 (3/4) = Some (3/2)"
    by (simp_all add: quantile_interp_def Let_def py_round_def round_half_even_def)
  from quantile_ordered [OF c _ _ _ _ v] v show ?thesis by simp
qed

text \<open>The completion rate is measured against the oldest sample of the last three minutes; it is
  reported only over a window of one to three minutes and never after a fall of the counter.\<close>

lemma rate_update_spec:
  assumes "sorted (map fst samples)" "\<forall>s \<in> set samples. fst s \<le> e" "rate_update e (Some c) samples = (r, samples')"
  shows "sorted (map fst samples') \<and> (\<forall>s \<in> set samples'. e - 180 \<le> fst s \<and> fst s \<le> e)"
    and "r = Some x \<Longrightarrow> \<exists>e0 c0. find (\<lambda>s. e - 180 \<le> fst s) samples = Some (e0, c0) \<and> 60 \<le> e - e0 \<and> c0 \<le> c
           \<and> x = py_round 2 ((c - c0) / of_int (e - e0) * 60) \<and> 0 \<le> x"
proof -
  let ?kept = "dropWhile (\<lambda>s. fst s < e - WINDOW_MAX_S) samples"
  have sk: "sorted (map fst ?kept)" using assms(1) by (simp add: dropWhile_eq_drop drop_map [symmetric] sorted_wrt_drop)
  have s': "samples' = ?kept @ [(e, c)]" using assms(3) by (simp add: rate_update_def Let_def)
  have up: "\<forall>s \<in> set ?kept. fst s \<le> e" using assms(2) set_dropWhileD by fastforce
  have low: "\<forall>s \<in> set ?kept. e - 180 \<le> fst s"
  proof (cases ?kept)
    case (Cons a as)
    then have "\<not> fst a < e - WINDOW_MAX_S" by (metis hd_dropWhile list.sel(1) list.simps(3))
    with Cons sk show ?thesis by (auto simp: WINDOW_MAX_S_def)
  next
    case Nil
    show ?thesis unfolding Nil by simp
  qed
  show "sorted (map fst samples') \<and> (\<forall>s \<in> set samples'. e - 180 \<le> fst s \<and> fst s \<le> e)"
    using sk up low s' by (auto simp: sorted_append)
  have f: "find (\<lambda>s. e - 180 \<le> fst s) samples = (case ?kept of [] \<Rightarrow> None | a # _ \<Rightarrow> Some a)"
    by (induction samples) (auto simp: WINDOW_MAX_S_def)
  show "\<exists>e0 c0. find (\<lambda>s. e - 180 \<le> fst s) samples = Some (e0, c0) \<and> 60 \<le> e - e0 \<and> c0 \<le> c
           \<and> x = py_round 2 ((c - c0) / of_int (e - e0) * 60) \<and> 0 \<le> x" if "r = Some x"
  proof (cases ?kept)
    case Nil
    have "r = None" using assms(3) unfolding rate_update_def by (simp add: Let_def Nil)
    with that show ?thesis by simp
  next
    case (Cons a as)
    obtain e0 c0 where a: "a = (e0, c0)" by (cases a)
    have "r = (if WINDOW_MIN_S \<le> e - e0 \<and> 0 \<le> c - c0 then Some (py_round 2 ((c - c0) / of_int (e - e0) * 60)) else None)"
      using assms(3) unfolding rate_update_def by (simp add: Let_def Cons a)
    moreover have "find (\<lambda>s. e - 180 \<le> fst s) samples = Some (e0, c0)" unfolding f Cons a by simp
    ultimately show ?thesis using that by (auto simp: WINDOW_MIN_S_def py_round_nonneg split: if_splits)
  qed
qed

end
