(* ===== verification/Sampling.thy ===== *)
theory Sampling
  imports Telemetry Timestamps "HOL-Library.Multiset" "HOL-Library.Sublist"
begin

text \<open>
  How a worker's measurements reach the manager (\<open>src/src/oumigo/service/worker/metrics.py\<close>, second
  part): the grid-aligned sampler, the time-bounded buffer and the reporter. The two threads share
  only the buffer, each of whose methods holds its lock, so an execution is a sequence of sampling
  steps, drains and ends of a send. Threads and sockets are outside.
\<close>

section \<open>MetricsBuffer\<close>

record metric_row =
  row_node :: string
  row_epoch :: int
  row_timestamp :: string
  row_metric :: string
  row_value :: real

record metrics_buffer =
  capacity_s :: real
  evict_chunk_s :: real
  rows :: "metric_row list"

definition make_buffer :: "real \<Rightarrow> real \<Rightarrow> metrics_buffer" where
  "make_buffer cap chunk = \<lparr>capacity_s = cap, evict_chunk_s = chunk, rows = []\<rparr>"

definition span :: "metric_row list \<Rightarrow> real" where
  "span rs = of_int (row_epoch (last rs) - row_epoch (hd rs))"

text \<open>The rows one turn of \<open>_evict_locked\<close> drops.\<close>

definition oldest_chunk :: "real \<Rightarrow> metric_row list \<Rightarrow> metric_row list" where
  "oldest_chunk chunk rs = takeWhile (\<lambda>r. of_int (row_epoch r) < of_int (row_epoch (hd rs)) + chunk) rs"

function evict :: "real \<Rightarrow> real \<Rightarrow> metric_row list \<Rightarrow> metric_row list" where
  "evict cap chunk rs =
     (if rs \<noteq> [] \<and> cap \<le> span rs \<and> oldest_chunk chunk rs \<noteq> []
      then evict cap chunk (drop (length (oldest_chunk chunk rs)) rs) else rs)"
  by auto
termination by (relation "measure (\<lambda>(cap, chunk, rs). length rs)") auto

declare evict.simps [simp del]

definition evict_locked :: "metrics_buffer \<Rightarrow> metrics_buffer" where
  "evict_locked b = b\<lparr>rows := evict (capacity_s b) (evict_chunk_s b) (rows b)\<rparr>"

definition buffer_append :: "metric_row list \<Rightarrow> metrics_buffer \<Rightarrow> metrics_buffer" where
  "buffer_append rs b = evict_locked (b\<lparr>rows := rows b @ rs\<rparr>)"

definition buffer_restore :: "metric_row list \<Rightarrow> metrics_buffer \<Rightarrow> metrics_buffer" where
  "buffer_restore rs b = evict_locked (b\<lparr>rows := rs @ rows b\<rparr>)"

definition buffer_drain :: "metrics_buffer \<Rightarrow> metric_row list \<times> metrics_buffer" where
  "buffer_drain b = (rows b, b\<lparr>rows := []\<rparr>)"

definition buffer_len :: "metrics_buffer \<Rightarrow> nat" where
  "buffer_len b = length (rows b)"

section \<open>MetricsCollector\<close>

definition M_WORKER_START :: string where "M_WORKER_START = ''worker:start_timestamp''"
definition M_VLLM_START :: string where "M_VLLM_START = ''vllm:start_timestamp''"
definition M_VLLM_SUCCESS_STOP :: string where "M_VLLM_SUCCESS_STOP = ''vllm:request_success_total_stop''"
definition M_VLLM_REQ_PER_MIN :: string where "M_VLLM_REQ_PER_MIN = ''vllm:num_requests_per_minute''"

definition grid_timestamp :: "int \<Rightarrow> string" where
  "grid_timestamp grid_epoch = stamp (nat grid_epoch)"

text \<open>The batch a report is sending right now is \<open>in_flight\<close>.\<close>

record collector =
  co_node_id :: string
  co_buffer :: metrics_buffer
  co_cpu :: "(int \<times> int) option"
  co_rate :: "(int \<times> real) list"
  co_worker_start :: real
  co_vllm_start :: "real option"
  co_vllm_url :: "string option"
  in_flight :: "metric_row list"

definition new_collector :: "string \<Rightarrow> real \<Rightarrow> real \<Rightarrow> string option \<Rightarrow> real \<Rightarrow> (int \<times> int) option \<Rightarrow> collector" where
  "new_collector nid cap chunk url start cpu =
     \<lparr>co_node_id = nid, co_buffer = make_buffer cap chunk, co_cpu = cpu, co_rate = [], co_worker_start = start,
      co_vllm_start = None, co_vllm_url = url, in_flight = []\<rparr>"

definition mark_serving :: "real \<Rightarrow> collector \<Rightarrow> collector" where
  "mark_serving now c = c\<lparr>co_vllm_start := Some now\<rparr>"

definition clear_serving :: "collector \<Rightarrow> collector" where
  "clear_serving c = c\<lparr>co_vllm_start := None\<rparr>"

text \<open>The next grid boundary after \<open>now\<close>.\<close>

definition next_grid :: "real \<Rightarrow> real \<Rightarrow> real" where
  "next_grid grid_s now = of_int \<lfloor>now / grid_s\<rfloor> * grid_s + grid_s"

record sources =
  so_cores :: nat
  so_stat :: "string option"
  so_meminfo :: "string option"
  so_gpu :: gpu_mode
  so_vllm :: "(nat \<times> string) option"

text \<open>The dictionary of one slot, from the readings of the three sources.\<close>

definition slot_readings :: "readings \<Rightarrow> readings \<Rightarrow> readings \<Rightarrow> real option \<Rightarrow> real \<Rightarrow> real option \<Rightarrow> readings" where
  "slot_readings host_r gpu_r vllm_r rpm worker_start vllm_start =
     put_opt M_VLLM_START vllm_start
     (put M_WORKER_START worker_start
     (put_opt M_VLLM_REQ_PER_MIN rpm (merge (merge host_r gpu_r) vllm_r)))"

definition slot_rows :: "string \<Rightarrow> int \<Rightarrow> readings \<Rightarrow> metric_row list" where
  "slot_rows nid grid_epoch m =
     map (\<lambda>(k, v). \<lparr>row_node = nid, row_epoch = grid_epoch, row_timestamp = grid_timestamp grid_epoch,
                    row_metric = k, row_value = v\<rparr>) m"

definition sample_rows :: "int \<Rightarrow> sources \<Rightarrow> collector \<Rightarrow> (metric_row list \<times> collector) res" where
  "sample_rows grid_epoch so c =
     res_map (\<lambda>(host_r, cpu).
        let gpu_r = gpu_sample (so_gpu so);
            vllm_r = collect_vllm_metrics (co_vllm_url c) (so_vllm so);
            (rpm, samples) = rate_update grid_epoch (map_of (merge (merge host_r gpu_r) vllm_r) M_VLLM_SUCCESS_STOP) (co_rate c);
            m = slot_readings host_r gpu_r vllm_r rpm (co_worker_start c) (co_vllm_start c) in
        (slot_rows (co_node_id c) grid_epoch m, c\<lparr>co_cpu := cpu, co_rate := samples\<rparr>))
       (collect_host_metrics (so_cores so) (so_stat so) (so_meminfo so) (co_cpu c))"

definition sample_at :: "int \<Rightarrow> sources \<Rightarrow> collector \<Rightarrow> collector res" where
  "sample_at grid_epoch so c =
     res_map (\<lambda>(rs, c'). if rs = [] then c' else c'\<lparr>co_buffer := buffer_append rs (co_buffer c')\<rparr>) (sample_rows grid_epoch so c)"

text \<open>\<open>_flush_once\<close> up to the send: the report, if there is anything to report.\<close>

definition flush_begin :: "collector \<Rightarrow> metrics_report option \<times> collector" where
  "flush_begin c =
     (case buffer_drain (co_buffer c) of
        (batch, b) \<Rightarrow>
          (if batch = [] then None
           else Some \<lparr>mr_node_id = co_node_id c,
                      mr_points = map (\<lambda>r. \<lparr>mp_timestamp = row_timestamp r, mp_metric = row_metric r, mp_value = row_value r\<rparr>) batch\<rparr>,
           c\<lparr>co_buffer := b, in_flight := batch\<rparr>))"

text \<open>Its end: the send returned, or it raised and the batch goes back.\<close>

definition flush_end :: "bool \<Rightarrow> collector \<Rightarrow> collector" where
  "flush_end ok c =
     (if ok then c\<lparr>in_flight := []\<rparr>
      else c\<lparr>in_flight := [], co_buffer := buffer_restore (in_flight c) (co_buffer c)\<rparr>)"

section \<open>Eviction\<close>

lemma evict_step:
  assumes "rs \<noteq> [] \<and> cap \<le> span rs \<and> oldest_chunk chunk rs \<noteq> []"
  shows "evict cap chunk rs = evict cap chunk (drop (length (oldest_chunk chunk rs)) rs)"
  using assms by (subst evict.simps) simp

lemma evict_stop: "\<not> (rs \<noteq> [] \<and> cap \<le> span rs \<and> oldest_chunk chunk rs \<noteq> []) \<Longrightarrow> evict cap chunk rs = rs"
  by (subst evict.simps) auto

lemma evict_suffix: "\<exists>old. rs = old @ evict cap chunk rs"
proof (induction cap chunk rs rule: evict.induct)
  case (1 cap chunk rs)
  show ?case
  proof (cases "rs \<noteq> [] \<and> cap \<le> span rs \<and> oldest_chunk chunk rs \<noteq> []")
    case True
    let ?n = "length (oldest_chunk chunk rs)"
    from 1 [OF True] obtain old where "drop ?n rs = old @ evict cap chunk (drop ?n rs)" by blast
    then have "rs = (take ?n rs @ old) @ evict cap chunk (drop ?n rs)" by (metis append.assoc append_take_drop_id)
    with evict_step [OF True] show ?thesis by metis
  next
    case False
    then show ?thesis by (simp add: evict_stop)
  qed
qed

lemma oldest_chunk_nonempty: "rs \<noteq> [] \<Longrightarrow> 0 < chunk \<Longrightarrow> oldest_chunk chunk rs \<noteq> []"
  by (cases rs) (auto simp: oldest_chunk_def)

lemma evict_span: "0 < chunk \<Longrightarrow> evict cap chunk rs \<noteq> [] \<Longrightarrow> span (evict cap chunk rs) < cap"
proof (induction cap chunk rs rule: evict.induct)
  case (1 cap chunk rs)
  show ?case
  proof (cases "rs \<noteq> [] \<and> cap \<le> span rs \<and> oldest_chunk chunk rs \<noteq> []")
    case True
    note step = evict_step [OF True]
    have "evict cap chunk (drop (length (oldest_chunk chunk rs)) rs) \<noteq> []" using 1(3) unfolding step .
    with 1(1) [OF True 1(2)] show ?thesis unfolding step .
  next
    case False
    then have "evict cap chunk rs = rs" by (rule evict_stop)
    with False 1(2,3) oldest_chunk_nonempty [of rs chunk] show ?thesis by auto
  qed
qed

text \<open>Nothing is evicted below the capacity.\<close>

lemma evict_within: "rs = [] \<or> span rs < cap \<Longrightarrow> evict cap chunk rs = rs"
  by (rule evict_stop) auto

section \<open>Runs\<close>

datatype collector_event = CSample int sources | CFlush | CSent bool | CServing real | CDown

text \<open>The collector with its history: the rows sampled, delivered by a successful report, and evicted.
  A sampling step whose parser raises ends the sampler; the step changes nothing.\<close>

record history =
  hi_col :: collector
  hi_sampled :: "metric_row list"
  hi_delivered :: "metric_row list"
  hi_evicted :: "metric_row list"

definition dropped :: "metrics_buffer \<Rightarrow> metric_row list \<Rightarrow> metric_row list" where
  "dropped b rs = take (length rs - length (evict (capacity_s b) (evict_chunk_s b) rs)) rs"

definition history_exec :: "collector_event \<Rightarrow> history \<Rightarrow> history" where
  "history_exec e h =
     (let c = hi_col h in
      case e of
        CSample t so \<Rightarrow>
          (case sample_rows t so c of
             Inl _ \<Rightarrow> h
           | Inr (rs, c') \<Rightarrow>
               h\<lparr>hi_col := (case sample_at t so c of Inr c2 \<Rightarrow> c2 | Inl _ \<Rightarrow> c),
                 hi_sampled := hi_sampled h @ rs,
                 hi_evicted := hi_evicted h @ (if rs = [] then [] else dropped (co_buffer c) (rows (co_buffer c) @ rs))\<rparr>)
      | CFlush \<Rightarrow> if in_flight c \<noteq> [] then h else h\<lparr>hi_col := snd (flush_begin c)\<rparr>
      | CSent ok \<Rightarrow>
          h\<lparr>hi_col := flush_end ok c,
            hi_delivered := hi_delivered h @ (if ok then in_flight c else []),
            hi_evicted := hi_evicted h @ (if ok then [] else dropped (co_buffer c) (in_flight c @ rows (co_buffer c)))\<rparr>
      | CServing now \<Rightarrow> h\<lparr>hi_col := mark_serving now c\<rparr>
      | CDown \<Rightarrow> h\<lparr>hi_col := clear_serving c\<rparr>)"

definition history_start :: "collector \<Rightarrow> history" where
  "history_start c = \<lparr>hi_col = c, hi_sampled = [], hi_delivered = [], hi_evicted = []\<rparr>"

definition kept :: "history \<Rightarrow> metric_row list" where
  "kept h = hi_delivered h @ in_flight (hi_col h) @ rows (co_buffer (hi_col h))"

definition conserved :: "history \<Rightarrow> bool" where
  "conserved h \<longleftrightarrow> mset (hi_sampled h) = mset (kept h) + mset (hi_evicted h) \<and> subseq (kept h) (hi_sampled h)"

lemma dropped_append: "dropped b rs @ evict (capacity_s b) (evict_chunk_s b) rs = rs"
proof -
  obtain old where "rs = old @ evict (capacity_s b) (evict_chunk_s b) rs" using evict_suffix by blast
  then show ?thesis unfolding dropped_def by (metis append_eq_conv_conj diff_add_inverse2 length_append)
qed

lemma mset_dropped: "mset rs = mset (dropped b rs) + mset (evict (capacity_s b) (evict_chunk_s b) rs)"
  by (metis dropped_append mset_append)

lemma subseq_evict: "subseq (xs @ evict cap chunk rs) (xs @ rs)"
proof -
  obtain old where "rs = old @ evict cap chunk rs" using evict_suffix by blast
  then have "subseq (evict cap chunk rs) rs" by (metis list_emb_append2 subseq_order.refl)
  then show ?thesis by (intro list_emb_append_mono) simp_all
qed

text \<open>No sampled rows are as far apart as the capacity.\<close>

definition within_capacity :: "real \<Rightarrow> metric_row list \<Rightarrow> bool" where
  "within_capacity cap rs \<longleftrightarrow> (\<forall>r \<in> set rs. \<forall>s \<in> set rs. of_int (row_epoch s - row_epoch r) < cap)"

lemma dropped_within:
  assumes "within_capacity (capacity_s b) all" "set rs \<subseteq> set all" shows "dropped b rs = []"
proof -
  have "rs = [] \<or> span rs < capacity_s b"
    using assms hd_in_set [of rs] last_in_set [of rs] unfolding within_capacity_def span_def by blast
  then show ?thesis using evict_within [of rs "capacity_s b" "evict_chunk_s b"] by (simp add: dropped_def)
qed

definition ledger_ok :: "real \<Rightarrow> real \<Rightarrow> history \<Rightarrow> bool" where
  "ledger_ok cap chunk h \<longleftrightarrow> conserved h \<and> capacity_s (co_buffer (hi_col h)) = cap \<and> evict_chunk_s (co_buffer (hi_col h)) = chunk
     \<and> (within_capacity cap (hi_sampled h) \<longrightarrow> hi_evicted h = [])
     \<and> (0 < chunk \<longrightarrow> rows (co_buffer (hi_col h)) = [] \<or> span (rows (co_buffer (hi_col h))) < cap)"

lemma conserved_set: "conserved h \<Longrightarrow> set (kept h) \<subseteq> set (hi_sampled h)"
  unfolding conserved_def by (auto dest: list_emb_set)

lemma buffer_ops [simp]:
  "rows (buffer_append rs b) = evict (capacity_s b) (evict_chunk_s b) (rows b @ rs)"
  "rows (buffer_restore rs b) = evict (capacity_s b) (evict_chunk_s b) (rs @ rows b)"
  "capacity_s (buffer_append rs b) = capacity_s b" "evict_chunk_s (buffer_append rs b) = evict_chunk_s b"
  "capacity_s (buffer_restore rs b) = capacity_s b" "evict_chunk_s (buffer_restore rs b) = evict_chunk_s b"
  by (simp_all add: buffer_append_def buffer_restore_def evict_locked_def)

lemma sample_rows_fields:
  assumes "sample_rows t so c = Inr (rs, c')"
  shows "co_buffer c' = co_buffer c" "in_flight c' = in_flight c"
  using assms by (auto simp: sample_rows_def res_map_def res_bind_Inr Let_def split_def)

text \<open>One step that replaces the buffered rows by what eviction leaves of longer ones.\<close>

lemma ledger_evict:
  assumes ok: "ledger_ok cap chunk h"
    and b: "capacity_s b = cap" "evict_chunk_s b = chunk"
    and k: "hi_delivered h @ in_flight (hi_col h) @ rows (co_buffer (hi_col h)) @ rs = pre @ all"
    and h': "hi_sampled h' = hi_sampled h @ rs" "hi_evicted h' = hi_evicted h @ dropped b all"
      "kept h' = pre @ evict cap chunk all" "rows (co_buffer (hi_col h')) = evict cap chunk all"
      "capacity_s (co_buffer (hi_col h')) = cap" "evict_chunk_s (co_buffer (hi_col h')) = chunk"
  shows "ledger_ok cap chunk h'"
proof -
  have con: "mset (hi_sampled h) = mset (kept h) + mset (hi_evicted h)" "subseq (kept h) (hi_sampled h)"
    using ok by (auto simp: ledger_ok_def conserved_def)
  have k': "kept h @ rs = pre @ all" using k by (simp add: kept_def)
  have "mset (pre @ all) = mset (kept h) + mset rs" using k' by (metis mset_append)
  then have m: "mset (hi_sampled h') = mset (kept h') + mset (hi_evicted h')"
    using con(1) h' mset_dropped [of all b] b by (simp add: ac_simps)
  have "subseq (pre @ evict cap chunk all) (kept h @ rs)" unfolding k' by (rule subseq_evict)
  moreover have "subseq (kept h @ rs) (hi_sampled h @ rs)" using con(2) by (intro list_emb_append_mono) simp_all
  ultimately have s: "subseq (kept h') (hi_sampled h')" unfolding h' by (rule subseq_order.order_trans)
  have "hi_evicted h' = []" if w: "within_capacity cap (hi_sampled h')"
  proof -
    have "within_capacity cap (hi_sampled h)" using w h' by (auto simp: within_capacity_def)
    then have "hi_evicted h = []" using ok by (simp add: ledger_ok_def)
    moreover have "set all \<subseteq> set (kept h @ rs)" unfolding k' by auto
    then have "set all \<subseteq> set (hi_sampled h')"
      using conserved_set [of h] ok h' by (auto simp: ledger_ok_def)
    ultimately show ?thesis using dropped_within [of b "hi_sampled h'" all] w b h' by simp
  qed
  moreover have "0 < chunk \<longrightarrow> evict cap chunk all = [] \<or> span (evict cap chunk all) < cap" using evict_span by blast
  ultimately show ?thesis using m s h' by (simp add: ledger_ok_def conserved_def)
qed

lemma ledger_cong:
  assumes "ledger_ok cap chunk h" "hi_sampled h' = hi_sampled h" "hi_evicted h' = hi_evicted h" "kept h' = kept h"
    "rows (co_buffer (hi_col h')) = [] \<or> rows (co_buffer (hi_col h')) = rows (co_buffer (hi_col h))"
    "capacity_s (co_buffer (hi_col h')) = cap" "evict_chunk_s (co_buffer (hi_col h')) = chunk"
  shows "ledger_ok cap chunk h'"
  using assms by (auto simp: ledger_ok_def conserved_def)

lemma ledger_sample:
  assumes ok: "ledger_ok cap chunk h" shows "ledger_ok cap chunk (history_exec (CSample t so) h)"
proof (cases "sample_rows t so (hi_col h)")
  case (Inl e)
  with ok show ?thesis by (simp add: history_exec_def)
next
  case (Inr p)
  obtain rs c' where r: "sample_rows t so (hi_col h) = Inr (rs, c')" using Inr by (cases p) simp
  note f = sample_rows_fields [OF r]
  have b: "capacity_s (co_buffer (hi_col h)) = cap" "evict_chunk_s (co_buffer (hi_col h)) = chunk"
    using ok by (auto simp: ledger_ok_def)
  show ?thesis
  proof (cases "rs = []")
    case True
    with r f ok b show ?thesis
      by (intro ledger_cong [OF ok]) (simp_all add: history_exec_def Let_def sample_at_def kept_def)
  next
    case False
    with r f b show ?thesis
      by (intro ledger_evict [OF ok b, of rs "hi_delivered h @ in_flight (hi_col h)" "rows (co_buffer (hi_col h)) @ rs"])
        (simp_all add: history_exec_def Let_def sample_at_def kept_def)
  qed
qed

lemma ledger_exec: "ledger_ok cap chunk h \<Longrightarrow> ledger_ok cap chunk (history_exec e h)"
proof -
  assume ok: "ledger_ok cap chunk h"
  have b: "capacity_s (co_buffer (hi_col h)) = cap" "evict_chunk_s (co_buffer (hi_col h)) = chunk"
    using ok by (auto simp: ledger_ok_def)
  show ?thesis
  proof (cases e)
    case (CSample t so)
    with ledger_sample [OF ok] show ?thesis by simp
  next
    case CFlush
    with b show ?thesis
      by (intro ledger_cong [OF ok])
        (auto simp: history_exec_def kept_def flush_begin_def buffer_drain_def Let_def)
  next
    case (CSent sent)
    show ?thesis
    proof (cases sent)
      case True
      with CSent b show ?thesis
        by (intro ledger_cong [OF ok]) (simp_all add: history_exec_def Let_def kept_def flush_end_def)
    next
      case False
      with CSent b show ?thesis
        by (intro ledger_evict [OF ok b, of "[]" "hi_delivered h" "in_flight (hi_col h) @ rows (co_buffer (hi_col h))"])
          (simp_all add: history_exec_def Let_def kept_def flush_end_def)
    qed
  next
    case (CServing now)
    with b show ?thesis
      by (intro ledger_cong [OF ok]) (simp_all add: history_exec_def Let_def kept_def mark_serving_def)
  next
    case CDown
    with b show ?thesis
      by (intro ledger_cong [OF ok]) (simp_all add: history_exec_def Let_def kept_def clear_serving_def)
  qed
qed

lemma ledger_start: "ledger_ok cap chunk (history_start (new_collector nid cap chunk url start cpu))"
  by (simp add: ledger_ok_def conserved_def kept_def history_start_def new_collector_def make_buffer_def)

interpretation ledger: event_machine "history_start (new_collector nid cap chunk url start cpu)" history_exec "ledger_ok cap chunk"
  for nid cap chunk url start cpu
  by unfold_locales (auto intro: ledger_start ledger_exec)

section \<open>The three sources do not overwrite each other\<close>

lemma map_of_merge: "map_of (merge out new) k = (case map_of (rev new) k of None \<Rightarrow> map_of out k | Some v \<Rightarrow> Some v)"
proof (induction new rule: rev_induct)
  case (snoc kv new)
  then show ?case by (cases kv) (auto simp: merge_def put_def update_conv')
qed (simp add: merge_def)

lemma merge_other: "in_domain p new \<Longrightarrow> \<not> py_startswith k p \<Longrightarrow> map_of (merge out new) k = map_of out k"
proof -
  assume d: "in_domain p new" and k: "\<not> py_startswith k p"
  have "k \<notin> fst ` set (rev new)" using d k by (auto simp: in_domain_def)
  then have "map_of (rev new) k = None" by (simp add: map_of_eq_None_iff)
  then show ?thesis by (simp add: map_of_merge)
qed

lemma slot_keeps_host:
  assumes "in_domain ''worker:'' host_r" "in_domain ''gpu:#'' gpu_r" "in_domain ''vllm:'' vllm_r"
    and "py_startswith k ''worker:''" "k \<noteq> M_WORKER_START"
  shows "map_of (slot_readings host_r gpu_r vllm_r rpm ws vs) k = map_of host_r k"
proof -
  have "\<not> py_startswith k ''gpu:#''" "\<not> py_startswith k ''vllm:''" "k \<noteq> M_VLLM_REQ_PER_MIN" "k \<noteq> M_VLLM_START"
    using assms(4) by (auto simp: py_startswith_iff M_VLLM_REQ_PER_MIN_def M_VLLM_START_def)
  then show ?thesis using assms
    by (simp add: slot_readings_def put_opt_def put_def update_conv' merge_other split: option.split)
qed

section \<open>Properties\<close>


definition demo_sources :: sources where
  "demo_sources = \<lparr>so_cores = 0, so_stat = None, so_meminfo = None, so_gpu = NoGpu, so_vllm = None\<rparr>"

lemma demo_sample:
  "sample_rows t demo_sources c =
     Inr (slot_rows (co_node_id c) t (put_opt M_VLLM_START (co_vllm_start c) [(M_WORKER_START, co_worker_start c)]), c)"
  by (cases "co_vllm_start c"; cases "truthy (co_vllm_url c)")
    (simp_all add: sample_rows_def demo_sources_def collect_host_metrics_def cpu_utilization_def gpu_sample_def
      collect_vllm_metrics_def merge_def slot_readings_def put_opt_def put_def rate_update_def)




lemma subseq_sorted: "subseq xs ys \<Longrightarrow> sorted ys \<Longrightarrow> sorted xs"
  for xs ys :: "int list"
proof (induction xs ys rule: list_emb.induct)
  case (list_emb_Cons2 x y xs ys)
  have "set xs \<subseteq> set ys" using list_emb_set [OF list_emb_Cons2.hyps(2)] by blast
  with list_emb_Cons2 show ?case by auto
qed simp_all

text \<open>The buffer stays bounded during an outage. When samples are taken at non-decreasing times
  and the eviction chunk is positive, no two buffered rows are ever as far apart as the capacity.\<close>

lemma buffer_bounded:
  fixes nid url start cpu
  defines "h cap chunk es \<equiv> fold history_exec es (history_start (new_collector nid cap chunk url start cpu))"
  assumes "sorted (map row_epoch (hi_sampled (h cap chunk es)))" "0 < chunk"
    and "r \<in> set (rows (co_buffer (hi_col (h cap chunk es))))" "s \<in> set (rows (co_buffer (hi_col (h cap chunk es))))"
  shows "of_int (row_epoch s - row_epoch r) < cap"
proof -
  let ?rows = "rows (co_buffer (hi_col (h cap chunk es)))"
  have ok: "ledger_ok cap chunk (h cap chunk es)" unfolding h_def by (rule ledger.good_reachable)
  have "subseq ?rows (kept (h cap chunk es))" by (simp add: kept_def list_emb_append2)
  then have "subseq ?rows (hi_sampled (h cap chunk es))"
    using ok subseq_order.order_trans unfolding ledger_ok_def conserved_def by blast
  then have "subseq (map row_epoch ?rows) (map row_epoch (hi_sampled (h cap chunk es)))" by (rule subseq_map)
  with assms(2) have so: "sorted (map row_epoch ?rows)" using subseq_sorted by blast
  have ne: "?rows \<noteq> []" using assms(4) by auto
  have "row_epoch (hd ?rows) \<le> row_epoch r"
    using so assms(4) ne by (cases ?rows) auto
  moreover have "row_epoch s \<le> row_epoch (last ?rows)"
  proof -
    obtain ys y where y: "?rows = ys @ [y]" using ne by (metis rev_exhaust)
    then show ?thesis using so assms(5) by (auto simp: sorted_append)
  qed
  moreover have "span ?rows < cap" using ok assms(3) ne by (auto simp: ledger_ok_def)
  ultimately show ?thesis unfolding span_def by linarith
qed

definition outage_history :: history where
  "outage_history = fold history_exec [CSample 5 demo_sources, CSample 10 demo_sources]
     (history_start (new_collector ''n'' 1800 300 None 1 None))"

lemma outage_history_rows:
  "hi_sampled outage_history = slot_rows ''n'' 5 [(M_WORKER_START, 1)] @ slot_rows ''n'' 10 [(M_WORKER_START, 1)]"
  "rows (co_buffer (hi_col outage_history)) = hi_sampled outage_history"
  by (simp_all add: outage_history_def history_exec_def history_start_def new_collector_def demo_sample sample_at_def Let_def
      put_opt_def slot_rows_def make_buffer_def evict_within span_def)

lemma buffer_bounded_witness:
  "of_int (row_epoch (last (rows (co_buffer (hi_col outage_history)))) - row_epoch (hd (rows (co_buffer (hi_col outage_history))))) < (1800 :: real)"
proof -
  let ?rs = "rows (co_buffer (hi_col outage_history))"
  have "sorted (map row_epoch (hi_sampled outage_history))" "hd ?rs \<in> set ?rs" "last ?rs \<in> set ?rs"
    by (simp_all add: outage_history_rows slot_rows_def)
  then show ?thesis
    using buffer_bounded [where cap = 1800 and chunk = 300 and nid = "''n''" and url = None and start = 1 and cpu = None
      and es = "[CSample 5 demo_sources, CSample 10 demo_sources]" and r = "hd ?rs" and s = "last ?rs"]
    unfolding outage_history_def [symmetric] by simp
qed

end
