(* ===== verification/Effects.thy ===== *)
theory Effects
  imports Prelude
begin

text \<open>
  Straight-line imperative code that may raise: an action takes a state and gives a result and the
  state it leaves, also when it raises. \<open>keeps P m\<close> says that \<open>m\<close> preserves \<open>P\<close> whatever it returns, and
  \<open>brings P m Q\<close> says in which states a result may be returned; their rules follow the structure of the code.
\<close>

named_theorems keeps_intros \<open>structural rules of keeps\<close>
named_theorems act_simps \<open>evaluation of actions\<close>

type_synonym ('s, 'a) act = "'s \<Rightarrow> 'a res \<times> 's"

definition ret :: "'a \<Rightarrow> ('s, 'a) act" where "ret x = (\<lambda>s. (Inr x, s))"
definition raise :: "err \<Rightarrow> ('s, 'a) act" where "raise e = (\<lambda>s. (Inl e, s))"
definition lift_res :: "'a res \<Rightarrow> ('s, 'a) act" where "lift_res r = (\<lambda>s. (r, s))"
definition gets :: "('s \<Rightarrow> 'a) \<Rightarrow> ('s, 'a) act" where "gets f = (\<lambda>s. (Inr (f s), s))"
definition modify :: "('s \<Rightarrow> 's) \<Rightarrow> ('s, unit) act" where "modify f = (\<lambda>s. (Inr (), f s))"

definition act_bind :: "('s, 'a) act \<Rightarrow> ('a \<Rightarrow> ('s, 'b) act) \<Rightarrow> ('s, 'b) act" where
  "act_bind m f = (\<lambda>s. case m s of (Inl e, t) \<Rightarrow> (Inl e, t) | (Inr x, t) \<Rightarrow> f x t)"

definition act_then :: "('s, unit) act \<Rightarrow> ('s, 'b) act \<Rightarrow> ('s, 'b) act" where
  "act_then m k = act_bind m (\<lambda>_. k)"

text \<open>\<open>try: m; except E: h\<close>\<close>

definition catch :: "('s, 'a) act \<Rightarrow> (err \<Rightarrow> bool) \<Rightarrow> ('s, 'a) act \<Rightarrow> ('s, 'a) act" where
  "catch m P h = (\<lambda>s. case m s of (Inl e, t) \<Rightarrow> if P e then h t else (Inl e, t) | (Inr x, t) \<Rightarrow> (Inr x, t))"

text \<open>A loop over a list whose body raises or continues.\<close>

fun for_each :: "('a \<Rightarrow> ('s, unit) act) \<Rightarrow> 'a list \<Rightarrow> ('s, unit) act" where
  "for_each f [] = ret ()"
| "for_each f (x # xs) = act_then (f x) (for_each f xs)"

lemmas act_defs = ret_def raise_def lift_res_def gets_def modify_def

lemma act_eval [act_simps]:
  "ret x s = (Inr x, s)" "raise e s = (Inl e, s)" "lift_res r s = (r, s)" "gets f s = (Inr (f s), s)" "modify g s = (Inr (), g s)"
  by (simp_all add: act_defs)

lemma act_bind_eval [act_simps]:
  "m s = (Inl e, t) \<Longrightarrow> act_bind m f s = (Inl e, t)"
  "m s = (Inr x, t) \<Longrightarrow> act_bind m f s = f x t"
  by (simp_all add: act_bind_def)

lemma act_bind_laws [simp]:
  "act_bind (ret x) f = f x" "act_bind (raise e) f = raise e" "act_bind m ret = m"
  by (auto simp: act_bind_def act_defs fun_eq_iff split: sum.split prod.split)

lemma lift_res_simps [simp]: "lift_res (Inr x) = ret x" "lift_res (Inl e) = raise e"
  by (simp_all add: act_defs)

lemma act_bind_assoc: "act_bind (act_bind m f) g = act_bind m (\<lambda>x. act_bind (f x) g)"
  by (auto simp: act_bind_def fun_eq_iff split: sum.split prod.split)

section \<open>Invariants of actions\<close>

definition keeps :: "('s \<Rightarrow> bool) \<Rightarrow> ('s, 'a) act \<Rightarrow> bool" where
  "keeps P m \<longleftrightarrow> (\<forall>s. P s \<longrightarrow> P (snd (m s)))"

lemma keepsD: "keeps P m \<Longrightarrow> P s \<Longrightarrow> m s = (r, t) \<Longrightarrow> P t"
  unfolding keeps_def by (metis snd_conv)

lemma keeps_pure [keeps_intros, simp]:
  "keeps P (ret x)" "keeps P (raise e)" "keeps P (lift_res r)" "keeps P (gets f)"
  by (simp_all add: keeps_def act_defs)

lemma keeps_modify: "(\<And>s. P s \<Longrightarrow> P (f s)) \<Longrightarrow> keeps P (modify f)"
  by (simp add: keeps_def act_defs)

lemma keeps_bind [keeps_intros]: "keeps P m \<Longrightarrow> (\<And>x. keeps P (f x)) \<Longrightarrow> keeps P (act_bind m f)"
  unfolding keeps_def act_bind_def by (auto split: prod.split sum.split dest: spec)

lemma keeps_then [keeps_intros]: "keeps P m \<Longrightarrow> keeps P k \<Longrightarrow> keeps P (act_then m k)"
  unfolding act_then_def by (rule keeps_bind)

lemma keeps_catch [keeps_intros]: "keeps P m \<Longrightarrow> keeps P h \<Longrightarrow> keeps P (catch m Q h)"
  unfolding keeps_def catch_def by (auto split: prod.split sum.split)

lemma keeps_for_each [keeps_intros]: "(\<And>x. x \<in> set xs \<Longrightarrow> keeps P (f x)) \<Longrightarrow> keeps P (for_each f xs)"
  by (induction xs) (auto intro: keeps_then)

lemma keeps_if [keeps_intros]: "(b \<Longrightarrow> keeps P m) \<Longrightarrow> (\<not> b \<Longrightarrow> keeps P k) \<Longrightarrow> keeps P (if b then m else k)"
  by simp

lemma keeps_case_option [keeps_intros]:
  "(x = None \<Longrightarrow> keeps P m) \<Longrightarrow> (\<And>y. x = Some y \<Longrightarrow> keeps P (f y)) \<Longrightarrow> keeps P (case x of None \<Rightarrow> m | Some y \<Rightarrow> f y)"
  by (cases x) auto

lemma keeps_case_sum [keeps_intros]:
  "(\<And>e. x = Inl e \<Longrightarrow> keeps P (f e)) \<Longrightarrow> (\<And>y. x = Inr y \<Longrightarrow> keeps P (g y)) \<Longrightarrow> keeps P (case x of Inl e \<Rightarrow> f e | Inr y \<Rightarrow> g y)"
  by (cases x) auto

lemma keeps_case_prod [keeps_intros]:
  "(\<And>a b. x = (a, b) \<Longrightarrow> keeps P (f a b)) \<Longrightarrow> keeps P (case x of (a, b) \<Rightarrow> f a b)"
  by (cases x) auto

lemma keeps_let [keeps_intros]: "(\<And>y. y = x \<Longrightarrow> keeps P (f y)) \<Longrightarrow> keeps P (let y = x in f y)"
  by simp

text \<open>A stronger statement for code whose later steps depend on where the earlier ones stopped:
  started in \<open>P\<close>, every state it leaves satisfies \<open>R\<close>, and it returns \<open>x\<close> only in a state of \<open>Q x\<close>.\<close>

definition brings :: "('s \<Rightarrow> bool) \<Rightarrow> ('s, 'a) act \<Rightarrow> ('a \<Rightarrow> 's \<Rightarrow> bool) \<Rightarrow> ('s \<Rightarrow> bool) \<Rightarrow> bool" where
  "brings P m Q R \<longleftrightarrow> (\<forall>s. P s \<longrightarrow> (case m s of (Inl e, t) \<Rightarrow> R t | (Inr x, t) \<Rightarrow> Q x t))"

lemma brings_result: "brings P m Q R \<Longrightarrow> P s \<Longrightarrow> m s = (Inr x, t) \<Longrightarrow> Q x t"
  unfolding brings_def by (metis (mono_tags, lifting) case_prod_conv sum.case(2))

lemma brings_state: "brings P m (\<lambda>_. Q) Q \<Longrightarrow> P s \<Longrightarrow> Q (snd (m s))"
  unfolding brings_def by (cases "m s"; cases "fst (m s)") auto

lemma brings_bind: "brings P m Q R \<Longrightarrow> (\<And>x. brings (Q x) (f x) Q' R) \<Longrightarrow> brings P (act_bind m f) Q' R"
  unfolding brings_def act_bind_def
proof (intro allI impI)
  fix s assume m: "\<forall>s. P s \<longrightarrow> (case m s of (Inl e, t) \<Rightarrow> R t | (Inr x, t) \<Rightarrow> Q x t)" and s: "P s"
    and f: "\<And>x. \<forall>s. Q x s \<longrightarrow> (case f x s of (Inl e, t) \<Rightarrow> R t | (Inr x, t) \<Rightarrow> Q' x t)"
  obtain r t where r: "m s = (r, t)" by (cases "m s")
  then show "case (case m s of (Inl e, t) \<Rightarrow> (Inl e, t) | (Inr x, t) \<Rightarrow> f x t) of (Inl e, t) \<Rightarrow> R t | (Inr x, t) \<Rightarrow> Q' x t"
    using m [rule_format, OF s] f by (cases r) simp_all
qed

lemma brings_then: "brings P m (\<lambda>_. Q) R \<Longrightarrow> brings Q k Q' R \<Longrightarrow> brings P (act_then m k) Q' R"
  unfolding act_then_def by (rule brings_bind)

lemma brings_catch: "brings P m Q R \<Longrightarrow> brings R h Q R \<Longrightarrow> brings P (catch m X h) Q R"
  unfolding brings_def catch_def
proof (intro allI impI)
  fix s assume m: "\<forall>s. P s \<longrightarrow> (case m s of (Inl e, t) \<Rightarrow> R t | (Inr x, t) \<Rightarrow> Q x t)" and s: "P s"
    and h: "\<forall>s. R s \<longrightarrow> (case h s of (Inl e, t) \<Rightarrow> R t | (Inr x, t) \<Rightarrow> Q x t)"
  obtain r t where r: "m s = (r, t)" by (cases "m s")
  show "case (case m s of (Inl e, t) \<Rightarrow> if X e then h t else (Inl e, t) | (Inr x, t) \<Rightarrow> (Inr x, t)) of (Inl e, t) \<Rightarrow> R t | (Inr x, t) \<Rightarrow> Q x t"
    using m [rule_format, OF s] h r by (cases r) simp_all
qed

lemma brings_weaken:
  "brings P m Q R \<Longrightarrow> (\<And>s. P' s \<Longrightarrow> P s) \<Longrightarrow> (\<And>x s. Q x s \<Longrightarrow> Q' x s) \<Longrightarrow> (\<And>s. R s \<Longrightarrow> R' s) \<Longrightarrow> brings P' m Q' R'"
  unfolding brings_def by (fastforce split: prod.split sum.split)

lemma brings_keeps: "keeps P m \<longleftrightarrow> brings P m (\<lambda>_. P) P"
  unfolding brings_def keeps_def by (fastforce split: prod.split sum.split)

lemma brings_then_inv: "brings P m (\<lambda>_. R) R \<Longrightarrow> keeps R k \<Longrightarrow> brings P (act_then m k) (\<lambda>_. R) R"
  by (rule brings_then) (simp_all add: brings_keeps)

lemma brings_if_pure: "(\<phi> \<Longrightarrow> brings P m Q R) \<Longrightarrow> brings (\<lambda>w. P w \<and> \<phi>) m Q R"
  by (auto simp: brings_def)

lemma brings_ret: "(\<And>w. P w \<Longrightarrow> Q x w) \<Longrightarrow> brings P (ret x) Q R"
  by (simp add: brings_def act_defs)

lemma brings_raise: "(\<And>w. P w \<Longrightarrow> R w) \<Longrightarrow> brings P (raise e) Q R"
  by (simp add: brings_def act_defs)

lemma brings_of_keeps: "keeps P m \<Longrightarrow> (\<And>x. brings P (f x) Q P) \<Longrightarrow> brings P (act_bind m f) Q P"
  unfolding brings_keeps by (rule brings_bind)

lemma act_bind_Inr: "act_bind m f w = (Inr x, w') \<longleftrightarrow> (\<exists>y w1. m w = (Inr y, w1) \<and> f y w1 = (Inr x, w'))"
  by (auto simp: act_bind_def split: prod.splits sum.splits)

lemma brings_after: "keeps P m \<Longrightarrow> (\<And>w. P w \<Longrightarrow> R w) \<Longrightarrow> brings P k Q R \<Longrightarrow> brings P (act_then m k) Q R"
proof -
  assume m: "keeps P m" and r: "\<And>w. P w \<Longrightarrow> R w" and k: "brings P k Q R"
  have "brings P m (\<lambda>_. P) R" by (rule brings_weaken [OF m [unfolded brings_keeps]]) (auto intro: r)
  from brings_then [OF this k] show ?thesis .
qed

lemma brings_exc: "brings P m Q R \<Longrightarrow> (\<And>w. R w \<Longrightarrow> R' w) \<Longrightarrow> brings P m Q R'"
  by (erule brings_weaken) auto

lemma bringsD: "brings P m Q R \<Longrightarrow> P w \<Longrightarrow> m w = (r, w') \<Longrightarrow> case r of Inl e \<Rightarrow> R w' | Inr x \<Rightarrow> Q x w'"
  unfolding brings_def by (cases r) fastforce+

lemma brings_gets: "(\<And>w. P w \<Longrightarrow> g w = x) \<Longrightarrow> brings P (f x) Q R \<Longrightarrow> brings P (act_bind (gets g) f) Q R"
  by (auto simp: brings_def act_bind_def act_defs)

section \<open>Actions that always return\<close>

named_theorems no_raise_intros \<open>structural rules of no_raise\<close>

definition no_raise :: "('s, 'a) act \<Rightarrow> bool" where
  "no_raise m \<longleftrightarrow> (\<forall>s. \<exists>x t. m s = (Inr x, t))"

lemma no_raise_pure [no_raise_intros, simp]: "no_raise (ret x)" "no_raise (gets f)" "no_raise (modify g)"
  by (simp_all add: no_raise_def act_defs)

lemma no_raise_bind [no_raise_intros]: "no_raise m \<Longrightarrow> (\<And>x. no_raise (f x)) \<Longrightarrow> no_raise (act_bind m f)"
  unfolding no_raise_def act_bind_def by (metis (no_types, lifting) case_prod_conv sum.case(2))

lemma no_raise_then [no_raise_intros]: "no_raise m \<Longrightarrow> no_raise k \<Longrightarrow> no_raise (act_then m k)"
  unfolding act_then_def by (rule no_raise_bind)

lemma no_raise_if [no_raise_intros]: "(b \<Longrightarrow> no_raise m) \<Longrightarrow> (\<not> b \<Longrightarrow> no_raise k) \<Longrightarrow> no_raise (if b then m else k)"
  by simp

lemma no_raise_case_sum [no_raise_intros]:
  "(\<And>e. no_raise (f e)) \<Longrightarrow> (\<And>y. no_raise (g y)) \<Longrightarrow> no_raise (case x of Inl e \<Rightarrow> f e | Inr y \<Rightarrow> g y)"
  by (cases x) auto

lemma no_raise_case_prod [no_raise_intros]: "(\<And>a b. no_raise (f a b)) \<Longrightarrow> no_raise (case x of (a, b) \<Rightarrow> f a b)"
  by (cases x) auto

lemma no_raise_let [no_raise_intros]: "(\<And>y. no_raise (f y)) \<Longrightarrow> no_raise (let y = x in f y)"
  by simp

end
