(* ===== verification/Chat.thy ===== *)
theory Chat
  imports Guard Effects Supervisor
begin

text \<open>
  The agent tier (\<open>src/src/oumigo/api/agent/agent.py\<close>, \<open>chat.py\<close>, \<open>response.py\<close>): an agent with its tools
  and timeouts, the conversation it spawns, and the loop that runs one user turn: model round-trips,
  tool calls, guard evaluations, deadlines, history. The model server, the tools and the clock answer
  from an environment record. A response generator is run to its end; its yielded events, the requests
  it posts, the tools it runs and its guard evaluations are recorded in a trace in the order they happen.
\<close>

section \<open>Values as Python sees them\<close>

text \<open>\<open>v.get(k)\<close>, \<open>v.get(k, d)\<close> on a value of any type, and \<open>v or d\<close>.\<close>

definition get_default :: "json \<Rightarrow> string \<Rightarrow> json \<Rightarrow> json res" where
  "get_default v k d = (case v of JObj kvs \<Rightarrow> Inr (default_to d (map_of kvs k)) | _ \<Rightarrow> Inl (AttributeErr ''get''))"

definition get_item :: "json \<Rightarrow> string \<Rightarrow> json res" where
  "get_item v k = get_default v k JNull"

definition json_or :: "json \<Rightarrow> json \<Rightarrow> json" where
  "json_or v d = (if json_true v then v else d)"

text \<open>\<open>xs[0]\<close>\<close>

definition index0 :: "json \<Rightarrow> json res" where
  "index0 v =
     (case v of
        JList [] \<Rightarrow> Inl (KeyErr ''list index out of range'')
      | JList (x # _) \<Rightarrow> Inr x
      | JStr [] \<Rightarrow> Inl (KeyErr ''string index out of range'')
      | JStr (c # _) \<Rightarrow> Inr (JStr [c])
      | JObj _ \<Rightarrow> Inl (KeyErr ''0'')
      | _ \<Rightarrow> Inl (TypeErr ''object is not subscriptable''))"

definition py_iter :: "json \<Rightarrow> json list res" where
  "py_iter v =
     (case v of
        JList xs \<Rightarrow> Inr xs
      | JStr s \<Rightarrow> Inr (map (\<lambda>c. JStr [c]) s)
      | JObj kvs \<Rightarrow> Inr (map (\<lambda>kv. JStr (fst kv)) kvs)
      | _ \<Rightarrow> Inl (TypeErr ''object is not iterable''))"

text \<open>A value used as a string operand.\<close>

definition as_str :: "json \<Rightarrow> string res" where
  "as_str v = (case v of JStr s \<Rightarrow> Inr s | _ \<Rightarrow> Inl (TypeErr ''can only concatenate str''))"

definition json_opt :: "string option \<Rightarrow> json" where
  "json_opt x = (case x of None \<Rightarrow> JNull | Some s \<Rightarrow> JStr s)"

fun type_name :: "json \<Rightarrow> string" where
  "type_name JNull = ''NoneType''"
| "type_name (JBool _) = ''bool''"
| "type_name (JInt _) = ''int''"
| "type_name (JReal _) = ''float''"
| "type_name (JStr _) = ''str''"
| "type_name (JList _) = ''list''"
| "type_name (JObj _) = ''dict''"

text \<open>\<open>repr\<close> of a string.\<close>

definition hex_char :: "nat \<Rightarrow> char" where
  "hex_char n = (if n < 10 then char_of (48 + n) else char_of (87 + n))"

definition repr_char :: "char \<Rightarrow> char \<Rightarrow> string" where
  "repr_char q c =
     (let n = (of_char c :: nat) in
      if c = q \<or> c = CHR 0x5C then [CHR 0x5C, c]
      else if n = 9 then [CHR 0x5C, CHR ''t'']
      else if n = 10 then [CHR 0x5C, CHR ''n'']
      else if n = 13 then [CHR 0x5C, CHR ''r'']
      else if n < 32 \<or> (127 \<le> n \<and> n \<le> 160) \<or> n = 173
      then [CHR 0x5C, CHR ''x'', hex_char (n div 16), hex_char (n mod 16)]
      else [c])"

definition repr_str :: "string \<Rightarrow> string" where
  "repr_str s =
     (let q = (if CHR 0x27 \<in> set s \<and> CHR 0x22 \<notin> set s then CHR 0x22 else CHR 0x27) in
      [q] @ concat (map (repr_char q) s) @ [q])"

section \<open>tool.py: Tool\<close>

record tool =
  tool_name :: string
  tool_description :: string
  tool_parameters :: json

definition to_openai :: "tool \<Rightarrow> json" where
  "to_openai t =
     JObj [(''type'', JStr ''function''),
           (''function'', JObj [(''name'', JStr (tool_name t)), (''description'', JStr (tool_description t)),
                                (''parameters'', tool_parameters t)])]"

section \<open>agent.py\<close>

definition DEFAULT_MAX_ITERATIONS :: int where "DEFAULT_MAX_ITERATIONS = 5"

text \<open>A timeout argument: not given (ask the fleet), or given, \<open>None\<close> meaning no limit.\<close>

datatype timeout_arg = UNSET | Given "real option"

record agent =
  a_data_url :: string
  a_model :: string
  a_token :: "string option"
  a_max_iterations :: nat
  a_sampling :: "(string \<times> json) list"
  a_tools :: "(string \<times> tool) list"
  a_profile :: "guard_profile option"
  a_turn_timeout :: timeout_arg
  a_stall_timeout :: timeout_arg
  a_defaults_fetched :: bool

fun index_tools_from :: "(string \<times> tool) list \<Rightarrow> tool list \<Rightarrow> (string \<times> tool) list res" where
  "index_tools_from indexed [] = Inr indexed"
| "index_tools_from indexed (t # ts) =
     (if map_of indexed (tool_name t) \<noteq> None then Inl (ValueErr (''duplicate tool name '' @ repr_str (tool_name t) @ '' in this agent''))
      else index_tools_from (AList.update (tool_name t) t indexed) ts)"

definition index_tools :: "tool list \<Rightarrow> (string \<times> tool) list res" where
  "index_tools ts = index_tools_from [] ts"

definition make_agent ::
  "string \<Rightarrow> string option \<Rightarrow> tool list \<Rightarrow> int \<Rightarrow> (string \<times> json) list \<Rightarrow> guard_profile option \<Rightarrow> timeout_arg \<Rightarrow> timeout_arg \<Rightarrow> string \<Rightarrow> agent res"
where
  "make_agent data_url token tools max_iterations sampling prof turn_to stall_to mdl =
     res_map (\<lambda>idx. \<lparr>a_data_url = py_rstrip_char (CHR ''/'') data_url, a_model = mdl, a_token = token,
        a_max_iterations = nat (max 1 max_iterations), a_sampling = sampling, a_tools = idx, a_profile = prof,
        a_turn_timeout = turn_to, a_stall_timeout = stall_to,
        a_defaults_fetched = (turn_to \<noteq> UNSET \<and> stall_to \<noteq> UNSET)\<rparr>) (index_tools tools)"

definition as_seconds :: "json \<Rightarrow> real option" where
  "as_seconds v =
     (case (case v of JStr s \<Rightarrow> py_float s | _ \<Rightarrow> json_num v) of
        None \<Rightarrow> None | Some x \<Rightarrow> if 0 < x then Some x else None)"

definition filled :: "timeout_arg \<Rightarrow> json \<Rightarrow> timeout_arg" where
  "filled x v = (if x = UNSET then Given (as_seconds v) else x)"

text \<open>\<open>_resolve_timeouts\<close>; the argument is the body of a 200 answer, if there was one and it parsed.\<close>

definition resolve_timeouts :: "json option \<Rightarrow> agent \<Rightarrow> agent" where
  "resolve_timeouts answer a =
     (if a_defaults_fetched a then a
      else
        let declared = (case answer of Some (JObj kvs) \<Rightarrow> kvs | _ \<Rightarrow> []) in
        a\<lparr>a_defaults_fetched := True,
          a_turn_timeout := filled (a_turn_timeout a) (obj_get declared ''turn_timeout''),
          a_stall_timeout := filled (a_stall_timeout a) (obj_get declared ''stall_timeout'')\<rparr>)"

definition limit_of :: "timeout_arg \<Rightarrow> real option" where
  "limit_of x = (case x of UNSET \<Rightarrow> None | Given t \<Rightarrow> t)"

section \<open>chat.py: the conversation\<close>

definition TIMEOUT_TEXT :: string where
  "TIMEOUT_TEXT = [CHR 0x0A, CHR 0x0A] @ ''[OumiGo] Timed out before the model finished this turn.''"

definition DEFAULT_BLOCK_TEXT :: string where
  "DEFAULT_BLOCK_TEXT = ''This request was blocked by a guardrail policy.''"

definition CONNECT_TIMEOUT_S :: real where "CONNECT_TIMEOUT_S = 10"

record chat =
  c_agent :: agent
  c_system :: "string option"
  c_max_history_turns :: nat
  c_history :: "json list"
  c_turn_timeout :: "real option"
  c_stall_timeout :: "real option"

definition chat_url :: "chat \<Rightarrow> string" where
  "chat_url c = a_data_url (c_agent c) @ ''/v1/chat/completions''"

definition chat_headers :: "chat \<Rightarrow> (string \<times> string) list" where
  "chat_headers c =
     (if truthy (a_token (c_agent c)) then [(''Authorization'', ''Bearer '' @ default_to [] (a_token (c_agent c)))] else [])"

definition message :: "string \<Rightarrow> string \<Rightarrow> json" where
  "message role content = JObj [(''role'', JStr role), (''content'', JStr content)]"

definition normalize_entry :: "json \<Rightarrow> json res" where
  "normalize_entry m =
     (case m of
        JObj kvs \<Rightarrow>
          (case obj_get kvs ''role'' of
             JStr role \<Rightarrow>
               (if role \<in> {''user'', ''assistant''} then
                  (case obj_get kvs ''content'' of
                     JStr content \<Rightarrow> Inr (message role content)
                   | v \<Rightarrow> Inl (ValueErr (''history '' @ role @ '' content must be a str, got '' @ type_name v)))
                else Inl (ValueErr ''history role must be user or assistant''))
           | _ \<Rightarrow> Inl (ValueErr ''history role must be user or assistant''))
      | v \<Rightarrow> Inl (ValueErr (''history entries must be dicts, got '' @ type_name v)))"

fun normalize_history :: "json list \<Rightarrow> json list res" where
  "normalize_history [] = Inr []"
| "normalize_history (m # ms) =
     res_bind (normalize_entry m) (\<lambda>x. res_map (\<lambda>xs. x # xs) (normalize_history ms))"

definition trimmed_history :: "nat \<Rightarrow> json list \<Rightarrow> json list" where
  "trimmed_history turns h =
     (let keep = 2 * turns in
      if keep = 0 then [] else if keep < length h then drop (length h - keep) h else h)"

definition trim_history :: "chat \<Rightarrow> chat" where
  "trim_history c = c\<lparr>c_history := trimmed_history (c_max_history_turns c) (c_history c)\<rparr>"

text \<open>\<open>create_chat\<close>, with the fleet's answer to the lookup of timeouts; the agent remembers that it asked.\<close>

definition create_chat :: "json option \<Rightarrow> string option \<Rightarrow> int \<Rightarrow> json list \<Rightarrow> agent \<Rightarrow> (chat \<times> agent) res" where
  "create_chat answer system max_history_turns history a =
     res_map (\<lambda>h.
        let a' = resolve_timeouts answer a in
        (trim_history \<lparr>c_agent = a', c_system = system, c_max_history_turns = nat (max 0 max_history_turns),
           c_history = h, c_turn_timeout = limit_of (a_turn_timeout a'), c_stall_timeout = limit_of (a_stall_timeout a')\<rparr>, a'))
       (normalize_history history)"

definition guarding :: "chat \<Rightarrow> bool" where
  "guarding c = (case a_profile (c_agent c) of None \<Rightarrow> False | Some p \<Rightarrow> \<not> profile_is_empty p)"

definition buffer_output :: "chat \<Rightarrow> bool" where
  "buffer_output c =
     (guarding c \<and> (case a_profile (c_agent c) of None \<Rightarrow> False
        | Some p \<Rightarrow> list_ex (\<lambda>pt. pt \<in> set OUTPUT_POINTS) (profile_active_points p)))"

definition build_messages :: "chat \<Rightarrow> string \<Rightarrow> json list" where
  "build_messages c contents =
     (if truthy (c_system c) then [message ''system'' (default_to [] (c_system c))] else [])
     @ c_history c @ [message ''user'' contents]"

definition remember :: "string \<Rightarrow> string \<Rightarrow> chat \<Rightarrow> chat" where
  "remember user answer c =
     (if c_max_history_turns c = 0 then c
      else trim_history (c\<lparr>c_history := c_history c @ [message ''user'' user, message ''assistant'' answer]\<rparr>))"

definition payload :: "chat \<Rightarrow> json list \<Rightarrow> bool \<Rightarrow> json" where
  "payload c messages streamed =
     (let body = [(''model'', JStr (a_model (c_agent c))), (''messages'', JList messages), (''stream'', JBool streamed)];
          body2 = (if a_tools (c_agent c) = [] then body
                   else body @ [(''tools'', JList (map (\<lambda>nt. to_openai (snd nt)) (a_tools (c_agent c))))]) in
      JObj (fold (\<lambda>(k, v). AList.update k v) (a_sampling (c_agent c)) body2))"

section \<open>One turn: state and environment\<close>

datatype event = AnswerPiece string | ReasoningPiece json

text \<open>What a request does that can be observed from outside, in order.\<close>

datatype action =
    Consulted intercept_point guard_context chain_outcome
  | Posted json "real option"
  | Ran string "(string \<times> json) list"
  | Yielded event

text \<open>The response object, the message list of the turn, the deadline, how often the clock, the model
  server and the tools have been asked, and the trace.\<close>

record turn_state =
  t_text :: string
  t_reasoning :: string
  t_finish_reason :: json
  t_tool_calls_made :: "json list"
  t_guard_events :: "json list"
  t_raw :: json
  t_messages :: "json list"
  t_deadline :: "real option"
  t_clock :: nat
  t_posts :: nat
  t_runs :: nat
  t_trace :: "action list"

definition new_turn :: "json list \<Rightarrow> turn_state" where
  "new_turn messages =
     \<lparr>t_text = [], t_reasoning = [], t_finish_reason = JNull, t_tool_calls_made = [], t_guard_events = [], t_raw = JNull,
      t_messages = messages, t_deadline = None, t_clock = 0, t_posts = 0, t_runs = 0, t_trace = []\<rparr>"

text \<open>Answers of the data plane. \<open>Answered\<close>: the status and the parsed body, if it parses. A stream is a
  status, its lines and how it ends.\<close>

datatype reply = Answered nat "json option" | ReadTimeout | HttpFailed string

datatype stream_end = Complete | CutTimeout | CutError string

datatype stream_reply = Streamed nat "string list" stream_end | NoStreamTimeout | NoStream string

text \<open>What \<open>tool.invoke(**args)\<close> does: the text of its result (itself, or its \<open>json.dumps\<close>), or the type and
  message of the exception.\<close>

datatype tool_out = ToolText string | ToolRaised string string

record env =
  e_clock :: "nat \<Rightarrow> real"
  e_reply :: "nat \<Rightarrow> json \<Rightarrow> real option \<Rightarrow> reply"
  e_stream :: "nat \<Rightarrow> json \<Rightarrow> real option \<Rightarrow> stream_reply"
  e_tool :: "nat \<Rightarrow> string \<Rightarrow> (string \<times> json) list \<Rightarrow> tool_out"
  e_loads :: "string \<Rightarrow> string + json"
  e_float_repr :: "real \<Rightarrow> string"

type_synonym 'a step = "(turn_state, 'a) act"

definition emit :: "action \<Rightarrow> unit step" where
  "emit a = modify (\<lambda>s. s\<lparr>t_trace := t_trace s @ [a]\<rparr>)"

text \<open>\<open>resp.text += x; yield "answer", x\<close>\<close>

definition answer :: "string \<Rightarrow> unit step" where
  "answer x = act_then (modify (\<lambda>s. s\<lparr>t_text := t_text s @ x\<rparr>)) (emit (Yielded (AnswerPiece x)))"

definition note_reasoning :: "string \<Rightarrow> unit step" where
  "note_reasoning x =
     (if x = [] then ret ()
      else modify (\<lambda>s. s\<lparr>t_reasoning := t_reasoning s @ (if t_reasoning s \<noteq> [] then [CHR 0x0A, CHR 0x0A] @ x else x)\<rparr>))"

definition read_clock :: "env \<Rightarrow> real step" where
  "read_clock env = act_bind (gets (\<lambda>s. e_clock env (t_clock s))) (\<lambda>now.
     act_then (modify (\<lambda>s. s\<lparr>t_clock := Suc (t_clock s)\<rparr>)) (ret now))"

definition remaining :: "env \<Rightarrow> real option step" where
  "remaining env = act_bind (gets t_deadline) (\<lambda>d.
     case d of None \<Rightarrow> ret None | Some x \<Rightarrow> act_bind (read_clock env) (\<lambda>now. ret (Some (x - now))))"

definition expired :: "env \<Rightarrow> bool step" where
  "expired env = act_bind (remaining env) (\<lambda>r. ret (case r of None \<Rightarrow> False | Some x \<Rightarrow> x \<le> 0))"

definition read_budget :: "real option \<Rightarrow> real option \<Rightarrow> real option" where
  "read_budget stall rem =
     (case rem of None \<Rightarrow> stall | Some r \<Rightarrow> (case stall of None \<Rightarrow> Some r | Some t \<Rightarrow> Some (min t r)))"

definition timeout_for :: "env \<Rightarrow> chat \<Rightarrow> real option step" where
  "timeout_for env c = act_bind (remaining env) (\<lambda>rem. ret (read_budget (c_stall_timeout c) rem))"

section \<open>Guard evaluations\<close>

definition guard_at :: "chat \<Rightarrow> intercept_point \<Rightarrow> json \<Rightarrow> string option \<Rightarrow> json option \<Rightarrow> (json \<times> verdict \<times> verdict list) step" where
  "guard_at c pt content tname messages =
     (case a_profile (c_agent c) of
        None \<Rightarrow> ret (content, verdict_allow, [])
      | Some p \<Rightarrow>
          (if profile_is_empty p then ret (content, verdict_allow, [])
           else
             let ctx = \<lparr>g_content = content, g_tool_name = tname, g_messages = messages, g_system = c_system c, g_metadata = []\<rparr>;
                 out = profile_evaluate p pt ctx in
             act_then (emit (Consulted pt ctx out)) (ret (o_content out, o_verdict out, o_flags out))))"

definition flag_event :: "intercept_point \<Rightarrow> verdict \<Rightarrow> json" where
  "flag_event pt f =
     JObj [(''point'', JStr (point_value pt)), (''decision'', JStr (decision_value (v_decision f))), (''reason'', json_opt (v_reason f))]"

definition record_flags :: "intercept_point \<Rightarrow> verdict list \<Rightarrow> unit step" where
  "record_flags pt flags = modify (\<lambda>s. s\<lparr>t_guard_events := t_guard_events s @ map (flag_event pt) flags\<rparr>)"

definition halt_text :: "verdict \<Rightarrow> string" where
  "halt_text v = (if truthy (v_reason v) then default_to [] (v_reason v) else DEFAULT_BLOCK_TEXT)"

definition halt :: "verdict \<Rightarrow> unit step" where
  "halt v = answer (halt_text v)"

definition halt_reason :: "verdict \<Rightarrow> string" where
  "halt_reason v = (if stops v then ''stopped'' else ''blocked'')"

definition rewritten :: "json \<Rightarrow> json list \<Rightarrow> json list" where
  "rewritten new messages = (case new of JList ms \<Rightarrow> ms | _ \<Rightarrow> messages)"

definition guard_prompt :: "chat \<Rightarrow> verdict step" where
  "guard_prompt c =
     (if \<not> guarding c then ret verdict_allow
      else
        act_bind (gets t_messages) (\<lambda>messages.
        act_bind (guard_at c ASSEMBLED_PROMPT (JList messages) None (Some (JList messages))) (\<lambda>(new, v, flags).
        act_then (record_flags ASSEMBLED_PROMPT flags)
        (act_then (modify (\<lambda>s. s\<lparr>t_messages := rewritten new messages\<rparr>)) (ret v)))))"

text \<open>\<open>messages[-1] = {**messages[-1], "content": v}\<close>\<close>

definition set_last_content :: "string \<Rightarrow> turn_state \<Rightarrow> turn_state" where
  "set_last_content v s =
     (case rev (t_messages s) of
        JObj kvs # ms \<Rightarrow> s\<lparr>t_messages := rev ms @ [JObj (AList.update ''content'' (JStr v) kvs)]\<rparr>
      | _ \<Rightarrow> s)"

text \<open>A rewritten text counts only when it is a string, rewritten arguments only when they are a dictionary.\<close>

definition vetted_text :: "json \<Rightarrow> json \<Rightarrow> json" where
  "vetted_text new ans = (case new of JStr _ \<Rightarrow> new | _ \<Rightarrow> ans)"

definition vetted_args :: "json \<Rightarrow> json \<Rightarrow> json" where
  "vetted_args new args = (case new of JObj _ \<Rightarrow> new | _ \<Rightarrow> args)"

text \<open>\<open>_guard_output\<close>. The answer of a turn is a value of the server; text operations on it fail when it is
  no string.\<close>

definition withhold :: "verdict \<Rightarrow> string option step" where
  "withhold v =
     act_then (halt v) (act_then (modify (\<lambda>s. set_last_content (t_text s) s)) (ret (Some (halt_reason v))))"

definition release_text :: "json \<Rightarrow> json \<Rightarrow> string option step" where
  "release_text text ans =
     act_then (if json_true text then act_bind (lift_res (as_str text)) answer else ret ())
     (act_then (if text \<noteq> ans then act_bind (lift_res (as_str text)) (\<lambda>x. modify (set_last_content x)) else ret ())
     (ret None))"

definition guard_output :: "chat \<Rightarrow> json \<Rightarrow> bool \<Rightarrow> string option step" where
  "guard_output c ans has_tool_calls =
     (let pt = (if has_tool_calls then ASSISTANT_TURN else FINAL_ANSWER) in
      act_bind (gets t_messages) (\<lambda>messages.
      act_bind (guard_at c pt ans None (Some (JList messages))) (\<lambda>(new, v, flags).
      act_then (record_flags pt flags)
      (if halts v then withhold v else release_text (vetted_text new ans) ans))))"

section \<open>Model round-trips\<close>

definition raise_for_status :: "nat \<Rightarrow> unit res" where
  "raise_for_status status =
     (if status = 200 then Inr ()
      else if status = 503 then Inl (RuntimeErr ''no SERVING workers available (data plane 503)'')
      else Inl (RuntimeErr (''data plane returned HTTP '' @ nat_str status)))"

definition post :: "env \<Rightarrow> chat \<Rightarrow> bool \<Rightarrow> (nat \<times> json \<times> real option) step" where
  "post env c streamed =
     act_bind (gets (\<lambda>s. payload c (t_messages s) streamed)) (\<lambda>body.
     act_bind (timeout_for env c) (\<lambda>read.
     act_then (emit (Posted body read))
     (act_bind (gets t_posts) (\<lambda>n.
     act_then (modify (\<lambda>s. s\<lparr>t_posts := Suc (t_posts s)\<rparr>)) (ret (n, body, read))))))"

definition post_json :: "env \<Rightarrow> chat \<Rightarrow> json step" where
  "post_json env c =
     act_bind (post env c False) (\<lambda>(n, body, read).
     case e_reply env n body read of
       ReadTimeout \<Rightarrow> raise TimeoutErr
     | HttpFailed msg \<Rightarrow> raise (OSErr msg)
     | Answered status parsed \<Rightarrow>
         act_then (lift_res (raise_for_status status))
         (case parsed of None \<Rightarrow> raise (ValueErr ''response is not JSON'') | Some data \<Rightarrow> ret data))"

definition first_choice :: "json \<Rightarrow> json res" where
  "first_choice data = res_bind (get_item data ''choices'') (\<lambda>v. index0 (json_or v (JList [JObj []])))"

text \<open>What a round-trip returns: the assistant message, the finish reason and the answer, or the reason
  for which the assembled prompt was halted.\<close>

datatype round_outcome = Halted string | Completed "(string \<times> json) list" json json

definition plain_turn :: "env \<Rightarrow> chat \<Rightarrow> round_outcome step" where
  "plain_turn env c =
     act_bind (post_json env c) (\<lambda>data.
     act_then (modify (\<lambda>s. s\<lparr>t_raw := data\<rparr>))
     (act_bind (lift_res (first_choice data)) (\<lambda>choice0.
     act_bind (lift_res (get_item choice0 ''message'')) (\<lambda>m.
     let msg = json_or m (JObj []) in
     act_bind (lift_res (get_item msg ''reasoning_content'')) (\<lambda>r.
     let reasoning = json_or r (JStr []) in
     act_bind (lift_res (as_str reasoning)) (\<lambda>rs.
     act_then (note_reasoning rs)
     (act_then (if rs \<noteq> [] then emit (Yielded (ReasoningPiece reasoning)) else ret ())
     (act_bind (lift_res (get_item msg ''content'')) (\<lambda>content0.
     act_bind (lift_res (get_item msg ''tool_calls'')) (\<lambda>tcs.
     let assistant = [(''role'', JStr ''assistant''), (''content'', content0)]
                     @ (if json_true tcs then [(''tool_calls'', tcs)] else []);
         content = json_or content0 (JStr []) in
     act_then (if json_true content \<and> \<not> buffer_output c then act_bind (lift_res (as_str content)) answer else ret ())
     (act_bind (lift_res (get_item choice0 ''finish_reason'')) (\<lambda>fin.
     ret (Completed assistant fin content)))))))))))))"

subsection \<open>Streamed round-trips\<close>

text \<open>The accumulator of streamed tool calls: a dictionary from indices to the id, name and arguments so
  far. Dictionary keys are compared with \<open>==\<close>.\<close>

record call_slot =
  sl_id :: json
  sl_name :: string
  sl_arguments :: string

fun slot_update :: "json \<Rightarrow> (call_slot \<Rightarrow> call_slot) \<Rightarrow> (json \<times> call_slot) list \<Rightarrow> (json \<times> call_slot) list" where
  "slot_update i f [] = [(i, f \<lparr>sl_id = JNull, sl_name = [], sl_arguments = []\<rparr>)]"
| "slot_update i f ((j, sl) # acc) = (if py_eq i j then (j, f sl) # acc else (j, sl) # slot_update i f acc)"

definition accumulate_tool_call :: "json \<Rightarrow> (json \<times> call_slot) list \<Rightarrow> (json \<times> call_slot) list res" where
  "accumulate_tool_call delta acc =
     res_bind (get_default delta ''index'' (JInt 0)) (\<lambda>idx.
     if \<not> json_hashable idx then Inl (TypeErr ''unhashable type'')
     else
       res_bind (get_item delta ''id'') (\<lambda>i.
       res_bind (get_item delta ''function'') (\<lambda>fn0.
       let fn = json_or fn0 (JObj []) in
       res_bind (get_item fn ''name'') (\<lambda>nm.
       res_bind (as_str (json_or nm (JStr []))) (\<lambda>name.
       res_bind (get_item fn ''arguments'') (\<lambda>ar.
       res_bind (as_str (json_or ar (JStr []))) (\<lambda>arguments.
       Inr (slot_update idx (\<lambda>sl. \<lparr>sl_id = json_or i (sl_id sl), sl_name = sl_name sl @ name,
                                   sl_arguments = sl_arguments sl @ arguments\<rparr>) acc))))))))"

fun accumulate_all :: "json list \<Rightarrow> (json \<times> call_slot) list \<Rightarrow> (json \<times> call_slot) list res" where
  "accumulate_all [] acc = Inr acc"
| "accumulate_all (d # ds) acc = res_bind (accumulate_tool_call d acc) (accumulate_all ds)"

text \<open>\<open>sorted\<close> on the keys.\<close>

definition sorted_slots :: "(json \<times> call_slot) list \<Rightarrow> (json \<times> call_slot) list res" where
  "sorted_slots acc =
     (if length acc \<le> 1 then Inr acc
      else if list_all (\<lambda>kv. json_num (fst kv) \<noteq> None) acc then Inr (sort_key (\<lambda>kv. default_to 0 (json_num (fst kv))) acc)
      else if list_all (\<lambda>kv. json_str (fst kv) \<noteq> None) acc then Inr (sort_key (\<lambda>kv. default_to [] (json_str (fst kv))) acc)
      else Inl (TypeErr ''not supported between instances''))"

definition slot_json :: "call_slot \<Rightarrow> json" where
  "slot_json sl =
     JObj [(''id'', sl_id sl), (''type'', JStr ''function''),
           (''function'', JObj [(''name'', JStr (sl_name sl)), (''arguments'', JStr (sl_arguments sl))])]"

record stream_acc =
  sa_content :: "json list"
  sa_reasoning :: "json list"
  sa_calls :: "(json \<times> call_slot) list"
  sa_finish :: json

definition stream_event :: "chat \<Rightarrow> json \<Rightarrow> stream_acc \<Rightarrow> stream_acc step" where
  "stream_event c ev acc =
     act_then (modify (\<lambda>s. s\<lparr>t_raw := ev\<rparr>))
     (act_bind (lift_res (first_choice ev)) (\<lambda>choice0.
     act_bind (lift_res (get_item choice0 ''finish_reason'')) (\<lambda>fin.
     act_bind (lift_res (get_item choice0 ''delta'')) (\<lambda>d.
     let delta = json_or d (JObj []) in
     act_bind (lift_res (get_item delta ''reasoning_content'')) (\<lambda>r.
     act_then (if json_true r then emit (Yielded (ReasoningPiece r)) else ret ())
     (act_bind (lift_res (get_item delta ''content'')) (\<lambda>x.
     act_then (if json_true x \<and> \<not> buffer_output c then act_bind (lift_res (as_str x)) answer else ret ())
     (act_bind (lift_res (get_item delta ''tool_calls'')) (\<lambda>tcs.
     act_bind (lift_res (py_iter (json_or tcs (JList [])))) (\<lambda>ds.
     act_bind (lift_res (accumulate_all ds (sa_calls acc))) (\<lambda>calls.
     ret \<lparr>sa_content = sa_content acc @ (if json_true x then [x] else []),
          sa_reasoning = sa_reasoning acc @ (if json_true r then [r] else []),
          sa_calls = calls, sa_finish = json_or fin (sa_finish acc)\<rparr>)))))))))))"

text \<open>The lines of the stream: other lines and lines that do not parse are passed over, the end marker
  stops, and a cut raises.\<close>

fun stream_lines :: "env \<Rightarrow> chat \<Rightarrow> stream_end \<Rightarrow> string list \<Rightarrow> stream_acc \<Rightarrow> stream_acc step" where
  "stream_lines env c fin [] acc =
     (case fin of Complete \<Rightarrow> ret acc | CutTimeout \<Rightarrow> raise TimeoutErr | CutError msg \<Rightarrow> raise (OSErr msg))"
| "stream_lines env c fin (line # ls) acc =
     (if line = [] \<or> \<not> py_startswith line ''data:'' then stream_lines env c fin ls acc
      else
        let data = py_strip (drop 5 line) in
        if data = ''[DONE]'' then ret acc
        else case e_loads env data of
          Inl _ \<Rightarrow> stream_lines env c fin ls acc
        | Inr ev \<Rightarrow> act_bind (stream_event c ev acc) (stream_lines env c fin ls))"

fun join_strs :: "json list \<Rightarrow> string res" where
  "join_strs [] = Inr []"
| "join_strs (v # vs) = res_bind (as_str v) (\<lambda>x. res_map (\<lambda>xs. x @ xs) (join_strs vs))"

definition post_stream :: "env \<Rightarrow> chat \<Rightarrow> stream_acc step" where
  "post_stream env c =
     act_bind (post env c True) (\<lambda>(n, body, read).
     case e_stream env n body read of
       NoStreamTimeout \<Rightarrow> raise TimeoutErr
     | NoStream msg \<Rightarrow> raise (OSErr msg)
     | Streamed status ls fin \<Rightarrow>
         act_then (lift_res (raise_for_status status))
         (stream_lines env c fin ls \<lparr>sa_content = [], sa_reasoning = [], sa_calls = [], sa_finish = JNull\<rparr>))"

definition stream_turn :: "env \<Rightarrow> chat \<Rightarrow> round_outcome step" where
  "stream_turn env c =
     act_bind (post_stream env c) (\<lambda>acc.
     act_bind (lift_res (join_strs (sa_reasoning acc))) (\<lambda>r.
     act_then (note_reasoning r)
     (act_bind (lift_res (join_strs (sa_content acc))) (\<lambda>ans.
     act_bind (lift_res (sorted_slots (sa_calls acc))) (\<lambda>calls.
     ret (Completed
       ([(''role'', JStr ''assistant''), (''content'', json_or (JStr ans) JNull)]
        @ (if sa_calls acc \<noteq> [] then [(''tool_calls'', JList (map (\<lambda>kv. slot_json (snd kv)) calls))] else []))
       (sa_finish acc) (JStr ans)))))))"

definition complete_turn :: "env \<Rightarrow> chat \<Rightarrow> bool \<Rightarrow> round_outcome step" where
  "complete_turn env c streamed =
     act_bind (guard_prompt c) (\<lambda>v.
     if halts v then act_then (halt v) (ret (Halted (halt_reason v)))
     else if streamed then stream_turn env c else plain_turn env c)"

section \<open>Tool calls\<close>

text \<open>\<open>{name!r}\<close> of a dictionary key that is no tool.\<close>

definition repr_key :: "env \<Rightarrow> json \<Rightarrow> string" where
  "repr_key env v =
     (case v of
        JStr s \<Rightarrow> repr_str s
      | JInt i \<Rightarrow> int_str i
      | JBool b \<Rightarrow> (if b then ''True'' else ''False'')
      | JReal r \<Rightarrow> e_float_repr env r
      | _ \<Rightarrow> ''None'')"

definition run_tool :: "env \<Rightarrow> string \<Rightarrow> json \<Rightarrow> (string + string) step" where
  "run_tool env name args =
     (case args of
        JObj kvs \<Rightarrow>
          act_then (emit (Ran name kvs))
          (act_bind (gets t_runs) (\<lambda>n.
          act_then (modify (\<lambda>s. s\<lparr>t_runs := Suc (t_runs s)\<rparr>))
          (ret (case e_tool env n name kvs of
                  ToolText x \<Rightarrow> Inr x
                | ToolRaised ty msg \<Rightarrow> Inl (''Error: '' @ ty @ '': '' @ msg)))))
      | v \<Rightarrow> ret (Inl (''Error: TypeError: oumigo.api.agent.tool.Tool.invoke() argument after ** must be a mapping, not ''
                        @ type_name v)))"

text \<open>\<open>_invoke_guarded\<close>: the arguments, the result and the verdict that ends the turn, if any.\<close>

definition invoke_guarded :: "env \<Rightarrow> chat \<Rightarrow> string \<Rightarrow> json \<Rightarrow> (json \<times> string \<times> verdict option) step" where
  "invoke_guarded env c name args =
     act_bind (guard_at c TOOL_CALL args (Some name) None) (\<lambda>(g_args, v, flags).
     act_then (record_flags TOOL_CALL flags)
     (if halts v then
        ret (args, if truthy (v_reason v) then default_to [] (v_reason v)
                   else ''Tool '' @ repr_str name @ '' was blocked by a guardrail.'',
             if skips v then None else Some v)
      else
        let args' = vetted_args g_args args in
        act_bind (run_tool env name args') (\<lambda>out.
        case out of
          Inl msg \<Rightarrow> ret (args', msg, None)
        | Inr result \<Rightarrow>
            act_bind (guard_at c TOOL_RESULT (JStr result) (Some name) None) (\<lambda>(g_result, rv, rflags).
            act_then (record_flags TOOL_RESULT rflags)
            (if halts rv then
               ret (args', if truthy (v_reason rv) then default_to [] (v_reason rv)
                           else ''The result of tool '' @ repr_str name @ '' was withheld by a guardrail.'',
                    if skips rv then None else Some rv)
             else ret (args', case g_result of JStr x \<Rightarrow> x | _ \<Rightarrow> result, None))))))"

definition call_record :: "json \<Rightarrow> json \<Rightarrow> string \<Rightarrow> json" where
  "call_record name args result = JObj [(''name'', name), (''arguments'', args), (''result'', JStr result)]"

definition execute_tool :: "env \<Rightarrow> chat \<Rightarrow> json \<Rightarrow> (string \<times> verdict option) step" where
  "execute_tool env c tc =
     act_bind (lift_res (get_item tc ''function'')) (\<lambda>fn0.
     let fn = json_or fn0 (JObj []) in
     act_bind (lift_res (get_default fn ''name'' (JStr []))) (\<lambda>name.
     act_bind (lift_res (get_item fn ''arguments'')) (\<lambda>ar.
     let raw_args = json_or ar (JStr ''{}'') in
     act_bind
       (if \<not> json_hashable name then raise (TypeErr ''unhashable type'')
        else case name of
          JStr nm \<Rightarrow>
            (if map_of (a_tools (c_agent c)) nm = None
             then ret (raw_args, ''Error: unknown tool '' @ repr_str nm, None)
             else case raw_args of
               JStr txt \<Rightarrow>
                 (case e_loads env txt of
                    Inl msg \<Rightarrow> ret (raw_args, ''Error: could not parse arguments ('' @ msg @ '')'', None)
                  | Inr args \<Rightarrow> invoke_guarded env c nm args)
             | v \<Rightarrow> raise (TypeErr (''the JSON object must be str, bytes or bytearray, not '' @ type_name v)))
        | _ \<Rightarrow> ret (raw_args, ''Error: unknown tool '' @ repr_key env name, None))
       (\<lambda>(args, result, hv).
     act_then (modify (\<lambda>s. s\<lparr>t_tool_calls_made := t_tool_calls_made s @ [call_record name args result]\<rparr>))
     (ret (result, hv))))))"

text \<open>The loop over the tool calls of a turn; \<open>Some\<close> is the reason that ends the turn.\<close>

fun run_tools :: "env \<Rightarrow> chat \<Rightarrow> json list \<Rightarrow> string option step" where
  "run_tools env c [] = ret None"
| "run_tools env c (tc # tcs) =
     act_bind (execute_tool env c tc) (\<lambda>(result, hv).
     act_bind (lift_res (get_item tc ''id'')) (\<lambda>i.
     act_then (modify (\<lambda>s. s\<lparr>t_messages := t_messages s
        @ [JObj [(''role'', JStr ''tool''), (''tool_call_id'', i), (''content'', JStr result)]]\<rparr>))
     (case hv of
        Some v \<Rightarrow>
          (if blocks v \<or> stops v then ret (Some (halt_reason v))
           else act_bind (expired env) (\<lambda>x. if x then ret (Some ''timeout'') else run_tools env c tcs))
      | None \<Rightarrow> act_bind (expired env) (\<lambda>x. if x then ret (Some ''timeout'') else run_tools env c tcs))))"

section \<open>The loop of a turn\<close>

text \<open>What follows a completed round-trip: the reason that ends the turn, or \<open>None\<close> to go on.\<close>

definition after_turn :: "env \<Rightarrow> chat \<Rightarrow> (string \<times> json) list \<Rightarrow> json \<Rightarrow> json \<Rightarrow> json option step" where
  "after_turn env c assistant finish ans =
     act_then (modify (\<lambda>s. s\<lparr>t_messages := t_messages s @ [JObj assistant]\<rparr>))
     (let tool_calls = json_or (obj_get assistant ''tool_calls'') (JList []) in
      act_bind (if buffer_output c then guard_output c ans (json_true tool_calls) else ret None) (\<lambda>halted.
      case halted of
        Some r \<Rightarrow> ret (Some (JStr r))
      | None \<Rightarrow>
          (if \<not> json_true tool_calls then ret (Some (json_or finish (JStr ''stop'')))
           else act_bind (lift_res (py_iter tool_calls)) (\<lambda>tcs.
                act_bind (run_tools env c tcs) (\<lambda>r. ret (map_option JStr r))))))"

text \<open>\<open>except httpx.TimeoutException\<close> around the round-trip.\<close>

definition guarded_turn :: "env \<Rightarrow> chat \<Rightarrow> bool \<Rightarrow> round_outcome option step" where
  "guarded_turn env c streamed =
     catch (act_bind (complete_turn env c streamed) (\<lambda>o1. ret (Some o1))) (\<lambda>e. e = TimeoutErr) (ret None)"

fun run_loop :: "env \<Rightarrow> chat \<Rightarrow> bool \<Rightarrow> nat \<Rightarrow> json step" where
  "run_loop env c streamed 0 = ret (JStr ''max_iterations'')"
| "run_loop env c streamed (Suc n) =
     act_bind (expired env) (\<lambda>x.
     if x then ret (JStr ''timeout'')
     else
       act_bind (guarded_turn env c streamed) (\<lambda>o1.
       case o1 of
         None \<Rightarrow> ret (JStr ''timeout'')
       | Some (Halted r) \<Rightarrow> ret (JStr r)
       | Some (Completed assistant finish ans) \<Rightarrow>
           act_bind (after_turn env c assistant finish ans) (\<lambda>r.
           case r of Some reason \<Rightarrow> ret reason | None \<Rightarrow> run_loop env c streamed n)))"

definition arm_deadline :: "env \<Rightarrow> chat \<Rightarrow> unit step" where
  "arm_deadline env c =
     (case c_turn_timeout c of
        None \<Rightarrow> modify (\<lambda>s. s\<lparr>t_deadline := None\<rparr>)
      | Some t \<Rightarrow>
          (if t = 0 then modify (\<lambda>s. s\<lparr>t_deadline := None\<rparr>)
           else act_bind (read_clock env) (\<lambda>now. modify (\<lambda>s. s\<lparr>t_deadline := Some (now + t)\<rparr>))))"

definition set_finish :: "json \<Rightarrow> unit step" where
  "set_finish r = modify (\<lambda>s. s\<lparr>t_finish_reason := r\<rparr>)"

text \<open>The first guard point of \<open>_run\<close>: the user message, and the answer when it is halted.\<close>

definition guard_user :: "chat \<Rightarrow> string \<Rightarrow> (json \<times> verdict) step" where
  "guard_user c user =
     act_bind (guard_at c USER_INPUT (JStr user) None None) (\<lambda>(contents, v, flags).
     act_then (record_flags USER_INPUT flags)
     (act_then (if halts v then halt v else ret ()) (ret (contents, v))))"

text \<open>\<open>_run\<close>: it returns the user message to remember.\<close>

definition run_turn :: "env \<Rightarrow> chat \<Rightarrow> string \<Rightarrow> bool \<Rightarrow> string step" where
  "run_turn env c user streamed =
     act_bind (guard_user c user) (\<lambda>(contents, v).
     if halts v then act_then (set_finish (JStr (halt_reason v))) (ret user)
     else
       let user' = (case contents of JStr x \<Rightarrow> x | _ \<Rightarrow> user) in
       act_then (if contents \<noteq> JStr user
                 then modify (\<lambda>s. s\<lparr>t_messages := butlast (t_messages s) @ [message ''user'' user']\<rparr>) else ret ())
       (act_then (arm_deadline env c)
       (act_bind (run_loop env c streamed (a_max_iterations (c_agent c))) (\<lambda>reason.
        act_then (if reason = JStr ''timeout'' then answer TIMEOUT_TEXT else ret ())
        (act_then (set_finish reason) (ret user'))))))"

text \<open>\<open>request\<close>, run to the end: the response, and the chat with the exchange remembered. An exception
  leaves the history as it was.\<close>

definition request :: "env \<Rightarrow> json \<Rightarrow> bool \<Rightarrow> chat \<Rightarrow> turn_state res \<times> chat" where
  "request env contents streamed c =
     (case contents of
        JStr user \<Rightarrow>
          (case run_turn env c user streamed (new_turn (build_messages c user)) of
             (Inl e, s) \<Rightarrow> (Inl e, c)
           | (Inr user', s) \<Rightarrow> (Inr s, remember user' (t_text s) c))
      | v \<Rightarrow> (Inl (TypeErr (''contents must be a str, got '' @ type_name v)), c))"

section \<open>response.py\<close>

text \<open>The events of a response and whether it was consumed; the generator yields the events of the trace.\<close>

definition yielded :: "turn_state \<Rightarrow> event list" where
  "yielded s = List.map_filter (\<lambda>a. case a of Yielded e \<Rightarrow> Some e | _ \<Rightarrow> None) (t_trace s)"

definition iterate :: "turn_state \<Rightarrow> bool \<Rightarrow> string list" where
  "iterate s consumed =
     (if consumed then (if t_text s \<noteq> [] then [t_text s] else [])
      else List.map_filter (\<lambda>e. case e of AnswerPiece x \<Rightarrow> Some x | ReasoningPiece _ \<Rightarrow> None) (yielded s))"

definition stream_pairs :: "turn_state \<Rightarrow> bool \<Rightarrow> (string \<times> json) list" where
  "stream_pairs s consumed =
     (if consumed then (if t_text s \<noteq> [] \<or> t_reasoning s \<noteq> [] then [(t_text s, JStr (t_reasoning s))] else [])
      else map (\<lambda>e. case e of AnswerPiece x \<Rightarrow> (x, JStr []) | ReasoningPiece r \<Rightarrow> ([], r)) (yielded s))"

end
