(* ===== verification/ChatProofs.thy ===== *)
theory ChatProofs
  imports Chat
begin

text \<open>
  Properties of the agent tier. Three locales carry an invariant through the code of a turn, from the
  steps between two round-trips (\<open>turn_part\<close>) over a round-trip (\<open>round_trip\<close>) to the whole turn
  (\<open>turn_invariant\<close>); \<open>step_part\<close> and \<open>step_invariant\<close> are the contracts of invariants that every single
  step keeps. They are interpreted for the text of the answer, complete mediation by the guards, the
  number of requests and their time budgets.
\<close>

section \<open>Invariants of a turn\<close>

text \<open>The part of the state that invariants speak of; everything else changes silently.\<close>

definition visible :: "turn_state \<Rightarrow> string \<times> action list \<times> real option \<times> nat \<times> nat" where
  "visible s = (t_text s, t_trace s, t_deadline s, t_clock s, t_posts s)"

lemma keeps_case_json [keeps_intros]:
  "(v = JNull \<Longrightarrow> keeps P m) \<Longrightarrow> (\<And>b. v = JBool b \<Longrightarrow> keeps P (fb b)) \<Longrightarrow> (\<And>i. v = JInt i \<Longrightarrow> keeps P (fi i))
   \<Longrightarrow> (\<And>r. v = JReal r \<Longrightarrow> keeps P (fr r)) \<Longrightarrow> (\<And>x. v = JStr x \<Longrightarrow> keeps P (fs x)) \<Longrightarrow> (\<And>xs. v = JList xs \<Longrightarrow> keeps P (fl xs))
   \<Longrightarrow> (\<And>kvs. v = JObj kvs \<Longrightarrow> keeps P (fo kvs))
   \<Longrightarrow> keeps P (case v of JNull \<Rightarrow> m | JBool b \<Rightarrow> fb b | JInt i \<Rightarrow> fi i | JReal r \<Rightarrow> fr r | JStr x \<Rightarrow> fs x | JList xs \<Rightarrow> fl xs | JObj kvs \<Rightarrow> fo kvs)"
  by (cases v) auto

lemma keeps_case_reply [keeps_intros]:
  "(\<And>n b. keeps P (f n b)) \<Longrightarrow> keeps P g \<Longrightarrow> (\<And>m. keeps P (h m))
   \<Longrightarrow> keeps P (case v of Answered n b \<Rightarrow> f n b | ReadTimeout \<Rightarrow> g | HttpFailed m \<Rightarrow> h m)"
  by (cases v) auto

lemma keeps_case_stream_reply [keeps_intros]:
  "(\<And>n b e. keeps P (f n b e)) \<Longrightarrow> keeps P g \<Longrightarrow> (\<And>m. keeps P (h m))
   \<Longrightarrow> keeps P (case v of Streamed n b e \<Rightarrow> f n b e | NoStreamTimeout \<Rightarrow> g | NoStream m \<Rightarrow> h m)"
  by (cases v) auto

lemma keeps_case_stream_end [keeps_intros]:
  "keeps P f \<Longrightarrow> keeps P g \<Longrightarrow> (\<And>m. keeps P (h m))
   \<Longrightarrow> keeps P (case v of Complete \<Rightarrow> f | CutTimeout \<Rightarrow> g | CutError m \<Rightarrow> h m)"
  by (cases v) auto

lemma keeps_case_round_outcome [keeps_intros]:
  "(\<And>r. keeps P (f r)) \<Longrightarrow> (\<And>a b d. keeps P (g a b d)) \<Longrightarrow> keeps P (case v of Halted r \<Rightarrow> f r | Completed a b d \<Rightarrow> g a b d)"
  by (cases v) auto

text \<open>The part of a turn between two round-trips: \<open>P\<close> looks at the visible part of the state only, and
  survives the clock, the output guard and a guarded tool call.\<close>

locale turn_part =
  fixes env :: env and c :: chat and P :: "turn_state \<Rightarrow> bool"
  assumes frame: "P s \<Longrightarrow> visible s' = visible s \<Longrightarrow> P s'"
    and kept_clock: "keeps P (read_clock env)"
    and kept_output: "buffer_output c \<Longrightarrow> keeps P (guard_output c ans calls)"
    and kept_invoke: "keeps P (invoke_guarded env c name args)"
begin

lemma silent: "(\<And>s. visible (f s) = visible s) \<Longrightarrow> keeps P (modify f)"
  by (rule keeps_modify) (auto intro: frame)

lemma kept_expired: "keeps P (expired env)"
  unfolding expired_def remaining_def by (intro keeps_intros kept_clock)

lemma kept_execute: "keeps P (execute_tool env c tc)"
  unfolding execute_tool_def by (intro keeps_intros kept_invoke silent) (simp add: visible_def)

lemma kept_tools: "keeps P (run_tools env c tcs)"
proof (induction tcs)
  case (Cons tc tcs)
  show ?case unfolding run_tools.simps
    by (intro keeps_intros kept_execute kept_expired silent Cons.IH) (simp add: visible_def)
qed simp

lemma kept_after: "keeps P (after_turn env c assistant fin ans)"
  unfolding after_turn_def
  by (intro keeps_intros kept_output kept_tools silent) (simp_all add: visible_def)

end

text \<open>A round-trip, from the point where the request is posted. \<open>cleared\<close> describes the states in which
  it may be posted.\<close>

locale round_trip = turn_part +
  fixes cleared :: "turn_state \<Rightarrow> bool"
  assumes kept_post: "brings cleared (post env c streamed) (\<lambda>_. P) P"
    and kept_reasoning: "keeps P (emit (Yielded (ReasoningPiece r)))"
    and kept_answer: "\<not> buffer_output c \<Longrightarrow> keeps P (answer x)"
begin

lemma kept_note: "keeps P (note_reasoning x)"
  unfolding note_reasoning_def by (intro keeps_intros silent) (simp_all add: visible_def)

lemma kept_event: "keeps P (stream_event c ev acc)"
  unfolding stream_event_def
  by (intro keeps_intros kept_reasoning kept_answer silent) (simp_all add: visible_def)

lemma kept_lines: "keeps P (stream_lines env c fin ls acc)"
proof (induction ls arbitrary: acc)
  case (Cons l ls)
  show ?case unfolding stream_lines.simps by (intro keeps_intros kept_event Cons.IH)
qed (simp, intro keeps_intros)

lemma brings_then_keeps:
  assumes "brings cleared m (\<lambda>_. P) P" "\<And>x. keeps P (f x)"
  shows "brings cleared (act_bind m f) (\<lambda>_. P) P"
  using assms by (auto intro!: brings_bind simp: brings_keeps)

lemma brings_plain: "brings cleared (plain_turn env c) (\<lambda>_. P) P"
  unfolding plain_turn_def post_json_def
  by (intro brings_then_keeps kept_post keeps_intros kept_note kept_reasoning kept_answer silent) (simp_all add: visible_def)

lemma brings_stream: "brings cleared (stream_turn env c) (\<lambda>_. P) P"
  unfolding stream_turn_def post_stream_def
  by (intro brings_then_keeps kept_post keeps_intros kept_note kept_lines)

end

text \<open>The whole turn: a prompt that is not halted is cleared.\<close>

locale turn_invariant = round_trip +
  assumes kept_prompt: "brings P (guard_prompt c) (\<lambda>v s. P s \<and> (if halts v then P (snd (halt v s)) else cleared s)) P"
    and kept_user: "keeps P (guard_user c user)"
    and kept_arm: "keeps P (arm_deadline env c)"
    and kept_timeout: "keeps P (answer TIMEOUT_TEXT)"
begin

lemma kept_complete: "keeps P (complete_turn env c streamed)"
  unfolding complete_turn_def brings_keeps
proof (rule brings_bind [OF kept_prompt])
  fix v
  let ?m = "if halts v then act_then (halt v) (ret (Halted (halt_reason v))) else if streamed then stream_turn env c else plain_turn env c"
  show "brings (\<lambda>s. P s \<and> (if halts v then P (snd (halt v s)) else cleared s)) ?m (\<lambda>_. P) P"
  proof (cases "halts v")
    case True
    then show ?thesis
      by (auto simp: brings_def act_then_def act_bind_def ret_def split: prod.splits sum.splits)
  next
    case False
    then show ?thesis
      by (auto intro: brings_weaken [OF brings_plain] brings_weaken [OF brings_stream])
  qed
qed

lemma kept_loop: "keeps P (run_loop env c streamed n)"
proof (induction n)
  case (Suc n)
  show ?case unfolding run_loop.simps guarded_turn_def
    by (intro keeps_intros kept_expired kept_complete kept_after Suc.IH)
qed simp

lemma kept_finish: "keeps P (set_finish r)"
  unfolding set_finish_def by (rule silent) (simp add: visible_def)

lemma kept_turn: "keeps P (run_turn env c user streamed)"
  unfolding run_turn_def
  by (intro keeps_intros kept_user kept_arm kept_loop kept_timeout kept_finish silent) (simp add: visible_def)

end

lemma answer_eval: "answer x s = (Inr (), s\<lparr>t_text := t_text s @ x, t_trace := t_trace s @ [Yielded (AnswerPiece x)]\<rparr>)"
  by (simp add: answer_def emit_def act_then_def act_bind_def modify_def)

lemma emit_eval: "emit a s = (Inr (), s\<lparr>t_trace := t_trace s @ [a]\<rparr>)"
  by (simp add: emit_def modify_def)

text \<open>A consultation gives the outcome of the profile and records it; without guards nothing happens.\<close>

lemma guard_at_eval:
  "guard_at c pt x n m s =
     (if guarding c then
        (let ctx = \<lparr>g_content = x, g_tool_name = n, g_messages = m, g_system = c_system c, g_metadata = []\<rparr>;
             out = profile_evaluate (the (a_profile (c_agent c))) pt ctx in
         (Inr (o_content out, o_verdict out, o_flags out), s\<lparr>t_trace := t_trace s @ [Consulted pt ctx out]\<rparr>))
      else (Inr (x, verdict_allow, []), s))"
  by (auto simp: guard_at_def guarding_def emit_eval act_then_def act_bind_def ret_def Let_def split: option.split)

text \<open>An invariant that every single step keeps: first the steps other than posting and arming the deadline.\<close>

locale step_part =
  fixes env :: env and c :: chat and P :: "turn_state \<Rightarrow> bool"
  assumes step_frame: "P s \<Longrightarrow> visible s' = visible s \<Longrightarrow> P s'"
    and step_clock: "keeps P (read_clock env)"
    and step_answer: "keeps P (answer x)"
    and step_consult: "keeps P (guard_at c pt v n m)"
    and step_reasoning: "keeps P (emit (Yielded (ReasoningPiece r)))"
    and step_ran: "keeps P (emit (Ran name kvs))"
begin

lemma silent_step: "(\<And>s. visible (f s) = visible s) \<Longrightarrow> keeps P (modify f)"
  by (rule keeps_modify) (auto intro: step_frame)

lemma step_flags: "keeps P (record_flags pt fs)"
  unfolding record_flags_def by (rule silent_step) (simp add: visible_def)

lemma step_output: "keeps P (guard_output c ans calls)"
proof -
  have "visible (set_last_content x s) = visible s" for x s
    by (auto simp: set_last_content_def visible_def split: list.split json.split)
  then show ?thesis
    unfolding guard_output_def withhold_def release_text_def halt_def
    by (intro keeps_intros step_consult step_flags step_answer silent_step)
qed

lemma step_invoke: "keeps P (invoke_guarded env c name args)"
  unfolding invoke_guarded_def run_tool_def
  by (intro keeps_intros step_consult step_flags step_ran silent_step) (simp_all add: visible_def)

lemma step_user: "keeps P (guard_user c user)"
  unfolding guard_user_def halt_def by (intro keeps_intros step_consult step_flags step_answer)

lemma step_prompt: "keeps P (guard_prompt c)"
  unfolding guard_prompt_def by (intro keeps_intros step_consult step_flags silent_step) (simp add: visible_def)

lemma step_prompt_halt: "brings P (guard_prompt c) (\<lambda>v s. P s \<and> (if halts v then P (snd (halt v s)) else P s)) P"
  by (rule brings_weaken [OF step_prompt [unfolded brings_keeps]])
    (use step_answer in \<open>auto simp: halt_def keeps_def\<close>)

end

locale step_invariant = step_part +
  assumes step_post: "keeps P (post env c streamed)"
    and step_arm: "keeps P (arm_deadline env c)"

sublocale step_invariant \<subseteq> turn_invariant env c P P
  by unfold_locales
    ((erule (1) step_frame | rule step_clock step_output step_invoke step_prompt_halt step_reasoning step_answer step_user step_arm
      step_post [unfolded brings_keeps])+)

section \<open>The stream is the text\<close>

definition answers :: "action list \<Rightarrow> string list" where
  "answers tr = List.map_filter (\<lambda>a. case a of Yielded (AnswerPiece x) \<Rightarrow> Some x | _ \<Rightarrow> None) tr"

definition text_ok :: "turn_state \<Rightarrow> bool" where
  "text_ok s \<longleftrightarrow> t_text s = concat (answers (t_trace s))"

lemma answers_snoc [simp]:
  "answers (tr @ [Yielded (AnswerPiece x)]) = answers tr @ [x]"
  "answers (tr @ [Yielded (ReasoningPiece r)]) = answers tr"
  "answers (tr @ [Consulted p ctx out]) = answers tr"
  "answers (tr @ [Posted b read]) = answers tr"
  "answers (tr @ [Ran n a]) = answers tr"
  by (simp_all add: answers_def List.map_filter_def)

lemma keeps_text_ok:
  "keeps text_ok (read_clock env)" "keeps text_ok (answer x)" "keeps text_ok (guard_at c pt v n m)"
  "keeps text_ok (emit (Yielded (ReasoningPiece r)))" "keeps text_ok (emit (Posted b read))" "keeps text_ok (emit (Ran name kvs))"
  by (auto simp: keeps_def read_clock_def answer_eval emit_eval guard_at_eval act_then_def act_bind_def gets_def modify_def ret_def
      text_ok_def Let_def)

lemma keeps_post: 
  assumes "\<And>s s'. P s \<Longrightarrow> t_text s' = t_text s \<Longrightarrow> t_trace s' = t_trace s \<Longrightarrow> t_deadline s' = t_deadline s \<Longrightarrow> t_clock s' = t_clock s \<Longrightarrow> P s'"
    and "keeps P (read_clock env)" "\<And>b read. keeps P (emit (Posted b read))"
  shows "keeps P (post env c streamed)"
  unfolding post_def timeout_for_def remaining_def
  by (intro keeps_intros assms(2,3) keeps_modify) (erule assms(1), simp_all)

interpretation parity: step_invariant env c text_ok for env c
proof
  show "text_ok s \<Longrightarrow> visible s' = visible s \<Longrightarrow> text_ok s'" for s s' by (simp add: text_ok_def visible_def)
  show "keeps text_ok (post env c streamed)" for streamed
    by (rule keeps_post) (simp_all add: keeps_text_ok text_ok_def)
  show "keeps text_ok (arm_deadline env c)"
    unfolding arm_deadline_def by (intro keeps_intros keeps_text_ok keeps_modify) (simp_all add: text_ok_def)
qed (rule keeps_text_ok)+

lemma iterate_answers: "iterate s False = answers (t_trace s)"
proof -
  have "List.map_filter (\<lambda>e. case e of AnswerPiece x \<Rightarrow> Some x | ReasoningPiece _ \<Rightarrow> None)
      (List.map_filter (\<lambda>a. case a of Yielded e \<Rightarrow> Some e | _ \<Rightarrow> None) tr) = answers tr" for tr
    by (induction tr) (auto simp: answers_def List.map_filter_def split: action.split event.split)
  then show ?thesis by (simp add: iterate_def yielded_def)
qed

lemma request_cases:
  assumes "request env contents streamed c = (Inr s, c')"
  obtains user user' where "contents = JStr user" "run_turn env c user streamed (new_turn (build_messages c user)) = (Inr user', s)"
    "c' = remember user' (t_text s) c"
  using assms by (auto simp: request_def split: json.splits prod.splits sum.splits)

section \<open>Complete mediation\<close>

text \<open>When may an action follow the one before it? A request only after its own messages were screened
  and not halted, a tool only with arguments that were, and with output guards an answer only when it is
  what an output guard let through, the text of a halting verdict, or the time-out notice.\<close>

fun approved :: "chat \<Rightarrow> action option \<Rightarrow> action \<Rightarrow> bool" where
  "approved c prev (Consulted pt ctx out) \<longleftrightarrow> out = profile_evaluate (the (a_profile (c_agent c))) pt ctx"
| "approved c prev (Posted body read) \<longleftrightarrow>
     (\<exists>ctx out ms b. prev = Some (Consulted ASSEMBLED_PROMPT ctx out) \<and> \<not> halts (o_verdict out) \<and> g_content ctx = JList ms
        \<and> body = payload c (rewritten (o_content out) ms) b)"
| "approved c prev (Ran name kvs) \<longleftrightarrow>
     (\<exists>ctx out. prev = Some (Consulted TOOL_CALL ctx out) \<and> \<not> halts (o_verdict out) \<and> g_tool_name ctx = Some name
        \<and> JObj kvs = vetted_args (o_content out) (g_content ctx))"
| "approved c prev (Yielded (ReasoningPiece r)) \<longleftrightarrow> True"
| "approved c prev (Yielded (AnswerPiece x)) \<longleftrightarrow>
     x = TIMEOUT_TEXT \<or> \<not> buffer_output c
     \<or> (\<exists>pt ctx out. prev = Some (Consulted pt ctx out) \<and> halts (o_verdict out) \<and> x = halt_text (o_verdict out))
     \<or> (\<exists>pt ctx out. prev = Some (Consulted pt ctx out) \<and> \<not> halts (o_verdict out) \<and> pt \<in> set OUTPUT_POINTS
          \<and> JStr x = vetted_text (o_content out) (g_content ctx))"

fun mediated :: "chat \<Rightarrow> action option \<Rightarrow> action list \<Rightarrow> bool" where
  "mediated c prev [] = True"
| "mediated c prev (a # as) = (approved c prev a \<and> mediated c (Some a) as)"

definition last_of :: "action option \<Rightarrow> action list \<Rightarrow> action option" where
  "last_of prev tr = (if tr = [] then prev else Some (last tr))"

lemma mediated_append: "mediated c prev (xs @ ys) \<longleftrightarrow> mediated c prev xs \<and> mediated c (last_of prev xs) ys"
  by (induction xs arbitrary: prev) (auto simp: last_of_def)

definition med :: "chat \<Rightarrow> turn_state \<Rightarrow> bool" where
  "med c s \<longleftrightarrow> guarding c \<longrightarrow> mediated c None (t_trace s)"

text \<open>The last thing that happened is a consultation at \<open>pt\<close> on \<open>x\<close> for tool \<open>n\<close> with verdict \<open>v\<close> and content \<open>new\<close>.\<close>

definition consulted :: "chat \<Rightarrow> intercept_point \<Rightarrow> json \<Rightarrow> string option \<Rightarrow> json \<Rightarrow> verdict \<Rightarrow> turn_state \<Rightarrow> bool" where
  "consulted c pt x n new v s \<longleftrightarrow> med c s \<and> (guarding c \<longrightarrow>
     (\<exists>ctx out. last_of None (t_trace s) = Some (Consulted pt ctx out) \<and> g_content ctx = x \<and> g_tool_name ctx = n
        \<and> o_verdict out = v \<and> o_content out = new))"

lemma guard_at_consulted:
  "brings (med c) (guard_at c pt x n m) (\<lambda>(new, v, fs). consulted c pt x n new v) (med c)"
  by (auto simp: brings_def guard_at_eval consulted_def med_def mediated_append last_of_def Let_def)

lemma flags_consulted: "brings (consulted c pt x n new v) (record_flags pt' fs) (\<lambda>_. consulted c pt x n new v) (med c)"
  by (auto simp: brings_def record_flags_def modify_def consulted_def med_def)

text \<open>Emitting an approved action.\<close>

lemma med_emit:
  assumes "consulted c pt x n new v s" "visible s' = visible s"
    and "\<And>ctx out. g_content ctx = x \<Longrightarrow> g_tool_name ctx = n \<Longrightarrow> o_verdict out = v \<Longrightarrow> o_content out = new \<Longrightarrow>
           approved c (Some (Consulted pt ctx out)) a"
  shows "med c (s'\<lparr>t_trace := t_trace s' @ [a]\<rparr>)"
  using assms by (auto simp: consulted_def med_def mediated_append visible_def)

lemma med_answer_halt: "consulted c pt x n new v s \<Longrightarrow> halts v \<Longrightarrow> med c (snd (halt v s))"
  using med_emit [of c pt x n new v s s "Yielded (AnswerPiece (halt_text v))"]
  by (auto simp: halt_def answer_eval med_def)

lemma med_frame: "med c s \<Longrightarrow> visible s' = visible s \<Longrightarrow> med c s'"
  by (simp add: med_def visible_def)

lemma med_consulted: "consulted c pt x n new v s \<Longrightarrow> med c s"
  by (simp add: consulted_def)

definition cleared :: "chat \<Rightarrow> turn_state \<Rightarrow> bool" where
  "cleared c s \<longleftrightarrow> med c s \<and> (guarding c \<longrightarrow>
     (\<exists>ms new v. consulted c ASSEMBLED_PROMPT (JList ms) None new v s \<and> \<not> halts v \<and> t_messages s = rewritten new ms))"

lemma med_prompt:
  "brings (med c) (guard_prompt c) (\<lambda>v s. med c s \<and> (if halts v then med c (snd (halt v s)) else cleared c s)) (med c)"
  unfolding brings_def
proof (intro allI impI)
  fix s assume s: "med c s"
  show "case guard_prompt c s of (Inl e, t) \<Rightarrow> med c t
    | (Inr v, t) \<Rightarrow> med c t \<and> (if halts v then med c (snd (halt v t)) else cleared c t)"
  proof (cases "guarding c")
    case False
    then show ?thesis using s by (simp add: guard_prompt_def ret_def cleared_def)
  next
    case True
    define ms where "ms = t_messages s"
    obtain new v fs t where g: "guard_at c ASSEMBLED_PROMPT (JList ms) None (Some (JList ms)) s = (Inr (new, v, fs), t)"
      using True by (simp add: guard_at_eval Let_def)
    have c: "consulted c ASSEMBLED_PROMPT (JList ms) None new v t"
      using brings_result [OF guard_at_consulted s g] by simp
    let ?t = "(t\<lparr>t_guard_events := t_guard_events t @ map (flag_event ASSEMBLED_PROMPT) fs\<rparr>)\<lparr>t_messages := rewritten new ms\<rparr>"
    have p: "guard_prompt c s = (Inr v, ?t)"
      using True g by (simp add: guard_prompt_def act_bind_def act_then_def gets_def modify_def record_flags_def ret_def ms_def [symmetric])
    have c': "consulted c ASSEMBLED_PROMPT (JList ms) None new v ?t"
      using c by (simp add: consulted_def med_def)
    then show ?thesis using p True by (auto simp: cleared_def med_consulted intro: med_answer_halt)
  qed
qed

lemma med_post: "brings (cleared c) (post env c streamed) (\<lambda>_. med c) (med c)"
  unfolding brings_def
proof (intro allI impI)
  fix s assume s: "cleared c s"
  obtain rem t where r: "remaining env s = (Inr rem, t)" "t_trace t = t_trace s" "t_messages t = t_messages s"
    by (cases "t_deadline s")
      (auto simp: remaining_def read_clock_def act_bind_def act_then_def gets_def modify_def ret_def)
  let ?body = "payload c (t_messages s) streamed"
  have "guarding c \<Longrightarrow> approved c (last_of None (t_trace s)) (Posted ?body rd)" for rd
    using s by (auto simp: cleared_def consulted_def)
  then have "med c (t\<lparr>t_trace := t_trace t @ [Posted ?body rd], t_posts := Suc (t_posts t)\<rparr>)" for rd
    using s r by (auto simp: cleared_def med_def mediated_append)
  then show "case post env c streamed s of (Inl e, t) \<Rightarrow> med c t | (Inr x, t) \<Rightarrow> med c t"
    using r by (simp add: post_def timeout_for_def act_bind_def act_then_def gets_def modify_def ret_def emit_def)
qed

lemma set_last_visible [simp]: "visible (set_last_content x s) = visible s"
  by (auto simp: set_last_content_def visible_def split: list.split json.split)

lemma med_silent: "(\<And>s. visible (f s) = visible s) \<Longrightarrow> keeps (med c) (modify f)"
  by (rule keeps_modify) (auto intro: med_frame)

lemma med_withhold: "halts v \<Longrightarrow> brings (consulted c pt x n new v) (withhold v) (\<lambda>_. med c) (med c)"
  unfolding withhold_def
  by (intro brings_then_inv keeps_intros med_silent)
    (auto simp: brings_def dest: med_answer_halt split: prod.split sum.split)

lemma med_release:
  assumes "\<not> halts v" "pt \<in> set OUTPUT_POINTS"
  shows "brings (consulted c pt ans n new v) (release_text (vetted_text new ans) ans) (\<lambda>_. med c) (med c)"
  unfolding release_text_def
proof (intro brings_then_inv keeps_intros med_silent)
  let ?x = "vetted_text new ans"
  have "med c (s\<lparr>t_trace := t_trace s @ [Yielded (AnswerPiece y)]\<rparr>)" if "consulted c pt ans n new v s" "?x = JStr y" for s y
    using that assms by (intro med_emit [of c pt ans n new v s s]) auto
  then have "med c (s\<lparr>t_text := z, t_trace := t_trace s @ [Yielded (AnswerPiece y)]\<rparr>)" if "consulted c pt ans n new v s" "?x = JStr y" for s y z
    using that by (simp add: med_def)
  then show "brings (consulted c pt ans n new v) (if json_true ?x then act_bind (lift_res (as_str ?x)) answer else ret ()) (\<lambda>_. med c) (med c)"
    by (auto simp: brings_def act_bind_def lift_res_def ret_def as_str_def answer_eval med_consulted split: json.split)
qed simp

lemma med_output: "keeps (med c) (guard_output c ans calls)"
  unfolding guard_output_def brings_keeps Let_def
  by (intro brings_bind [OF keeps_pure(4) [unfolded brings_keeps]] brings_bind [OF guard_at_consulted])
    (auto intro!: brings_then [OF flags_consulted] med_withhold med_release simp: OUTPUT_POINTS_def split: prod.split)

lemma med_clock: "keeps (med c) (read_clock env)"
  unfolding read_clock_def by (intro keeps_intros keeps_modify) (simp add: med_def)

lemma med_consult: "keeps (med c) (guard_at c pt x n m)"
  unfolding brings_keeps by (rule brings_weaken [OF guard_at_consulted]) (auto simp: consulted_def split: prod.splits)

lemma med_flags: "keeps (med c) (record_flags pt fs)"
  unfolding record_flags_def by (rule med_silent) (simp add: visible_def)

lemma med_run_tool:
  assumes "\<not> halts v"
  shows "brings (consulted c TOOL_CALL args (Some name) new v) (run_tool env name (vetted_args new args)) (\<lambda>_. med c) (med c)"
proof -
  let ?x = "vetted_args new args"
  have "med c (s\<lparr>t_trace := t_trace s @ [Ran name kvs]\<rparr>)" if "consulted c TOOL_CALL args (Some name) new v s" "?x = JObj kvs" for s kvs
    using that assms by (intro med_emit [of c TOOL_CALL args "Some name" new v s s]) auto
  then have "brings (consulted c TOOL_CALL args (Some name) new v) (emit (Ran name kvs)) (\<lambda>_. med c) (med c)" if "?x = JObj kvs" for kvs
    using that by (auto simp: brings_def emit_eval)
  note ran = this
  show ?thesis
  proof (cases ?x)
    case (JObj kvs)
    show ?thesis unfolding run_tool_def JObj json.case
      by (intro brings_then_inv ran [OF JObj] keeps_intros med_silent) (simp add: visible_def)
  qed (auto simp: run_tool_def brings_def ret_def dest: med_consulted)
qed

lemma med_invoke: "keeps (med c) (invoke_guarded env c name args)"
  unfolding invoke_guarded_def brings_keeps Let_def
proof (rule brings_bind [OF guard_at_consulted], clarify)
  fix new v fs
  let ?k = "\<lambda>out. case out of Inl msg \<Rightarrow> ret (vetted_args new args, msg, None)
        | Inr result \<Rightarrow>
            act_bind (guard_at c TOOL_RESULT (JStr result) (Some name) None) (\<lambda>(g_result, rv, rflags).
            act_then (record_flags TOOL_RESULT rflags)
            (if halts rv then
               ret (vetted_args new args, if truthy (v_reason rv) then default_to [] (v_reason rv)
                           else ''The result of tool '' @ repr_str name @ '' was withheld by a guardrail.'',
                    if skips rv then None else Some rv)
             else ret (vetted_args new args, case g_result of JStr x \<Rightarrow> x | _ \<Rightarrow> result, None)))"
  have k: "keeps (med c) (?k out)" for out by (intro keeps_intros med_consult med_flags)
  have "brings (consulted c TOOL_CALL args (Some name) new v) (act_bind (run_tool env name (vetted_args new args)) ?k) (\<lambda>_. med c) (med c)" if "\<not> halts v"
    using that k by (intro brings_bind [OF med_run_tool]) (simp_all add: brings_keeps)
  moreover have "brings (consulted c TOOL_CALL args (Some name) new v) (ret y) (\<lambda>_. med c) (med c)" for y :: "json \<times> string \<times> verdict option"
    by (auto simp: brings_def ret_def dest: med_consulted)
  ultimately show "brings (consulted c TOOL_CALL args (Some name) new v) (act_then (record_flags TOOL_CALL fs)
      (if halts v then
        ret (args, if truthy (v_reason v) then default_to [] (v_reason v)
                   else ''Tool '' @ repr_str name @ '' was blocked by a guardrail.'',
             if skips v then None else Some v)
      else act_bind (run_tool env name (vetted_args new args)) ?k)) (\<lambda>_. med c) (med c)"
    by (intro brings_then [OF flags_consulted]) simp
qed

lemma med_user: "keeps (med c) (guard_user c user)"
  unfolding guard_user_def brings_keeps
proof (rule brings_bind [OF guard_at_consulted], clarify)
  fix new v fs
  have "brings (consulted c USER_INPUT (JStr user) None new v) (if halts v then halt v else ret ()) (\<lambda>_. med c) (med c)"
    by (auto simp: brings_def ret_def dest: med_answer_halt med_consulted split: prod.split sum.split)
  then show "brings (consulted c USER_INPUT (JStr user) None new v)
      (act_then (record_flags USER_INPUT fs) (act_then (if halts v then halt v else ret ()) (ret (new, v)))) (\<lambda>_. med c) (med c)"
    by (intro brings_then [OF flags_consulted] brings_then_inv keeps_intros)
qed

interpretation mediation: turn_invariant env c "med c" "cleared c" for env c
proof
  show "keeps (med c) (emit (Yielded (ReasoningPiece r)))" for r
    by (simp add: keeps_def emit_eval med_def mediated_append)
  show "keeps (med c) (answer TIMEOUT_TEXT)" "\<not> buffer_output c \<Longrightarrow> keeps (med c) (answer x)" for x
    by (simp_all add: keeps_def answer_eval med_def mediated_append)
  show "keeps (med c) (arm_deadline env c)"
    unfolding arm_deadline_def by (intro keeps_intros med_clock keeps_modify) (simp_all add: med_def)
qed (erule (1) med_frame | rule med_clock med_output med_invoke med_prompt med_post med_user)+

section \<open>Budgets\<close>

lemma read_clock_eval: "read_clock env s = (Inr (e_clock env (t_clock s)), s\<lparr>t_clock := Suc (t_clock s)\<rparr>)"
  by (simp add: read_clock_def act_bind_def act_then_def gets_def modify_def ret_def)

definition posted :: "action list \<Rightarrow> (json \<times> real option) list" where
  "posted tr = List.map_filter (\<lambda>a. case a of Posted b r \<Rightarrow> Some (b, r) | _ \<Rightarrow> None) tr"

lemma posted_simps [simp]:
  "posted [] = []"
  "posted (tr @ [Posted b r]) = posted tr @ [(b, r)]" "posted (tr @ [Yielded e]) = posted tr"
  "posted (tr @ [Consulted p ctx out]) = posted tr" "posted (tr @ [Ran n a]) = posted tr"
  by (simp_all add: posted_def List.map_filter_def)

text \<open>Posting: the messages as they are, with the read budget of the moment.\<close>

definition budget_now :: "env \<Rightarrow> chat \<Rightarrow> turn_state \<Rightarrow> real option" where
  "budget_now env c s = read_budget (c_stall_timeout c) (map_option (\<lambda>d. d - e_clock env (t_clock s)) (t_deadline s))"

lemma post_eval:
  "post env c streamed s =
     (let body = payload c (t_messages s) streamed; rd = budget_now env c s in
      (Inr (t_posts s, body, rd),
       s\<lparr>t_clock := (if t_deadline s = None then t_clock s else Suc (t_clock s)),
         t_trace := t_trace s @ [Posted body rd], t_posts := Suc (t_posts s)\<rparr>))"
  by (cases "t_deadline s")
    (simp_all add: post_def timeout_for_def remaining_def read_clock_eval act_bind_def act_then_def gets_def modify_def ret_def emit_def
      budget_now_def Let_def)

text \<open>Nothing but a post adds to the posted requests.\<close>

definition posts_are :: "(json \<times> real option) list \<Rightarrow> turn_state \<Rightarrow> bool" where
  "posts_are ps s \<longleftrightarrow> posted (t_trace s) = ps"

lemma posts_base:
  "keeps (posts_are ps) (read_clock env)" "keeps (posts_are ps) (answer x)" "keeps (posts_are ps) (guard_at c pt v n m)"
  "keeps (posts_are ps) (emit (Yielded e))" "keeps (posts_are ps) (emit (Ran name kvs))"
  by (auto simp: keeps_def read_clock_eval answer_eval emit_eval guard_at_eval posts_are_def Let_def)

interpretation quiet: step_part env c "posts_are ps" for env c ps
proof
  show "posts_are ps s \<Longrightarrow> visible s' = visible s \<Longrightarrow> posts_are ps s'" for s s' by (simp add: posts_are_def visible_def)
qed (rule posts_base)+

definition posts_more :: "(json \<times> real option) list \<Rightarrow> turn_state \<Rightarrow> bool" where
  "posts_more ps s \<longleftrightarrow> (\<exists>p. posts_are (ps @ [p]) s)"

lemma keeps_posts_more: "(\<And>p. keeps (posts_are (ps @ [p])) m) \<Longrightarrow> keeps (posts_more ps) m"
  unfolding keeps_def posts_more_def by blast

interpretation posting: round_trip env c "posts_more ps" "posts_are ps" for env c ps
proof
  show "posts_more ps s \<Longrightarrow> visible s' = visible s \<Longrightarrow> posts_more ps s'" for s s'
    by (simp add: posts_more_def posts_are_def visible_def)
  show "brings (posts_are ps) (post env c streamed) (\<lambda>_. posts_more ps) (posts_more ps)" for streamed
    by (simp add: brings_def post_eval posts_more_def posts_are_def Let_def)
qed (rule keeps_posts_more, rule posts_base quiet.step_output quiet.step_invoke)+

lemma complete_posts:
  "brings (posts_are ps) (complete_turn env c streamed) (\<lambda>_ s. posts_are ps s \<or> posts_more ps s) (\<lambda>s. posts_are ps s \<or> posts_more ps s)"
  unfolding complete_turn_def
proof (rule brings_bind)
  show "brings (posts_are ps) (guard_prompt c) (\<lambda>_. posts_are ps) (\<lambda>s. posts_are ps s \<or> posts_more ps s)"
    by (rule brings_weaken [OF quiet.step_prompt [unfolded brings_keeps]]) auto
  fix v
  have "keeps (posts_are ps) (act_then (halt v) (ret (Halted (halt_reason v))))"
    unfolding halt_def by (intro keeps_intros posts_base)
  then show "brings (posts_are ps) (if halts v then act_then (halt v) (ret (Halted (halt_reason v)))
      else if streamed then stream_turn env c else plain_turn env c)
    (\<lambda>_ s. posts_are ps s \<or> posts_more ps s) (\<lambda>s. posts_are ps s \<or> posts_more ps s)"
    by (auto simp: brings_keeps intro: brings_weaken [OF posting.brings_plain] brings_weaken [OF posting.brings_stream] brings_weaken)
qed

definition posts_within :: "nat \<Rightarrow> turn_state \<Rightarrow> bool" where
  "posts_within n s \<longleftrightarrow> length (posted (t_trace s)) \<le> n"

lemma keeps_posts_within: "(\<And>ps. keeps (posts_are ps) m) \<Longrightarrow> keeps (posts_within n) m"
  unfolding keeps_def posts_within_def posts_are_def by metis

interpretation quiet_part: turn_part env c "posts_are ps" for env c ps
proof
  show "posts_are ps s \<Longrightarrow> visible s' = visible s \<Longrightarrow> posts_are ps s'" for s s' by (simp add: posts_are_def visible_def)
qed (rule posts_base quiet.step_output quiet.step_invoke)+

lemma complete_within: "brings (posts_within n) (complete_turn env c streamed) (\<lambda>_. posts_within (Suc n)) (posts_within (Suc n))"
  unfolding brings_def
proof (intro allI impI)
  fix s assume "posts_within n s"
  moreover have "case complete_turn env c streamed s of
      (Inl e, t) \<Rightarrow> posts_are (posted (t_trace s)) t \<or> posts_more (posted (t_trace s)) t
    | (Inr x, t) \<Rightarrow> posts_are (posted (t_trace s)) t \<or> posts_more (posted (t_trace s)) t"
    using complete_posts [of "posted (t_trace s)" env c streamed] by (simp add: brings_def posts_are_def)
  ultimately show "case complete_turn env c streamed s of (Inl e, t) \<Rightarrow> posts_within (Suc n) t | (Inr x, t) \<Rightarrow> posts_within (Suc n) t"
    by (auto simp: posts_within_def posts_are_def posts_more_def split: prod.splits sum.splits)
qed

lemma posts_within_mono: "posts_within k s \<Longrightarrow> k \<le> n \<Longrightarrow> posts_within n s"
  by (simp add: posts_within_def)

lemma guarded_within: "brings (posts_within k) (guarded_turn env c streamed) (\<lambda>_. posts_within (Suc k)) (posts_within (Suc k))"
  unfolding guarded_turn_def
  by (intro brings_catch brings_bind [OF complete_within]) (simp_all add: brings_def ret_def)

lemma loop_within: "brings (posts_within k) (run_loop env c streamed n) (\<lambda>_. posts_within (k + n)) (posts_within (k + n))"
proof (induction n arbitrary: k)
  case 0
  show ?case by (simp add: brings_def ret_def)
next
  case (Suc n)
  have after: "keeps (posts_within (Suc k)) (after_turn env c assistant fin ans)" for assistant fin ans
    by (rule keeps_posts_within) (rule quiet_part.kept_after)
  have rest: "brings (posts_within (Suc k)) (run_loop env c streamed n) (\<lambda>_. posts_within (k + Suc n)) (posts_within (k + Suc n))"
    using Suc.IH [of "Suc k"] by simp
  have weak: "brings (posts_within (Suc k)) (ret r) (\<lambda>_. posts_within (k + Suc n)) (posts_within (k + Suc n))" for r :: json
    by (auto simp: brings_def ret_def elim: posts_within_mono)
  have "brings (posts_within (Suc k)) (act_bind (after_turn env c assistant fin ans)
      (\<lambda>r. case r of Some reason \<Rightarrow> ret reason | None \<Rightarrow> run_loop env c streamed n)) (\<lambda>_. posts_within (k + Suc n)) (posts_within (k + Suc n))"
    for assistant fin ans
  proof (rule brings_bind [where Q = "\<lambda>_. posts_within (Suc k)"])
    show "brings (posts_within (Suc k)) (after_turn env c assistant fin ans) (\<lambda>_. posts_within (Suc k)) (posts_within (k + Suc n))"
      by (rule brings_weaken [OF after [unfolded brings_keeps]]) (auto elim: posts_within_mono)
  qed (use rest weak in \<open>auto split: option.split\<close>)
  then have turn: "brings (posts_within (Suc k)) (case o1 of None \<Rightarrow> ret (JStr ''timeout'') | Some (Halted r) \<Rightarrow> ret (JStr r)
      | Some (Completed assistant finish ans) \<Rightarrow> act_bind (after_turn env c assistant finish ans)
           (\<lambda>r. case r of Some reason \<Rightarrow> ret reason | None \<Rightarrow> run_loop env c streamed n)) (\<lambda>_. posts_within (k + Suc n)) (posts_within (k + Suc n))" for o1
    using weak by (auto split: option.split round_outcome.split)
  have exp: "keeps (posts_within k) (expired env)"
    by (rule keeps_posts_within) (rule quiet_part.kept_expired)
  show ?case unfolding run_loop.simps
  proof (rule brings_bind [where Q = "\<lambda>_. posts_within k"])
    show "brings (posts_within k) (expired env) (\<lambda>_. posts_within k) (posts_within (k + Suc n))"
      by (rule brings_weaken [OF exp [unfolded brings_keeps]]) (auto elim: posts_within_mono)
    have g: "brings (posts_within k) (guarded_turn env c streamed) (\<lambda>_. posts_within (Suc k)) (posts_within (k + Suc n))"
      by (rule brings_weaken [OF guarded_within [of k]]) (auto elim: posts_within_mono)
    have "brings (posts_within k) (ret (JStr ''timeout'')) (\<lambda>_. posts_within (k + Suc n)) (posts_within (k + Suc n))"
      by (auto simp: brings_def ret_def elim: posts_within_mono)
    then show "brings (posts_within k) (if x then ret (JStr ''timeout'') else act_bind (guarded_turn env c streamed) (\<lambda>o1.
       case o1 of None \<Rightarrow> ret (JStr ''timeout'') | Some (Halted r) \<Rightarrow> ret (JStr r)
       | Some (Completed assistant finish ans) \<Rightarrow> act_bind (after_turn env c assistant finish ans)
           (\<lambda>r. case r of Some reason \<Rightarrow> ret reason | None \<Rightarrow> run_loop env c streamed n)))
       (\<lambda>_. posts_within (k + Suc n)) (posts_within (k + Suc n))" for x
      using brings_bind [OF g turn] by (simp split del: option.split round_outcome.split)
  qed
qed

text \<open>Once the deadline is armed, every request gets at most the turn budget and the stall limit.\<close>

definition within_budget :: "chat \<Rightarrow> real \<Rightarrow> real option \<Rightarrow> bool" where
  "within_budget c budget rd \<longleftrightarrow> (\<exists>x. rd = Some x \<and> x \<le> budget \<and> (\<forall>t. c_stall_timeout c = Some t \<longrightarrow> x \<le> t))"

definition reads_ok :: "chat \<Rightarrow> real \<Rightarrow> turn_state \<Rightarrow> bool" where
  "reads_ok c budget s \<longleftrightarrow> list_all (\<lambda>p. within_budget c budget (snd p)) (posted (t_trace s))"

definition armed :: "env \<Rightarrow> chat \<Rightarrow> real \<Rightarrow> turn_state \<Rightarrow> bool" where
  "armed env c budget s \<longleftrightarrow> (c_turn_timeout c = Some budget \<and> budget \<noteq> 0 \<and> mono (e_clock env) \<longrightarrow>
     (\<exists>k \<le> t_clock s. t_deadline s = Some (e_clock env k + budget)) \<and> reads_ok c budget s)"

lemma budget_now_within:
  assumes "mono (e_clock env)" "k \<le> t_clock s" "t_deadline s = Some (e_clock env k + budget)"
  shows "within_budget c budget (budget_now env c s)"
proof -
  have "e_clock env k \<le> e_clock env (t_clock s)" using assms(1,2) by (rule monoD)
  then show ?thesis using assms(3)
    by (auto simp: within_budget_def budget_now_def read_budget_def split: option.split)
qed

lemma arm_armed:
  assumes "reads_ok c budget s" shows "armed env c budget (snd (arm_deadline env c s))"
proof (cases "c_turn_timeout c = Some budget \<and> budget \<noteq> 0")
  case True
  then have "snd (arm_deadline env c s) = s\<lparr>t_clock := Suc (t_clock s), t_deadline := Some (e_clock env (t_clock s) + budget)\<rparr>"
    by (simp add: arm_deadline_def act_bind_def read_clock_eval modify_def)
  then show ?thesis using assms by (auto simp: armed_def reads_ok_def intro!: exI [of _ "t_clock s"])
qed (auto simp: armed_def)

lemma armed_post: "keeps (armed env c budget) (post env c streamed)"
proof -
  have "armed env c budget (snd (post env c streamed s))" if a: "armed env c budget s" for s
  proof (cases "c_turn_timeout c = Some budget \<and> budget \<noteq> 0 \<and> mono (e_clock env)")
    case True
    with a obtain k where k: "k \<le> t_clock s" "t_deadline s = Some (e_clock env k + budget)" and r: "reads_ok c budget s"
      by (auto simp: armed_def)
    then have "within_budget c budget (budget_now env c s)" using True by (blast intro: budget_now_within)
    with r have "reads_ok c budget (snd (post env c streamed s))"
      by (simp add: post_eval reads_ok_def Let_def)
    moreover have "\<exists>k \<le> t_clock (snd (post env c streamed s)). t_deadline (snd (post env c streamed s)) = Some (e_clock env k + budget)"
      using k by (intro exI [of _ k]) (simp add: post_eval Let_def)
    ultimately show ?thesis by (simp add: armed_def)
  qed (auto simp: armed_def)
  then show ?thesis by (simp add: keeps_def)
qed

lemma armed_base:
  "keeps (armed env c budget) (answer x)" "keeps (armed env c budget) (guard_at c pt v n m)"
  "keeps (armed env c budget) (emit (Yielded e))" "keeps (armed env c budget) (emit (Ran name kvs))"
  by (simp_all add: keeps_def answer_eval emit_eval guard_at_eval armed_def reads_ok_def Let_def)

lemma armed_clock: "keeps (armed env c budget) (read_clock env)"
  by (auto simp: keeps_def read_clock_eval armed_def reads_ok_def intro: le_SucI)

interpretation budgets: step_invariant env c "armed env c budget" for env c budget
proof
  show "armed env c budget s \<Longrightarrow> visible s' = visible s \<Longrightarrow> armed env c budget s'" for s s'
    by (simp add: armed_def reads_ok_def visible_def)
  have "armed env c budget (snd (arm_deadline env c s))" if "armed env c budget s" for s
    using that arm_armed [of c budget s env] by (auto simp: armed_def)
  then show "keeps (armed env c budget) (arm_deadline env c)" by (simp add: keeps_def)
qed (rule armed_base armed_clock armed_post)+

lemma turn_brings:
  assumes user: "keeps A (guard_user c user)"
    and silent: "\<And>s s'. A s \<Longrightarrow> visible s' = visible s \<Longrightarrow> A s'" "\<And>s s'. C s \<Longrightarrow> visible s' = visible s \<Longrightarrow> C s'"
    and arm: "\<And>s. A s \<Longrightarrow> B (snd (arm_deadline env c s))" and AC: "\<And>s. A s \<Longrightarrow> C s" "\<And>s. B s \<Longrightarrow> C s"
    and loop: "brings B (run_loop env c streamed (a_max_iterations (c_agent c))) (\<lambda>_. C) C"
    and timeout: "keeps C (answer TIMEOUT_TEXT)"
  shows "brings A (run_turn env c user streamed) (\<lambda>_. C) C"
proof -
  have fin0: "keeps C (set_finish r)" for r
    unfolding set_finish_def by (rule keeps_modify) (auto intro: silent simp: visible_def)
  then have fin: "keeps C (act_then (set_finish r) (ret u))" for r and u :: string by (intro keeps_intros)
  have arm': "brings A (arm_deadline env c) (\<lambda>_. B) C"
    using arm AC by (auto simp: brings_def split: prod.splits sum.splits) (metis snd_conv)+
  have tail: "brings A (act_then (arm_deadline env c)
       (act_bind (run_loop env c streamed (a_max_iterations (c_agent c))) (\<lambda>reason.
        act_then (if reason = JStr ''timeout'' then answer TIMEOUT_TEXT else ret ()) (act_then (set_finish reason) (ret u))))) (\<lambda>_. C) C" for u
  proof (rule brings_then [OF arm'], rule brings_bind [OF loop])
    have "keeps C (act_then (if reason = JStr ''timeout'' then answer TIMEOUT_TEXT else ret ()) (act_then (set_finish reason) (ret u)))" for reason
      by (intro keeps_intros timeout fin0)
    then show "brings C (act_then (if reason = JStr ''timeout'' then answer TIMEOUT_TEXT else ret ()) (act_then (set_finish reason) (ret u))) (\<lambda>_. C) C" for reason
      by (simp add: brings_keeps)
  qed
  have upd: "brings A (if b then modify (\<lambda>s. s\<lparr>t_messages := f s\<rparr>) else ret ()) (\<lambda>_. A) C" for b f
    using silent(1) AC by (auto simp: brings_def modify_def ret_def visible_def)
  have halted: "brings A (act_then (set_finish r) (ret u)) (\<lambda>_. C) C" for r and u :: string
    by (rule brings_weaken [OF fin [unfolded brings_keeps]]) (auto intro: AC)
  have user': "brings A (guard_user c user) (\<lambda>_. A) C"
    by (rule brings_weaken [OF user [unfolded brings_keeps]]) (auto intro: AC)
  show ?thesis unfolding run_turn_def Let_def
  proof (rule brings_bind [OF user'], clarify)
    fix contents v
    note k = brings_then [OF upd tail]
    show "brings A (if halts v then act_then (set_finish (JStr (halt_reason v))) (ret user)
       else act_then (if contents \<noteq> JStr user
                 then modify (\<lambda>s. s\<lparr>t_messages := butlast (t_messages s) @ [message ''user'' (case contents of JStr x \<Rightarrow> x | _ \<Rightarrow> user)]\<rparr>) else ret ())
       (act_then (arm_deadline env c)
       (act_bind (run_loop env c streamed (a_max_iterations (c_agent c))) (\<lambda>reason.
        act_then (if reason = JStr ''timeout'' then answer TIMEOUT_TEXT else ret ())
        (act_then (set_finish reason) (ret (case contents of JStr x \<Rightarrow> x | _ \<Rightarrow> user))))))) (\<lambda>_. C) C"
      by (cases "halts v") (simp_all only: if_True if_False halted k)
  qed
qed

lemma turn_posts:
  "brings (posts_within 0) (run_turn env c user streamed) (\<lambda>_. posts_within (a_max_iterations (c_agent c))) (posts_within (a_max_iterations (c_agent c)))"
proof (rule turn_brings [where B = "posts_within 0"])
  show "keeps (posts_within 0) (guard_user c user)" by (rule keeps_posts_within) (rule quiet.step_user)
  show "keeps (posts_within (a_max_iterations (c_agent c))) (answer TIMEOUT_TEXT)" by (rule keeps_posts_within) (rule posts_base)
  show "posts_within 0 (snd (arm_deadline env c s))" if "posts_within 0 s" for s
    using that by (auto simp: arm_deadline_def act_bind_def read_clock_eval modify_def posts_within_def split: option.split)
  show "brings (posts_within 0) (run_loop env c streamed (a_max_iterations (c_agent c)))
    (\<lambda>_. posts_within (a_max_iterations (c_agent c))) (posts_within (a_max_iterations (c_agent c)))"
    using loop_within [of 0] by simp
qed (auto simp: posts_within_def visible_def)

definition budgeted :: "env \<Rightarrow> chat \<Rightarrow> real \<Rightarrow> turn_state \<Rightarrow> bool" where
  "budgeted env c budget s \<longleftrightarrow> (c_turn_timeout c = Some budget \<and> budget \<noteq> 0 \<and> mono (e_clock env) \<longrightarrow> reads_ok c budget s)"

lemma turn_budgets:
  "brings (posts_are []) (run_turn env c user streamed) (\<lambda>_. budgeted env c budget) (budgeted env c budget)"
proof (rule turn_brings [where B = "armed env c budget"])
  show "keeps (posts_are []) (guard_user c user)" by (rule quiet.step_user)
  show "keeps (budgeted env c budget) (answer TIMEOUT_TEXT)"
    by (simp add: keeps_def answer_eval budgeted_def reads_ok_def)
  show "brings (armed env c budget) (run_loop env c streamed (a_max_iterations (c_agent c))) (\<lambda>_. budgeted env c budget) (budgeted env c budget)"
    by (rule brings_weaken [OF budgets.kept_loop [unfolded brings_keeps]]) (auto simp: armed_def budgeted_def)
  show "armed env c budget (snd (arm_deadline env c s))" if "posts_are [] s" for s
    using that by (intro arm_armed) (simp add: posts_are_def reads_ok_def)
qed (auto simp: budgeted_def posts_are_def armed_def reads_ok_def visible_def)

section \<open>History\<close>

definition carried :: "json \<Rightarrow> bool" where
  "carried m \<longleftrightarrow> (\<exists>role content. role \<in> {''user'', ''assistant''} \<and> m = message role content)"

lemma carried_normal: "carried m \<Longrightarrow> normalize_entry m = Inr m"
  by (auto simp: carried_def normalize_entry_def message_def obj_get_def)

lemma normal_carried: "normalize_entry m = Inr x \<Longrightarrow> carried x"
  by (auto simp: carried_def normalize_entry_def split: json.splits if_splits)

lemma normalize_carried: "list_all carried h \<Longrightarrow> normalize_history h = Inr h"
  by (induction h) (simp_all add: carried_normal)

lemma normalized_carried: "normalize_history h = Inr xs \<Longrightarrow> list_all carried xs"
proof (induction h arbitrary: xs)
  case (Cons m h)
  then show ?case by (cases "normalize_entry m"; cases "normalize_history h") (auto dest: normal_carried)
qed simp

lemma carried_trimmed: "list_all carried h \<Longrightarrow> list_all carried (trimmed_history n h)"
  unfolding trimmed_history_def Let_def by (auto simp: list_all_iff dest: in_set_dropD)

lemma length_trimmed: "length (trimmed_history n h) \<le> 2 * n"
  by (simp add: trimmed_history_def Let_def)

lemma trimmed_short: "length h \<le> 2 * n \<Longrightarrow> trimmed_history n h = h"
  by (auto simp: trimmed_history_def Let_def)

text \<open>A chat as \<open>create_chat\<close> makes it from agent \<open>a\<close>, whatever it carries.\<close>

definition chat_of :: "agent \<Rightarrow> string option \<Rightarrow> int \<Rightarrow> chat \<Rightarrow> bool" where
  "chat_of a system turns c \<longleftrightarrow>
     a_defaults_fetched a \<and> c_agent c = a \<and> c_system c = system \<and> c_max_history_turns c = nat (max 0 turns)
     \<and> c_turn_timeout c = limit_of (a_turn_timeout a) \<and> c_stall_timeout c = limit_of (a_stall_timeout a)
     \<and> list_all carried (c_history c) \<and> length (c_history c) \<le> 2 * nat (max 0 turns)"

lemma resolve_fetched [simp]: "a_defaults_fetched (resolve_timeouts ans a)"
  by (simp add: resolve_timeouts_def Let_def)

lemma resolve_again [simp]: "a_defaults_fetched a \<Longrightarrow> resolve_timeouts ans a = a"
  by (simp add: resolve_timeouts_def)

lemma chat_of_create: "create_chat ans system turns h a = Inr (c, a') \<Longrightarrow> chat_of a' system turns c"
  by (cases "normalize_history h")
    (auto simp: create_chat_def chat_of_def trim_history_def Let_def length_trimmed dest: normalized_carried intro!: carried_trimmed)

lemma chat_of_remember: "chat_of a system turns c \<Longrightarrow> chat_of a system turns (remember user ans c)"
  by (auto simp: chat_of_def remember_def trim_history_def length_trimmed intro!: carried_trimmed) (auto simp: carried_def)

lemma chat_of_request: "chat_of a system turns c \<Longrightarrow> chat_of a system turns (snd (request env contents streamed c))"
  by (auto simp: request_def chat_of_remember split: json.split prod.split sum.split)

lemma chat_of_rehydrated:
  assumes "chat_of a system turns c" shows "create_chat ans system turns (c_history c) a = Inr (c, a)"
  using assms by (cases c) (auto simp: chat_of_def create_chat_def trim_history_def normalize_carried trimmed_short Let_def)

type_synonym chat_event = "env \<times> json \<times> bool"

definition chat_exec :: "chat_event \<Rightarrow> chat \<Rightarrow> chat" where
  "chat_exec e c = (case e of (env, contents, streamed) \<Rightarrow> snd (request env contents streamed c))"

definition chat_start :: "agent \<Rightarrow> string option \<Rightarrow> int \<Rightarrow> chat" where
  "chat_start a system turns =
     \<lparr>c_agent = resolve_timeouts None a, c_system = system, c_max_history_turns = nat (max 0 turns), c_history = [],
      c_turn_timeout = limit_of (a_turn_timeout (resolve_timeouts None a)), c_stall_timeout = limit_of (a_stall_timeout (resolve_timeouts None a))\<rparr>"

lemma chat_of_exec: "chat_of a system turns c \<Longrightarrow> chat_of a system turns (chat_exec e c)"
  by (cases e) (simp add: chat_exec_def chat_of_request)

lemma chat_of_start: "chat_of (resolve_timeouts None a) system turns (chat_start a system turns)"
  by (simp add: chat_start_def chat_of_def)

interpretation conversation: event_machine "chat_start a system turns" chat_exec "chat_of (resolve_timeouts None a) system turns"
  for a system turns
  by unfold_locales (rule chat_of_start, erule chat_of_exec)

lemma chat_of_run: "chat_of a system turns c \<Longrightarrow> chat_of a system turns (fold chat_exec es c)"
  using conversation.good_run [of a system turns c es] by (simp add: chat_of_def)

section \<open>No guards\<close>

definition with_profile :: "guard_profile option \<Rightarrow> chat \<Rightarrow> chat" where
  "with_profile p c = c\<lparr>c_agent := (c_agent c)\<lparr>a_profile := p\<rparr>\<rparr>"

lemma guard_at_off: "\<not> guarding c \<Longrightarrow> guard_at c pt x n m = ret (x, verdict_allow, [])"
  by (simp add: fun_eq_iff guard_at_eval ret_def)

lemma buffer_off: "\<not> guarding c \<Longrightarrow> \<not> buffer_output c"
  by (simp add: buffer_output_def)

definition twins :: "chat \<Rightarrow> chat \<Rightarrow> bool" where
  "twins c c' \<longleftrightarrow> \<not> guarding c \<and> \<not> guarding c' \<and> (\<exists>p. c' = with_profile p c)"

lemma with_profile_agent [simp]: "c_agent (with_profile p c) = (c_agent c)\<lparr>a_profile := p\<rparr>"
  "c_stall_timeout (with_profile p c) = c_stall_timeout c" "c_turn_timeout (with_profile p c) = c_turn_timeout c"
  "c_history (with_profile p c) = c_history c" "c_system (with_profile p c) = c_system c"
  "c_max_history_turns (with_profile p c) = c_max_history_turns c"
  by (simp_all add: with_profile_def)

lemma twin_base:
  assumes "twins c c'"
  shows "guard_at c' = guard_at c" "buffer_output c' = buffer_output c" "guard_prompt c' = guard_prompt c"
    "post env c' = post env c" "arm_deadline env c' = arm_deadline env c" "build_messages c' = build_messages c"
    "a_tools (c_agent c') = a_tools (c_agent c)" "a_max_iterations (c_agent c') = a_max_iterations (c_agent c)"
proof -
  obtain p where p: "c' = with_profile p c" and off: "\<not> guarding c" "\<not> guarding c'" using assms by (auto simp: twins_def)
  show "guard_at c' = guard_at c" "buffer_output c' = buffer_output c" "guard_prompt c' = guard_prompt c"
    using off by (simp_all add: fun_eq_iff guard_at_off buffer_off guard_prompt_def)
  have "payload c' = payload c" unfolding p fun_eq_iff payload_def with_profile_agent by (simp add: Let_def cong: if_cong)
  then show "post env c' = post env c" by (simp add: p fun_eq_iff post_def timeout_for_def)
  show "arm_deadline env c' = arm_deadline env c" "build_messages c' = build_messages c"
    "a_tools (c_agent c') = a_tools (c_agent c)" "a_max_iterations (c_agent c') = a_max_iterations (c_agent c)"
    by (simp_all add: p fun_eq_iff arm_deadline_def build_messages_def)
qed

lemma twin_event: assumes "twins c c'" shows "stream_event c' = stream_event c"
  unfolding fun_eq_iff stream_event_def twin_base [OF assms] by simp

lemma twin_lines: assumes t: "twins c c'" shows "stream_lines env c' fin ls = stream_lines env c fin ls"
proof (induction ls)
  case (Cons l ls)
  show ?case unfolding fun_eq_iff stream_lines.simps twin_event [OF t] Cons.IH by simp
qed (simp add: fun_eq_iff)

lemma twin_complete: assumes "twins c c'" shows "complete_turn env c' = complete_turn env c"
  unfolding fun_eq_iff complete_turn_def plain_turn_def post_json_def stream_turn_def post_stream_def
    twin_base [OF assms] twin_lines [OF assms] by simp

lemma twin_execute: assumes "twins c c'" shows "execute_tool env c' = execute_tool env c"
  unfolding fun_eq_iff execute_tool_def invoke_guarded_def twin_base [OF assms] by simp

lemma twin_tools: assumes t: "twins c c'" shows "run_tools env c' tcs = run_tools env c tcs"
proof (induction tcs)
  case (Cons tc tcs)
  show ?case unfolding run_tools.simps twin_execute [OF t] Cons.IH ..
qed simp

lemma twin_after: assumes "twins c c'" shows "after_turn env c' = after_turn env c"
  unfolding fun_eq_iff after_turn_def guard_output_def twin_base [OF assms] twin_tools [OF assms] by simp

lemma twin_loop: assumes t: "twins c c'" shows "run_loop env c' streamed n = run_loop env c streamed n"
proof (induction n)
  case (Suc n)
  show ?case unfolding run_loop.simps guarded_turn_def twin_complete [OF t] twin_after [OF t] Suc.IH ..
qed simp

lemma twin_turn: assumes "twins c c'" shows "run_turn env c' = run_turn env c"
  unfolding fun_eq_iff run_turn_def guard_user_def twin_base [OF assms] twin_loop [OF assms] by simp

section \<open>Tool failures\<close>

definition call_of :: "string \<Rightarrow> string \<Rightarrow> json" where
  "call_of name arguments = JObj [(''id'', JStr ''c1''), (''type'', JStr ''function''),
     (''function'', JObj [(''name'', JStr name), (''arguments'', JStr arguments)])]"

lemma no_raise_base: "no_raise (guard_at c pt x n m)" "no_raise (run_tool env name args)" "no_raise (record_flags pt fs)"
proof -
  show "no_raise (guard_at c pt x n m)" by (simp add: no_raise_def guard_at_eval Let_def)
  show "no_raise (run_tool env name args)"
    by (cases args) (auto simp: run_tool_def emit_def intro!: no_raise_intros)
  show "no_raise (record_flags pt fs)" by (simp add: record_flags_def)
qed

lemma no_raise_invoke: "no_raise (invoke_guarded env c name args)"
  unfolding invoke_guarded_def by (intro no_raise_intros no_raise_base)

definition calls_are :: "json list \<Rightarrow> turn_state \<Rightarrow> bool" where
  "calls_are ks s \<longleftrightarrow> t_tool_calls_made s = ks"

lemma calls_invoke: "keeps (calls_are ks) (invoke_guarded env c name args)"
proof -
  have "keeps (calls_are ks) (guard_at c pt x n m)" for pt x n m
    by (simp add: keeps_def guard_at_eval calls_are_def Let_def)
  moreover have "keeps (calls_are ks) (emit a)" "keeps (calls_are ks) (record_flags pt fs)" for a pt fs
    by (simp_all add: keeps_def emit_eval record_flags_def modify_def calls_are_def)
  ultimately show ?thesis unfolding invoke_guarded_def run_tool_def
    by (intro keeps_intros keeps_modify) (simp_all add: calls_are_def)
qed

text \<open>A call whose arguments are a string: what runs.\<close>

definition dispatch :: "env \<Rightarrow> chat \<Rightarrow> string \<Rightarrow> string \<Rightarrow> (json \<times> string \<times> verdict option) step" where
  "dispatch env c name txt =
     (if map_of (a_tools (c_agent c)) name = None then ret (JStr txt, ''Error: unknown tool '' @ repr_str name, None)
      else case e_loads env txt of
        Inl msg \<Rightarrow> ret (JStr txt, ''Error: could not parse arguments ('' @ msg @ '')'', None)
      | Inr args \<Rightarrow> invoke_guarded env c name args)"

lemma execute_dispatch:
  assumes "txt \<noteq> []"
  shows "execute_tool env c (call_of name txt) =
    act_bind (dispatch env c name txt) (\<lambda>(args, result, hv).
      act_then (modify (\<lambda>s. s\<lparr>t_tool_calls_made := t_tool_calls_made s @ [call_record (JStr name) args result]\<rparr>)) (ret (result, hv)))"
  using assms by (simp add: execute_tool_def call_of_def get_item_def get_default_def json_or_def dispatch_def Let_def)

lemma execute_object_raises:
  assumes "map_of (a_tools (c_agent c)) name \<noteq> None" "kvs \<noteq> []"
  shows "execute_tool env c (JObj [(''function'', JObj [(''name'', JStr name), (''arguments'', JObj kvs)])]) s
    = (Inl (TypeErr ''the JSON object must be str, bytes or bytearray, not dict''), s)"
  using assms by (auto simp: execute_tool_def get_item_def get_default_def json_or_def Let_def act_eval(2))

section \<open>A small conversation\<close>

definition demo_reply :: json where
  "demo_reply = JObj [(''choices'', JList [JObj [(''message'', JObj [(''content'', JStr ''hi'')]), (''finish_reason'', JStr ''stop'')]])]"

definition chat_env :: env where
  "chat_env = \<lparr>e_clock = real, e_reply = (\<lambda>n b r. Answered 200 (Some demo_reply)), e_stream = (\<lambda>n b r. NoStream ''refused''),
     e_tool = (\<lambda>n name args. ToolText ''ok''), e_loads = (\<lambda>s. Inr (JObj [])), e_float_repr = (\<lambda>r. ''0.0'')\<rparr>"

definition allow_guard :: guard where
  "allow_guard = \<lparr>points = None, intercept = (\<lambda>p ctx. Returned verdict_allow)\<rparr>"

definition demo_agent :: "guard_profile option \<Rightarrow> agent" where
  "demo_agent p = \<lparr>a_data_url = ''http://m'', a_model = ''any-model'', a_token = None, a_max_iterations = 5, a_sampling = [],
     a_tools = [(''t'', \<lparr>tool_name = ''t'', tool_description = ''d'', tool_parameters = JObj []\<rparr>)], a_profile = p,
     a_turn_timeout = Given (Some 30), a_stall_timeout = Given None, a_defaults_fetched = True\<rparr>"

definition demo_chat :: "guard_profile option \<Rightarrow> chat" where
  "demo_chat p = \<lparr>c_agent = demo_agent p, c_system = None, c_max_history_turns = 3, c_history = [],
     c_turn_timeout = Some 30, c_stall_timeout = None\<rparr>"

lemmas chat_demo_defs = demo_reply_def chat_env_def allow_guard_def demo_agent_def demo_chat_def

definition guarded_chat :: chat where
  "guarded_chat = demo_chat (Some \<lparr>p_name = ''p'', p_chain = [allow_guard]\<rparr>)"

definition demo_run :: "chat \<Rightarrow> string res \<times> turn_state" where
  "demo_run c = run_turn chat_env c ''hello'' False (new_turn (build_messages c ''hello''))"

fun kind_of :: "action \<Rightarrow> string" where
  "kind_of (Consulted p _ _) = point_value p"
| "kind_of (Posted _ _) = ''post''"
| "kind_of (Ran _ _) = ''ran''"
| "kind_of (Yielded _) = ''yield''"

section \<open>Properties\<close>

text \<open>C1: Guards mediate a turn completely. In a chat with a guard profile, whatever the model server,
  the tools and the clock do and also when the turn ends in an exception: every request is posted right
  after a consultation at the assembled prompt that did not halt, with the messages that consultation let
  through; every tool runs right after a consultation that did not halt, with the arguments it let
  through; and with an output guard every piece of answer text is one an output consultation let through,
  the text of a halting verdict, or the time-out notice.\<close>

theorem chat_mediated:
  assumes "guarding c"
  shows "mediated c None (t_trace (snd (run_turn env c user streamed (new_turn (build_messages c user)))))"
proof -
  have "med c (snd (run_turn env c user streamed (new_turn (build_messages c user))))"
    using mediation.kept_turn [of c env user streamed] by (simp add: keeps_def med_def new_turn_def)
  with assms show ?thesis by (simp add: med_def)
qed

theorem chat_mediated_witness:
  "mediated guarded_chat None (t_trace (snd (demo_run guarded_chat)))
   \<and> map kind_of (t_trace (snd (demo_run guarded_chat))) = [''user_input'', ''assembled_prompt'', ''post'', ''final_answer'', ''yield'']"
proof
  have "guarding guarded_chat" by code_simp
  then show "mediated guarded_chat None (t_trace (snd (demo_run guarded_chat)))"
    unfolding demo_run_def by (rule chat_mediated)
  show "map kind_of (t_trace (snd (demo_run guarded_chat))) = [''user_input'', ''assembled_prompt'', ''post'', ''final_answer'', ''yield'']"
    by code_simp
qed

text \<open>C13: A turn is bounded. It posts at most \<open>max_iterations\<close> requests; and when the chat has a turn budget
  and the clock does not run backwards, every request gets a read time-out that is at most the budget of
  the whole turn and at most the stall limit.\<close>

theorem turn_bounded:
  fixes env c user streamed
  defines "tr \<equiv> t_trace (snd (run_turn env c user streamed (new_turn (build_messages c user))))"
  shows "length (posted tr) \<le> a_max_iterations (c_agent c)
    \<and> (c_turn_timeout c = Some budget \<and> budget \<noteq> 0 \<and> mono (e_clock env) \<longrightarrow>
        list_all (\<lambda>p. within_budget c budget (snd p)) (posted tr))"
proof -
  let ?s = "new_turn (build_messages c user)"
  have "posts_within 0 ?s" "posts_are [] ?s" by (simp_all add: posts_within_def posts_are_def new_turn_def)
  then have "posts_within (a_max_iterations (c_agent c)) (snd (run_turn env c user streamed ?s))"
    "budgeted env c budget (snd (run_turn env c user streamed ?s))"
    by (blast intro: brings_state [OF turn_posts] brings_state [OF turn_budgets])+
  then show ?thesis by (simp add: tr_def posts_within_def budgeted_def reads_ok_def)
qed

theorem turn_bounded_witness:
  "length (posted (t_trace (snd (demo_run (demo_chat None))))) \<le> 5
   \<and> map snd (posted (t_trace (snd (demo_run (demo_chat None))))) = [Some 28]
   \<and> list_all (\<lambda>p. within_budget (demo_chat None) 30 (snd p)) (posted (t_trace (snd (demo_run (demo_chat None)))))"
proof -
  have "c_turn_timeout (demo_chat None) = Some 30" "a_max_iterations (c_agent (demo_chat None)) = 5" "mono (e_clock chat_env)"
    by (simp_all add: chat_demo_defs mono_def)
  moreover have "map snd (posted (t_trace (snd (demo_run (demo_chat None))))) = [Some 28]" by code_simp
  ultimately show ?thesis
    using turn_bounded [of chat_env "demo_chat None" "''hello''" False 30] by (simp add: demo_run_def)
qed

text \<open>What a response streams is its text. Iterating a response gives pieces whose concatenation is its
  text, streamed or not, the first time and when it is iterated again; and the chat remembers that text as
  the assistant's answer.\<close>

lemma response_parity:
  assumes "request env contents streamed c = (Inr s, c')"
  shows "concat (iterate s False) = t_text s \<and> concat (iterate s True) = t_text s
    \<and> (c_max_history_turns c \<noteq> 0 \<longrightarrow> last (c_history c') = message ''assistant'' (t_text s))"
proof -
  obtain user user' where r: "run_turn env c user streamed (new_turn (build_messages c user)) = (Inr user', s)"
    and c': "c' = remember user' (t_text s) c" using assms by (rule request_cases)
  have "text_ok (new_turn (build_messages c user))" by (simp add: text_ok_def new_turn_def answers_def List.map_filter_def)
  then have "text_ok s" using keepsD [OF parity.kept_turn _ r] by blast
  then have "concat (iterate s False) = t_text s" by (simp add: iterate_answers text_ok_def)
  moreover have "concat (iterate s True) = t_text s" by (simp add: iterate_def)
  moreover have "last (c_history c') = message ''assistant'' (t_text s)" if "c_max_history_turns c \<noteq> 0"
    using that by (auto simp: c' remember_def trim_history_def trimmed_history_def Let_def)
  ultimately show ?thesis by blast
qed

lemma response_parity_witness:
  "\<exists>s c'. request chat_env (JStr ''hello'') False (demo_chat None) = (Inr s, c') \<and> concat (iterate s False) = ''hi''
     \<and> last (c_history c') = message ''assistant'' ''hi''"
proof -
  define r where "r = request chat_env (JStr ''hello'') False (demo_chat None)"
  have "isl (fst (request chat_env (JStr ''hello'') False (demo_chat None))) = False
      \<and> t_text (projr (fst (request chat_env (JStr ''hello'') False (demo_chat None)))) = ''hi''" by code_simp
  then obtain s c' where s: "r = (Inr s, c')" "t_text s = ''hi''" unfolding r_def [symmetric]
    by (cases r; cases "fst r") auto
  with response_parity [of chat_env "JStr ''hello''" False "demo_chat None" s c'] show ?thesis
    by (auto simp: r_def chat_demo_defs)
qed

text \<open>C26: A conversation survives being stored. After any sequence of requests, successful or not, the carried
  history has at most two messages per allowed turn, only user and assistant messages with string
  contents, and creating a chat from it with the same agent and settings gives the same chat, whatever the
  fleet answers.\<close>

theorem history_rehydrates:
  assumes "create_chat ans system turns h a = Inr (c0, a')"
  shows "length (c_history (fold chat_exec es c0)) \<le> 2 * nat (max 0 turns)
    \<and> list_all carried (c_history (fold chat_exec es c0))
    \<and> create_chat ans' system turns (c_history (fold chat_exec es c0)) a' = Inr (fold chat_exec es c0, a')"
proof -
  have c: "chat_of a' system turns (fold chat_exec es c0)" by (rule chat_of_run [OF chat_of_create [OF assms]])
  with chat_of_rehydrated [OF c] show ?thesis by (simp add: chat_of_def)
qed

theorem history_rehydrates_witness:
  "create_chat None None 3 (c_history (chat_exec (chat_env, JStr ''hello'', False) (demo_chat None))) (demo_agent None)
     = Inr (chat_exec (chat_env, JStr ''hello'', False) (demo_chat None), demo_agent None)
   \<and> length (c_history (chat_exec (chat_env, JStr ''hello'', False) (demo_chat None))) = 2"
proof
  have "create_chat None None 3 [] (demo_agent None) = Inr (demo_chat None, demo_agent None)"
    by (simp add: create_chat_def resolve_timeouts_def chat_demo_defs trim_history_def trimmed_history_def limit_of_def Let_def)
  from history_rehydrates [OF this, of "[(chat_env, JStr ''hello'', False)]" None]
  show "create_chat None None 3 (c_history (chat_exec (chat_env, JStr ''hello'', False) (demo_chat None))) (demo_agent None)
     = Inr (chat_exec (chat_env, JStr ''hello'', False) (demo_chat None), demo_agent None)" by simp
  show "length (c_history (chat_exec (chat_env, JStr ''hello'', False) (demo_chat None))) = 2" by code_simp
qed

text \<open>An empty guard profile is the same as none. Two chats that differ only in having no profile or one
  without guards give the same response to every request, exceptions included, and remember the same.\<close>

lemma empty_profile_noop:
  assumes "p_chain p = []"
  shows "fst (request env contents streamed (with_profile (Some p) c)) = fst (request env contents streamed (with_profile None c))
    \<and> c_history (snd (request env contents streamed (with_profile (Some p) c)))
      = c_history (snd (request env contents streamed (with_profile None c)))"
proof -
  let ?c = "with_profile None c" and ?d = "with_profile (Some p) c"
  have "?d = with_profile (Some p) ?c" by (simp add: with_profile_def)
  then have "\<exists>q. ?d = with_profile q ?c" ..
  then have t: "twins ?c ?d" using assms by (simp add: twins_def guarding_def profile_is_empty_def)
  have "c_history (remember u x ?d) = c_history (remember u x ?c)" for u x
    by (simp add: remember_def trim_history_def)
  then show ?thesis
    unfolding request_def twin_turn [OF t] twin_base(6) [OF t]
    by (auto split: json.split prod.split sum.split)
qed

lemma empty_profile_noop_witness:
  "fst (request chat_env (JStr ''hello'') False (with_profile (Some \<lparr>p_name = ''p'', p_chain = []\<rparr>) (demo_chat None)))
   = fst (request chat_env (JStr ''hello'') False (with_profile None (demo_chat None)))"
  using empty_profile_noop [of "\<lparr>p_name = ''p'', p_chain = []\<rparr>" chat_env "JStr ''hello''" False "demo_chat None"] by simp

text \<open>A failing tool call does not end the turn: with arguments given as a string, the call returns a result
  for the model and leaves one record, and an unknown tool or arguments that do not parse are reported to
  the model. (Arguments given as an object raise: \<open>execute_object_raises\<close>.)\<close>

lemma tool_failures_contained:
  assumes "txt \<noteq> []"
  shows "\<exists>args result hv t. execute_tool env c (call_of name txt) s = (Inr (result, hv), t)
    \<and> t_tool_calls_made t = t_tool_calls_made s @ [call_record (JStr name) args result]
    \<and> (map_of (a_tools (c_agent c)) name = None \<longrightarrow> hv = None \<and> result = ''Error: unknown tool '' @ repr_str name)"
proof -
  have "\<exists>args result hv t. dispatch env c name txt s = (Inr (args, result, hv), t) \<and> t_tool_calls_made t = t_tool_calls_made s
      \<and> (map_of (a_tools (c_agent c)) name = None \<longrightarrow> hv = None \<and> result = ''Error: unknown tool '' @ repr_str name)"
  proof (cases "map_of (a_tools (c_agent c)) name = None \<or> (\<exists>msg. e_loads env txt = Inl msg)")
    case True
    then show ?thesis by (auto simp: dispatch_def ret_def)
  next
    case False
    then obtain args where a: "e_loads env txt = Inr args" by (cases "e_loads env txt") auto
    obtain r t where "invoke_guarded env c name args s = (Inr r, t)" using no_raise_invoke by (metis no_raise_def)
    moreover have "t_tool_calls_made t = t_tool_calls_made s"
      using keepsD [OF calls_invoke _ calculation, of "t_tool_calls_made s"] by (simp add: calls_are_def)
    ultimately show ?thesis using False a by (cases r) (auto simp: dispatch_def)
  qed
  then show ?thesis unfolding execute_dispatch [OF assms] by (auto simp: act_bind_def act_then_def modify_def ret_def)
qed

end
