(* ===== verification/Tools.thy ===== *)
theory Tools
  imports Settings Telemetry Chat
begin

text \<open>
  Tool declarations (\<open>src/src/oumigo/api/agent/tool.py\<close>): the \<open>@tool\<close> decorator, its validation of a
  function's name, signature, docstring and return type, and the JSON Schema it infers or checks.
  Python's reflection is data here: a \<open>pyfunc\<close> holds what \<open>inspect\<close> and \<open>typing\<close> report of a function.
  The code appends to shared problem lists; a definition returns the problems it adds, in order.
\<close>

section \<open>What reflection reports\<close>

datatype scalar = PStr | PBool | PInt | PFloat

text \<open>Types as \<open>get_origin\<close> and \<open>get_args\<close> see them. \<open>ABareList\<close>, \<open>ABareDict\<close>: the classes; \<open>AListAlias\<close>:
  \<open>typing.List\<close> with no item; \<open>ADictOf\<close>: any type of origin \<open>dict\<close>; \<open>AUnion\<close>: \<open>Union\<close>, \<open>Optional\<close> and
  \<open>X | Y\<close>; \<open>AOther\<close>: anything else that is hashable, an unresolved string annotation included. A value of
  no JSON type carries its \<open>repr\<close> and the scalar classes it is an instance of.\<close>

datatype pyvalue = PyVal json | PyObj string "scalar list"

datatype annotation =
    AScalar scalar
  | ANone
  | ABareList
  | ABareDict
  | AListAlias
  | AListOf annotation
  | ADictOf string
  | AUnion "annotation list"
  | ALiteral "pyvalue list"
  | AOther string

datatype param_kind = PositionalOnly | PositionalOrKeyword | VarPositional | KeywordOnly | VarKeyword

record param =
  par_name :: string
  par_kind :: param_kind
  par_annotation :: "annotation option"
  par_default :: "pyvalue option"

text \<open>\<open>f_signature\<close>: parameters and return annotation, \<open>None\<close> when \<open>inspect.signature\<close> raises; \<open>f_type_hints\<close>:
  \<open>None\<close> when \<open>get_type_hints\<close> raises; \<open>f_doc\<close>: \<open>inspect.getdoc\<close>; \<open>f_code\<close>: file and first line.\<close>

record pyfunc =
  f_callable :: bool
  f_name :: "string option"
  f_repr :: string
  f_signature :: "(param list \<times> annotation option) option"
  f_type_hints :: "(string \<times> annotation) list option"
  f_doc :: "string option"
  f_code :: "(string \<times> nat) option"
  f_module :: "string option"

text \<open>What Python prints: a type (\<open>__name__\<close>, else \<open>str\<close>), a value's \<open>repr\<close>, a value's \<open>str\<close>.\<close>

record py_shows =
  shown_type :: "annotation \<Rightarrow> string"
  shown_value :: "pyvalue \<Rightarrow> string"
  shown_text :: py_text

section \<open>Small helpers\<close>

definition json_type_of :: "scalar \<Rightarrow> string" where
  "json_type_of s = (case s of PStr \<Rightarrow> ''string'' | PBool \<Rightarrow> ''boolean'' | PInt \<Rightarrow> ''integer'' | PFloat \<Rightarrow> ''number'')"

definition SCALAR_JSON :: "annotation \<Rightarrow> string option" where
  "SCALAR_JSON a = (case a of AScalar s \<Rightarrow> Some (json_type_of s) | _ \<Rightarrow> None)"

definition JSON_TYPES :: "string list" where
  "JSON_TYPES = [''string'', ''integer'', ''number'', ''boolean'', ''array'', ''object'', ''null'']"

definition SELF_NAMES :: "string list" where
  "SELF_NAMES = [''self'', ''cls'']"

text \<open>\<open>type(v)\<close> as a scalar class, and \<open>isinstance(v, cls)\<close>.\<close>

definition scalar_of :: "pyvalue \<Rightarrow> scalar option" where
  "scalar_of v =
     (case v of PyVal (JStr _) \<Rightarrow> Some PStr | PyVal (JBool _) \<Rightarrow> Some PBool | PyVal (JInt _) \<Rightarrow> Some PInt
      | PyVal (JReal _) \<Rightarrow> Some PFloat | _ \<Rightarrow> None)"

definition is_instance :: "pyvalue \<Rightarrow> scalar \<Rightarrow> bool" where
  "is_instance v s =
     (case v of PyObj _ ss \<Rightarrow> s \<in> set ss
      | PyVal _ \<Rightarrow> scalar_of v = Some s \<or> (s = PInt \<and> scalar_of v = Some PBool))"

definition describe_location :: "pyfunc \<Rightarrow> string" where
  "describe_location f =
     (case f_code f of Some (file, line) \<Rightarrow> file @ '':'' @ nat_str line | None \<Rightarrow> default_to ''?'' (f_module f))"

definition quote_name :: "string \<Rightarrow> string" where
  "quote_name s = [CHR 0x27] @ s @ [CHR 0x27]"

section \<open>Docstrings\<close>

definition SECTIONS :: "string list" where
  "SECTIONS = [''Args'', ''Arguments'', ''Parameters'', ''Returns'', ''Raises'', ''Yields'', ''Example'', ''Examples'']"

text \<open>\<open>_SECTION_RE\<close> on a stripped line: a section word and a colon.\<close>

definition section_of :: "string \<Rightarrow> string option" where
  "section_of line = List.find (\<lambda>w. py_strip line = w @ '':'') SECTIONS"

text \<open>\<open>(?:\([^)]*\))?\<close>: the rest after the parenthesis, or the text itself.\<close>

definition skip_paren :: "string \<Rightarrow> string option" where
  "skip_paren s =
     (case s of
        [] \<Rightarrow> Some []
      | c # cs \<Rightarrow>
          if c = CHR ''('' then (case py_partition (CHR '')'') cs of (_, found, rest) \<Rightarrow> if found then Some rest else None)
          else Some s)"

text \<open>\<open>_ARG_RE\<close>: a word, an optional parenthesis, a colon, the description.\<close>

definition match_arg :: "string \<Rightarrow> (string \<times> string) option" where
  "match_arg s =
     (let w = takeWhile word_char s; rest = py_lstrip (dropWhile word_char s) in
      if w = [] then None
      else case skip_paren rest of
          None \<Rightarrow> None
        | Some r \<Rightarrow> (case py_lstrip r of c # cs \<Rightarrow> if c = CHR '':'' then Some (w, py_lstrip cs) else None | [] \<Rightarrow> None))"

definition arg_line :: "string \<Rightarrow> string option \<times> (string \<times> string) list \<Rightarrow> string option \<times> (string \<times> string) list" where
  "arg_line raw st =
     (case st of (current, args) \<Rightarrow>
        let stripped = py_strip raw in
        if stripped = [] then st
        else case match_arg stripped of
            Some (w, d) \<Rightarrow> (Some w, AList.update w (py_strip d) args)
          | None \<Rightarrow>
              (case current of
                 None \<Rightarrow> st
               | Some c \<Rightarrow> (current, AList.update c (py_strip (default_to [] (map_of args c) @ '' '' @ stripped)) args)))"

function parse_sections :: "(string \<times> string) list \<Rightarrow> string list \<Rightarrow> (string \<times> string) list" where
  "parse_sections args [] = args"
| "parse_sections args (l # ls) =
     (if section_of l \<in> {Some ''Args'', Some ''Arguments'', Some ''Parameters''}
      then parse_sections (snd (fold arg_line (takeWhile (\<lambda>x. section_of x = None) ls) (None, args)))
             (dropWhile (\<lambda>x. section_of x = None) ls)
      else parse_sections args ls)"
  by pat_completeness auto
termination
  by (relation "measure (\<lambda>(args, ls). length ls)") (auto simp: le_imp_less_Suc length_dropWhile_le)

definition parse_docstring :: "pyfunc \<Rightarrow> string \<times> (string \<times> string) list" where
  "parse_docstring f =
     (if \<not> truthy (f_doc f) then ([], [])
      else
        let lines = py_splitlines (default_to [] (f_doc f)) in
        (py_strip (py_join [CHR 0x0A] (takeWhile (\<lambda>x. section_of x = None) lines)),
         parse_sections [] (dropWhile (\<lambda>x. section_of x = None) lines)))"

section \<open>Signatures and schemas\<close>

definition no_annotation :: "param \<Rightarrow> bool" where
  "no_annotation p = (par_annotation p = None)"

fun classify :: "param list \<Rightarrow> string list \<times> param list" where
  "classify [] = ([], [])"
| "classify (p # ps) =
     (case classify ps of (problems, out) \<Rightarrow>
      case par_kind p of
        VarPositional \<Rightarrow> ((quote_name (''*'' @ par_name p) @ '' is not representable as a tool parameter'') # problems, out)
      | VarKeyword \<Rightarrow> ((quote_name (''**'' @ par_name p) @ '' is not representable as a tool parameter'') # problems, out)
      | PositionalOnly \<Rightarrow>
          ((''parameter '' @ quote_name (par_name p) @ '' is positional-only; tools are called by keyword'') # problems, out)
      | _ \<Rightarrow> (problems, p # out))"

definition drop_self :: "param list \<Rightarrow> param list" where
  "drop_self ps =
     (case ps of [] \<Rightarrow> [] | p # rest \<Rightarrow> if par_name p \<in> set SELF_NAMES \<and> no_annotation p then rest else ps)"

definition signature_params :: "pyfunc \<Rightarrow> string list \<times> param list" where
  "signature_params f =
     (case f_signature f of
        None \<Rightarrow> ([''could not introspect the function signature''], [])
      | Some (ps, _) \<Rightarrow> classify (drop_self ps))"

definition resolve_hints :: "pyfunc \<Rightarrow> (string \<times> annotation) list" where
  "resolve_hints f = default_to [] (f_type_hints f)"

definition about_param :: "string \<Rightarrow> string \<Rightarrow> string" where
  "about_param name what = ''parameter '' @ quote_name name @ '': '' @ what"

fun json_of :: "pyvalue \<Rightarrow> json" where
  "json_of (PyVal v) = v"
| "json_of (PyObj r _) = JStr r"

definition literal_schema :: "pyvalue list \<Rightarrow> string \<Rightarrow> string list \<times> (string \<times> json) list option" where
  "literal_schema values name =
     (let types = remdups (map (\<lambda>v. map_option json_type_of (scalar_of v)) values) in
      case types of
        [Some t] \<Rightarrow> ([], Some [(''type'', JStr t), (''enum'', JList (map json_of values))])
      | _ \<Rightarrow> ([about_param name ''Literal members must share one scalar type (all str, or all int, ...)''], None))"

lemma size_union_member [termination_simp]: "a \<in> set as \<Longrightarrow> size a < Suc (size_list size as)"
  by (induction as) auto

function schema_for_annotation ::
  "py_shows \<Rightarrow> annotation \<Rightarrow> string \<Rightarrow> string list \<times> (string \<times> json) list option \<times> bool"
where
  "schema_for_annotation sh (AUnion as) name =
     (case filter (\<lambda>a. a \<noteq> ANone) as of
        [a] \<Rightarrow> (case schema_for_annotation sh a name of (ps, inner, _) \<Rightarrow> (ps, inner, True))
      | _ \<Rightarrow> ([about_param name ''unions of multiple types aren't inferable; pass an explicit parameters=''], None, False))"
| "schema_for_annotation sh (ALiteral vs) name =
     (case literal_schema vs name of (ps, schema) \<Rightarrow> (ps, schema, False))"
| "schema_for_annotation sh AListAlias name =
     ([about_param name ''use list[T] with an item type, not bare list''], None, False)"
| "schema_for_annotation sh (AListOf a) name =
     (case schema_for_annotation sh a name of
        (ps, Some item, _) \<Rightarrow> (ps, Some [(''type'', JStr ''array''), (''items'', JObj item)], False)
      | (ps, None, _) \<Rightarrow> (ps, None, False))"
| "schema_for_annotation sh (AScalar s) name = ([], Some [(''type'', JStr (json_type_of s))], False)"
| "schema_for_annotation sh ABareList name =
     ([about_param name (shown_type sh ABareList @ '' can't be inferred; pass an explicit parameters='')], None, False)"
| "schema_for_annotation sh ABareDict name =
     ([about_param name (shown_type sh ABareDict @ '' can't be inferred; pass an explicit parameters='')], None, False)"
| "schema_for_annotation sh (ADictOf d) name =
     ([about_param name (shown_type sh (ADictOf d) @ '' can't be inferred; pass an explicit parameters='')], None, False)"
| "schema_for_annotation sh ANone name =
     ([about_param name (''unsupported type '' @ shown_type sh ANone @
        '' (supported: str, int, float, bool, list[T], Literal[...], Optional[...])'')], None, False)"
| "schema_for_annotation sh (AOther t) name =
     ([about_param name (''unsupported type '' @ shown_type sh (AOther t) @
        '' (supported: str, int, float, bool, list[T], Literal[...], Optional[...])'')], None, False)"
  by pat_completeness auto
termination
proof (relation "measure (\<lambda>(sh, a, name). size a)", goal_cases)
  case (2 sh as name a)
  then have "a \<in> set (filter (\<lambda>a. a \<noteq> ANone) as)" by simp
  then show ?case by (simp add: size_union_member)
qed auto

definition check_default :: "py_shows \<Rightarrow> string \<Rightarrow> annotation \<Rightarrow> pyvalue \<Rightarrow> string list" where
  "check_default sh name a d =
     (case a of
        AScalar s \<Rightarrow>
          if d = PyVal JNull then []
          else if s = PInt \<and> is_instance d PBool
          then [about_param name (''default '' @ shown_value sh d @ '' is bool, not int'')]
          else if \<not> is_instance d s
          then [about_param name (''default '' @ shown_value sh d @ '' doesn't match declared type '' @ shown_type sh a)]
          else []
      | _ \<Rightarrow> [])"

text \<open>The loop of \<open>_infer_parameters\<close>: structural problems, documentation problems, properties, required.\<close>

record inferred =
  i_problems :: "string list"
  i_doc_problems :: "string list"
  i_properties :: "(string \<times> json) list"
  i_required :: "string list"

definition annotation_of :: "(string \<times> annotation) list \<Rightarrow> param \<Rightarrow> annotation option" where
  "annotation_of hints p = (case map_of hints (par_name p) of Some a \<Rightarrow> Some a | None \<Rightarrow> par_annotation p)"

definition infer_param ::
  "py_shows \<Rightarrow> (string \<times> annotation) list \<Rightarrow> (string \<times> string) list \<Rightarrow> param \<Rightarrow> inferred \<Rightarrow> inferred"
where
  "infer_param sh hints doc_args p r =
     (case annotation_of hints p of
        None \<Rightarrow> r\<lparr>i_problems := i_problems r @ [about_param (par_name p) ''missing a type annotation'']\<rparr>
      | Some a \<Rightarrow>
          (case schema_for_annotation sh a (par_name p) of
             (ps, None, _) \<Rightarrow> r\<lparr>i_problems := i_problems r @ ps\<rparr>
           | (ps, Some schema, optional) \<Rightarrow>
               let documented = truthy (map_of doc_args (par_name p));
                   has_default = (par_default p \<noteq> None) in
               r\<lparr>i_problems := i_problems r @ ps
                   @ (case par_default p of Some d \<Rightarrow> check_default sh (par_name p) a d | None \<Rightarrow> []),
                 i_doc_problems := i_doc_problems r
                   @ (if documented then [] else [about_param (par_name p) ''undocumented (add it to the docstring Args)'']),
                 i_required := i_required r @ (if \<not> has_default \<and> \<not> optional then [par_name p] else []),
                 i_properties := AList.update (par_name p)
                   (JObj (if documented
                          then AList.update ''description'' (JStr (default_to [] (map_of doc_args (par_name p)))) schema
                          else schema)) (i_properties r)\<rparr>))"

definition stray_docs :: "param list \<Rightarrow> (string \<times> string) list \<Rightarrow> string list" where
  "stray_docs ps doc_args =
     map (\<lambda>d. ''docstring documents '' @ quote_name d @ '', which is not a parameter'')
       (filter (\<lambda>d. d \<notin> par_name ` set ps) (map fst doc_args))"

definition schema_object :: "(string \<times> json) list \<Rightarrow> string list \<Rightarrow> json" where
  "schema_object properties required =
     JObj ([(''type'', JStr ''object''), (''properties'', JObj properties)]
           @ (if required = [] then [] else [(''required'', JList (map JStr required))]))"

definition infer_parameters ::
  "py_shows \<Rightarrow> param list \<Rightarrow> (string \<times> annotation) list \<Rightarrow> (string \<times> string) list
   \<Rightarrow> string list \<times> string list \<times> json"
where
  "infer_parameters sh ps hints doc_args =
     (let r = fold (infer_param sh hints doc_args) ps
                \<lparr>i_problems = [], i_doc_problems = [], i_properties = [], i_required = []\<rparr> in
      (i_problems r, i_doc_problems r @ stray_docs ps doc_args, schema_object (i_properties r) (i_required r)))"

definition json_return :: "annotation \<Rightarrow> bool" where
  "json_return a =
     (case a of AScalar _ \<Rightarrow> True | ANone \<Rightarrow> True | ABareList \<Rightarrow> True | ABareDict \<Rightarrow> True | AListAlias \<Rightarrow> True
      | AListOf _ \<Rightarrow> True | ADictOf _ \<Rightarrow> True | _ \<Rightarrow> False)"

definition validate_return_annotation :: "py_shows \<Rightarrow> pyfunc \<Rightarrow> (string \<times> annotation) list \<Rightarrow> string list" where
  "validate_return_annotation sh f hints =
     (case f_signature f of
        None \<Rightarrow> []
      | Some (_, None) \<Rightarrow> [''missing a return type annotation (e.g. '' @ quote_name ''-> str'' @ '')'']
      | Some (_, Some raw) \<Rightarrow>
          let r = default_to raw (map_of hints ''return'') in
          if json_return r then []
          else [''return type '' @ shown_type sh r @ '' isn't JSON-serializable for a tool result (use str/int/float/bool/list/dict)''])"

section \<open>An explicit schema\<close>

definition check_property :: "py_shows \<Rightarrow> string \<Rightarrow> json \<Rightarrow> string list res" where
  "check_property sh name schema =
     (case schema of
        JObj kvs \<Rightarrow>
          if \<not> json_hashable (obj_get kvs ''type'') then Inl (TypeErr ''unhashable type'')
          else Inr ((if obj_get kvs ''type'' \<in> JStr ` set JSON_TYPES then []
                     else [''parameters= property '' @ quote_name name @ '' needs a valid JSON '' @ quote_name ''type''])
                 @ (if py_strip (py_str (shown_text sh) (default_to (JStr []) (map_of kvs ''description''))) \<noteq> [] then []
                    else [''parameters= property '' @ quote_name name @ '' needs a non-empty '' @ quote_name ''description'']))
      | _ \<Rightarrow> Inr [''parameters= property '' @ quote_name name @ '' must be a schema object''])"

fun check_properties :: "py_shows \<Rightarrow> (string \<times> json) list \<Rightarrow> string list res" where
  "check_properties sh [] = Inr []"
| "check_properties sh ((name, schema) # rest) =
     res_bind (check_property sh name schema) (\<lambda>ps. res_map (\<lambda>qs. ps @ qs) (check_properties sh rest))"

definition check_required :: "json \<Rightarrow> (string \<times> json) list \<Rightarrow> string list" where
  "check_required required props =
     (case required of
        JList rs \<Rightarrow>
          if list_all (\<lambda>r. json_str r \<noteq> None) rs
          then map (\<lambda>r. ''parameters= '' @ quote_name ''required'' @ '' names '' @ quote_name r @ '', absent from properties'')
                 (filter (\<lambda>r. r \<notin> fst ` set props) (List.map_filter json_str rs))
          else [''parameters= '' @ quote_name ''required'' @ '' must be a list of strings'']
      | _ \<Rightarrow> [''parameters= '' @ quote_name ''required'' @ '' must be a list of strings''])"

definition sorted_difference :: "string list \<Rightarrow> string list \<Rightarrow> string list" where
  "sorted_difference xs ys = sort (filter (\<lambda>x. x \<notin> set ys) (remdups xs))"

definition plural :: "string list \<Rightarrow> string" where
  "plural xs = (if 1 < length xs then ''properties'' else ''property'')"

definition check_names :: "string list \<Rightarrow> string list \<Rightarrow> string list" where
  "check_names sig_names prop_names =
     (let missing = sorted_difference sig_names prop_names; extra = sorted_difference prop_names sig_names in
      (if missing = [] then [] else [''parameters= is missing '' @ plural missing @ '' for '' @ py_join '', '' missing])
      @ (if extra = [] then [] else [''parameters= describes unknown '' @ plural extra @ '' '' @ py_join '', '' extra]))"

definition validate_override :: "py_shows \<Rightarrow> json \<Rightarrow> param list \<Rightarrow> string list res" where
  "validate_override sh parameters ps =
     (case parameters of
        JObj kvs \<Rightarrow>
          let not_object = (if obj_get kvs ''type'' = JStr ''object'' then []
                            else [''parameters= override must have type: '' @ quote_name ''object'']) in
          (case obj_get kvs ''properties'' of
             JObj props \<Rightarrow>
               res_map (\<lambda>qs. not_object @ qs
                   @ check_required (default_to (JList []) (map_of kvs ''required'')) props
                   @ check_names (map par_name ps) (map fst props))
                 (check_properties sh props)
           | _ \<Rightarrow> Inr (not_object @ [''parameters= override must have a '' @ quote_name ''properties'' @ '' dict'']))
      | _ \<Rightarrow> Inr [''parameters= override must be a dict (JSON Schema object)''])"

section \<open>The builder\<close>

text \<open>\<open>_NAME_RE\<close>: the \<open>$\<close> of \<open>re.match\<close> also matches before one final line feed.\<close>

definition name_char :: "char \<Rightarrow> bool" where
  "name_char c = (id_alnum c \<or> c = CHR ''_'' \<or> c = CHR ''-'')"

definition name_matches :: "string \<Rightarrow> bool" where
  "name_matches s =
     (let body = (if s \<noteq> [] \<and> last s = CHR 0x0A then butlast s else s) in
      1 \<le> length body \<and> length body \<le> 64 \<and> list_all name_char body)"

definition check_name :: "string \<Rightarrow> string list" where
  "check_name name =
     (if name = ''<lambda>'' then [''cannot infer a tool name from a lambda; use a named '' @ quote_name ''def'' @ '' or pass name='']
      else if \<not> name_matches name then [''tool name '' @ repr_str name @ '' must match [A-Za-z0-9_-] and be 1-64 chars'']
      else [])"

datatype tool_error = ToolDefinitionError "string list" | RaisedError err

text \<open>The text of a \<open>ToolDefinitionError\<close>.\<close>

definition definition_error_text :: "pyfunc \<Rightarrow> string list \<Rightarrow> string" where
  "definition_error_text f problems =
     default_to (f_repr f) (f_name f) @ '' ('' @ describe_location f @ '') has '' @ nat_str (length problems)
     @ '' problem'' @ (if length problems \<noteq> 1 then ''s'' else []) @ '':'' @ [CHR 0x0A]
     @ py_join [CHR 0x0A] (map (\<lambda>p. ''  - '' @ p) problems)
     @ [CHR 0x0A] @ ''Fix them, or pass an explicit parameters={...} to bypass inference.''"

text \<open>The explicit or inferred parameters with the problems they raise, structural and documentary.\<close>

definition declared_parameters ::
  "py_shows \<Rightarrow> pyfunc \<Rightarrow> json option \<Rightarrow> (string list \<times> string list \<times> json) res"
where
  "declared_parameters sh f parameters =
     (case parameters of
        Some explicit \<Rightarrow>
          res_map (\<lambda>ps. (ps, [], explicit)) (validate_override sh explicit (snd (signature_params f)))
      | None \<Rightarrow>
          Inr (infer_parameters sh (snd (signature_params f)) (resolve_hints f) (snd (parse_docstring f))))"

text \<open>The tool, with the warning raised for it, or the error.\<close>

definition build_tool ::
  "py_shows \<Rightarrow> pyfunc \<Rightarrow> string option \<Rightarrow> string option \<Rightarrow> json option \<Rightarrow> bool \<Rightarrow> tool_error + (tool \<times> string option)"
where
  "build_tool sh f name description parameters strict =
     (if \<not> f_callable f then Inl (ToolDefinitionError [''@tool must decorate a callable''])
      else
        let resolved_name = (if truthy name then default_to [] name else default_to [] (f_name f));
            resolved_desc = py_strip (case description of Some d \<Rightarrow> d | None \<Rightarrow> fst (parse_docstring f));
            no_desc = (if resolved_desc = [] then [''missing a description (add a docstring, or pass description=)''] else []) in
        case declared_parameters sh f parameters of
          Inl e \<Rightarrow> Inl (RaisedError e)
        | Inr (structural, docs, schema) \<Rightarrow>
            let doc_problems = no_desc @ docs;
                problems = check_name resolved_name @ fst (signature_params f) @ structural
                  @ validate_return_annotation sh f (resolve_hints f) @ (if strict then doc_problems else []) in
            if problems \<noteq> [] then Inl (ToolDefinitionError problems)
            else Inr (\<lparr>tool_name = resolved_name, tool_description = resolved_desc, tool_parameters = schema\<rparr>,
                      if \<not> strict \<and> doc_problems \<noteq> [] then Some (resolved_name @ '': '' @ py_join ''; '' doc_problems) else None))"

section \<open>Specification: what a declaration must be, and what a schema admits\<close>

definition homogeneous :: "scalar \<Rightarrow> pyvalue list \<Rightarrow> bool" where
  "homogeneous s vs = (vs \<noteq> [] \<and> (\<forall>v \<in> set vs. scalar_of v = Some s))"

text \<open>The annotations the strict inference supports.\<close>

function supported :: "annotation \<Rightarrow> bool" where
  "supported (AScalar s) = True"
| "supported (AListOf a) = supported a"
| "supported (AUnion as) = (case filter (\<lambda>a. a \<noteq> ANone) as of [a] \<Rightarrow> supported a | _ \<Rightarrow> False)"
| "supported (ALiteral vs) = list_ex (\<lambda>s. homogeneous s vs) [PStr, PBool, PInt, PFloat]"
| "supported ANone = False"
| "supported ABareList = False"
| "supported ABareDict = False"
| "supported AListAlias = False"
| "supported (ADictOf d) = False"
| "supported (AOther t) = False"
  by pat_completeness auto
termination
proof (relation "measure size", goal_cases)
  case (3 as a)
  then have "a \<in> set (filter (\<lambda>a. a \<noteq> ANone) as)" by simp
  then show ?case by (simp add: size_union_member)
qed auto

fun optional :: "annotation \<Rightarrow> bool" where
  "optional (AUnion as) = True"
| "optional _ = False"

text \<open>Values of \<open>json.loads\<close> that belong to an annotation; a \<open>float\<close> parameter takes an integer too.\<close>

fun scalar_value :: "scalar \<Rightarrow> json \<Rightarrow> bool" where
  "scalar_value PStr v = (case v of JStr _ \<Rightarrow> True | _ \<Rightarrow> False)"
| "scalar_value PBool v = (case v of JBool _ \<Rightarrow> True | _ \<Rightarrow> False)"
| "scalar_value PInt v = (case v of JInt _ \<Rightarrow> True | _ \<Rightarrow> False)"
| "scalar_value PFloat v = (case v of JInt _ \<Rightarrow> True | JReal _ \<Rightarrow> True | _ \<Rightarrow> False)"

function inhabits :: "annotation \<Rightarrow> json \<Rightarrow> bool" where
  "inhabits (AScalar s) v = scalar_value s v"
| "inhabits ANone v = (v = JNull)"
| "inhabits ABareList v = (case v of JList _ \<Rightarrow> True | _ \<Rightarrow> False)"
| "inhabits AListAlias v = (case v of JList _ \<Rightarrow> True | _ \<Rightarrow> False)"
| "inhabits ABareDict v = (case v of JObj _ \<Rightarrow> True | _ \<Rightarrow> False)"
| "inhabits (ADictOf d) v = (case v of JObj _ \<Rightarrow> True | _ \<Rightarrow> False)"
| "inhabits (AListOf a) v = (case v of JList xs \<Rightarrow> (\<forall>x \<in> set xs. inhabits a x) | _ \<Rightarrow> False)"
| "inhabits (AUnion as) v = (\<exists>a \<in> set as. inhabits a v)"
| "inhabits (ALiteral vs) v = (PyVal v \<in> set vs)"
| "inhabits (AOther t) v = False"
  by pat_completeness auto
termination
  by (relation "measure (\<lambda>(a, v). size a)") (auto simp: size_union_member)

text \<open>JSON Schema validity for the keywords the module writes (\<open>type\<close>, \<open>enum\<close>, \<open>items\<close>); an \<open>integer\<close> is a
  number written without fraction or exponent.\<close>

definition has_type :: "json \<Rightarrow> json \<Rightarrow> bool" where
  "has_type ty v =
     (case v of
        JNull \<Rightarrow> ty = JStr ''null'' | JBool _ \<Rightarrow> ty = JStr ''boolean'' | JInt _ \<Rightarrow> ty \<in> {JStr ''integer'', JStr ''number''}
      | JReal _ \<Rightarrow> ty = JStr ''number'' | JStr _ \<Rightarrow> ty = JStr ''string'' | JList _ \<Rightarrow> ty = JStr ''array'' | JObj _ \<Rightarrow> ty = JStr ''object'')"

lemma size_field [termination_simp]: "map_of kvs k = Some v \<Longrightarrow> size v < Suc (size_list (size_prod (\<lambda>x. 0) size) kvs)"
  by (induction kvs) (auto split: if_splits)

function conforms :: "json \<Rightarrow> json \<Rightarrow> bool" where
  "conforms (JObj kvs) v =
     (has_type (obj_get kvs ''type'') v
      \<and> (case map_of kvs ''enum'' of None \<Rightarrow> True | Some e \<Rightarrow> (case e of JList vs \<Rightarrow> v \<in> set vs | _ \<Rightarrow> False))
      \<and> (case map_of kvs ''items'' of None \<Rightarrow> True
         | Some sub \<Rightarrow> (case v of JList xs \<Rightarrow> (\<forall>x \<in> set xs. conforms sub x) | _ \<Rightarrow> True)))"
| "conforms JNull v = False"
| "conforms (JBool b) v = b"
| "conforms (JInt i) v = False"
| "conforms (JReal r) v = False"
| "conforms (JStr s) v = False"
| "conforms (JList xs) v = False"
  by pat_completeness auto
termination
  by (relation "measure (\<lambda>(s, v). size s)") (auto simp: size_field)

text \<open>An arguments object against a tool's \<open>parameters\<close>: required names present, the rest described and valid.\<close>

definition props_of :: "json \<Rightarrow> (string \<times> json) list" where
  "props_of v = (case v of JObj kvs \<Rightarrow> (case obj_get kvs ''properties'' of JObj props \<Rightarrow> props | _ \<Rightarrow> []) | _ \<Rightarrow> [])"

definition required_of :: "json \<Rightarrow> json" where
  "required_of v = (case v of JObj kvs \<Rightarrow> default_to (JList []) (map_of kvs ''required'') | _ \<Rightarrow> JNull)"

definition arguments_conform :: "json \<Rightarrow> (string \<times> json) list \<Rightarrow> bool" where
  "arguments_conform schema args =
     ((case required_of schema of JList rs \<Rightarrow> list_all (\<lambda>r. r \<in> (JStr \<circ> fst) ` set args) rs | _ \<Rightarrow> False)
      \<and> list_all (\<lambda>(k, v). case map_of (props_of schema) k of Some s \<Rightarrow> conforms s v | None \<Rightarrow> False) args)"

text \<open>Python's binding of a call \<open>fn(**args)\<close> to a signature.\<close>

definition keyword_ok :: "param \<Rightarrow> bool" where
  "keyword_ok p = (par_kind p \<in> {PositionalOrKeyword, KeywordOnly})"

definition bind_call :: "param list \<Rightarrow> (string \<times> json) list \<Rightarrow> bool" where
  "bind_call ps args =
     (list_all (\<lambda>p. keyword_ok p \<and> (par_name p \<in> fst ` set args \<or> par_default p \<noteq> None)) ps
      \<and> list_all (\<lambda>(k, v). k \<in> par_name ` set ps) args)"



text \<open>A parameter that inference accepts, and one that is documented.\<close>

definition typed_param :: "py_shows \<Rightarrow> (string \<times> annotation) list \<Rightarrow> param \<Rightarrow> bool" where
  "typed_param sh hints p =
     (case annotation_of hints p of None \<Rightarrow> False
      | Some a \<Rightarrow> supported a \<and> (case par_default p of None \<Rightarrow> True | Some d \<Rightarrow> check_default sh (par_name p) a d = []))"

definition documented_param :: "(string \<times> string) list \<Rightarrow> param \<Rightarrow> bool" where
  "documented_param docs p = truthy (map_of docs (par_name p))"

definition returns_json :: "pyfunc \<Rightarrow> bool" where
  "returns_json f =
     (case f_signature f of Some (_, Some raw) \<Rightarrow> json_return (default_to raw (map_of (resolve_hints f) ''return'')) | _ \<Rightarrow> False)"

definition chosen_name :: "pyfunc \<Rightarrow> string option \<Rightarrow> string" where
  "chosen_name f name = (if truthy name then default_to [] name else default_to [] (f_name f))"

definition chosen_description :: "pyfunc \<Rightarrow> string option \<Rightarrow> string" where
  "chosen_description f description = py_strip (case description of Some d \<Rightarrow> d | None \<Rightarrow> fst (parse_docstring f))"



section \<open>Schema inference\<close>

lemma remdups_singleton: "remdups xs = [y] \<longleftrightarrow> set xs = {y}"
proof
  assume eq: "set xs = {y}"
  then have "length (remdups xs) = 1" by (simp add: length_remdups_card_conv)
  then obtain z where "remdups xs = [z]" by (auto simp: length_Suc_conv)
  moreover have "set (remdups xs) = {y}" using eq by simp
  ultimately show "remdups xs = [y]" by (simp del: set_remdups)
qed (metis list.set(1) list.simps(15) set_remdups)

lemma json_type_of_inj [simp]: "json_type_of a = json_type_of b \<longleftrightarrow> a = b"
  by (cases a; cases b) (simp_all add: json_type_of_def)

lemma json_type_valid [simp]: "json_type_of a \<in> set JSON_TYPES"
  by (cases a) (simp_all add: json_type_of_def JSON_TYPES_def)

lemma literal_types:
  "remdups (map (\<lambda>v. map_option json_type_of (scalar_of v)) vs) = [Some t]
   \<longleftrightarrow> (\<exists>s. t = json_type_of s \<and> homogeneous s vs)" (is "?L \<longleftrightarrow> ?R")
proof
  assume ?L
  then have eq: "(\<lambda>v. map_option json_type_of (scalar_of v)) ` set vs = {Some t}"
    by (simp add: remdups_singleton)
  have "Some t \<in> (\<lambda>v. map_option json_type_of (scalar_of v)) ` set vs" unfolding eq by simp
  then obtain v s where v: "v \<in> set vs" and s: "t = json_type_of s" by (auto simp: map_option_case split: option.splits)
  have "map_option json_type_of (scalar_of w) = Some (json_type_of s)" if "w \<in> set vs" for w
    using imageI [OF that, of "\<lambda>v. map_option json_type_of (scalar_of v)"] unfolding eq s by simp
  then have "scalar_of w = Some s" if "w \<in> set vs" for w
    using that by (fastforce simp: map_option_case split: option.splits)
  then have "homogeneous s vs" unfolding homogeneous_def using v by auto
  with s show ?R by blast
next
  assume ?R
  then show ?L by (auto simp: remdups_singleton homogeneous_def neq_Nil_conv)
qed

lemma supported_literal: "supported (ALiteral vs) \<longleftrightarrow> (\<exists>s. homogeneous s vs)"
  by simp (metis scalar.exhaust)

lemma literal_schema_homogeneous:
  "homogeneous s vs \<Longrightarrow>
   literal_schema vs name = ([], Some [(''type'', JStr (json_type_of s)), (''enum'', JList (map json_of vs))])"
  using literal_types [of vs "json_type_of s"] by (auto simp: literal_schema_def)

lemma literal_schema_mixed:
  assumes "\<not> (\<exists>s. homogeneous s vs)"
  shows "\<exists>p. literal_schema vs name = ([p], None)"
proof -
  have "remdups (map (\<lambda>v. map_option json_type_of (scalar_of v)) vs) \<noteq> [Some t]" for t
    using assms literal_types by blast
  then show ?thesis
    unfolding literal_schema_def Let_def by (auto split: list.split option.split)
qed

text \<open>Inference succeeds exactly on the supported annotations, and reports a problem on the others.\<close>

lemma schema_cases:
  "(supported a \<and> (\<exists>s. schema_for_annotation sh a name = ([], Some s, optional a)))
   \<or> (\<not> supported a \<and> (\<exists>p ps b. schema_for_annotation sh a name = (p # ps, None, b)))"
proof (induction sh a name rule: schema_for_annotation.induct)
  case (1 sh as name)
  show ?case
  proof (cases "\<exists>a. filter (\<lambda>a. a \<noteq> ANone) as = [a]")
    case True
    then obtain a where "filter (\<lambda>a. a \<noteq> ANone) as = [a]" by blast
    with 1 [OF this refl] show ?thesis by auto
  next
    case False
    then show ?thesis by (auto split: list.split)
  qed
next
  case (2 sh vs name)
  show ?case
  proof (cases "\<exists>s. homogeneous s vs")
    case True
    then obtain s where "homogeneous s vs" by blast
    with supported_literal literal_schema_homogeneous [OF this] show ?thesis by auto
  next
    case False
    with supported_literal literal_schema_mixed [OF this, of name] show ?thesis by auto
  qed
next
  case (4 sh a name)
  then show ?case by (auto split: option.splits)
qed (simp_all, blast+)

lemma schema_supported: "supported a \<Longrightarrow> \<exists>s. schema_for_annotation sh a name = ([], Some s, optional a)"
  using schema_cases by blast

lemma schema_unsupported: "\<not> supported a \<Longrightarrow> \<exists>p ps b. schema_for_annotation sh a name = (p # ps, None, b)"
  using schema_cases by blast

lemma homogeneous_json_of: "homogeneous s vs \<Longrightarrow> v \<in> set (map json_of vs) \<Longrightarrow> PyVal v \<in> set vs"
proof -
  assume h: "homogeneous s vs" and "v \<in> set (map json_of vs)"
  then obtain w where w: "w \<in> set vs" "v = json_of w" by auto
  with h have "scalar_of w = Some s" by (simp add: homogeneous_def)
  then have "w = PyVal v" using w(2) by (cases w) (simp_all add: scalar_of_def)
  with w(1) show "PyVal v \<in> set vs" by simp
qed

lemma has_scalar_type: "has_type (JStr (json_type_of s)) v \<longleftrightarrow> scalar_value s v"
  by (cases s; cases v) (simp_all add: has_type_def json_type_of_def)

text \<open>Soundness of the inferred schema: whatever it admits belongs to the annotation.\<close>

lemma schema_sound:
  "schema_for_annotation sh a name = (ps, Some s, b) \<Longrightarrow> conforms (JObj s) v \<Longrightarrow> inhabits a v"
proof (induction sh a name arbitrary: ps s b v rule: schema_for_annotation.induct)
  case (1 sh as name)
  from 1(2) obtain a where a: "filter (\<lambda>a. a \<noteq> ANone) as = [a]"
    and sch: "\<exists>ps b. schema_for_annotation sh a name = (ps, Some s, b)"
    by (auto split: list.splits prod.splits)
  from sch obtain ps' b' where "schema_for_annotation sh a name = (ps', Some s, b')" by blast
  from 1(1) [OF a refl this 1(3)] have "inhabits a v" .
  moreover have "a \<in> set as" using a by (metis filter_is_subset list.set_intros(1) subsetD)
  ultimately show ?case by auto
next
  case (2 sh vs name)
  then obtain p where "literal_schema vs name = (p, Some s)" by (auto split: prod.splits)
  moreover have "\<exists>ty. homogeneous ty vs"
    using calculation literal_schema_mixed [of vs name] by fastforce
  ultimately obtain ty where h: "homogeneous ty vs"
    and s: "s = [(''type'', JStr (json_type_of ty)), (''enum'', JList (map json_of vs))]"
    using literal_schema_homogeneous [of _ vs name] by fastforce
  from 2(2) have "v \<in> set (map json_of vs)" by (simp add: s)
  with homogeneous_json_of [OF h] show ?case by simp
next
  case (4 sh a name)
  from 4(2) obtain qs item c where item: "schema_for_annotation sh a name = (qs, Some item, c)"
    and s: "s = [(''type'', JStr ''array''), (''items'', JObj item)]"
    by (auto split: prod.splits option.splits)
  from 4(3) obtain xs where "v = JList xs" "\<forall>x \<in> set xs. conforms (JObj item) x"
    by (cases v) (auto simp: s has_type_def obj_get_def)
  with 4(1) [OF item] show ?case by simp
qed (auto simp: obj_get_def has_scalar_type)

lemma conforms_described:
  "conforms (JObj (AList.update ''description'' d s)) v \<longleftrightarrow> conforms (JObj s) v"
  by (simp add: obj_get_def update_conv')


section \<open>The loop over the parameters\<close>

definition param_problems :: "py_shows \<Rightarrow> (string \<times> annotation) list \<Rightarrow> param \<Rightarrow> string list" where
  "param_problems sh hints p = i_problems (infer_param sh hints [] p \<lparr>i_problems = [], i_doc_problems = [], i_properties = [], i_required = []\<rparr>)"

definition param_schema :: "py_shows \<Rightarrow> (string \<times> annotation) list \<Rightarrow> (string \<times> string) list \<Rightarrow> param \<Rightarrow> json" where
  "param_schema sh hints docs p =
     (let s = default_to [] (fst (snd (schema_for_annotation sh (default_to ANone (annotation_of hints p)) (par_name p)))) in
      JObj (if documented_param docs p
            then AList.update ''description'' (JStr (default_to [] (map_of docs (par_name p)))) s else s))"

definition needed :: "(string \<times> annotation) list \<Rightarrow> param \<Rightarrow> bool" where
  "needed hints p = (par_default p = None \<and> \<not> optional (default_to ANone (annotation_of hints p)))"

lemma infer_param_problems:
  "i_problems (infer_param sh hints docs p r) = i_problems r @ param_problems sh hints p"
  by (auto simp: infer_param_def param_problems_def Let_def split: option.split prod.split)

lemma param_problems_Nil: "param_problems sh hints p = [] \<longleftrightarrow> typed_param sh hints p"
proof (cases "annotation_of hints p")
  case None
  then show ?thesis by (simp add: param_problems_def infer_param_def typed_param_def)
next
  case (Some a)
  then show ?thesis
    using schema_cases [of a sh "par_name p"]
    by (auto simp: param_problems_def infer_param_def typed_param_def Let_def split: option.split)
qed

lemma infer_param_typed:
  assumes "typed_param sh hints p"
  shows "infer_param sh hints docs p r =
     r\<lparr>i_doc_problems := i_doc_problems r
         @ (if documented_param docs p then [] else [about_param (par_name p) ''undocumented (add it to the docstring Args)'']),
       i_required := i_required r @ (if needed hints p then [par_name p] else []),
       i_properties := AList.update (par_name p) (param_schema sh hints docs p) (i_properties r)\<rparr>"
proof -
  from assms obtain a where a: "annotation_of hints p = Some a" and sup: "supported a"
    and d: "case par_default p of None \<Rightarrow> True | Some d \<Rightarrow> check_default sh (par_name p) a d = []"
    by (auto simp: typed_param_def split: option.splits)
  from schema_supported [OF sup] obtain s where "schema_for_annotation sh a (par_name p) = ([], Some s, optional a)" by blast
  with a d show ?thesis
    by (cases "par_default p") (simp_all add: infer_param_def Let_def param_schema_def needed_def documented_param_def)
qed

lemma infer_problems:
  "i_problems (fold (infer_param sh hints docs) ps r) = i_problems r @ concat (map (param_problems sh hints) ps)"
  by (induction ps arbitrary: r) (simp_all add: infer_param_problems)

lemma infer_typed:
  "list_all (typed_param sh hints) ps \<Longrightarrow>
   i_doc_problems (fold (infer_param sh hints docs) ps r) = i_doc_problems r
     @ map (\<lambda>p. about_param (par_name p) ''undocumented (add it to the docstring Args)'') (filter (\<lambda>p. \<not> documented_param docs p) ps)
   \<and> i_required (fold (infer_param sh hints docs) ps r) = i_required r @ map par_name (filter (needed hints) ps)
   \<and> i_properties (fold (infer_param sh hints docs) ps r)
       = fold (\<lambda>p. AList.update (par_name p) (param_schema sh hints docs p)) ps (i_properties r)"
  by (induction ps arbitrary: r) (simp_all add: infer_param_typed)

lemma fold_update_keys: "fst ` set (fold (\<lambda>p. AList.update (f p) (g p)) ps d) = f ` set ps \<union> fst ` set d"
  by (induction ps arbitrary: d) (auto simp: dom_update)


lemma fold_update_lookup:
  "distinct (map f ps) \<Longrightarrow> p \<in> set ps \<Longrightarrow> map_of (fold (\<lambda>p. AList.update (f p) (g p)) ps d) (f p) = Some (g p)"
proof (induction ps arbitrary: d)
  case (Cons q ps)
  have "f q \<notin> f ` set ps \<Longrightarrow> map_of (fold (\<lambda>p. AList.update (f p) (g p)) ps e) (f q) = map_of e (f q)" for e
    by (induction ps arbitrary: e) (auto simp: update_conv')
  with Cons show ?case by (auto simp: update_conv')
qed simp

lemma infer_parameters_accepted:
  assumes "fst (infer_parameters sh ps hints docs) = []"
  shows "list_all (typed_param sh hints) ps"
    "infer_parameters sh ps hints docs =
       ([], map (\<lambda>p. about_param (par_name p) ''undocumented (add it to the docstring Args)'') (filter (\<lambda>p. \<not> documented_param docs p) ps)
              @ stray_docs ps docs,
        schema_object (fold (\<lambda>p. AList.update (par_name p) (param_schema sh hints docs p)) ps []) (map par_name (filter (needed hints) ps)))"
proof -
  show t: "list_all (typed_param sh hints) ps"
    using assms by (simp add: infer_parameters_def infer_problems Let_def list_all_iff param_problems_Nil)
  then have "concat (map (param_problems sh hints) ps) = []"
    by (simp add: list_all_iff param_problems_Nil)
  then show "infer_parameters sh ps hints docs =
       ([], map (\<lambda>p. about_param (par_name p) ''undocumented (add it to the docstring Args)'') (filter (\<lambda>p. \<not> documented_param docs p) ps)
              @ stray_docs ps docs,
        schema_object (fold (\<lambda>p. AList.update (par_name p) (param_schema sh hints docs p)) ps []) (map par_name (filter (needed hints) ps)))"
    using infer_typed [OF t] by (simp add: infer_parameters_def infer_problems Let_def)
qed

section \<open>Stripped descriptions\<close>

lemma dropWhile_idem: "dropWhile P (dropWhile P xs) = dropWhile P xs"
  by (induction xs) auto

lemma dropWhile_snoc: "\<not> P c \<Longrightarrow> dropWhile P (xs @ [c]) = dropWhile P xs @ [c]"
  by (induction xs) auto

lemma py_strip_idem [simp]: "py_strip (py_strip x) = py_strip x"
proof -
  have step: "dropWhile P (rev (dropWhile P (rev y))) = rev (dropWhile P (rev y))"
    if y: "y = dropWhile P x" for P and y :: string
  proof (cases y)
    case (Cons c cs)
    have "y \<noteq> []" using Cons by simp
    then have "\<not> P c" using hd_dropWhile [of P x] by (simp add: y [symmetric] Cons)
    then show ?thesis by (simp add: Cons dropWhile_snoc)
  qed simp
  show ?thesis
    by (simp add: py_strip_def py_lstrip_def py_rstrip_def step dropWhile_idem)
qed








section \<open>The builder's verdict\<close>

lemma classify_ok: "fst (classify ps) = [] \<longleftrightarrow> list_all keyword_ok ps"
  by (induction ps) (auto simp: keyword_ok_def split: prod.split param_kind.split)

lemma classify_keeps: "list_all keyword_ok ps \<Longrightarrow> classify ps = ([], ps)"
  by (induction ps) (auto simp: keyword_ok_def split: param_kind.split)

lemma signature_ok:
  "fst (signature_params f) = [] \<longleftrightarrow> (\<exists>ps r. f_signature f = Some (ps, r) \<and> list_all keyword_ok (drop_self ps))"
  by (auto simp: signature_params_def classify_ok split: option.splits)

lemma signature_accepted:
  assumes "fst (signature_params f) = []"
  obtains ps r where "f_signature f = Some (ps, r)" "list_all keyword_ok (drop_self ps)" "signature_params f = ([], drop_self ps)"
proof -
  from assms signature_ok obtain ps r where "f_signature f = Some (ps, r)" "list_all keyword_ok (drop_self ps)" by blast
  with that show thesis by (simp add: signature_params_def classify_keeps)
qed

lemma check_name_ok: "check_name n = [] \<longleftrightarrow> name_matches n"
proof -
  have "\<not> name_matches ''<lambda>''" by code_simp
  then show ?thesis by (auto simp: check_name_def)
qed

lemma returns_ok: "validate_return_annotation sh f (resolve_hints f) = [] \<longleftrightarrow> f_signature f = None \<or> returns_json f"
  by (auto simp: validate_return_annotation_def returns_json_def Let_def split: option.splits)

lemma build_tool_accepted:
  assumes "build_tool sh f name description parameters strict = Inr (t, w)"
  obtains docs where "f_callable f" "name_matches (chosen_name f name)" "fst (signature_params f) = []" "returns_json f"
    "declared_parameters sh f parameters = Inr ([], docs, tool_parameters t)"
    "strict \<Longrightarrow> chosen_description f description \<noteq> [] \<and> docs = []"
    "tool_name t = chosen_name f name" "tool_description t = chosen_description f description"
proof -
  obtain ps docs schema where d: "declared_parameters sh f parameters = Inr (ps, docs, schema)"
    using assms by (cases "declared_parameters sh f parameters") (auto simp: build_tool_def Let_def split: if_splits)
  have "f_callable f" "check_name (chosen_name f name) = []" "fst (signature_params f) = []" "ps = []"
    "validate_return_annotation sh f (resolve_hints f) = []" "tool_name t = chosen_name f name"
    "tool_description t = chosen_description f description" "tool_parameters t = schema"
    "strict \<Longrightarrow> chosen_description f description \<noteq> [] \<and> docs = []"
    using assms d by (auto simp: build_tool_def Let_def chosen_name_def chosen_description_def split: if_splits)
  with d show thesis
    using that [of docs] by (auto simp: check_name_ok returns_ok signature_ok)
qed

lemma props_of_schema_object [simp]:
  "props_of (schema_object props req) = props" "required_of (schema_object props req) = JList (map JStr req)"
  by (simp_all add: props_of_def required_of_def schema_object_def obj_get_def)















section \<open>Calls the model may make\<close>

lemma inferred_property:
  assumes "distinct (map par_name ps)" "p \<in> set ps" "fst (infer_parameters sh ps hints docs) = []"
  shows "map_of (props_of (snd (snd (infer_parameters sh ps hints docs)))) (par_name p) = Some (param_schema sh hints docs p)"
  using fold_update_lookup [OF assms(1,2)] by (simp add: infer_parameters_accepted(2) [OF assms(3)])

lemma param_schema_sound:
  assumes "typed_param sh hints p" "conforms (param_schema sh hints docs p) v"
  shows "\<exists>a. annotation_of hints p = Some a \<and> inhabits a v"
proof -
  from assms(1) obtain a where a: "annotation_of hints p = Some a" "supported a"
    by (auto simp: typed_param_def split: option.splits)
  from schema_supported [OF this(2)] obtain s where s: "schema_for_annotation sh a (par_name p) = ([], Some s, optional a)" by blast
  with assms(2) a have "conforms (JObj s) v"
    by (auto simp: param_schema_def Let_def conforms_described split: if_splits simp del: conforms.simps)
  from schema_sound [OF s this] a show ?thesis by blast
qed

text \<open>C29: arguments that validate against an inferred schema call the function correctly: with parameter names
  distinct, no leading unannotated \<open>self\<close> and a default on every \<open>Optional\<close> parameter, a conforming arguments
  object binds to the whole signature, and every value belongs to its parameter's annotation.\<close>

theorem advertised_calls_bind:
  assumes "build_tool sh f name description None strict = Inr (t, w)"
    and "f_signature f = Some (ps, r)" "drop_self ps = ps" "distinct (map par_name ps)"
    and opt: "\<forall>p \<in> set ps. optional (default_to ANone (annotation_of (resolve_hints f) p)) \<longrightarrow> par_default p \<noteq> None"
    and conf: "arguments_conform (tool_parameters t) args"
  shows "bind_call ps args
    \<and> (\<forall>p \<in> set ps. \<forall>v. (par_name p, v) \<in> set args \<longrightarrow> (\<exists>a. annotation_of (resolve_hints f) p = Some a \<and> inhabits a v))"
proof -
  let ?h = "resolve_hints f" and ?d = "snd (parse_docstring f)"
  from assms(1) obtain docs where "fst (signature_params f) = []"
    and "declared_parameters sh f None = Inr ([], docs, tool_parameters t)" by (rule build_tool_accepted)
  with assms(2,3) have kw: "list_all keyword_ok ps" and inf: "infer_parameters sh ps ?h ?d = ([], docs, tool_parameters t)"
    by (auto elim!: signature_accepted simp: declared_parameters_def)
  then have st: "fst (infer_parameters sh ps ?h ?d) = []" by simp
  note acc = infer_parameters_accepted [OF st]
  have props: "map_of (props_of (tool_parameters t)) (par_name p) = Some (param_schema sh ?h ?d p)" if "p \<in> set ps" for p
    using inferred_property [OF assms(4) that st] by (simp add: inf)
  have names: "fst ` set (props_of (tool_parameters t)) = par_name ` set ps"
    using acc(2) fold_update_keys [of par_name _ ps "[]"] by (simp add: inf)
  have known: "k \<in> par_name ` set ps" if "(k, v) \<in> set args" for k v
    using conf that names map_of_eq_None_iff [of "props_of (tool_parameters t)" k]
    by (force simp: arguments_conform_def list_all_iff split: option.splits)
  have req: "par_name p \<in> fst ` set args" if "p \<in> set ps" "needed ?h p" for p
    using conf that acc(2) by (force simp: arguments_conform_def list_all_iff inf)
  have "bind_call ps args"
    using kw known req opt by (auto simp: bind_call_def list_all_iff needed_def)
  moreover have "\<exists>a. annotation_of ?h p = Some a \<and> inhabits a v" if "p \<in> set ps" "(par_name p, v) \<in> set args" for p v
  proof (rule param_schema_sound)
    show "typed_param sh ?h p" using acc(1) that by (simp add: list_all_iff)
    show "conforms (param_schema sh ?h ?d p) v"
      using conf that props by (force simp: arguments_conform_def list_all_iff)
  qed
  ultimately show ?thesis by blast
qed

section \<open>The declaration of the module's docstring\<close>

definition plain_shows :: py_shows where
  "plain_shows = \<lparr>shown_type = (\<lambda>_. ''type''), shown_value = (\<lambda>_. ''value''), shown_text = demo_text\<rparr>"

definition get_weather :: pyfunc where
  "get_weather =
     \<lparr>f_callable = True, f_name = Some ''get_weather'', f_repr = ''<function>'',
      f_signature = Some
        ([\<lparr>par_name = ''city'', par_kind = PositionalOrKeyword, par_annotation = Some (AOther ''str''), par_default = None\<rparr>,
          \<lparr>par_name = ''units'', par_kind = PositionalOrKeyword, par_annotation = Some (AOther ''Literal''),
           par_default = Some (PyVal (JStr ''celsius''))\<rparr>], Some (AOther ''str'')),
      f_type_hints = Some [(''city'', AScalar PStr), (''units'', ALiteral [PyVal (JStr ''celsius''), PyVal (JStr ''fahrenheit'')]),
                           (''return'', AScalar PStr)],
      f_doc = Some (''Get the weather.'' @ [CHR 0x0A, CHR 0x0A] @ ''Args:'' @ [CHR 0x0A] @ ''    city: City name.'' @ [CHR 0x0A]
                    @ ''    units (str): Temperature'' @ [CHR 0x0A] @ ''        unit.''),
      f_code = Some (''tools.py'', 3), f_module = None\<rparr>"

definition weather_tool :: tool where
  "weather_tool =
     \<lparr>tool_name = ''get_weather'', tool_description = ''Get the weather.'',
      tool_parameters = schema_object
        [(''city'', JObj [(''type'', JStr ''string''), (''description'', JStr ''City name.'')]),
         (''units'', JObj [(''type'', JStr ''string''), (''enum'', JList [JStr ''celsius'', JStr ''fahrenheit'']),
                           (''description'', JStr ''Temperature unit.'')])] [''city'']\<rparr>"

lemma get_weather_built: "build_tool plain_shows get_weather None None None True = Inr (weather_tool, None)"
  by code_simp



theorem advertised_calls_bind_witness:
  "bind_call (fst (the (f_signature get_weather))) [(''city'', JStr ''Tokyo'')]"
proof -
  let ?ps = "fst (the (f_signature get_weather))"
  have "f_signature get_weather = Some (?ps, Some (AOther ''str''))" by (simp add: get_weather_def)
  moreover have "drop_self ?ps = ?ps" "distinct (map par_name ?ps)" by code_simp+
  moreover have "\<forall>p \<in> set ?ps. optional (default_to ANone (annotation_of (resolve_hints get_weather) p)) \<longrightarrow> par_default p \<noteq> None"
    by code_simp
  moreover have "arguments_conform (tool_parameters weather_tool) [(''city'', JStr ''Tokyo'')]" by code_simp
  ultimately show ?thesis using advertised_calls_bind [OF get_weather_built] by blast
qed

text \<open>Why the premises of the call theorem are there: an \<open>Optional\<close> parameter without a default is left out of
  \<open>required\<close>, and a dropped \<open>self\<close> is never passed; in both cases a conforming call does not bind.\<close>

definition with_params :: "param list \<Rightarrow> (string \<times> annotation) list \<Rightarrow> pyfunc" where
  "with_params ps hints = get_weather\<lparr>f_signature := Some (ps, Some (AScalar PStr)), f_type_hints := Some hints\<rparr>"

lemma optional_without_default:
  "let ps = [\<lparr>par_name = ''x'', par_kind = PositionalOrKeyword, par_annotation = Some (AOther ''int | None''), par_default = None\<rparr>];
       f = with_params ps [(''x'', AUnion [AScalar PInt, ANone])] in
   case build_tool plain_shows f None None None False of
     Inr (t, w) \<Rightarrow> arguments_conform (tool_parameters t) [] \<and> \<not> bind_call ps [] | Inl e \<Rightarrow> False"
  by code_simp

lemma leading_self_unbound:
  "let ps = [\<lparr>par_name = ''self'', par_kind = PositionalOrKeyword, par_annotation = None, par_default = None\<rparr>];
       f = with_params ps [] in
   case build_tool plain_shows f None None None False of
     Inr (t, w) \<Rightarrow> arguments_conform (tool_parameters t) [] \<and> \<not> bind_call ps [] | Inl e \<Rightarrow> False"
  by code_simp

text \<open>The final line feed \<open>$\<close> lets through, and an explicit schema whose property has a list of types: a bare
  \<open>TypeError\<close> instead of the collected problems.\<close>

lemma name_with_line_feed: "name_matches (''search'' @ [CHR 0x0A])"
  by code_simp

lemma override_type_list_raises:
  "build_tool plain_shows get_weather None None
     (Some (schema_object [(''city'', JObj [(''type'', JList [JStr ''string'', JStr ''null''])])] [])) True
   = Inl (RaisedError (TypeErr ''unhashable type''))"
  by code_simp

end
