(* ===== verification/HfServer.thy ===== *)
theory HfServer
  imports Settings Telemetry Chat
begin

text \<open>
  The inference server a worker runs with the Transformers backend
  (\<open>src/src/oumigo/service/worker/hf_server.py\<close>): request parsing, generation parameters, the request
  statistics and their Prometheus page, the OpenAI payloads and stream frames, the key check and the two
  request handlers. The model (tokenizer, generation) is a parameter: what \<open>generate\<close> and the streamer
  return is an argument. \<open>json.dumps\<close> and identifiers are arguments too.
\<close>

section \<open>Request parsing\<close>

definition text_of_part :: "py_text \<Rightarrow> json \<Rightarrow> string option" where
  "text_of_part t p = (case p of JObj kvs \<Rightarrow> Some (py_str t (default_to (JStr []) (map_of kvs ''text''))) | _ \<Rightarrow> None)"

definition extract_message :: "py_text \<Rightarrow> json \<Rightarrow> (string \<times> string) res" where
  "extract_message t msg =
     res_bind (get_item msg ''content'') (\<lambda>content0.
     res_map (\<lambda>role.
        let content = (case content0 of
               JList ps \<Rightarrow> JStr (py_join '' '' (List.map_filter (text_of_part t) ps))
             | v \<Rightarrow> v) in
        (py_str t (json_or role (JStr ''user'')), py_str t (json_or content (JStr []))))
       (get_item msg ''role''))"

fun extract_all :: "py_text \<Rightarrow> json list \<Rightarrow> (string \<times> string) list res" where
  "extract_all t [] = Inr []"
| "extract_all t (m # ms) = res_bind (extract_message t m) (\<lambda>x. res_map (\<lambda>xs. x # xs) (extract_all t ms))"

definition extract_messages :: "py_text \<Rightarrow> json \<Rightarrow> (string \<times> string) list res" where
  "extract_messages t body =
     res_bind (get_item body ''messages'') (\<lambda>ms.
     res_bind (py_iter (json_or ms (JList []))) (\<lambda>xs.
     res_map (\<lambda>out. if out = [] then [(''user'', [])] else out) (extract_all t xs)))"

definition extract_prompt :: "py_text \<Rightarrow> json \<Rightarrow> string res" where
  "extract_prompt t body =
     res_map (\<lambda>p. case p of
         JList ps \<Rightarrow> py_join '' '' (map (py_str t) ps)
       | v \<Rightarrow> py_str t (json_or v (JStr []))) (get_item body ''prompt'')"

section \<open>Engine\<close>

record engine =
  en_model_id :: string
  en_quantize :: string
  en_dtype_name :: string
  en_device_name :: string
  en_max_new_tokens :: int
  en_multimodal :: bool
  en_chat_template :: bool

datatype quant = Quant4 | Quant8

definition quant_config :: "engine \<Rightarrow> string \<Rightarrow> quant option" where
  "quant_config e device =
     (if en_quantize e \<notin> {''4bit'', ''8bit''} then None
      else if device \<noteq> ''cuda'' then None
      else if en_quantize e = ''4bit'' then Some Quant4 else Some Quant8)"

datatype dtype = Named string | Bfloat16 | Float16 | Float32

definition resolve_dtype :: "string \<Rightarrow> string \<Rightarrow> bool \<Rightarrow> dtype" where
  "resolve_dtype name device bf16_supported =
     (if name \<noteq> ''auto'' then Named name
      else if device = ''cuda'' then (if bf16_supported then Bfloat16 else Float16)
      else Float32)"

text \<open>The choices of \<open>HFEngine.load\<close>. What \<open>AutoProcessor\<close> gave: a processor with a tokenizer, a plain tokenizer,
  or an exception.\<close>

datatype processor_answer = Processor | BareTokenizer | ProcessorFailed

datatype weight_form = Quantized quant | Full dtype string

definition load_device :: "engine \<Rightarrow> bool \<Rightarrow> string" where
  "load_device e cuda_available =
     (if en_device_name e = ''auto'' then (if cuda_available then ''cuda'' else ''cpu'') else en_device_name e)"

definition load :: "processor_answer \<Rightarrow> bool \<Rightarrow> bool \<Rightarrow> bool \<Rightarrow> engine \<Rightarrow> engine \<times> weight_form" where
  "load pa cuda_available bf16_supported has_template e =
     (let device = load_device e cuda_available in
      (e\<lparr>en_multimodal := (pa = Processor), en_chat_template := has_template\<rparr>,
       case quant_config e device of
         Some q \<Rightarrow> Quantized q
       | None \<Rightarrow> Full (resolve_dtype (en_dtype_name e) device bf16_supported) device))"

text \<open>What the tokenizer is given.\<close>

datatype model_input = ChatTemplate bool "(string \<times> string) list" | PlainText string

definition encode_input :: "py_text \<Rightarrow> engine \<Rightarrow> json \<Rightarrow> bool \<Rightarrow> model_input res" where
  "encode_input t e body is_chat =
     (if is_chat \<and> en_multimodal e then res_map (ChatTemplate True) (extract_messages t body)
      else if is_chat \<and> en_chat_template e then res_map (ChatTemplate False) (extract_messages t body)
      else if is_chat then
        res_map (\<lambda>ms. PlainText (py_join [CHR 0x0A] (map (\<lambda>(r, c). r @ '': '' @ c) ms) @ [CHR 0x0A] @ ''assistant:''))
          (extract_messages t body)
      else res_map PlainText (extract_prompt t body))"

record gen_kwargs =
  gk_max_new_tokens :: int
  gk_do_sample :: bool
  gk_temperature :: "real option"
  gk_top_p :: "real option"

definition gen_kwargs_of :: "py_text \<Rightarrow> engine \<Rightarrow> json \<Rightarrow> gen_kwargs res" where
  "gen_kwargs_of t e body =
     res_bind (get_item body ''max_tokens'') (\<lambda>mt.
     res_bind (Settings.py_int (json_or mt (JInt (en_max_new_tokens e)))) (\<lambda>max_new.
     res_bind (get_item body ''temperature'') (\<lambda>temp.
     res_bind (get_item body ''top_p'') (\<lambda>top_p.
     res_bind (if temp = JNull then Inr 0 else Settings.py_float t temp) (\<lambda>tv.
     if temp \<noteq> JNull \<and> 0 < tv then
       res_map (\<lambda>tp. \<lparr>gk_max_new_tokens = max_new, gk_do_sample = True, gk_temperature = Some tv, gk_top_p = tp\<rparr>)
         (if top_p = JNull then Inr None else res_map Some (Settings.py_float t top_p))
     else Inr \<lparr>gk_max_new_tokens = max_new, gk_do_sample = False, gk_temperature = None, gk_top_p = None\<rparr>)))))"

text \<open>\<open>generate\<close>: the text after the prompt and the two token counts, from the ids in and out.\<close>

definition generate_result :: "(nat list \<Rightarrow> string) \<Rightarrow> nat list \<Rightarrow> nat list \<Rightarrow> string \<times> nat \<times> nat" where
  "generate_result decode input_ids out_ids =
     (let gen_ids = drop (length input_ids) out_ids in (decode gen_ids, length input_ids, length gen_ids))"

section \<open>Request statistics\<close>

definition FINISH_REASONS :: "string list" where
  "FINISH_REASONS = [''abort'', ''error'', ''length'', ''repetition'', ''stop'']"

record stats =
  st_prompt_tokens_total :: nat
  st_generation_tokens_total :: nat
  st_success :: "(string \<times> nat) list"
  st_latency_count :: nat
  st_latency_min :: real
  st_latency_max :: real
  st_latency_mean :: real
  st_num_running :: nat

definition new_stats :: stats where
  "new_stats = \<lparr>st_prompt_tokens_total = 0, st_generation_tokens_total = 0, st_success = map (\<lambda>r. (r, 0)) FINISH_REASONS,
     st_latency_count = 0, st_latency_min = 0, st_latency_max = 0, st_latency_mean = 0, st_num_running = 0\<rparr>"

definition inc_running :: "stats \<Rightarrow> stats" where
  "inc_running s = s\<lparr>st_num_running := st_num_running s + 1\<rparr>"

definition dec_running :: "stats \<Rightarrow> stats" where
  "dec_running s = s\<lparr>st_num_running := st_num_running s - 1\<rparr>"

definition record_request :: "real \<Rightarrow> nat \<Rightarrow> nat \<Rightarrow> string \<Rightarrow> stats \<Rightarrow> stats" where
  "record_request x p_toks c_toks finish s =
     (let n = st_latency_count s;
          s1 = s\<lparr>st_prompt_tokens_total := st_prompt_tokens_total s + p_toks,
                 st_generation_tokens_total := st_generation_tokens_total s + c_toks,
                 st_success := AList.update finish (default_to 0 (map_of (st_success s) finish) + 1) (st_success s)\<rparr>;
          s2 = (if n = 0 then s1\<lparr>st_latency_min := x, st_latency_max := x, st_latency_mean := x\<rparr>
                else s1\<lparr>st_latency_min := min (st_latency_min s) x, st_latency_max := max (st_latency_max s) x,
                        st_latency_mean := (x + st_latency_mean s * real n) / real (n + 1)\<rparr>) in
      s2\<lparr>st_latency_count := n + 1\<rparr>)"

definition E2E :: string where "E2E = ''vllm:e2e_request_latency_seconds''"

definition success_line :: "stats \<Rightarrow> string \<Rightarrow> string" where
  "success_line s r =
     ''vllm:request_success_total{finished_reason='' @ [CHR 0x22] @ r @ [CHR 0x22] @ ''} ''
     @ nat_str (default_to 0 (map_of (st_success s) r))"

definition stats_lines :: "stats \<Rightarrow> string list" where
  "stats_lines s =
     [''vllm:num_requests_running '' @ nat_str (st_num_running s),
      ''vllm:prompt_tokens_total '' @ nat_str (st_prompt_tokens_total s),
      ''vllm:generation_tokens_total '' @ nat_str (st_generation_tokens_total s)]
     @ map (success_line s) FINISH_REASONS
     @ [E2E @ ''_count '' @ nat_str (st_latency_count s)]
     @ (if 0 < st_latency_count s
        then [E2E @ ''_min '' @ fmt_fixed 6 (st_latency_min s), E2E @ ''_max '' @ fmt_fixed 6 (st_latency_max s),
              E2E @ ''_mean '' @ fmt_fixed 6 (st_latency_mean s)]
        else [])"

definition render :: "stats \<Rightarrow> string" where
  "render s = py_join [CHR 0x0A] (stats_lines s) @ [CHR 0x0A]"

section \<open>OpenAI payloads\<close>

definition usage_json :: "nat \<Rightarrow> nat \<Rightarrow> json" where
  "usage_json p_toks c_toks =
     JObj [(''prompt_tokens'', JInt (int p_toks)), (''completion_tokens'', JInt (int c_toks)),
           (''total_tokens'', JInt (int (p_toks + c_toks)))]"

text \<open>\<open>hex\<close>: twelve digits of a fresh \<open>uuid4\<close>.\<close>

definition chat_payload :: "string \<Rightarrow> int \<Rightarrow> string \<Rightarrow> json \<Rightarrow> nat \<Rightarrow> nat \<Rightarrow> json" where
  "chat_payload hex created txt mdl p_toks c_toks =
     JObj [(''id'', JStr (''chatcmpl-hf-'' @ hex)), (''object'', JStr ''chat.completion''), (''created'', JInt created),
           (''model'', mdl),
           (''choices'', JList [JObj [(''index'', JInt 0),
              (''message'', JObj [(''role'', JStr ''assistant''), (''content'', JStr txt)]), (''finish_reason'', JStr ''stop'')]]),
           (''usage'', usage_json p_toks c_toks)]"

definition completion_payload :: "string \<Rightarrow> int \<Rightarrow> string \<Rightarrow> json \<Rightarrow> nat \<Rightarrow> nat \<Rightarrow> json" where
  "completion_payload hex created txt mdl p_toks c_toks =
     JObj [(''id'', JStr (''cmpl-hf-'' @ hex)), (''object'', JStr ''text_completion''), (''created'', JInt created),
           (''model'', mdl),
           (''choices'', JList [JObj [(''index'', JInt 0), (''text'', JStr txt), (''finish_reason'', JStr ''stop'')]]),
           (''usage'', usage_json p_toks c_toks)]"

definition sse :: "(json \<Rightarrow> string) \<Rightarrow> json \<Rightarrow> string" where
  "sse dumps obj = ''data: '' @ dumps obj @ [CHR 0x0A, CHR 0x0A]"

definition chat_chunk :: "string \<Rightarrow> int \<Rightarrow> json \<Rightarrow> (string \<times> json) list \<Rightarrow> json \<Rightarrow> json" where
  "chat_chunk cid created mdl delta fin =
     JObj [(''id'', JStr cid), (''object'', JStr ''chat.completion.chunk''), (''created'', JInt created), (''model'', mdl),
           (''choices'', JList [JObj [(''index'', JInt 0), (''delta'', JObj delta), (''finish_reason'', fin)]])]"

definition text_chunk :: "string \<Rightarrow> int \<Rightarrow> json \<Rightarrow> string \<Rightarrow> json \<Rightarrow> json" where
  "text_chunk cid created mdl txt fin =
     JObj [(''id'', JStr cid), (''object'', JStr ''text_completion''), (''created'', JInt created), (''model'', mdl),
           (''choices'', JList [JObj [(''index'', JInt 0), (''text'', JStr txt), (''finish_reason'', fin)]])]"

section \<open>The server\<close>

record hf_server =
  sv_engine :: engine
  sv_served_model_name :: string
  sv_api_key :: "string option"

definition new_server :: "engine \<Rightarrow> string option \<Rightarrow> string option \<Rightarrow> hf_server" where
  "new_server e served_model_name vllm_api_key =
     \<lparr>sv_engine = e,
      sv_served_model_name = default_to [] (str_or served_model_name (Some (en_model_id e))),
      sv_api_key = str_or vllm_api_key None\<rparr>"

definition key_refused :: "hf_server \<Rightarrow> string \<Rightarrow> string option \<Rightarrow> bool" where
  "key_refused srv path authorization =
     (case sv_api_key srv of
        None \<Rightarrow> False
      | Some key \<Rightarrow> py_startswith path ''/v1/'' \<and> authorization \<noteq> Some (''Bearer '' @ key))"

datatype hf_response = Unauthorized | Page json | Metrics string | Generate bool | NoRoute

definition hf_route :: "hf_server \<Rightarrow> stats \<Rightarrow> string \<Rightarrow> string \<Rightarrow> string option \<Rightarrow> hf_response" where
  "hf_route srv st http_method path authorization =
     (if key_refused srv path authorization then Unauthorized
      else if (http_method, path) = (''GET'', ''/health'') then Page (JObj [(''status'', JStr ''ok'')])
      else if (http_method, path) = (''GET'', ''/v1/models'')
      then Page (JObj [(''object'', JStr ''list''),
             (''data'', JList [JObj [(''id'', JStr (sv_served_model_name srv)), (''object'', JStr ''model'')]])])
      else if (http_method, path) = (''GET'', ''/metrics'') then Metrics (render st)
      else if (http_method, path) = (''POST'', ''/v1/chat/completions'') then Generate True
      else if (http_method, path) = (''POST'', ''/v1/completions'') then Generate False
      else NoRoute)"

text \<open>How a generation request is answered: in one piece, or streamed with or without usage.\<close>

datatype answer_plan = WholeAnswer json | StreamedAnswer json bool

definition plan_answer :: "hf_server \<Rightarrow> json \<Rightarrow> answer_plan res" where
  "plan_answer srv body =
     res_bind (get_item body ''model'') (\<lambda>m.
     res_bind (get_item body ''stream'') (\<lambda>st.
     let mdl = json_or m (JStr (sv_served_model_name srv)) in
     if json_true st then
       res_bind (get_item body ''stream_options'') (\<lambda>opts.
       res_map (\<lambda>u. StreamedAnswer mdl (json_true u)) (get_item (json_or opts (JObj [])) ''include_usage''))
     else Inr (WholeAnswer mdl)))"

text \<open>The part of \<open>_handle\<close> that answers in one piece. \<open>generated\<close>: what \<open>engine.generate\<close> returned or raised;
  \<open>latency\<close>: the difference of the two clock readings.\<close>

definition serve_whole ::
  "bool \<Rightarrow> string \<Rightarrow> int \<Rightarrow> json \<Rightarrow> (string \<times> nat \<times> nat) res \<Rightarrow> real \<Rightarrow> stats \<Rightarrow> json res \<times> stats"
where
  "serve_whole is_chat hex created mdl generated latency st =
     (let st1 = dec_running (inc_running st) in
      case generated of
        Inl e \<Rightarrow> (Inl e, st1)
      | Inr (txt, p_toks, c_toks) \<Rightarrow>
          (Inr (if is_chat then chat_payload hex created txt mdl p_toks c_toks
                else completion_payload hex created txt mdl p_toks c_toks),
           record_request latency p_toks c_toks ''stop'' st1))"

text \<open>The chunks of \<open>_stream\<close> for the pieces of the streamer, and its frames.\<close>

definition piece_chunk :: "bool \<Rightarrow> string \<Rightarrow> int \<Rightarrow> json \<Rightarrow> string \<Rightarrow> json" where
  "piece_chunk is_chat cid created mdl piece =
     (if is_chat then chat_chunk cid created mdl [(''content'', JStr piece)] JNull
      else text_chunk cid created mdl piece JNull)"

definition stream_chunks :: "bool \<Rightarrow> bool \<Rightarrow> string \<Rightarrow> int \<Rightarrow> json \<Rightarrow> nat \<Rightarrow> string list \<Rightarrow> nat \<Rightarrow> json list" where
  "stream_chunks is_chat include_usage cid created mdl input_len pieces c_toks =
     (if is_chat then [chat_chunk cid created mdl [(''role'', JStr ''assistant'')] JNull] else [])
     @ map (piece_chunk is_chat cid created mdl) pieces
     @ [if is_chat then chat_chunk cid created mdl [] (JStr ''stop'') else text_chunk cid created mdl [] (JStr ''stop'')]
     @ (if include_usage
        then [JObj [(''id'', JStr cid), (''object'', JStr (if is_chat then ''chat.completion.chunk'' else ''text_completion'')),
                    (''created'', JInt created), (''model'', mdl), (''choices'', JList []), (''usage'', usage_json input_len c_toks)]]
        else [])"

definition stream_frames :: "(json \<Rightarrow> string) \<Rightarrow> json list \<Rightarrow> string list" where
  "stream_frames dumps chunks = map (sse dumps) chunks @ [''data: [DONE]'' @ [CHR 0x0A, CHR 0x0A]]"

text \<open>The whole of \<open>_stream\<close>. \<open>started\<close>: what \<open>start_stream\<close> returned, with the pieces its streamer gives; \<open>left_after\<close>:
  the number of frames after which the client went away, \<open>None\<close> when it read to the end.\<close>

definition serve_stream ::
  "(json \<Rightarrow> string) \<Rightarrow> (string \<Rightarrow> nat) \<Rightarrow> bool \<Rightarrow> bool \<Rightarrow> string \<Rightarrow> int \<Rightarrow> json \<Rightarrow> (nat \<times> string list) res
   \<Rightarrow> nat option \<Rightarrow> real \<Rightarrow> stats \<Rightarrow> string list \<times> stats"
where
  "serve_stream dumps count_tokens is_chat include_usage hex created mdl started left_after latency st =
     (let st1 = inc_running st; cid = (if is_chat then ''chatcmpl'' else ''cmpl'') @ ''-hf-'' @ hex in
      case started of
        Inl e \<Rightarrow> ([], dec_running st1)
      | Inr (input_len, pieces) \<Rightarrow>
          let c_toks = count_tokens (concat pieces);
              frames = stream_frames dumps (stream_chunks is_chat include_usage cid created mdl input_len pieces c_toks) in
          (case left_after of
             Some n \<Rightarrow> (take n frames, dec_running st1)
           | None \<Rightarrow> (frames, dec_running (record_request latency input_len c_toks ''stop'' st1))))"

section \<open>Requests in flight\<close>

text \<open>Handlers interleave on the event loop: a request enters (\<open>inc_running\<close>), and later ends, served with its
  token counts or not (an exception, or a client that left). A streamed answer records before it is taken out
  of the running ones, a whole answer after.\<close>

record in_flight =
  fl_started :: real
  fl_streamed :: bool

record hf_state =
  hs_stats :: stats
  hs_active :: "(nat \<times> in_flight) list"

datatype hf_event = Enter nat real bool | Leave nat real "(nat \<times> nat) option"

definition close_stats :: "in_flight \<Rightarrow> real \<Rightarrow> (nat \<times> nat) option \<Rightarrow> stats \<Rightarrow> stats" where
  "close_stats fl now served st =
     (case served of
        None \<Rightarrow> dec_running st
      | Some (p_toks, c_toks) \<Rightarrow>
          if fl_streamed fl then dec_running (record_request (now - fl_started fl) p_toks c_toks ''stop'' st)
          else record_request (now - fl_started fl) p_toks c_toks ''stop'' (dec_running st))"

definition hf_exec :: "hf_event \<Rightarrow> hf_state \<Rightarrow> hf_state" where
  "hf_exec ev h =
     (case ev of
        Enter i now streamed \<Rightarrow>
          if map_of (hs_active h) i \<noteq> None then h
          else h\<lparr>hs_stats := inc_running (hs_stats h),
                 hs_active := (i, \<lparr>fl_started = now, fl_streamed = streamed\<rparr>) # hs_active h\<rparr>
      | Leave i now served \<Rightarrow>
          (case map_of (hs_active h) i of
             None \<Rightarrow> h
           | Some fl \<Rightarrow> h\<lparr>hs_stats := close_stats fl now served (hs_stats h), hs_active := AList.delete i (hs_active h)\<rparr>))"

definition hf_start :: hf_state where
  "hf_start = \<lparr>hs_stats = new_stats, hs_active = []\<rparr>"

end
