(* ===== verification/Numerals.thy ===== *)
theory Numerals
  imports Catalog Timestamps
begin

text \<open>
  Decimal numerals read back: the value of a run of digits, for the texts \<open>str(n)\<close>, \<open>f"{n:02d}"\<close> and
  \<open>strftime\<close> write. Shared by the readers of the metrics page and of timestamps.
\<close>

definition numeral_value :: "nat \<Rightarrow> string \<Rightarrow> nat" where
  "numeral_value v s = foldl (\<lambda>a c. 10 * a + (of_char c - 48)) v s"

lemma numeral_value_append: "numeral_value v (xs @ ys) = numeral_value (numeral_value v xs) ys"
  by (simp add: numeral_value_def)

lemma id_digit_digit_char [simp]: "d < 10 \<Longrightarrow> id_digit (digit_char d)"
  by (simp add: id_digit_def Let_def)

lemma nat_str_id_digit: "c \<in> set (nat_str n) \<Longrightarrow> id_digit c"
  using nat_str_digits [of n] by auto

lemma numeral_value_nat_str: "numeral_value 0 (nat_str n) = n"
proof (induction n rule: nat_str.induct)
  case (1 n)
  show ?case
  proof (cases "n < 10")
    case True
    then show ?thesis by (simp add: nat_str.simps [of n] numeral_value_def)
  next
    case False
    with 1 have "numeral_value 0 (nat_str (n div 10)) = n div 10" by simp
    then have "numeral_value 0 (nat_str n) = numeral_value (n div 10) [digit_char (n mod 10)]"
      using False by (simp add: nat_str.simps [of n] numeral_value_append)
    then show ?thesis by (simp add: numeral_value_def)
  qed
qed

lemma numeral_value_zeros: "numeral_value 0 (replicate k (CHR ''0'') @ s) = numeral_value 0 s"
  by (induction k) (simp_all add: numeral_value_def)

lemma fixed_dec_digits: "c \<in> set (fixed_dec w n) \<Longrightarrow> id_digit c"
  by (auto simp: fixed_dec_def pad_left_def id_digit_def Let_def dest: nat_str_id_digit)

lemma numeral_value_fixed_dec: "numeral_value 0 (fixed_dec w n) = n"
  by (simp add: fixed_dec_def pad_left_def numeral_value_zeros numeral_value_nat_str)

end
