(* ===== verification/HfProofs.thy ===== *)
theory HfProofs
  imports HfServer ChatProofs Numerals
begin

text \<open>
  What the Transformers server promises: its statistics are exact over every interleaving of requests, its
  metrics page is read back without loss by the worker's collector and run-state probe, and its stream frames
  reach the agent's turn as the text the model produced.
\<close>

section \<open>Numerals on the metrics page\<close>

lemma digit_run_digits:
  "\<forall>c \<in> set xs. id_digit c \<Longrightarrow> digit_run xs v n = (if n + length xs = 0 then None else Some (numeral_value v xs, n + length xs))"
  by (induction xs arbitrary: v n) (auto simp: numeral_value_def)

lemma digit_run_nat_str: "digit_run (nat_str n) 0 0 = Some (n, length (nat_str n))"
  using digit_run_digits [of "nat_str n" 0 0] nat_str_id_digit by (auto simp: numeral_value_nat_str)

lemma pad_left_numeral:
  assumes "n < 10 ^ Suc k"
  shows "digit_run (pad_left (Suc k) (nat_str n)) 0 0 = Some (n, Suc k)"
proof -
  have "\<forall>c \<in> set (pad_left (Suc k) (nat_str n)). id_digit c"
    by (auto simp: pad_left_def id_digit_def Let_def dest: nat_str_id_digit)
  from digit_run_digits [OF this, of 0 0] nat_str_length [of "Suc k" n] assms show ?thesis
    by (simp add: pad_left_def numeral_value_zeros numeral_value_nat_str)
qed

text \<open>A token: no space, no brace, digits and at most a point here.\<close>

definition plain_char :: "char \<Rightarrow> bool" where
  "plain_char c \<longleftrightarrow> \<not> py_isspace c \<and> c \<noteq> CHR ''{''"

definition token :: "string \<Rightarrow> bool" where
  "token s \<longleftrightarrow> s \<noteq> [] \<and> (\<forall>c \<in> set s. plain_char c)"

lemma id_digit_char: "id_digit c \<Longrightarrow> plain_char c \<and> c \<noteq> CHR ''-'' \<and> c \<noteq> CHR ''+'' \<and> c \<noteq> CHR ''E'' \<and> c \<noteq> CHR ''e'' \<and> c \<noteq> CHR ''.''"
  by (auto simp: id_digit_def plain_char_def py_isspace_def Let_def)

lemma py_strip_id: "s \<noteq> [] \<Longrightarrow> \<not> py_isspace (hd s) \<Longrightarrow> \<not> py_isspace (last s) \<Longrightarrow> py_strip s = s"
proof -
  assume s: "s \<noteq> []" "\<not> py_isspace (hd s)" "\<not> py_isspace (last s)"
  then have "dropWhile py_isspace s = s" by (cases s) simp_all
  moreover have "dropWhile py_isspace (rev s) = rev s" using s by (cases s rule: rev_cases) simp_all
  ultimately show ?thesis by (simp add: py_strip_def py_lstrip_def py_rstrip_def)
qed

lemma token_strip: "token s \<Longrightarrow> py_strip s = s"
  by (rule py_strip_id) (auto simp: token_def plain_char_def)

lemma token_ends: "token s \<Longrightarrow> s \<noteq> [] \<and> \<not> py_isspace (hd s) \<and> \<not> py_isspace (last s)"
  by (simp add: token_def plain_char_def)

lemma token_chars: "token s \<Longrightarrow> CHR '' '' \<notin> set s \<and> CHR ''{'' \<notin> set s"
proof -
  have "py_isspace (CHR '' '')" by (simp add: py_isspace_def)
  then show "token s \<Longrightarrow> CHR '' '' \<notin> set s \<and> CHR ''{'' \<notin> set s" by (auto simp: token_def plain_char_def)
qed

lemma split_sign_digit: "id_digit c \<Longrightarrow> split_sign (c # s) = (False, c # s)"
  by (auto simp: split_sign_def dest: id_digit_char)

lemma decimal_float:
  assumes ip: "ip \<noteq> []" "\<forall>c \<in> set ip. id_digit c" and fp: "\<forall>c \<in> set fp. id_digit c"
    and s: "s = (if fp = [] then ip else ip @ CHR ''.'' # fp)"
  shows "token s" and "Supervisor.py_float s = mantissa s"
proof -
  have chars: "id_digit c \<or> c = CHR ''.''" if "c \<in> set s" for c
    using that assms by (auto split: if_splits)
  then have plain: "plain_char c \<and> c \<noteq> CHR ''E'' \<and> c \<noteq> CHR ''e''" if "c \<in> set s" for c
    using that id_digit_char by (fastforce simp: plain_char_def py_isspace_def)
  have ne: "s \<noteq> []" using assms by auto
  show t: "token s" using plain ne by (auto simp: token_def)
  obtain c cs where c: "s = c # cs" "id_digit c" using assms by (cases ip) (auto split: if_splits)
  have "map (\<lambda>c. if c = CHR ''E'' then CHR ''e'' else c) s = s" using plain by (auto intro: map_idI)
  moreover have "py_partition (CHR ''e'') s = (s, False, [])" using plain by (auto intro: py_partition_missing)
  moreover have "split_sign s = (False, s)" using c split_sign_digit by simp
  ultimately show "Supervisor.py_float s = mantissa s"
    by (simp add: Supervisor.py_float_def token_strip [OF t] split_sign_def Let_def split: option.split)
qed

lemma nat_float: "token (nat_str n)" "Supervisor.py_float (nat_str n) = Some (real n)"
proof -
  have digits: "\<forall>c \<in> set (nat_str n). id_digit c" using nat_str_id_digit by blast
  note d = decimal_float [of "nat_str n" "[]" "nat_str n", simplified, OF digits]
  show "token (nat_str n)" by (rule d(1))
  have "CHR ''.'' \<notin> set (nat_str n)" using digits id_digit_char by blast
  then show "Supervisor.py_float (nat_str n) = Some (real n)"
    by (simp add: d(2) mantissa_def py_partition_missing digit_run_nat_str)
qed

lemma fixed_float:
  assumes "0 \<le> x"
  shows "token (fmt_fixed (Suc k) x)" "Supervisor.py_float (fmt_fixed (Suc k) x) = Some (py_round (Suc k) x)"
proof -
  define N where "N = nat (round_half_even (x * 10 ^ Suc k))"
  have nn: "0 \<le> round_half_even (x * 10 ^ Suc k)" using assms by (simp add: round_half_even_nonneg)
  let ?ip = "nat_str (N div 10 ^ Suc k)" and ?fp = "pad_left (Suc k) (nat_str (N mod 10 ^ Suc k))"
  have s: "fmt_fixed (Suc k) x = ?ip @ CHR ''.'' # ?fp"
    using assms nn by (simp add: fmt_fixed_def Let_def N_def)
  have run: "digit_run ?fp 0 0 = Some (N mod 10 ^ Suc k, Suc k)" by (rule pad_left_numeral) simp
  have fp: "?fp \<noteq> []" by (simp add: pad_left_def)
  have digits: "\<forall>c \<in> set ?ip. id_digit c" "\<forall>c \<in> set ?fp. id_digit c"
    by (auto simp: pad_left_def id_digit_def Let_def dest: nat_str_id_digit)
  note d = decimal_float [OF nat_str_nonempty(1) digits, of "fmt_fixed (Suc k) x"]
  show "token (fmt_fixed (Suc k) x)" by (rule d(1)) (use s fp in simp)
  have "CHR ''.'' \<notin> set ?ip" using digits(1) id_digit_char by blast
  then have "mantissa (fmt_fixed (Suc k) x) = Some (real (N div 10 ^ Suc k) + real (N mod 10 ^ Suc k) / 10 ^ Suc k)"
    unfolding s mantissa_def using fp by (simp add: run digit_run_nat_str del: power_Suc)
  moreover have "real (N div 10 ^ Suc k) + real (N mod 10 ^ Suc k) / 10 ^ Suc k = real N / 10 ^ Suc k"
  proof -
    define M where "M = (10::nat) ^ Suc k"
    have M: "real M = 10 ^ Suc k" "0 < M" by (simp_all add: M_def)
    have "real N = real (N div M * M + N mod M)" by (simp only: div_mult_mod_eq)
    then have "real N = real (N div M) * real M + real (N mod M)" by (simp only: of_nat_add of_nat_mult)
    then have "real (N div M) + real (N mod M) / real M = real N / real M"
      using M(2) by (simp add: add_divide_distrib)
    then show ?thesis unfolding M(1) by (simp only: M_def)
  qed
  moreover have "real N / 10 ^ Suc k = py_round (Suc k) x"
    using nn by (simp add: py_round_def N_def del: power_Suc)
  ultimately show "Supervisor.py_float (fmt_fixed (Suc k) x) = Some (py_round (Suc k) x)"
    using d(2) s fp by simp
qed

lemma py_round_idem: "py_round d (py_round d x) = py_round d x"
  by (simp add: py_round_def round_half_even_def)

section \<open>Lines of the page\<close>

lemma splitlines_break: "py_splitlines_aux acc (CHR 0x0A # rest) = rev acc # py_splitlines_aux [] rest"
  by (cases rest) (simp_all add: py_is_linebreak_def)

lemma splitlines_line:
  "\<forall>c \<in> set l. \<not> py_is_linebreak c \<Longrightarrow>
   py_splitlines_aux acc (l @ CHR 0x0A # rest) = (rev acc @ l) # py_splitlines_aux [] rest"
proof (induction l arbitrary: acc)
  case (Cons c l)
  then show ?case by (cases "l @ CHR 0x0A # rest") auto
qed (simp add: splitlines_break)

lemma splitlines_joined:
  "list_all (\<lambda>l. \<forall>c \<in> set l. \<not> py_is_linebreak c) ls \<Longrightarrow> ls \<noteq> [] \<Longrightarrow>
   py_splitlines (py_join [CHR 0x0A] ls @ [CHR 0x0A]) = ls"
  unfolding py_splitlines_def
proof (induction "[CHR 0x0A]" ls rule: py_join.induct)
  case (2 l)
  then show ?case using splitlines_line [of l "[]" "[]"] by simp
next
  case (3 l m ls)
  then show ?case using splitlines_line [of l "[]" "py_join [CHR 0x0A] (m # ls) @ [CHR 0x0A]"] by simp
qed simp

lemma linebreak_isspace: "py_is_linebreak c \<Longrightarrow> py_isspace c"
  by (auto simp: py_is_linebreak_def py_isspace_def)

lemma token_no_break: "token s \<Longrightarrow> c \<in> set s \<Longrightarrow> \<not> py_is_linebreak c"
  using linebreak_isspace by (auto simp: token_def plain_char_def)

lemma words_token: "token s \<Longrightarrow> py_words s = [s]"
proof -
  have "\<forall>c \<in> set s. \<not> py_isspace c \<Longrightarrow> py_words_aux acc s = (if rev acc @ s = [] then [] else [rev acc @ s])" for acc
    by (induction s arbitrary: acc) auto
  then show "token s \<Longrightarrow> py_words s = [s]" by (auto simp: py_words_def token_def plain_char_def)
qed

lemma words_space: "py_words (CHR '' '' # s) = py_words s"
  by (simp add: py_words_def py_isspace_def)

lemma no_labels [simp]: "label_dict [] = []" "label_suffix [] = []"
  by (simp_all add: label_dict_def label_findall.simps label_suffix_def)

lemma parse_line_plain:
  assumes "token name" "token tok" "kept_name p name" "Supervisor.py_float tok = Some v" "hd name \<noteq> CHR ''#''"
  shows "parse_line p (name @ CHR '' '' # tok) acc = route_sample name None [] v acc"
proof -
  let ?line = "name @ CHR '' '' # tok"
  have strip: "py_strip ?line = ?line"
    using token_ends [OF assms(1)] token_ends [OF assms(2)] by (intro py_strip_id) (simp_all add: hd_append)
  have brace: "CHR ''{'' \<notin> set ?line" using token_chars [OF assms(1)] token_chars [OF assms(2)] by simp
  have sp: "CHR '' '' \<notin> set name" using token_chars [OF assms(1)] by simp
  have hash: "\<not> py_startswith ?line ''#''" using token_ends [OF assms(1)] assms(5) by (cases name) (simp_all add: py_startswith_def)
  show ?thesis
    unfolding parse_line_def Let_def strip split_line_def using brace hash assms
    by (simp add: py_partition_append [OF sp] token_strip words_token)
qed

lemma parse_line_labelled:
  assumes "token name" "token tok" "kept_name p name" "Supervisor.py_float tok = Some v" "hd name \<noteq> CHR ''#''"
    and labels: "CHR ''}'' \<notin> set labels"
  shows "parse_line p (name @ CHR ''{'' # labels @ CHR ''}'' # CHR '' '' # tok) acc
    = route_sample name (map_of (label_dict labels) ''le'') (label_suffix (label_dict labels)) v acc"
proof -
  let ?line = "name @ CHR ''{'' # labels @ CHR ''}'' # CHR '' '' # tok"
  have strip: "py_strip ?line = ?line"
    using token_ends [OF assms(1)] token_ends [OF assms(2)] by (intro py_strip_id) (simp_all add: hd_append)
  have nb: "CHR ''{'' \<notin> set name" using token_chars [OF assms(1)] by simp
  have hash: "\<not> py_startswith ?line ''#''" using token_ends [OF assms(1)] assms(5) by (cases name) (simp_all add: py_startswith_def)
  show ?thesis
    unfolding parse_line_def Let_def strip split_line_def using hash assms
    by (simp add: py_partition_append [OF nb] py_partition_append [OF labels] token_strip words_token words_space)
qed

section \<open>The page is read back\<close>

definition plain_name :: "string \<Rightarrow> bool" where
  "plain_name name \<longleftrightarrow> token name \<and> kept_name ''vllm:'' name \<and> hd name \<noteq> CHR ''#''
     \<and> \<not> list_ex (\<lambda>e. py_endswith name e) [''_bucket'', ''_sum'', ''_count'', ''_min'', ''_max'', ''_mean'']"

lemma route_plain:
  "plain_name name \<Longrightarrow> route_sample name le suffix v (sc, h) = (put (suffixed name suffix) v sc, h)"
  by (simp add: plain_name_def route_sample_def Let_def)

lemma gauge_read:
  "plain_name name \<Longrightarrow> parse_line ''vllm:'' (name @ CHR '' '' # nat_str n) (sc, h) = (put name (real n) sc, h)"
  using parse_line_plain [of name "nat_str n" "''vllm:''" "real n"] nat_float [of n] route_plain [of name]
  by (simp add: plain_name_def suffixed_def)

lemma gauge_names:
  "plain_name ''vllm:num_requests_running''" "plain_name ''vllm:prompt_tokens_total''"
  "plain_name ''vllm:generation_tokens_total''" "plain_name ''vllm:request_success_total''"
  by code_simp+

lemma reason_labels:
  "list_all (\<lambda>r. label_dict (''finished_reason='' @ [CHR 0x22] @ r @ [CHR 0x22]) = [(''finished_reason'', r)]
     \<and> label_suffix [(''finished_reason'', r)] = r \<and> r \<noteq> [] \<and> CHR ''}'' \<notin> set r) FINISH_REASONS"
  by code_simp

lemma success_read:
  assumes "r \<in> set FINISH_REASONS"
  shows "parse_line ''vllm:'' (success_line st r) (sc, h)
    = (put (''vllm:request_success_total_'' @ r) (real (default_to 0 (map_of (st_success st) r))) sc, h)"
proof -
  let ?n = "default_to 0 (map_of (st_success st) r)" and ?name = "''vllm:request_success_total''"
  let ?labels = "''finished_reason='' @ [CHR 0x22] @ r @ [CHR 0x22]"
  have l: "label_dict ?labels = [(''finished_reason'', r)]" "label_suffix [(''finished_reason'', r)] = r" "r \<noteq> []" "CHR ''}'' \<notin> set r"
    using reason_labels assms by (auto simp: list_all_iff)
  have "success_line st r = ?name @ CHR ''{'' # ?labels @ CHR ''}'' # CHR '' '' # nat_str ?n"
    by (simp add: success_line_def)
  then have "parse_line ''vllm:'' (success_line st r) (sc, h)
    = route_sample ?name (map_of (label_dict ?labels) ''le'') (label_suffix (label_dict ?labels)) (real ?n) (sc, h)"
    using parse_line_labelled [of ?name "nat_str ?n" "''vllm:''" "real ?n" ?labels "(sc, h)"] gauge_names(4) nat_float [of ?n] l(4)
    by (simp add: plain_name_def)
  also have "\<dots> = (put (suffixed ?name r) (real ?n) sc, h)"
    unfolding l(1,2) by (rule route_plain [OF gauge_names(4)])
  finally show ?thesis using l(3) by (simp add: suffixed_def)
qed

lemma latency_names:
  "list_all (\<lambda>e. token (E2E @ e) \<and> kept_name ''vllm:'' (E2E @ e) \<and> hd (E2E @ e) \<noteq> CHR ''#'' \<and> chop (E2E @ e) e = E2E)
     [''_count'', ''_min'', ''_max'', ''_mean'']"
  "E2E \<in> set HIST_AGGREGATE_METRICS"
  by code_simp+

lemma count_read:
  "parse_line ''vllm:'' (E2E @ ''_count '' @ nat_str n) (sc, h) = (sc, in_family E2E [] (fam_count_update (\<lambda>_. real n)) h)"
proof -
  have "route_sample (E2E @ ''_count'') None [] v (sc, h) = (sc, in_family E2E [] (fam_count_update (\<lambda>_. v)) h)" for v
    using latency_names by (simp add: route_sample_def Let_def py_endswith_def E2E_def)
  with parse_line_plain [of "E2E @ ''_count''" "nat_str n" "''vllm:''" "real n" "(sc, h)"] latency_names nat_float [of n]
  show ?thesis by simp
qed

lemma stat_names:
  "list_all (\<lambda>stat. \<not> py_endswith (E2E @ ''_'' @ stat) ''_bucket'' \<and> \<not> py_endswith (E2E @ ''_'' @ stat) ''_sum''
      \<and> \<not> py_endswith (E2E @ ''_'' @ stat) ''_count'' \<and> chop (E2E @ ''_'' @ stat) (''_'' @ stat) = E2E
      \<and> find (\<lambda>st. py_endswith (E2E @ ''_'' @ stat) (''_'' @ st)) [''min'', ''max'', ''mean''] = Some stat
      \<and> token (E2E @ ''_'' @ stat) \<and> kept_name ''vllm:'' (E2E @ ''_'' @ stat) \<and> hd (E2E @ ''_'' @ stat) \<noteq> CHR ''#'')
     [''min'', ''max'', ''mean'']"
  by code_simp

lemma stat_read:
  assumes "stat \<in> {''min'', ''max'', ''mean''}" "0 \<le> x"
  shows "parse_line ''vllm:'' (E2E @ ''_'' @ stat @ '' '' @ fmt_fixed 6 x) (sc, h)
    = (sc, in_family E2E [] (fam_stats_update (put stat (py_round 6 x))) h)"
proof -
  let ?name = "E2E @ ''_'' @ stat"
  have "stat \<in> set [''min'', ''max'', ''mean'']" using assms(1) by simp
  note f = stat_names [unfolded list_all_iff, rule_format, OF this]
  have "route_sample ?name None [] v (sc, h) = (sc, in_family E2E [] (fam_stats_update (put stat v)) h)" for v
    unfolding route_sample_def Let_def using f latency_names(2) by (simp only: prod.case if_False option.case if_True)
  moreover have "token (fmt_fixed 6 x)" "Supervisor.py_float (fmt_fixed 6 x) = Some (py_round 6 x)"
    using fixed_float [OF assms(2), of 5] by (simp_all add: eval_nat_numeral)
  ultimately show ?thesis
    using parse_line_plain [of ?name "fmt_fixed 6 x" "''vllm:''" "py_round 6 x" "(sc, h)"] f by simp
qed

text \<open>What the collector should see: the gauges and counters as they are, the latencies to six places.\<close>

definition counter_readings :: "stats \<Rightarrow> readings" where
  "counter_readings st =
     [(''vllm:num_requests_running'', real (st_num_running st)),
      (''vllm:prompt_tokens_total'', real (st_prompt_tokens_total st)),
      (''vllm:generation_tokens_total'', real (st_generation_tokens_total st))]
     @ map (\<lambda>r. (''vllm:request_success_total_'' @ r, real (default_to 0 (map_of (st_success st) r)))) FINISH_REASONS"

definition latency_readings :: "stats \<Rightarrow> readings" where
  "latency_readings st =
     (E2E @ ''_count'', real (st_latency_count st))
     # (if 0 < st_latency_count st
        then [(E2E @ ''_min'', py_round 6 (st_latency_min st)), (E2E @ ''_max'', py_round 6 (st_latency_max st)),
              (E2E @ ''_mean'', py_round 6 (st_latency_mean st))]
        else [])"

definition unbroken :: "string \<Rightarrow> bool" where
  "unbroken l = list_all (\<lambda>c. \<not> py_is_linebreak c) l"

lemma unbroken_simps [simp]:
  "unbroken []" "unbroken (x @ y) \<longleftrightarrow> unbroken x \<and> unbroken y" "unbroken (c # x) \<longleftrightarrow> \<not> py_is_linebreak c \<and> unbroken x"
  by (simp_all add: unbroken_def)

lemma unbroken_numerals [simp]: "unbroken (nat_str n)" "0 \<le> x \<Longrightarrow> unbroken (fmt_fixed 6 x)"
  using token_no_break [OF nat_float(1)] token_no_break [OF fixed_float(1) [of x 5]]
  by (auto simp: unbroken_def list_all_iff eval_nat_numeral)

definition sane_latency :: "stats \<Rightarrow> bool" where
  "sane_latency st \<longleftrightarrow> 0 \<le> st_latency_min st \<and> 0 \<le> st_latency_max st \<and> 0 \<le> st_latency_mean st"

lemma page_lines: "sane_latency st \<Longrightarrow> list_all unbroken (stats_lines st)"
  by (simp add: stats_lines_def success_line_def E2E_def FINISH_REASONS_def sane_latency_def py_is_linebreak_def)

lemma page_split: "sane_latency st \<Longrightarrow> py_splitlines (render st) = stats_lines st"
  using page_lines [of st] splitlines_joined [of "stats_lines st"]
  by (simp add: render_def stats_lines_def unbroken_def list_all_iff)

lemma counters_read:
  "fold (parse_line ''vllm:'') (take 8 (stats_lines st)) ([], []) = (counter_readings st, [])"
proof -
  have reasons: "set FINISH_REASONS = {''abort'', ''error'', ''length'', ''repetition'', ''stop''}" by (simp add: FINISH_REASONS_def)
  have lines: "take 8 (stats_lines st) =
     [''vllm:num_requests_running'' @ CHR '' '' # nat_str (st_num_running st),
      ''vllm:prompt_tokens_total'' @ CHR '' '' # nat_str (st_prompt_tokens_total st),
      ''vllm:generation_tokens_total'' @ CHR '' '' # nat_str (st_generation_tokens_total st),
      success_line st ''abort'', success_line st ''error'', success_line st ''length'', success_line st ''repetition'',
      success_line st ''stop'']"
    by (simp add: stats_lines_def FINISH_REASONS_def)
  show ?thesis
    unfolding lines fold_simps comp_apply id_apply
      gauge_read [OF gauge_names(1)] gauge_read [OF gauge_names(2)] gauge_read [OF gauge_names(3)]
    by (simp add: success_read reasons put_def counter_readings_def FINISH_REASONS_def)
qed

lemma latency_read:
  assumes "sane_latency st"
  shows "\<exists>fam. fold (parse_line ''vllm:'') (drop 8 (stats_lines st)) (sc, []) = (sc, [((E2E, []), fam)])
    \<and> fam_buckets fam = [] \<and> fam_count fam = real (st_latency_count st)
    \<and> fam_stats fam = (if 0 < st_latency_count st
        then [(''min'', py_round 6 (st_latency_min st)), (''max'', py_round 6 (st_latency_max st)), (''mean'', py_round 6 (st_latency_mean st))]
        else [])"
proof -
  have lines: "drop 8 (stats_lines st) =
     (E2E @ ''_count '' @ nat_str (st_latency_count st)) #
     (if 0 < st_latency_count st
      then [E2E @ ''_'' @ ''min'' @ '' '' @ fmt_fixed 6 (st_latency_min st), E2E @ ''_'' @ ''max'' @ '' '' @ fmt_fixed 6 (st_latency_max st),
            E2E @ ''_'' @ ''mean'' @ '' '' @ fmt_fixed 6 (st_latency_mean st)]
      else [])"
    by (simp add: stats_lines_def FINISH_REASONS_def)
  have nn: "0 \<le> st_latency_min st" "0 \<le> st_latency_max st" "0 \<le> st_latency_mean st" using assms by (simp_all add: sane_latency_def)
  have names: "''min'' \<in> {''min'', ''max'', ''mean''}" "''max'' \<in> {''min'', ''max'', ''mean''}" "''mean'' \<in> {''min'', ''max'', ''mean''}"
    by simp_all
  show ?thesis
    unfolding lines fold_simps comp_apply id_apply count_read if_distrib [of "\<lambda>ls. fold (parse_line ''vllm:'') ls _"]
      stat_read [OF names(1) nn(1)] stat_read [OF names(2) nn(2)] stat_read [OF names(3) nn(3)]
    by (simp add: in_family_def put_def no_family_def)
qed

text \<open>C32: nothing is lost between the server's metrics page and the worker's collector: from \<open>GET /metrics\<close> the
  collector reads exactly the running gauge, the token counters, the count of every finish reason, and the number
  of requests with the latencies' minimum, maximum and mean rounded to six places (none before the first).\<close>

theorem hf_metrics_roundtrip:
  assumes "sane_latency st"
  shows "collect_vllm_metrics (Some (u # us)) (Some (200, render st)) = counter_readings st @ latency_readings st"
proof -
  from latency_read [OF assms, of "counter_readings st"] obtain fam where
    fam: "fold (parse_line ''vllm:'') (drop 8 (stats_lines st)) (counter_readings st, []) = (counter_readings st, [((E2E, []), fam)])"
    "fam_buckets fam = []" "fam_count fam = real (st_latency_count st)"
    "fam_stats fam = (if 0 < st_latency_count st
        then [(''min'', py_round 6 (st_latency_min st)), (''max'', py_round 6 (st_latency_max st)), (''mean'', py_round 6 (st_latency_mean st))]
        else [])" by blast
  have "fold (parse_line ''vllm:'') (stats_lines st) ([], []) = (counter_readings st, [((E2E, []), fam)])"
    using fold_append [of "parse_line ''vllm:''" "take 8 (stats_lines st)" "drop 8 (stats_lines st)"] fam(1)
    by (simp add: counters_read)
  then have "parse_prometheus ''vllm:'' (render st) = family_summary ((E2E, []), fam) (counter_readings st)"
    by (simp add: parse_prometheus_def page_split [OF assms])
  then show ?thesis
    by (simp add: collect_vllm_metrics_def family_summary_def Let_def suffixed_def fam put_opt_def put_def py_round_idem
        counter_readings_def latency_readings_def FINISH_REASONS_def E2E_def)
qed

section \<open>Exact statistics over every interleaving\<close>

text \<open>The requests served so far, as an observer outside the server notes them.\<close>

type_synonym served_log = "(real \<times> nat \<times> nat) list"

definition served_by :: "hf_event \<Rightarrow> hf_state \<Rightarrow> served_log" where
  "served_by ev h =
     (case ev of
        Leave i now (Some (p, c)) \<Rightarrow> (case map_of (hs_active h) i of None \<Rightarrow> [] | Some fl \<Rightarrow> [(now - fl_started fl, p, c)])
      | _ \<Rightarrow> [])"

definition observe :: "hf_event \<Rightarrow> hf_state \<times> served_log \<Rightarrow> hf_state \<times> served_log" where
  "observe ev st = (hf_exec ev (fst st), snd st @ served_by ev (fst st))"

definition latencies :: "served_log \<Rightarrow> real list" where
  "latencies lg = map fst lg"

definition exact_stats :: "served_log \<Rightarrow> stats \<Rightarrow> bool" where
  "exact_stats lg st \<longleftrightarrow>
     st_prompt_tokens_total st = sum_list (map (\<lambda>e. fst (snd e)) lg)
     \<and> st_generation_tokens_total st = sum_list (map (\<lambda>e. snd (snd e)) lg)
     \<and> st_latency_count st = length lg
     \<and> map_of (st_success st) = [''abort'' \<mapsto> 0, ''error'' \<mapsto> 0, ''length'' \<mapsto> 0, ''repetition'' \<mapsto> 0, ''stop'' \<mapsto> length lg]
     \<and> (if lg = [] then st_latency_min st = 0 \<and> st_latency_max st = 0 \<and> st_latency_mean st = 0
        else st_latency_min st = Min (set (latencies lg)) \<and> st_latency_max st = Max (set (latencies lg))
          \<and> st_latency_mean st = sum_list (latencies lg) / real (length lg))"

definition hf_good :: "hf_state \<times> served_log \<Rightarrow> bool" where
  "hf_good st \<longleftrightarrow> exact_stats (snd st) (hs_stats (fst st)) \<and> dict_wf (hs_active (fst st))
     \<and> st_num_running (hs_stats (fst st)) = length (hs_active (fst st))"

lemma exact_running [simp]:
  "exact_stats lg (inc_running st) = exact_stats lg st" "exact_stats lg (dec_running st) = exact_stats lg st"
  by (simp_all add: exact_stats_def inc_running_def dec_running_def)

lemma success_count:
  assumes "map_of m = [''abort'' \<mapsto> 0, ''error'' \<mapsto> 0, ''length'' \<mapsto> 0, ''repetition'' \<mapsto> 0, ''stop'' \<mapsto> n]"
  shows "map_of (AList.update ''stop'' (default_to 0 (map_of m ''stop'') + 1) m)
    = [''abort'' \<mapsto> 0, ''error'' \<mapsto> 0, ''length'' \<mapsto> 0, ''repetition'' \<mapsto> 0, ''stop'' \<mapsto> Suc n]"
  by (simp add: update_conv' assms)

lemma exact_record:
  assumes "exact_stats lg st"
  shows "exact_stats (lg @ [(x, p, c)]) (record_request x p c ''stop'' st)"
proof (cases "lg = []")
  case True
  with assms success_count [of "st_success st" 0] show ?thesis
    by (simp add: exact_stats_def record_request_def Let_def latencies_def)
next
  case False
  then have fin: "finite (set (latencies lg))" "set (latencies lg) \<noteq> {}" "0 < length lg" by (simp_all add: latencies_def)
  have lat: "latencies (lg @ [(x, p, c)]) = latencies lg @ [x]" by (simp add: latencies_def)
  have mn: "Min (set (latencies lg @ [x])) = min (Min (set (latencies lg))) x"
    and mx: "Max (set (latencies lg @ [x])) = max (Max (set (latencies lg))) x"
    using fin by (simp_all add: min.commute max.commute)
  have mean: "(x + sum_list (latencies lg) / real (length lg) * real (length lg)) / real (length lg + 1)
      = sum_list (latencies lg @ [x]) / real (length (lg @ [(x, p, c)]))"
    using fin(3) by (simp add: add.commute)
  from assms False success_count [of "st_success st" "length lg"] show ?thesis
    unfolding exact_stats_def record_request_def Let_def lat mn mx
    using mean by simp
qed

lemma record_running [simp]: "st_num_running (record_request x p c r st) = st_num_running st"
  by (simp add: record_request_def Let_def)

lemma dec_running_count: "st_num_running (dec_running st) = st_num_running st - 1"
  by (simp add: dec_running_def)

lemma close_exact:
  "exact_stats lg st \<Longrightarrow> exact_stats (lg @ (case served of None \<Rightarrow> [] | Some (p, c) \<Rightarrow> [(now - fl_started fl, p, c)])) (close_stats fl now served st)"
  "st_num_running (close_stats fl now served st) = st_num_running st - 1"
  by (auto simp: close_stats_def exact_record dec_running_count split: option.split)

lemma delete_length: "dict_wf d \<Longrightarrow> map_of d k = Some v \<Longrightarrow> length (AList.delete k d) = length d - 1"
proof -
  assume wf: "dict_wf d" and "map_of d k = Some v"
  then have k: "k \<in> fst ` set d" by (auto dest: map_of_SomeD intro: rev_image_eqI)
  have "length e = card (fst ` set e)" if "dict_wf e" for e :: "('a \<times> 'b) list"
    using that distinct_card [of "map fst e"] by (simp add: dict_wf_def)
  moreover have "fst ` set (AList.delete k d) = fst ` set d - {k}" unfolding set_map [symmetric] delete_keys by simp
  ultimately show ?thesis using wf k by (simp add: dict_wf_delete card_Diff_singleton)
qed

interpretation hf: event_machine "(hf_start, [])" observe hf_good
proof
  show "hf_good (hf_start, [])"
    by (simp add: hf_good_def hf_start_def exact_stats_def new_stats_def FINISH_REASONS_def fun_eq_iff)
next
  fix st :: "hf_state \<times> served_log" and ev
  assume good: "hf_good st"
  obtain h lg where st: "st = (h, lg)" by (cases st)
  show "hf_good (observe ev st)"
  proof (cases ev)
    case (Enter i now streamed)
    with good show ?thesis
      by (auto simp: st hf_good_def observe_def served_by_def hf_exec_def dict_wf_def map_of_eq_None_iff)
        (simp_all add: inc_running_def)
  next
    case (Leave i now served)
    show ?thesis
    proof (cases "map_of (hs_active h) i")
      case None
      with good Leave show ?thesis by (simp add: st hf_good_def observe_def served_by_def hf_exec_def split: option.split)
    next
      case (Some fl)
      have log: "served_by ev h = (case served of None \<Rightarrow> [] | Some (p, c) \<Rightarrow> [(now - fl_started fl, p, c)])"
        using Some by (auto simp: Leave served_by_def split: option.split)
      from good Some close_exact(1) [where lg = lg and st = "hs_stats h" and served = served and now = now and fl = fl] show ?thesis
        by (simp add: st hf_good_def observe_def log) (simp add: Leave hf_exec_def close_exact(2) delete_length)
    qed
  qed
qed




section \<open>From the stream frames to the agent's turn\<close>

text \<open>The lines a client reads from the frames.\<close>

definition sse_lines :: "string list \<Rightarrow> string list" where
  "sse_lines frames = concat (map py_splitlines frames)"

text \<open>What \<open>json.dumps\<close> and \<open>json.loads\<close> promise for a value: no line break or outer space, and the value back.\<close>

definition json_carried :: "(json \<Rightarrow> string) \<Rightarrow> (string \<Rightarrow> string + json) \<Rightarrow> json \<Rightarrow> bool" where
  "json_carried dumps loads j \<longleftrightarrow> loads (dumps j) = Inr j \<and> unbroken (dumps j) \<and> py_strip (dumps j) = dumps j \<and> dumps j \<noteq> ''[DONE]''"

lemma splitlines_frame: "unbroken x \<Longrightarrow> py_splitlines (x @ [CHR 0x0A, CHR 0x0A]) = [x, []]"
  using splitlines_line [of x "[]" "[CHR 0x0A]"] splitlines_break [of "[]" "[]"]
  by (simp add: py_splitlines_def unbroken_def list_all_iff)

lemma sse_split: "json_carried dumps loads j \<Longrightarrow> py_splitlines (sse dumps j) = [''data: '' @ dumps j, []]"
  using splitlines_frame [of "''data: '' @ dumps j"] by (simp add: sse_def json_carried_def py_is_linebreak_def)

lemma strip_space: "py_strip (CHR '' '' # x) = py_strip x"
  by (simp add: py_strip_def py_lstrip_def py_isspace_def)

lemma stream_lines_blank: "stream_lines env c fin ([] # ls) = stream_lines env c fin ls"
  by (rule ext) simp

lemma stream_lines_frame:
  assumes "json_carried dumps (e_loads env) j"
  shows "stream_lines env c fin (sse_lines (sse dumps j # frames)) acc
    = act_bind (stream_event c j acc) (stream_lines env c fin (sse_lines frames))"
proof -
  have "py_strip (CHR '' '' # dumps j) = dumps j" using assms by (simp add: strip_space json_carried_def)
  with assms show ?thesis by (simp add: sse_lines_def sse_split [OF assms] json_carried_def py_startswith_def Let_def stream_lines_blank)
qed

lemma stream_lines_done:
  "stream_lines env c fin (sse_lines (stream_frames dumps [])) acc = ret acc"
proof -
  have "py_splitlines (''data: [DONE]'' @ [CHR 0x0A, CHR 0x0A]) = [''data: [DONE]'', []]"
    by (rule splitlines_frame) (simp add: py_is_linebreak_def)
  moreover have "py_strip '' [DONE]'' = ''[DONE]''" by code_simp
  ultimately show ?thesis by (simp add: stream_frames_def sse_lines_def py_startswith_def Let_def)
qed

lemma first_choice_chunk [simp]:
  "first_choice (chat_chunk cid created mdl delta fin)
   = Inr (JObj [(''index'', JInt 0), (''delta'', JObj delta), (''finish_reason'', fin)])"
  by (simp add: first_choice_def chat_chunk_def get_item_def get_default_def json_or_def index0_def)

lemmas event_eval = stream_event_def get_item_def get_default_def json_or_def Let_def act_then_def act_bind_def modify_def ret_def
  lift_res_def py_iter_def as_str_def answer_eval

definition spoken :: "chat \<Rightarrow> string \<Rightarrow> turn_state \<Rightarrow> turn_state \<Rightarrow> bool" where
  "spoken c x s t \<longleftrightarrow> t_text t = t_text s @ (if buffer_output c then [] else x) \<and> t_reasoning t = t_reasoning s"

lemma spoken_trans: "spoken c x s t \<Longrightarrow> spoken c y t u \<Longrightarrow> spoken c (x @ y) s u"
  by (auto simp: spoken_def)

lemma event_role:
  "\<exists>t. stream_event c (chat_chunk cid created mdl [(''role'', JStr ''assistant'')] JNull) acc s = (Inr acc, t) \<and> spoken c [] s t"
  by (simp add: event_eval spoken_def)

lemma event_finish:
  "\<exists>t. stream_event c (chat_chunk cid created mdl [] (JStr ''stop'')) acc s = (Inr (acc\<lparr>sa_finish := JStr ''stop''\<rparr>), t) \<and> spoken c [] s t"
  by (simp add: event_eval spoken_def)

lemma event_usage:
  "\<exists>t. stream_event c (JObj [(''id'', a), (''object'', b), (''created'', d), (''model'', e), (''choices'', JList []), (''usage'', u)]) acc s
      = (Inr acc, t) \<and> spoken c [] s t"
  by (simp add: event_eval first_choice_def index0_def spoken_def)

lemma event_piece:
  "\<exists>t. stream_event c (chat_chunk cid created mdl [(''content'', JStr p)] JNull) acc s
     = (Inr (acc\<lparr>sa_content := sa_content acc @ (if p = [] then [] else [JStr p])\<rparr>), t) \<and> spoken c p s t"
  by (simp add: event_eval spoken_def)

lemma lines_step:
  assumes "json_carried dumps (e_loads env) j" "stream_event c j acc s = (Inr acc', t)"
  shows "stream_lines env c fin (sse_lines (sse dumps j # frames)) acc s = stream_lines env c fin (sse_lines frames) acc' t"
  by (simp add: stream_lines_frame [OF assms(1)] act_bind_def assms(2))

lemma lines_pieces:
  "\<forall>j \<in> set (map (piece_chunk True cid created mdl) pieces). json_carried dumps (e_loads env) j \<Longrightarrow>
   \<exists>t. stream_lines env c fin (sse_lines (map (sse dumps) (map (piece_chunk True cid created mdl) pieces) @ frames)) acc s
     = stream_lines env c fin (sse_lines frames) (acc\<lparr>sa_content := sa_content acc @ map JStr (filter (\<lambda>p. p \<noteq> []) pieces)\<rparr>) t
     \<and> spoken c (concat pieces) s t"
proof (induction pieces arbitrary: acc s)
  case Nil
  show ?case by (rule exI [of _ s]) (simp add: spoken_def)
next
  case (Cons p pieces)
  let ?j = "chat_chunk cid created mdl [(''content'', JStr p)] JNull"
  let ?acc = "acc\<lparr>sa_content := sa_content acc @ (if p = [] then [] else [JStr p])\<rparr>"
  obtain t where t: "stream_event c ?j acc s = (Inr ?acc, t)" "spoken c p s t" using event_piece by blast
  have j: "json_carried dumps (e_loads env) ?j" using Cons.prems by (simp add: piece_chunk_def)
  obtain u where u: "stream_lines env c fin (sse_lines (map (sse dumps) (map (piece_chunk True cid created mdl) pieces) @ frames)) ?acc t
      = stream_lines env c fin (sse_lines frames) (?acc\<lparr>sa_content := sa_content ?acc @ map JStr (filter (\<lambda>p. p \<noteq> []) pieces)\<rparr>) u"
    "spoken c (concat pieces) t u"
    using Cons.IH [of ?acc t] Cons.prems by auto
  have "stream_lines env c fin (sse_lines (map (sse dumps) (map (piece_chunk True cid created mdl) (p # pieces)) @ frames)) acc s
      = stream_lines env c fin (sse_lines frames) (?acc\<lparr>sa_content := sa_content ?acc @ map JStr (filter (\<lambda>p. p \<noteq> []) pieces)\<rparr>) u"
    using lines_step [OF j t(1), of fin "map (sse dumps) (map (piece_chunk True cid created mdl) pieces) @ frames"] u(1)
    by (simp add: piece_chunk_def)
  moreover have "?acc\<lparr>sa_content := sa_content ?acc @ map JStr (filter (\<lambda>p. p \<noteq> []) pieces)\<rparr>
      = acc\<lparr>sa_content := sa_content acc @ map JStr (filter (\<lambda>p. p \<noteq> []) (p # pieces))\<rparr>" by simp
  ultimately show ?case using spoken_trans [OF t(2) u(2)] by auto
qed

lemma lines_tail:
  assumes "tail = [] \<or> (\<exists>a b d e u. tail = [JObj [(''id'', a), (''object'', b), (''created'', d), (''model'', e), (''choices'', JList []), (''usage'', u)]])"
    and "\<forall>j \<in> set tail. json_carried dumps (e_loads env) j"
  shows "\<exists>t. stream_lines env c fin (sse_lines (stream_frames dumps tail)) acc s = (Inr acc, t) \<and> spoken c [] s t"
proof (cases tail)
  case Nil
  then show ?thesis by (simp add: stream_lines_done ret_def spoken_def)
next
  case (Cons j js)
  with assms(1) obtain a b d e u
    where j: "j = JObj [(''id'', a), (''object'', b), (''created'', d), (''model'', e), (''choices'', JList []), (''usage'', u)]" "js = []" by auto
  have cj: "json_carried dumps (e_loads env) j" using assms(2) Cons by simp
  obtain t where t: "stream_event c j acc s = (Inr acc, t)" "spoken c [] s t"
    using event_usage [of c a b d e u acc s] unfolding j(1) by blast
  have "stream_frames dumps tail = sse dumps j # stream_frames dumps []" by (simp add: Cons j(2) stream_frames_def)
  with lines_step [OF cj t(1), of fin "stream_frames dumps []"] t(2) show ?thesis
    by (simp add: stream_lines_done ret_def)
qed

lemma lines_whole:
  assumes "\<forall>j \<in> set (stream_chunks True usage cid created mdl n pieces k). json_carried dumps (e_loads env) j"
  shows "\<exists>t. stream_lines env c fin (sse_lines (stream_frames dumps (stream_chunks True usage cid created mdl n pieces k)))
      \<lparr>sa_content = [], sa_reasoning = [], sa_calls = [], sa_finish = JNull\<rparr> s
    = (Inr \<lparr>sa_content = map JStr (filter (\<lambda>p. p \<noteq> []) pieces), sa_reasoning = [], sa_calls = [], sa_finish = JStr ''stop''\<rparr>, t)
    \<and> spoken c (concat pieces) s t"
proof -
  define tail where "tail = (if usage
      then [JObj [(''id'', JStr cid), (''object'', JStr ''chat.completion.chunk''), (''created'', JInt created), (''model'', mdl),
                  (''choices'', JList []), (''usage'', usage_json n k)]] else [])"
  let ?role = "chat_chunk cid created mdl [(''role'', JStr ''assistant'')] JNull"
  let ?stop = "chat_chunk cid created mdl [] (JStr ''stop'')"
  let ?new = "\<lparr>sa_content = [], sa_reasoning = [], sa_calls = [], sa_finish = JNull\<rparr>"
  let ?heard = "?new\<lparr>sa_content := map JStr (filter (\<lambda>p. p \<noteq> []) pieces)\<rparr>"
  have chunks: "stream_chunks True usage cid created mdl n pieces k
      = ?role # map (piece_chunk True cid created mdl) pieces @ ?stop # tail"
    by (simp add: stream_chunks_def tail_def)
  have frames: "stream_frames dumps (?role # map (piece_chunk True cid created mdl) pieces @ ?stop # tail)
      = sse dumps ?role # map (sse dumps) (map (piece_chunk True cid created mdl) pieces) @ sse dumps ?stop # stream_frames dumps tail"
    by (simp add: stream_frames_def)
  obtain t1 where t1: "stream_event c ?role ?new s = (Inr ?new, t1)" "spoken c [] s t1" using event_role by blast
  from lines_pieces [of cid created mdl pieces dumps env c fin "sse dumps ?stop # stream_frames dumps tail" ?new t1]
  obtain t2 where t2: "stream_lines env c fin (sse_lines (map (sse dumps) (map (piece_chunk True cid created mdl) pieces) @ sse dumps ?stop # stream_frames dumps tail)) ?new t1
      = stream_lines env c fin (sse_lines (sse dumps ?stop # stream_frames dumps tail)) ?heard t2" "spoken c (concat pieces) t1 t2"
    using assms unfolding chunks by auto
  obtain t3 where t3: "stream_event c ?stop ?heard t2 = (Inr (?heard\<lparr>sa_finish := JStr ''stop''\<rparr>), t3)" "spoken c [] t2 t3"
    using event_finish by blast
  have "tail = [] \<or> (\<exists>a b d e u. tail = [JObj [(''id'', a), (''object'', b), (''created'', d), (''model'', e), (''choices'', JList []), (''usage'', u)]])"
    and "\<forall>j \<in> set tail. json_carried dumps (e_loads env) j" using assms unfolding chunks by (simp add: tail_def, simp)
  from lines_tail [OF this, of c fin "?heard\<lparr>sa_finish := JStr ''stop''\<rparr>" t3]
  obtain t4 where t4: "stream_lines env c fin (sse_lines (stream_frames dumps tail)) (?heard\<lparr>sa_finish := JStr ''stop''\<rparr>) t3
      = (Inr (?heard\<lparr>sa_finish := JStr ''stop''\<rparr>), t4)" "spoken c [] t3 t4" by blast
  have role: "json_carried dumps (e_loads env) ?role" and stop: "json_carried dumps (e_loads env) ?stop" using assms unfolding chunks by auto
  have "stream_lines env c fin (sse_lines (stream_frames dumps (stream_chunks True usage cid created mdl n pieces k))) ?new s
      = (Inr (?heard\<lparr>sa_finish := JStr ''stop''\<rparr>), t4)"
    unfolding chunks frames lines_step [OF role t1(1)] t2(1) lines_step [OF stop t3(1)] by (rule t4(1))
  moreover have "spoken c (concat pieces) s t4"
    using t1(2) t2(2) t3(2) t4(2) by (auto simp: spoken_def)
  ultimately show ?thesis by auto
qed

lemma join_JStr: "join_strs (map JStr xs) = Inr (concat xs)"
  by (induction xs) (simp_all add: as_str_def)

lemma concat_nonempty: "concat (filter (\<lambda>p. p \<noteq> []) xs) = concat xs"
  by (induction xs) auto

text \<open>The round-trip outcome an agent should get for a text.\<close>

definition said :: "string \<Rightarrow> round_outcome" where
  "said x = Completed [(''role'', JStr ''assistant''), (''content'', JStr x)] (JStr ''stop'') (JStr x)"

lemma stream_turn_hears:
  assumes "\<forall>j \<in> set (stream_chunks True usage cid created mdl n pieces k). json_carried dumps (e_loads env) j"
    and "\<forall>i body read. e_stream env i body read
        = Streamed 200 (sse_lines (stream_frames dumps (stream_chunks True usage cid created mdl n pieces k))) fin"
    and "concat pieces \<noteq> []"
  shows "\<exists>t. stream_turn env c s = (Inr (said (concat pieces)), t) \<and> spoken c (concat pieces) s t"
proof -
  obtain i body read s1 where post: "post env c True s = (Inr (i, body, read), s1)" "t_text s1 = t_text s" "t_reasoning s1 = t_reasoning s"
    by (auto simp: post_eval Let_def)
  from lines_whole [OF assms(1), of c fin s1] obtain t where
    t: "stream_lines env c fin (sse_lines (stream_frames dumps (stream_chunks True usage cid created mdl n pieces k)))
      \<lparr>sa_content = [], sa_reasoning = [], sa_calls = [], sa_finish = JNull\<rparr> s1
    = (Inr \<lparr>sa_content = map JStr (filter (\<lambda>p. p \<noteq> []) pieces), sa_reasoning = [], sa_calls = [], sa_finish = JStr ''stop''\<rparr>, t)"
    "spoken c (concat pieces) s1 t" by blast
  have "stream_turn env c s = (Inr (said (concat pieces)), t)"
    using assms(3) by (simp add: stream_turn_def post_stream_def act_bind_def act_then_def post(1) assms(2) raise_for_status_def ret_def t(1)
        join_JStr concat_nonempty note_reasoning_def sorted_slots_def json_or_def said_def)
  with t(2) post(2,3) show ?thesis by (auto simp: spoken_def)
qed

lemma plain_turn_hears:
  assumes "\<forall>i body read. e_reply env i body read = Answered 200 (Some (chat_payload hex created x mdl p k))" "x \<noteq> []"
  shows "\<exists>t. plain_turn env c s = (Inr (said x), t) \<and> spoken c x s t"
proof -
  obtain i body read s1 where post: "post env c False s = (Inr (i, body, read), s1)" "t_text s1 = t_text s" "t_reasoning s1 = t_reasoning s"
    by (auto simp: post_eval Let_def)
  show ?thesis
    using assms post(2,3)
    by (simp add: plain_turn_def post_json_def act_bind_def act_then_def post(1) raise_for_status_def ret_def modify_def
        first_choice_def chat_payload_def get_item_def get_default_def json_or_def index0_def Let_def note_reasoning_def as_str_def
        answer_eval said_def spoken_def)
qed

text \<open>C30: from the model to the agent. When the data plane relays what the server sends and JSON text is read back as
  written, an agent's round-trip gives the generated text with finish reason \<open>stop\<close>, answered as it comes unless it is
  buffered for the output guards; a streamed answer in any pieces and a whole answer of the same text give the
  same outcome.\<close>

theorem hf_answer_reaches_chat:
  assumes frames: "serve_stream dumps count_tokens True usage hex created mdl (Inr (n, pieces)) None latency st = (frames, st')"
    and stream: "\<forall>i body read. e_stream env i body read = Streamed 200 (sse_lines frames) fin"
    and json: "\<forall>j \<in> set (stream_chunks True usage (''chatcmpl-hf-'' @ hex) created mdl n pieces (count_tokens (concat pieces))).
        json_carried dumps (e_loads env) j"
    and whole: "serve_whole True hex' created' mdl' (Inr (concat pieces, p, k)) latency' st = (Inr body, st'')"
    and reply: "\<forall>i sent read. e_reply env i sent read = Answered 200 (Some body)"
    and nonempty: "concat pieces \<noteq> []"
  shows "(\<exists>t. stream_turn env c s = (Inr (said (concat pieces)), t) \<and> spoken c (concat pieces) s t)
    \<and> (\<exists>t. plain_turn env c s = (Inr (said (concat pieces)), t) \<and> spoken c (concat pieces) s t)"
proof
  have "frames = stream_frames dumps (stream_chunks True usage (''chatcmpl-hf-'' @ hex) created mdl n pieces (count_tokens (concat pieces)))"
    using frames by (simp add: serve_stream_def Let_def)
  with stream_turn_hears [OF json _ nonempty, of fin c s] stream
  show "\<exists>t. stream_turn env c s = (Inr (said (concat pieces)), t) \<and> spoken c (concat pieces) s t" by simp
  have "body = chat_payload hex' created' (concat pieces) mdl' p k" using whole by (simp add: serve_whole_def)
  with plain_turn_hears [of env hex' created' "concat pieces" mdl' p k c s] reply nonempty
  show "\<exists>t. plain_turn env c s = (Inr (said (concat pieces)), t) \<and> spoken c (concat pieces) s t" by simp
qed

definition hi_chunks :: "json list" where
  "hi_chunks = stream_chunks True True ''chatcmpl-hf-1'' 7 (JStr ''m'') 3 [''h'', [], ''i''] 2"

definition nth_dumps :: "json \<Rightarrow> string" where
  "nth_dumps j = nat_str (length (takeWhile (\<lambda>x. x \<noteq> j) hi_chunks))"

definition nth_loads :: "string \<Rightarrow> string + json" where
  "nth_loads x = (case find (\<lambda>j. nth_dumps j = x) hi_chunks of Some j \<Rightarrow> Inr j | None \<Rightarrow> Inl ''not JSON'')"

definition hi_served :: "string list \<times> stats" where
  "hi_served = serve_stream nth_dumps length True True ''1'' 7 (JStr ''m'') (Inr (3, [''h'', [], ''i''])) None 2 new_stats"

definition hi_env :: env where
  "hi_env = chat_env\<lparr>e_loads := nth_loads, e_stream := (\<lambda>n b r. Streamed 200 (sse_lines (fst hi_served)) Complete),
     e_reply := (\<lambda>n b r. Answered 200 (Some (chat_payload ''2'' 8 ''hi'' (JStr ''m'') 3 2)))\<rparr>"

theorem hf_answer_reaches_chat_witness:
  "(\<exists>t. stream_turn hi_env (demo_chat None) (new_turn []) = (Inr (said ''hi''), t) \<and> t_text t = ''hi'')
   \<and> (\<exists>t. plain_turn hi_env (demo_chat None) (new_turn []) = (Inr (said ''hi''), t) \<and> t_text t = ''hi'')"
proof -
  obtain frames st' where served: "hi_served = (frames, st')" by (cases hi_served)
  have env: "\<forall>i body read. e_stream hi_env i body read = Streamed 200 (sse_lines frames) Complete"
    "\<forall>i sent read. e_reply hi_env i sent read = Answered 200 (Some (chat_payload ''2'' 8 ''hi'' (JStr ''m'') 3 2))"
    "e_loads hi_env = nth_loads"
    by (simp_all add: hi_env_def served)
  let ?pieces = "[''h'', [], ''i'']" and ?m = "JStr ''m''" and ?c = "demo_chat None" and ?s = "new_turn []"
  have "stream_chunks True True (''chatcmpl-hf-'' @ ''1'') 7 ?m 3 ?pieces (length (concat ?pieces)) = hi_chunks"
    by (simp add: hi_chunks_def eval_nat_numeral)
  moreover have "\<forall>j \<in> set hi_chunks. json_carried nth_dumps nth_loads j" by code_simp
  ultimately have json: "\<forall>j \<in> set (stream_chunks True True (''chatcmpl-hf-'' @ ''1'') 7 ?m 3 ?pieces (length (concat ?pieces))).
      json_carried nth_dumps (e_loads hi_env) j" by (simp only: env(3))
  have whole: "serve_whole True ''2'' 8 ?m (Inr (concat ?pieces, 3, 2)) 1 new_stats
      = (Inr (chat_payload ''2'' 8 ''hi'' ?m 3 2), snd (serve_whole True ''2'' 8 ?m (Inr (''hi'', 3, 2)) 1 new_stats))"
    by (simp add: serve_whole_def)
  have "\<not> buffer_output ?c" by code_simp
  with hf_answer_reaches_chat [OF served [unfolded hi_served_def] env(1) json whole env(2), of ?c ?s] show ?thesis
    by (auto simp: spoken_def new_turn_def)
qed

section \<open>The run-state probe\<close>

lemma unbroken_fixed: "unbroken (fmt_fixed d x)"
proof -
  have "list_all (\<lambda>c. \<not> py_is_linebreak c) (replicate n (CHR ''0''))" for n
    by (simp add: list_all_iff py_is_linebreak_def)
  then have "unbroken (pad_left w (nat_str n))" for w n by (simp add: pad_left_def) (simp add: unbroken_def)
  then show ?thesis by (simp add: fmt_fixed_def Let_def py_is_linebreak_def)
qed

lemma page_split_any: "py_splitlines (render st) = stats_lines st"
proof -
  have "list_all unbroken (stats_lines st)"
    by (simp add: stats_lines_def success_line_def E2E_def FINISH_REASONS_def py_is_linebreak_def unbroken_fixed)
  with splitlines_joined [of "stats_lines st"] show ?thesis
    by (simp add: render_def stats_lines_def unbroken_def list_all_iff)
qed

lemma gauge_running:
  "gauge_line [''vllm:num_requests_running'', ''vllm:num_requests_waiting''] (''vllm:num_requests_running '' @ nat_str n) = real n"
proof -
  let ?line = "''vllm:num_requests_running'' @ CHR '' '' # nat_str n"
  have "CHR '' '' \<notin> set (rev (nat_str n))" using token_chars [OF nat_float(1)] by simp
  then have "takeWhile (\<lambda>c. c \<noteq> CHR '' '') (rev (nat_str n) @ CHR '' '' # rev ''vllm:num_requests_running'') = rev (nat_str n)"
    by (subst takeWhile_append2) auto
  then have tw: "rev (takeWhile (\<lambda>c. c \<noteq> CHR '' '') (rev ?line)) = nat_str n" by simp
  have "py_strip ?line \<noteq> []"
    using py_strip_id [of ?line] token_ends [OF nat_float(1) [of n]] by (simp add: py_isspace_def)
  with tw show ?thesis
    by (simp add: gauge_line_def py_startswith_def nat_float(2))
qed

lemma gauge_other:
  "list_all (\<lambda>l. gauge_line [''vllm:num_requests_running'', ''vllm:num_requests_waiting''] l = 0) (tl (stats_lines st))"
  by (simp add: stats_lines_def success_line_def E2E_def FINISH_REASONS_def gauge_line_def py_startswith_def)

lemma sum_zero: "list_all (\<lambda>l. g l = (0::real)) ls \<Longrightarrow> fold (\<lambda>l total. total + g l) ls x = x"
  by (induction ls arbitrary: x) auto

lemma sum_first:
  "ls = l # tl ls \<Longrightarrow> list_all (\<lambda>x. g x = (0::real)) (tl ls) \<Longrightarrow> fold (\<lambda>x total. total + g x) ls 0 = g l"
  by (cases ls) (simp_all add: sum_zero)

text \<open>the worker's probe sees exactly the server's requests: after any interleaving of requests, the run state
  read from the metrics page is \<open>EXECUTING\<close> if and only if a request is in flight, so a drain waits for the
  streams still open and for nothing else.\<close>

lemma hf_probe_exact:
  assumes "fold observe es (hf_start, []) = (h, lg)"
  shows "server_run_state (Some (200, render (hs_stats h))) = EXECUTING \<longleftrightarrow> hs_active h \<noteq> []"
proof -
  let ?st = "hs_stats h"
  have "hf_good (h, lg)" using hf.good_run [OF hf.good_start, of es] assms by simp
  then have n: "st_num_running ?st = length (hs_active h)" by (simp add: hf_good_def)
  have "stats_lines ?st = (''vllm:num_requests_running '' @ nat_str (st_num_running ?st)) # tl (stats_lines ?st)"
    by (simp add: stats_lines_def)
  from sum_first [OF this gauge_other]
  have "sum_gauges (render ?st) [''vllm:num_requests_running'', ''vllm:num_requests_waiting''] = real (st_num_running ?st)"
    unfolding sum_gauges_def page_split_any gauge_running .
  then show ?thesis using n by (simp add: server_run_state_def)
qed

lemma hf_probe_exact_witness:
  "\<exists>h lg. fold observe [Enter 1 0 True] (hf_start, []) = (h, lg) \<and> server_run_state (Some (200, render (hs_stats h))) = EXECUTING"
proof -
  obtain h lg where run: "fold observe [Enter 1 0 True] (hf_start, []) = (h, lg)" by (cases "fold observe [Enter 1 0 True] (hf_start, [])")
  then have "hs_active h \<noteq> []" by (auto simp: observe_def hf_exec_def hf_start_def)
  with hf_probe_exact [OF run] run show ?thesis by blast
qed

theorem hf_metrics_roundtrip_witness:
  "collect_vllm_metrics (Some ''http://w'') (Some (200, render (record_request 2 3 4 ''stop'' new_stats)))
   = counter_readings (record_request 2 3 4 ''stop'' new_stats) @ latency_readings (record_request 2 3 4 ''stop'' new_stats)"
  using hf_metrics_roundtrip [of "record_request 2 3 4 ''stop'' new_stats" "CHR ''h''" "''ttp://w''"]
  by (simp add: sane_latency_def record_request_def new_stats_def)

text \<open>The handlers are the machine's steps: a request answered in one piece or streamed changes the statistics as
  its \<open>Enter\<close> and \<open>Leave\<close> do.\<close>

lemma serve_whole_steps:
  "map_of (hs_active h) i = None \<Longrightarrow>
   snd (serve_whole is_chat hex created mdl generated (t1 - t0) (hs_stats h))
   = hs_stats (fold hf_exec [Enter i t0 False, Leave i t1 (case generated of Inl _ \<Rightarrow> None | Inr (_, p, c) \<Rightarrow> Some (p, c))] h)"
  by (auto simp: serve_whole_def hf_exec_def close_stats_def Let_def split: sum.split)

lemma serve_stream_steps:
  "map_of (hs_active h) i = None \<Longrightarrow>
   snd (serve_stream dumps count is_chat usage hex created mdl started left_after (t1 - t0) (hs_stats h))
   = hs_stats (fold hf_exec [Enter i t0 True, Leave i t1
       (case (started, left_after) of (Inr (n, pieces), None) \<Rightarrow> Some (n, count (concat pieces)) | _ \<Rightarrow> None)] h)"
  by (auto simp: serve_stream_def hf_exec_def close_stats_def Let_def split: sum.split option.split)

end
