(* ===== verification/Dashboard.thy ===== *)
theory Dashboard
  imports MetricStore Telemetry Numerals "HOL-Library.Product_Lexorder"
begin

text \<open>
  The reporting plane: the mirror that pulls recent metrics from the control plane
  (\<open>src/src/oumigo/service/manager/dashboard/source.py\<close>) and the GPU sheet made of it (\<open>aggregate.py\<close>).
  What the two requests of a refresh answer is an argument. Stamps are read from the year 1970 on.
\<close>

section \<open>Reading a timestamp back\<close>

text \<open>\<open>datetime.strptime(s, "%Y-%m-%d %H:%M:%S")\<close> as seconds since the epoch; \<open>None\<close> is its \<open>ValueError\<close>.\<close>

definition year_days :: "nat \<Rightarrow> nat" where
  "year_days y = (if leap y then 366 else 365)"

definition days_of :: "nat \<times> nat \<times> nat \<Rightarrow> nat" where
  "days_of ymd = (case ymd of (y, m, d) \<Rightarrow>
     sum_list (map year_days [1970..<y]) + sum_list (map (month_days y) [1..<m]) + (d - 1))"

text \<open>A field of \<open>lo\<close> to \<open>hi\<close> digits: its value and the rest.\<close>

definition field :: "nat \<Rightarrow> nat \<Rightarrow> string \<Rightarrow> (nat \<times> string) option" where
  "field lo hi s =
     (let ds = takeWhile id_digit s in
      if lo \<le> length ds \<and> length ds \<le> hi then Some (numeral_value 0 ds, dropWhile id_digit s) else None)"

definition expect :: "char \<Rightarrow> nat \<times> string \<Rightarrow> (nat \<times> string) option" where
  "expect c r = (case snd r of [] \<Rightarrow> None | x # xs \<Rightarrow> if x = c then Some (fst r, xs) else None)"

text \<open>\<open>%d\<close> also takes a space and one digit.\<close>

definition day_field :: "string \<Rightarrow> (nat \<times> string) option" where
  "day_field s = (case s of c # cs \<Rightarrow> if c = CHR '' '' then field 1 1 cs else field 1 2 s | [] \<Rightarrow> None)"

definition strptime :: "string \<Rightarrow> nat option" where
  "strptime s =
     Option.bind (Option.bind (field 4 4 s) (expect (CHR ''-''))) (\<lambda>(y, s1).
     Option.bind (Option.bind (field 1 2 s1) (expect (CHR ''-''))) (\<lambda>(m, s2).
     Option.bind (day_field s2) (\<lambda>(d, s3).
     if s3 = [] \<or> \<not> py_isspace (hd s3) then None
     else
     Option.bind (Option.bind (field 1 2 (py_lstrip s3)) (expect (CHR '':''))) (\<lambda>(h, s4).
     Option.bind (Option.bind (field 1 2 s4) (expect (CHR '':''))) (\<lambda>(mi, s5).
     Option.bind (field 1 2 s5) (\<lambda>(sec, s6).
     if s6 = [] \<and> 1970 \<le> y \<and> 1 \<le> m \<and> m \<le> 12 \<and> 1 \<le> d \<and> d \<le> month_days y m \<and> h \<le> 23 \<and> mi \<le> 59 \<and> sec \<le> 59
     then Some (days_of (y, m, d) * 86400 + h * 3600 + mi * 60 + sec) else None))))))"

section \<open>The mirror\<close>

text \<open>A worker as \<open>/workers\<close> lists it.\<close>

record worker_entry =
  we_node_id :: "string option"
  we_seq :: nat
  we_name :: "string option"

record node_label =
  nl_seq :: nat
  nl_name :: string

record mirror =
  mi_prefixes :: "string list"
  mi_retention :: real
  mi_overlap :: nat
  mi_rows :: "(fact_key \<times> real) list"
  mi_max_ts :: string
  mi_node_info :: "(string \<times> node_label) list"
  mi_last_ok :: "real option"
  mi_last_error :: "string option"

definition new_mirror :: mirror where
  "new_mirror = \<lparr>mi_prefixes = [''worker:'', ''gpu:''], mi_retention = 90 * 60, mi_overlap = 60, mi_rows = [], mi_max_ts = [],
     mi_node_info = [], mi_last_ok = None, mi_last_error = None\<rparr>"

definition after_bound :: "real \<Rightarrow> mirror \<Rightarrow> string res" where
  "after_bound now m =
     (if mi_max_ts m = [] then Inr (stamp_at (now - mi_retention m))
      else case strptime (mi_max_ts m) of
          None \<Rightarrow> Inl (ValueErr (mi_max_ts m))
        | Some seen \<Rightarrow> Inr (stamp (seen - mi_overlap m)))"

definition take_point :: "fact_key \<times> real \<Rightarrow> mirror \<Rightarrow> mirror" where
  "take_point p m =
     m\<lparr>mi_rows := AList.update (fst p) (snd p) (mi_rows m),
       mi_max_ts := (if mi_max_ts m < fact_ts p then fact_ts p else mi_max_ts m)\<rparr>"

definition prune :: "real \<Rightarrow> mirror \<Rightarrow> mirror" where
  "prune now m = m\<lparr>mi_rows := filter (\<lambda>r. \<not> fact_ts r < stamp_at (now - mi_retention m)) (mi_rows m)\<rparr>"

definition label_worker :: "worker_entry \<Rightarrow> (string \<times> node_label) option" where
  "label_worker w =
     map_option (\<lambda>i. (i, \<lparr>nl_seq = we_seq w, nl_name = default_to [] (str_or (we_name w) (Some (take 8 i)))\<rparr>)) (we_node_id w)"

definition refresh_names :: "worker_entry list option \<Rightarrow> mirror \<Rightarrow> mirror" where
  "refresh_names workers m =
     (case workers of
        None \<Rightarrow> m
      | Some ws \<Rightarrow> m\<lparr>mi_node_info := fold (\<lambda>(i, l). AList.update i l) (List.map_filter label_worker ws) []\<rparr>)"

text \<open>A pull: the points, or the text of the error.\<close>

definition refresh :: "real \<Rightarrow> (string \<Rightarrow> string + (fact_key \<times> real) list) \<Rightarrow> worker_entry list option \<Rightarrow> mirror \<Rightarrow> mirror res" where
  "refresh now pull workers m =
     res_map (\<lambda>after.
        case pull after of
          Inl e \<Rightarrow> m\<lparr>mi_last_error := Some e\<rparr>
        | Inr points \<Rightarrow>
            (refresh_names workers (prune now (fold take_point points m)))\<lparr>mi_last_ok := Some now, mi_last_error := None\<rparr>)
       (after_bound now m)"

section \<open>The GPU sheet\<close>

definition MA_WINDOW :: nat where "MA_WINDOW = 6"
definition MA_MIN_SAMPLES :: nat where "MA_MIN_SAMPLES = 4"
definition UNNAMED_SEQ :: nat where "UNNAMED_SEQ = 10 ^ 9"

definition trailing_moving_average :: "real option list \<Rightarrow> real option list" where
  "trailing_moving_average data =
     map (\<lambda>i. let present = List.map_filter id (take (i + 1 - (i + 1 - MA_WINDOW)) (drop (i + 1 - MA_WINDOW) data)) in
            if MA_MIN_SAMPLES \<le> length present then Some (py_round 2 (sum_list present / real (length present))) else None)
       [0..<length data]"

text \<open>\<open>_GPU_UTIL_RE\<close>; its \<open>$\<close> also matches before a final line feed.\<close>

definition gpu_util_metric :: "string \<Rightarrow> bool" where
  "gpu_util_metric metric =
     (let m = (if metric \<noteq> [] \<and> last metric = CHR 0x0A then butlast metric else metric) in
      py_startswith m ''gpu:#'' \<and> takeWhile id_digit (drop 5 m) \<noteq> [] \<and> dropWhile id_digit (drop 5 m) = ''_util_pct'')"

definition add_value :: "fact_key \<times> real \<Rightarrow> ((string \<times> string) \<times> real list) list \<Rightarrow> ((string \<times> string) \<times> real list) list" where
  "add_value r slot =
     (if \<not> gpu_util_metric (fact_metric r) then slot
      else AList.update (fact_node r, fact_ts r) (default_to [] (map_of slot (fact_node r, fact_ts r)) @ [snd r]) slot)"

definition spread :: "(string \<times> string) \<times> real list \<Rightarrow> (string \<times> (string \<times> real) list) list \<Rightarrow> (string \<times> (string \<times> real) list) list" where
  "spread entry per_node =
     (case entry of ((nid, ts), vals) \<Rightarrow>
        AList.update nid (AList.update ts (sum_list vals / real (length vals)) (default_to [] (map_of per_node nid))) per_node)"

definition per_node_points :: "(fact_key \<times> real) list \<Rightarrow> (string \<times> (string \<times> real) list) list" where
  "per_node_points rows = fold spread (fold add_value rows []) []"

definition slot_times :: "real \<Rightarrow> nat \<Rightarrow> nat \<Rightarrow> nat list" where
  "slot_times now window_s grid_s =
     (let end_epoch = nat (\<lfloor>now / real grid_s\<rfloor> * int grid_s); count = window_s div grid_s in
      map (\<lambda>i. end_epoch - grid_s * (count - 1 - i)) [0..<count])"

definition node_order :: "(string \<times> node_label) list \<Rightarrow> string \<Rightarrow> nat \<times> string" where
  "node_order info nid =
     (let seq = (case map_of info nid of Some l \<Rightarrow> nl_seq l | None \<Rightarrow> 0) in (if seq = 0 then UNNAMED_SEQ else seq, nid))"

record series =
  se_node_id :: string
  se_label :: string
  se_data :: "real option list"

definition node_series :: "(string \<times> node_label) list \<Rightarrow> string list \<Rightarrow> string \<times> (string \<times> real) list \<Rightarrow> series" where
  "node_series info keys entry =
     (case entry of (nid, points) \<Rightarrow>
        \<lparr>se_node_id = nid,
         se_label = (case map_of info nid of Some l \<Rightarrow> if nl_name l = [] then take 8 nid else nl_name l | None \<Rightarrow> take 8 nid),
         se_data = trailing_moving_average (map (\<lambda>k. map_option (py_round 2) (map_of points k)) keys)\<rparr>)"

record sheet =
  sh_generated_at :: string
  sh_window_s :: nat
  sh_grid_s :: nat
  sh_labels :: "string list"
  sh_series :: "series list"

definition gpu_util_series :: "(fact_key \<times> real) list \<Rightarrow> real \<Rightarrow> (string \<times> node_label) list \<Rightarrow> nat \<Rightarrow> nat \<Rightarrow> sheet" where
  "gpu_util_series rows now info window_s grid_s =
     (let times = slot_times now window_s grid_s; keys = map stamp times in
      \<lparr>sh_generated_at = stamp_at now, sh_window_s = window_s, sh_grid_s = grid_s, sh_labels = map (\<lambda>t. time_stamp (t mod 86400)) times,
       sh_series = map (node_series info keys) (sort_key (\<lambda>e. node_order info (fst e)) (per_node_points rows))\<rparr>)"

section \<open>Stamps are read back\<close>

lemma year_months: "sum_list (map (month_days y) [1..<12]) + 31 = year_days y"
  by (simp add: upt_rec month_days_def year_days_def)

lemma days_of_next:
  assumes "date_ok x" shows "days_of (next_day x) = Suc (days_of x)"
proof -
  obtain y m d where x: "x = (y, m, d)" by (cases x)
  have ok: "1970 \<le> y" "1 \<le> m" "m \<le> 12" "1 \<le> d" "d \<le> month_days y m" using assms by (simp_all add: x date_ok_def)
  consider "d < month_days y m" | "d = month_days y m" "m < 12" | "d = month_days y m" "m = 12" using ok by linarith
  then show ?thesis
  proof cases
    case 1
    with ok show ?thesis by (simp add: x days_of_def)
  next
    case 2
    have "[1..<Suc m] = [1..<m] @ [m]" using ok by simp
    with 2 ok show ?thesis by (simp add: x days_of_def)
  next
    case 3
    have "[1970..<Suc y] = [1970..<y] @ [y]" using ok by simp
    moreover have "month_days y 12 = 31" by (simp add: month_days_def)
    ultimately show ?thesis using 3 year_months [of y] by (simp add: x days_of_def)
  qed
qed

lemma days_of_civil: "days_of (civil_date n) = n"
proof (induction n)
  case 0
  show ?case by (simp add: days_of_def)
next
  case (Suc n)
  then show ?case using days_of_next [OF date_ok_civil, of n] by (simp only: civil_date.simps)
qed

lemma field_fixed_dec:
  assumes "0 < w" "n < 10 ^ w" "lo \<le> w" "w \<le> hi" "rest = [] \<or> \<not> id_digit (hd rest)"
  shows "field lo hi (fixed_dec w n @ rest) = Some (n, rest)"
proof -
  have all: "\<forall>c \<in> set (fixed_dec w n). id_digit c" using fixed_dec_digits by blast
  have "takeWhile id_digit rest = []" "dropWhile id_digit rest = rest" using assms(5) by (cases rest; simp)+
  with all have "takeWhile id_digit (fixed_dec w n @ rest) = fixed_dec w n" "dropWhile id_digit (fixed_dec w n @ rest) = rest"
    by (simp_all add: takeWhile_append2 dropWhile_append2)
  with assms fixed_dec_length [of w n] show ?thesis by (simp add: field_def numeral_value_fixed_dec)
qed

lemma separators: "\<not> id_digit (CHR ''-'')" "\<not> id_digit (CHR '':'')" "\<not> id_digit (CHR '' '')" "py_isspace (CHR '' '')"
  by (simp_all add: id_digit_def py_isspace_def)

lemma day_field_fixed: "0 < d \<Longrightarrow> d < 100 \<Longrightarrow> \<not> id_digit (hd rest) \<Longrightarrow> rest \<noteq> [] \<Longrightarrow> day_field (fixed_dec 2 d @ rest) = Some (d, rest)"
proof -
  assume d: "0 < d" "d < 100" "\<not> id_digit (hd rest)" "rest \<noteq> []"
  obtain c cs where c: "fixed_dec 2 d = c # cs" using fixed_dec_length [of 2 d] d by (cases "fixed_dec 2 d") simp_all
  then have "id_digit c" using fixed_dec_digits [of c 2 d] by simp
  then have "c \<noteq> CHR '' ''" using separators by auto
  then have "day_field (fixed_dec 2 d @ rest) = field 1 2 (fixed_dec 2 d @ rest)" by (simp add: day_field_def c)
  also have "\<dots> = Some (d, rest)" using d by (intro field_fixed_dec) auto
  finally show ?thesis .
qed

lemma lstrip_digits: "0 < w \<Longrightarrow> n < 10 ^ w \<Longrightarrow> py_lstrip (CHR '' '' # fixed_dec w n @ r) = fixed_dec w n @ r"
proof -
  assume w: "0 < w" "n < 10 ^ w"
  obtain c cs where c: "fixed_dec w n = c # cs" using fixed_dec_length [OF w] w(1) by (cases "fixed_dec w n") simp_all
  then have "id_digit c" using fixed_dec_digits [of c w n] by simp
  then have "\<not> py_isspace c" by (auto simp: id_digit_def py_isspace_def Let_def)
  then show ?thesis by (simp add: py_lstrip_def c separators)
qed

lemma strptime_stamp:
  assumes "in_range t" shows "strptime (stamp t) = Some t"
proof -
  obtain y m d where ymd: "civil_date (t div 86400) = (y, m, d)" by (cases "civil_date (t div 86400)")
  have ok: "1970 \<le> y" "1 \<le> m" "m \<le> 12" "1 \<le> d" "d \<le> month_days y m" "y < 10000"
    using date_ok_civil [of "t div 86400"] assms by (simp_all add: ymd date_ok_def in_range_def)
  have d: "d < 100" using ok(5) month_days_bounds(2) [of y m] by linarith
  define s where "s = t mod 86400"
  have s: "s div 3600 \<le> 23" "s div 60 mod 60 \<le> 59" "s mod 60 \<le> 59"
    by (simp_all add: s_def)
  have total: "days_of (y, m, d) * 86400 + (s div 3600) * 3600 + (s div 60 mod 60) * 60 + s mod 60 = t"
  proof -
    have "days_of (y, m, d) = t div 86400" using days_of_civil [of "t div 86400"] by (simp add: ymd)
    moreover have "(s div 3600) * 3600 + (s div 60 mod 60) * 60 + s mod 60 = s"
    proof -
      have "s div 3600 = s div 60 div 60" by (simp add: div_mult2_eq [symmetric])
      moreover have "s div 60 * 60 + s mod 60 = s" "s div 60 div 60 * 60 + s div 60 mod 60 = s div 60"
        by (rule div_mult_mod_eq)+
      ultimately show ?thesis by linarith
    qed
    moreover have "t div 86400 * 86400 + s = t" unfolding s_def by (rule div_mult_mod_eq)
    ultimately show ?thesis by linarith
  qed
  have st: "stamp t = fixed_dec 4 y @ CHR ''-'' # fixed_dec 2 m @ CHR ''-'' # fixed_dec 2 d @ CHR '' ''
      # fixed_dec 2 (s div 3600) @ CHR '':'' # fixed_dec 2 (s div 60 mod 60) @ CHR '':'' # fixed_dec 2 (s mod 60) @ []"
    by (simp add: stamp_def date_stamp_def time_stamp_def ymd s_def)
  show ?thesis
    unfolding st strptime_def using ok d s total
    by (simp add: field_fixed_dec day_field_fixed lstrip_digits expect_def separators del: append_Nil2)
qed

section \<open>The mirror follows the store\<close>

text \<open>The control plane's store and the mirror, driven by reports and pulls. A pull asks the store; \<open>Lost\<close> is one that
  fails.\<close>

datatype mirror_event = Report string "metric_point list" real | Pull real "worker_entry list option" | Lost real string

record reporting =
  rp_store :: metric_store
  rp_mirror :: mirror

definition pull_from :: "metric_store \<Rightarrow> mirror \<Rightarrow> string \<Rightarrow> string + (fact_key \<times> real) list" where
  "pull_from ms m after = Inr (since after (mi_prefixes m) ms)"

text \<open>An exception of \<open>refresh\<close> ends the polling task: the mirror stays as it is.\<close>

definition keep_on_raise :: "mirror \<Rightarrow> mirror res \<Rightarrow> mirror" where
  "keep_on_raise m r = (case r of Inl _ \<Rightarrow> m | Inr m' \<Rightarrow> m')"

definition reporting_exec :: "mirror_event \<Rightarrow> reporting \<Rightarrow> reporting" where
  "reporting_exec ev r =
     (case ev of
        Report nid pts now \<Rightarrow> r\<lparr>rp_store := snd (ingest nid pts now (rp_store r))\<rparr>
      | Pull now ws \<Rightarrow>
          r\<lparr>rp_mirror := keep_on_raise (rp_mirror r) (refresh now (pull_from (rp_store r) (rp_mirror r)) ws (rp_mirror r))\<rparr>
      | Lost now e \<Rightarrow> r\<lparr>rp_mirror := keep_on_raise (rp_mirror r) (refresh now (\<lambda>_. Inl e) None (rp_mirror r))\<rparr>)"

definition reporting_start :: reporting where
  "reporting_start = \<lparr>rp_store = store_init RETENTION_S, rp_mirror = new_mirror\<rparr>"

text \<open>Punctual reports: stamped with a second up to the year 9999, no more than the overlap behind the mirror's
  watermark. Pulls come in the order of time.\<close>

definition punctual :: "mirror \<Rightarrow> string \<Rightarrow> bool" where
  "punctual m ts =
     (case strptime ts of None \<Rightarrow> False
      | Some t \<Rightarrow> stamp t = ts \<and> in_range t
          \<and> (mi_max_ts m = [] \<or> (case strptime (mi_max_ts m) of None \<Rightarrow> False | Some w \<Rightarrow> w - mi_overlap m < t)))"

fun punctual_run :: "mirror_event list \<Rightarrow> reporting \<Rightarrow> bool" where
  "punctual_run [] r = True"
| "punctual_run (ev # evs) r =
     ((case ev of
         Report nid pts now \<Rightarrow> list_all (\<lambda>p. punctual (rp_mirror r) (mp_timestamp p)) pts
       | Pull now ws \<Rightarrow> in_range (nat \<lfloor>now\<rfloor>) \<and> (case mi_last_ok (rp_mirror r) of None \<Rightarrow> True | Some t \<Rightarrow> t \<le> now)
       | Lost now e \<Rightarrow> True)
      \<and> punctual_run evs (reporting_exec ev r))"

definition is_stamp :: "string \<Rightarrow> bool" where
  "is_stamp ts \<longleftrightarrow> (\<exists>t. in_range t \<and> ts = stamp t)"

text \<open>Where a fact of the store stands: mirrored, due at the next pull, or before the window of the last one.\<close>

definition due :: "mirror \<Rightarrow> string \<Rightarrow> bool" where
  "due m ts \<longleftrightarrow> mi_max_ts m = [] \<or> (\<exists>w. in_range w \<and> mi_max_ts m = stamp w \<and> stamp (w - mi_overlap m) < ts)"

definition before_window :: "mirror \<Rightarrow> string \<Rightarrow> bool" where
  "before_window m ts \<longleftrightarrow> (\<exists>t. mi_last_ok m = Some t \<and> ts \<le> stamp_at (t - mi_retention m))"

definition mirrored_metric :: "mirror \<Rightarrow> fact_key \<times> real \<Rightarrow> bool" where
  "mirrored_metric m f \<longleftrightarrow> mi_prefixes m = [] \<or> list_ex (\<lambda>p. sql_like (p @ ''%'') (fact_metric f)) (mi_prefixes m)"

definition in_step :: "reporting \<Rightarrow> bool" where
  "in_step r \<longleftrightarrow> store_ok (rp_store r) \<and> 0 \<le> mi_retention (rp_mirror r)
     \<and> (\<forall>f \<in> set (facts (rp_store r)). is_stamp (fact_ts f))
     \<and> (mi_max_ts (rp_mirror r) = [] \<or> is_stamp (mi_max_ts (rp_mirror r)))
     \<and> (\<forall>f \<in> set (facts (rp_store r)). mirrored_metric (rp_mirror r) f \<longrightarrow>
          map_of (mi_rows (rp_mirror r)) (fst f) = Some (snd f) \<or> due (rp_mirror r) (fact_ts f) \<or> before_window (rp_mirror r) (fact_ts f))"

lemma stamp_nonempty [simp]: "stamp t \<noteq> []"
  by (simp add: stamp_def)

lemma stamp_after_none [simp]: "[] < stamp t"
  using stamp_nonempty [of t] by (cases "stamp t") simp_all

lemma in_range_le: "a \<le> b \<Longrightarrow> in_range b \<Longrightarrow> in_range a"
  using civil_year_mono [of "a div 86400" "b div 86400"] div_le_mono [of a b 86400] by (simp add: in_range_def)

lemma stamp_less_iff: "in_range a \<Longrightarrow> in_range b \<Longrightarrow> stamp a < stamp b \<longleftrightarrow> a < b"
  using stamp_order by blast

lemma punctual_due:
  assumes "punctual m ts" "mi_max_ts m = [] \<or> is_stamp (mi_max_ts m)"
  shows "is_stamp ts \<and> due m ts"
proof -
  from assms(1) obtain t where t: "stamp t = ts" "in_range t"
    and fresh: "mi_max_ts m = [] \<or> (case strptime (mi_max_ts m) of None \<Rightarrow> False | Some w \<Rightarrow> w - mi_overlap m < t)"
    by (auto simp: punctual_def split: option.splits)
  show ?thesis
  proof (cases "mi_max_ts m = []")
    case True
    with t show ?thesis by (auto simp: is_stamp_def due_def)
  next
    case False
    with assms(2) obtain w where w: "in_range w" "mi_max_ts m = stamp w" by (auto simp: is_stamp_def)
    with fresh False have "w - mi_overlap m < t" by (simp add: strptime_stamp)
    then have "stamp (w - mi_overlap m) < stamp t" using stamp_less_iff [of "w - mi_overlap m" t] t(2) w in_range_le [of "w - mi_overlap m" w] by simp
    with t w show ?thesis by (auto simp: is_stamp_def due_def)
  qed
qed

lemma fold_upsert_ts:
  "f \<in> set (fold (upsert nid) pts fs) \<Longrightarrow> f \<in> set fs \<or> (\<exists>p \<in> set pts. fact_ts f = mp_timestamp p)"
proof (induction pts arbitrary: fs)
  case (Cons p pts)
  from Cons.IH [of "upsert nid p fs"] Cons.prems
  have "f \<in> set (upsert nid p fs) \<or> (\<exists>p \<in> set pts. fact_ts f = mp_timestamp p)" by simp
  with set_update_subset [of "(nid, mp_metric p, mp_timestamp p)" "mp_value p" fs] show ?case
    by (auto simp: upsert_def fact_ts_def)
qed simp

lemma stamp_mono: "a \<le> b \<Longrightarrow> in_range b \<Longrightarrow> stamp a \<le> stamp b"
  using stamp_less_iff [of a b] in_range_le [of a b] by (cases "a = b") auto

lemma in_step_report:
  assumes "in_step r" "list_all (\<lambda>p. punctual (rp_mirror r) (mp_timestamp p)) pts"
  shows "in_step (r\<lparr>rp_store := snd (ingest nid pts now (rp_store r))\<rparr>)"
proof -
  let ?ms = "rp_store r" and ?m = "rp_mirror r"
  have stored: "f \<in> set (facts ?ms) \<or> (\<exists>p \<in> set pts. fact_ts f = mp_timestamp p)" if "f \<in> set (facts (snd (ingest nid pts now ?ms)))" for f
  proof -
    from that have "f \<in> set (fold (upsert nid) pts (facts ?ms))" by (simp add: ingest_def prune_locked_def)
    then show ?thesis by (rule fold_upsert_ts)
  qed
  have new: "is_stamp (mp_timestamp p) \<and> due ?m (mp_timestamp p)" if "p \<in> set pts" for p
    using assms that punctual_due by (auto simp: in_step_def list_all_iff)
  have "is_stamp (fact_ts f)" "mirrored_metric ?m f \<Longrightarrow> map_of (mi_rows ?m) (fst f) = Some (snd f) \<or> due ?m (fact_ts f) \<or> before_window ?m (fact_ts f)"
    if "f \<in> set (facts (snd (ingest nid pts now ?ms)))" for f
    using stored [OF that] new assms(1) by (auto simp: in_step_def)
  with assms(1) store_ok_ingest show ?thesis by (simp add: in_step_def)
qed

lemma take_points:
  "mi_rows (fold take_point ps m) = fold (\<lambda>p. AList.update (fst p) (snd p)) ps (mi_rows m)"
  "mi_prefixes (fold take_point ps m) = mi_prefixes m" "mi_retention (fold take_point ps m) = mi_retention m"
  "mi_overlap (fold take_point ps m) = mi_overlap m"
  by (induction ps arbitrary: m) (simp_all add: take_point_def)

lemma take_points_max: "mi_max_ts (fold take_point ps m) \<in> insert (mi_max_ts m) (fact_ts ` set ps)"
proof (induction ps arbitrary: m)
  case (Cons p ps)
  have "mi_max_ts (take_point p m) \<in> {mi_max_ts m, fact_ts p}" by (simp add: take_point_def)
  with Cons.IH [of "take_point p m"] show ?case by auto
qed simp

lemma take_points_lookup:
  "dict_wf ps \<Longrightarrow> map_of (fold (\<lambda>p. AList.update (fst p) (snd p)) ps d) k = (case map_of ps k of Some v \<Rightarrow> Some v | None \<Rightarrow> map_of d k)"
proof (induction ps arbitrary: d)
  case (Cons p ps)
  then have "map_of ps (fst p) = None" by (auto simp: dict_wf_def map_of_eq_None_iff)
  with Cons show ?case by (cases p) (auto simp: dict_wf_def update_conv' split: option.split)
qed simp

text \<open>A pull that succeeds: everything the store has after the bound is taken, the rest stays.\<close>

lemma pull_takes:
  assumes r: "in_step r" and b: "after_bound now (rp_mirror r) = Inr b"
    and f: "f \<in> set (facts (rp_store r))" and k: "mirrored_metric (rp_mirror r) f"
    and later: "case mi_last_ok (rp_mirror r) of None \<Rightarrow> True | Some t \<Rightarrow> t \<le> now"
    and range: "in_range (nat \<lfloor>now\<rfloor>)" "0 \<le> mi_retention (rp_mirror r)"
  shows "map_of (fold (\<lambda>p. AList.update (fst p) (snd p)) (since b (mi_prefixes (rp_mirror r)) (rp_store r)) (mi_rows (rp_mirror r))) (fst f) = Some (snd f)
    \<or> fact_ts f \<le> stamp_at (now - mi_retention (rp_mirror r))"
proof -
  let ?m = "rp_mirror r" and ?fs = "facts (rp_store r)"
  let ?pulled = "since b (mi_prefixes ?m) (rp_store r)"
  have wf: "dict_wf ?fs" using r by (simp add: in_step_def store_ok_def)
  have mem: "set ?pulled = {g \<in> set ?fs. b < fact_ts g \<and> mirrored_metric ?m g}"
    by (auto simp: since_def mirrored_metric_def)
  have "distinct (map fst ?pulled)"
    using wf by (simp add: since_def dict_wf_def distinct_map inj_on_def sorted_wrt_filter)
  then have pwf: "dict_wf ?pulled" by (simp add: dict_wf_def)
  note look = take_points_lookup [OF pwf, of "mi_rows ?m" "fst f"]
  show ?thesis
  proof (cases "b < fact_ts f")
    case True
    with mem f k have "(fst f, snd f) \<in> set ?pulled" by simp
    then have "map_of ?pulled (fst f) = Some (snd f)" using dict_wf_mem [OF pwf, of "fst f" "snd f"] by blast
    with look show ?thesis by simp
  next
    case False
    have "map_of ?pulled (fst f) = None"
    proof (rule ccontr)
      assume "map_of ?pulled (fst f) \<noteq> None"
      then obtain v where "(fst f, v) \<in> set ?pulled" by (auto dest: map_of_SomeD)
      with mem False show False by (auto simp: fact_ts_def)
    qed
    with look have same: "map_of (fold (\<lambda>p. AList.update (fst p) (snd p)) ?pulled (mi_rows ?m)) (fst f) = map_of (mi_rows ?m) (fst f)" by simp
    from r f k consider "map_of (mi_rows ?m) (fst f) = Some (snd f)" | "due ?m (fact_ts f)" | "before_window ?m (fact_ts f)"
      by (auto simp: in_step_def)
    then show ?thesis
    proof cases
      case 2
      with False b show ?thesis by (auto simp: due_def after_bound_def strptime_stamp split: if_splits)
    next
      case 3
      then obtain t where "fact_ts f \<le> stamp_at (t - mi_retention ?m)" "t \<le> now" using later by (auto simp: before_window_def)
      moreover have "stamp_at (t - mi_retention ?m) \<le> stamp_at (now - mi_retention ?m)"
      proof -
        have "nat \<lfloor>t - mi_retention ?m\<rfloor> \<le> nat \<lfloor>now - mi_retention ?m\<rfloor>" using \<open>t \<le> now\<close> by (intro nat_mono floor_mono) simp
        moreover have "nat \<lfloor>now - mi_retention ?m\<rfloor> \<le> nat \<lfloor>now\<rfloor>" using range(2) by (intro nat_mono floor_mono) simp
        ultimately show ?thesis using range(1) in_range_le by (auto simp: stamp_at_def intro: stamp_mono)
      qed
      ultimately show ?thesis by (auto intro: order_trans)
    qed (simp add: same)
  qed
qed

lemma refresh_eval:
  "after_bound now m = Inr b \<Longrightarrow> refresh now (pull_from ms m) ws m
   = Inr ((refresh_names ws (prune now (fold take_point (since b (mi_prefixes m) ms) m)))\<lparr>mi_last_ok := Some now, mi_last_error := None\<rparr>)"
  by (simp add: refresh_def pull_from_def)

lemma refresh_names_fields [simp]:
  "mi_rows (refresh_names ws m) = mi_rows m" "mi_max_ts (refresh_names ws m) = mi_max_ts m"
  "mi_prefixes (refresh_names ws m) = mi_prefixes m" "mi_retention (refresh_names ws m) = mi_retention m"
  "mi_overlap (refresh_names ws m) = mi_overlap m"
  by (simp_all add: refresh_names_def split: option.split)

lemma fold_update_wf: "dict_wf d \<Longrightarrow> dict_wf (fold (\<lambda>p. AList.update (fst p) (snd p)) ps d)"
  by (induction ps arbitrary: d) simp_all

text \<open>After a pull every fact inside the window is mirrored.\<close>

lemma pull_mirrors:
  assumes r: "in_step r" and wf: "dict_wf (mi_rows (rp_mirror r))" and b: "after_bound now (rp_mirror r) = Inr b"
    and range: "in_range (nat \<lfloor>now\<rfloor>)" and later: "case mi_last_ok (rp_mirror r) of None \<Rightarrow> True | Some t \<Rightarrow> t \<le> now"
    and m': "refresh now (pull_from (rp_store r) (rp_mirror r)) ws (rp_mirror r) = Inr m'"
    and f: "f \<in> set (facts (rp_store r))" "mirrored_metric m' f" "stamp_at (now - mi_retention m') < fact_ts f"
  shows "map_of (mi_rows m') (fst f) = Some (snd f)"
proof -
  let ?m = "rp_mirror r"
  let ?rows = "fold (\<lambda>p. AList.update (fst p) (snd p)) (since b (mi_prefixes ?m) (rp_store r)) (mi_rows ?m)"
  have m'': "mi_rows m' = filter (\<lambda>x. \<not> fact_ts x < stamp_at (now - mi_retention ?m)) ?rows"
    "mi_prefixes m' = mi_prefixes ?m" "mi_retention m' = mi_retention ?m"
    using m' by (auto simp: refresh_eval [OF b] prune_def take_points)
  have k: "mirrored_metric ?m f" using f(2) by (simp add: mirrored_metric_def m'')
  have "0 \<le> mi_retention ?m" using r by (simp add: in_step_def)
  moreover have "\<not> fact_ts f \<le> stamp_at (now - mi_retention ?m)" using f(3) by (simp add: m'' not_le)
  ultimately have "map_of ?rows (fst f) = Some (snd f)" using pull_takes [OF r b f(1) k later range] by blast
  moreover have "\<not> fact_ts f < stamp_at (now - mi_retention ?m)" using f(3) by (simp add: m'' not_less)
  ultimately show ?thesis
    using fold_update_wf [OF wf] by (simp add: m'' map_of_filter_wf fact_ts_def)
qed

lemma bound_defined: "in_step r \<Longrightarrow> \<exists>b. after_bound now (rp_mirror r) = Inr b"
  by (auto simp: in_step_def after_bound_def is_stamp_def strptime_stamp)

lemma in_step_pull:
  assumes r: "in_step r" and wf: "dict_wf (mi_rows (rp_mirror r))" and range: "in_range (nat \<lfloor>now\<rfloor>)"
    and later: "case mi_last_ok (rp_mirror r) of None \<Rightarrow> True | Some t \<Rightarrow> t \<le> now"
    and m': "refresh now (pull_from (rp_store r) (rp_mirror r)) ws (rp_mirror r) = Inr m'"
  shows "in_step (r\<lparr>rp_mirror := m'\<rparr>)" "dict_wf (mi_rows m')"
proof -
  let ?m = "rp_mirror r"
  from bound_defined [OF r] obtain b where b: "after_bound now ?m = Inr b" by blast
  have eq: "m' = (refresh_names ws (prune now (fold take_point (since b (mi_prefixes ?m) (rp_store r)) ?m)))\<lparr>mi_last_ok := Some now, mi_last_error := None\<rparr>"
    using m' by (simp add: refresh_eval [OF b])
  have "mi_max_ts m' = [] \<or> is_stamp (mi_max_ts m')"
    using take_points_max [of "since b (mi_prefixes ?m) (rp_store r)" ?m] r
    by (auto simp: eq prune_def in_step_def since_def)
  moreover have "0 \<le> mi_retention m'" using r by (simp add: eq prune_def take_points in_step_def)
  moreover have "map_of (mi_rows m') (fst f) = Some (snd f) \<or> before_window m' (fact_ts f)"
    if "f \<in> set (facts (rp_store r))" "mirrored_metric m' f" for f
  proof (cases "stamp_at (now - mi_retention m') < fact_ts f")
    case True
    with pull_mirrors [OF r wf b range later m' that] show ?thesis by simp
  next
    case False
    then have "before_window m' (fact_ts f)" by (simp add: before_window_def eq not_less)
    then show ?thesis by simp
  qed
  ultimately show "in_step (r\<lparr>rp_mirror := m'\<rparr>)" using r by (auto simp: in_step_def)
  show "dict_wf (mi_rows m')" using wf by (auto simp: eq prune_def take_points fold_update_wf)
qed

lemma in_step_exec:
  assumes "in_step r \<and> dict_wf (mi_rows (rp_mirror r))" "punctual_run [ev] r"
  shows "in_step (reporting_exec ev r) \<and> dict_wf (mi_rows (rp_mirror (reporting_exec ev r)))"
proof (cases ev)
  case (Report nid pts now)
  with assms show ?thesis using in_step_report [of r pts nid now] by (simp add: reporting_exec_def)
next
  case (Pull now ws)
  obtain b where "after_bound now (rp_mirror r) = Inr b" using bound_defined assms(1) by blast
  then obtain m' where m': "refresh now (pull_from (rp_store r) (rp_mirror r)) ws (rp_mirror r) = Inr m'" by (simp add: refresh_eval)
  with assms Pull in_step_pull [of r now ws m'] show ?thesis by (simp add: reporting_exec_def keep_on_raise_def)
next
  case (Lost now e)
  obtain b where b: "after_bound now (rp_mirror r) = Inr b" using bound_defined assms(1) by blast
  have "rp_mirror (reporting_exec ev r) = (rp_mirror r)\<lparr>mi_last_error := Some e\<rparr>" "rp_store (reporting_exec ev r) = rp_store r"
    by (simp_all add: Lost reporting_exec_def keep_on_raise_def refresh_def b)
  with assms(1) show ?thesis by (simp add: in_step_def due_def before_window_def mirrored_metric_def)
qed

lemma in_step_run:
  "in_step r \<and> dict_wf (mi_rows (rp_mirror r)) \<Longrightarrow> punctual_run evs r \<Longrightarrow>
   in_step (fold reporting_exec evs r) \<and> dict_wf (mi_rows (rp_mirror (fold reporting_exec evs r)))"
proof (induction evs arbitrary: r)
  case (Cons ev evs)
  then have "punctual_run [ev] r" by simp
  from in_step_exec [OF Cons.prems(1) this] Cons show ?case by simp
qed simp

lemma punctual_append: "punctual_run (evs @ [ev]) r \<Longrightarrow> punctual_run evs r \<and> punctual_run [ev] (fold reporting_exec evs r)"
  by (induction evs arbitrary: r) simp_all

lemma in_step_start: "in_step reporting_start \<and> dict_wf (mi_rows (rp_mirror reporting_start))"
  by (simp add: in_step_def reporting_start_def store_ok_def store_init_def new_mirror_def)

text \<open>C35: the mirror misses nothing. Over any run of reports and pulls, failed ones included, in which every report is
  stamped no more than the overlap behind the mirror's watermark, a pull leaves every fact of a mirrored domain that
  the store holds inside the window in the mirror, with its current value.\<close>

theorem mirror_complete:
  assumes "punctual_run (evs @ [Pull now ws]) reporting_start"
    and "fold reporting_exec (evs @ [Pull now ws]) reporting_start = r"
    and "f \<in> set (facts (rp_store r))" "mirrored_metric (rp_mirror r) f"
    and "stamp_at (now - mi_retention (rp_mirror r)) < fact_ts f"
  shows "map_of (mi_rows (rp_mirror r)) (fst f) = Some (snd f)"
proof -
  let ?r = "fold reporting_exec evs reporting_start"
  from punctual_append [OF assms(1)] have run: "punctual_run evs reporting_start"
    and last: "in_range (nat \<lfloor>now\<rfloor>)" "case mi_last_ok (rp_mirror ?r) of None \<Rightarrow> True | Some t \<Rightarrow> t \<le> now" by auto
  from in_step_run [OF in_step_start run] have ok: "in_step ?r" "dict_wf (mi_rows (rp_mirror ?r))" by auto
  obtain b where b: "after_bound now (rp_mirror ?r) = Inr b" using bound_defined [OF ok(1)] by blast
  obtain m' where m': "refresh now (pull_from (rp_store ?r) (rp_mirror ?r)) ws (rp_mirror ?r) = Inr m'"
    by (simp add: refresh_eval [OF b])
  have r: "r = ?r\<lparr>rp_mirror := m'\<rparr>" using assms(2) m' by (simp add: reporting_exec_def keep_on_raise_def)
  from pull_mirrors [OF ok b last m'] assms(3-5) show ?thesis by (simp add: r)
qed

definition a_point :: "nat \<Rightarrow> real \<Rightarrow> metric_point" where
  "a_point t v = \<lparr>mp_timestamp = stamp t, mp_metric = ''gpu:#0_util_pct'', mp_value = v\<rparr>"

definition two_pulls :: "mirror_event list" where
  "two_pulls = [Report ''a'' [a_point 100 50] 100, Pull 101 None, Report ''b'' [a_point 50 30] 102]"

lemma early: "t < 86400 \<Longrightarrow> in_range t"
  by (simp add: in_range_def)

lemmas mirror_eval = reporting_exec_def reporting_start_def ingest_def prune_locked_def store_init_def cutoff_def RETENTION_S_def
  upsert_def a_point_def stamp_at_def keep_on_raise_def refresh_def pull_from_def after_bound_def new_mirror_def since_def take_point_def
  prune_def refresh_names_def strptime_stamp early stamp_less_iff fact_ts_def fact_metric_def

lemma two_pulls_run:
  "punctual_run (two_pulls @ [Pull 105 None]) reporting_start"
  by (simp add: two_pulls_def mirror_eval punctual_def)

lemma two_pulls_store:
  "((''b'', ''gpu:#0_util_pct'', stamp 50), 30) \<in> set (facts (rp_store (fold reporting_exec (two_pulls @ [Pull 105 None]) reporting_start)))"
  by (simp add: two_pulls_def mirror_eval)

theorem mirror_complete_witness:
  "map_of (mi_rows (rp_mirror (fold reporting_exec (two_pulls @ [Pull 105 None]) reporting_start))) (''b'', ''gpu:#0_util_pct'', stamp 50) = Some 30"
proof -
  let ?r = "fold reporting_exec (two_pulls @ [Pull 105 None]) reporting_start" and ?f = "((''b'', ''gpu:#0_util_pct'', stamp 50), 30::real)"
  have "mirrored_metric (rp_mirror ?r) ?f" "stamp_at (105 - mi_retention (rp_mirror ?r)) < fact_ts ?f"
    by (simp_all add: two_pulls_def mirror_eval mirrored_metric_def)
  from mirror_complete [OF two_pulls_run refl two_pulls_store this] show ?thesis by simp
qed

text \<open>Why reports must be punctual: a worker whose clock is ten minutes ahead moves the watermark past the others, and
  their facts inside the window are not pulled.\<close>

lemma clock_ahead_hides_others:
  "map_of (mi_rows (rp_mirror (fold reporting_exec
     [Report ''a'' [a_point 700 50] 100, Pull 101 None, Report ''b'' [a_point 105 30] 106, Pull 106 None] reporting_start)))
     (''b'', ''gpu:#0_util_pct'', stamp 105) = None"
  by (simp add: mirror_eval)

text \<open>A stamp that is none and sorts last makes every later refresh raise.\<close>

lemma bad_stamp_stops_mirror:
  "mi_max_ts m = ''now'' \<Longrightarrow> refresh now pull ws m = Inl (ValueErr ''now'')"
proof -
  have "strptime ''now'' = None" by code_simp
  then show "mi_max_ts m = ''now'' \<Longrightarrow> refresh now pull ws m = Inl (ValueErr ''now'')" by (simp add: refresh_def after_bound_def)
qed

section \<open>The sheet\<close>

definition present_in :: "real option list \<Rightarrow> nat \<Rightarrow> real list" where
  "present_in data i = List.map_filter id (take (i + 1 - (i + 1 - MA_WINDOW)) (drop (i + 1 - MA_WINDOW) data))"

lemma average_nth:
  "i < length data \<Longrightarrow> trailing_moving_average data ! i =
     (if MA_MIN_SAMPLES \<le> length (present_in data i)
      then Some (py_round 2 (sum_list (present_in data i) / real (length (present_in data i)))) else None)"
  by (simp add: trailing_moving_average_def present_in_def Let_def)

lemma average_length [simp]: "length (trailing_moving_average data) = length data"
  by (simp add: trailing_moving_average_def)

lemma present_in_data: "x \<in> set (present_in data i) \<Longrightarrow> Some x \<in> set data"
  by (auto simp: present_in_def map_filter_def dest!: in_set_takeD in_set_dropD)

text \<open>How many of the latest slots hold a sample.\<close>

lemma present_in_card:
  assumes i: "i < length data"
  shows "length (present_in data i) = card {j. j \<le> i \<and> i < j + MA_WINDOW \<and> data ! j \<noteq> None}"
proof -
  let ?a = "i + 1 - MA_WINDOW"
  let ?xs = "take (i + 1 - ?a) (drop ?a data)"
  have nth: "?xs ! j = data ! (?a + j)" if "j < length ?xs" for j using that i by (simp add: nth_drop)
  have len: "length ?xs = i + 1 - ?a" using i by (simp add: MA_WINDOW_def)
  have "length (present_in data i) = length (filter (\<lambda>x. x \<noteq> None) ?xs)" by (simp add: present_in_def map_filter_def)
  also have "\<dots> = card {j. j < length ?xs \<and> ?xs ! j \<noteq> None}" by (rule length_filter_conv_card)
  also have "\<dots> = card ((+) ?a ` {j. j < length ?xs \<and> ?xs ! j \<noteq> None})" by (simp add: card_image)
  also have "(+) ?a ` {j. j < length ?xs \<and> ?xs ! j \<noteq> None} = {j. j \<le> i \<and> i < j + MA_WINDOW \<and> data ! j \<noteq> None}" (is "?l = ?r")
  proof
    show "?l \<subseteq> ?r"
    proof
      fix j assume "j \<in> ?l"
      then obtain k where k: "j = ?a + k" "k < length ?xs" "?xs ! k \<noteq> None" by blast
      have "j \<le> i" "i < j + MA_WINDOW" using k(1,2) unfolding len by (auto simp: MA_WINDOW_def)
      then show "j \<in> ?r" using k(3) nth [OF k(2)] k(1) by simp
    qed
    show "?r \<subseteq> ?l"
    proof
      fix j assume j: "j \<in> ?r"
      then have "?a \<le> j" "j - ?a < length ?xs" unfolding len by (auto simp: MA_WINDOW_def)
      with j nth [of "j - ?a"] show "j \<in> ?l" by (intro image_eqI [of _ _ "j - ?a"]) auto
    qed
  qed
  finally show ?thesis .
qed

text \<open>A percentage, and that rounding and averaging keep one.\<close>

definition percent :: "real \<Rightarrow> bool" where
  "percent x \<longleftrightarrow> 0 \<le> x \<and> x \<le> 100"

lemma percent_round: "percent x \<Longrightarrow> percent (py_round 2 x)"
proof -
  have "py_round 2 100 = 100" "py_round 2 0 = 0" by (simp_all add: py_round_def round_half_even_def)
  then show "percent x \<Longrightarrow> percent (py_round 2 x)" using py_round_mono [of 0 x 2] py_round_mono [of x 100 2] by (simp add: percent_def)
qed

lemma percent_mean: "xs \<noteq> [] \<Longrightarrow> \<forall>x \<in> set xs. percent x \<Longrightarrow> percent (sum_list xs / real (length xs))"
proof -
  assume xs: "xs \<noteq> []" "\<forall>x \<in> set xs. percent x"
  have "0 \<le> sum_list xs" using xs(2) by (intro sum_list_nonneg) (auto simp: percent_def)
  moreover have "sum_list xs \<le> 100 * real (length xs)" using xs(2) by (induction xs) (auto simp: percent_def)
  ultimately show ?thesis using xs(1) by (simp add: percent_def divide_le_eq)
qed

lemma average_percent:
  assumes "\<forall>x. Some x \<in> set data \<longrightarrow> percent x" "Some y \<in> set (trailing_moving_average data)"
  shows "percent y"
proof -
  from assms(2) obtain i where "i < length data" "trailing_moving_average data ! i = Some y" by (metis average_length in_set_conv_nth)
  then have y: "MA_MIN_SAMPLES \<le> length (present_in data i)" "y = py_round 2 (sum_list (present_in data i) / real (length (present_in data i)))"
    by (auto simp: average_nth split: if_splits)
  have "present_in data i \<noteq> []" using y(1) by (auto simp: MA_MIN_SAMPLES_def)
  moreover have "\<forall>x \<in> set (present_in data i). percent x" using assms(1) present_in_data by blast
  ultimately show ?thesis using y(2) percent_round percent_mean by simp
qed

lemma update_values: "\<forall>e \<in> set d. P (snd e) \<Longrightarrow> P v \<Longrightarrow> \<forall>e \<in> set (AList.update k v d). P (snd e)" for P :: "'a \<Rightarrow> bool"
  using set_update_subset [of k v d] by auto

lemma lookup_value:
  assumes "\<forall>e \<in> set d. P (snd e)" "P z" shows "P (default_to z (map_of d k))"
proof (cases "map_of d k")
  case (Some v)
  with bspec [OF assms(1) map_of_SomeD [OF Some]] show ?thesis by simp
qed (simp add: assms(2))

definition percents :: "real list \<Rightarrow> bool" where
  "percents xs \<longleftrightarrow> (\<forall>x \<in> set xs. percent x)"

definition slot_ok :: "real list \<Rightarrow> bool" where
  "slot_ok vs \<longleftrightarrow> vs \<noteq> [] \<and> percents vs"

lemma slots_percent:
  assumes "\<forall>r \<in> set rows. gpu_util_metric (fact_metric r) \<longrightarrow> percent (snd r)"
    and "\<forall>e \<in> set slot. slot_ok (snd e)"
  shows "\<forall>e \<in> set (fold add_value rows slot). slot_ok (snd e)"
  using assms
proof (induction rows arbitrary: slot)
  case (Cons r rows)
  have "\<forall>e \<in> set (add_value r slot). slot_ok (snd e)"
  proof (cases "gpu_util_metric (fact_metric r)")
    case True
    let ?k = "(fact_node r, fact_ts r)"
    have "percents (default_to [] (map_of slot ?k))"
      using Cons.prems(2) by (intro lookup_value [where P = percents]) (simp_all add: percents_def slot_ok_def)
    then have "slot_ok (default_to [] (map_of slot ?k) @ [snd r])" using True Cons.prems(1) by (simp add: percents_def slot_ok_def)
    from update_values [OF Cons.prems(2) this, of ?k] True show ?thesis by (simp add: add_value_def)
  qed (use Cons.prems(2) in \<open>simp add: add_value_def\<close>)
  from Cons.IH [OF _ this] Cons.prems(1) show ?case by simp
qed simp

definition percent_points :: "(string \<times> real) list \<Rightarrow> bool" where
  "percent_points ps \<longleftrightarrow> (\<forall>p \<in> set ps. percent (snd p))"

lemma points_percent:
  assumes "\<forall>e \<in> set slots. slot_ok (snd e)" "\<forall>e \<in> set per. percent_points (snd e)"
  shows "\<forall>e \<in> set (fold spread slots per). percent_points (snd e)"
  using assms
proof (induction slots arbitrary: per)
  case (Cons s slots)
  obtain nid ts vals where s: "s = ((nid, ts), vals)" by (cases s) auto
  have "percent (sum_list vals / real (length vals))" using Cons.prems(1) percent_mean by (simp add: s percents_def slot_ok_def)
  moreover have "percent_points (default_to [] (map_of per nid))"
    using Cons.prems(2) by (intro lookup_value [where P = percent_points]) (simp_all add: percent_points_def)
  ultimately have "percent_points (AList.update ts (sum_list vals / real (length vals)) (default_to [] (map_of per nid)))"
    unfolding percent_points_def by (intro update_values [where P = percent]) simp_all
  then have "\<forall>e \<in> set (spread s per). percent_points (snd e)"
    using update_values [OF Cons.prems(2)] by (simp add: spread_def s)
  with Cons show ?case by simp
qed simp

text \<open>The rows the sheet is made of.\<close>

definition gpu_rows :: "(fact_key \<times> real) list \<Rightarrow> (fact_key \<times> real) list" where
  "gpu_rows rows = filter (\<lambda>r. gpu_util_metric (fact_metric r)) rows"

lemma spread_keys: "fst ` set (fold spread slots per) = (\<lambda>e. fst (fst e)) ` set slots \<union> fst ` set per"
proof (induction slots arbitrary: per)
  case (Cons s slots)
  have "fst ` set (spread s per) = insert (fst (fst s)) (fst ` set per)"
    by (cases s, cases "fst s") (simp add: spread_def dom_update)
  with Cons.IH [of "spread s per"] show ?case by simp
qed simp

lemma add_value_keys:
  "fst ` set (fold add_value rows slot) = (\<lambda>r. (fact_node r, fact_ts r)) ` set (gpu_rows rows) \<union> fst ` set slot"
proof (induction rows arbitrary: slot)
  case (Cons r rows)
  have "fst ` set (add_value r slot) = (if gpu_util_metric (fact_metric r) then {(fact_node r, fact_ts r)} else {}) \<union> fst ` set slot"
    by (simp add: add_value_def dom_update)
  with Cons.IH [of "add_value r slot"] show ?case by (simp add: gpu_rows_def)
qed (simp add: gpu_rows_def)

lemma spread_wf: "dict_wf per \<Longrightarrow> dict_wf (fold spread slots per)"
  by (induction slots arbitrary: per) (auto simp: spread_def split: prod.split)

lemma per_node_keys: "fst ` set (per_node_points rows) = fact_node ` set (gpu_rows rows)"
proof -
  have "(\<lambda>e. fst (fst e)) ` set (fold add_value rows []) = fst ` fst ` set (fold add_value rows [])" by (simp add: image_image)
  then show ?thesis by (simp add: per_node_points_def spread_keys add_value_keys image_image)
qed

text \<open>The slots a node has a value for are those it reported a GPU utilization in.\<close>

definition has_point :: "(string \<times> (string \<times> real) list) list \<Rightarrow> string \<Rightarrow> string \<Rightarrow> bool" where
  "has_point per nid ts \<longleftrightarrow> (\<exists>ps. map_of per nid = Some ps \<and> map_of ps ts \<noteq> None)"

lemma has_point_spread: "has_point (spread ((n, t), v) per) nid ts \<longleftrightarrow> (nid, ts) = (n, t) \<or> has_point per nid ts"
  by (cases "map_of per n") (auto simp: has_point_def spread_def update_conv')

lemma has_point_fold: "has_point (fold spread slots per) nid ts \<longleftrightarrow> (nid, ts) \<in> fst ` set slots \<or> has_point per nid ts"
proof (induction slots arbitrary: per)
  case (Cons s slots)
  obtain n t v where "s = ((n, t), v)" by (cases s) auto
  with Cons show ?case by (auto simp: has_point_spread)
qed simp

definition gpu_reported :: "(fact_key \<times> real) list \<Rightarrow> string \<Rightarrow> string \<Rightarrow> bool" where
  "gpu_reported rows nid ts \<longleftrightarrow> (\<exists>r \<in> set (gpu_rows rows). fact_node r = nid \<and> fact_ts r = ts)"

lemma has_point_reported: "has_point (per_node_points rows) nid ts \<longleftrightarrow> gpu_reported rows nid ts"
proof -
  have "fst ` set (fold add_value rows []) = (\<lambda>r. (fact_node r, fact_ts r)) ` set (gpu_rows rows)" by (simp add: add_value_keys)
  moreover have "\<not> has_point [] nid ts" by (simp add: has_point_def)
  ultimately show ?thesis by (auto simp: per_node_points_def has_point_fold gpu_reported_def)
qed

text \<open>the GPU sheet is well-formed. It has one series per node that reported a GPU utilization and no other, in
  the order of the workers' numbers; every series has an entry per slot of the axis, which is a gap exactly when the
  node reported in fewer than four of the latest six slots of the axis; and when the reported utilizations are
  percentages, so is every point.\<close>

lemma gpu_sheet_sound:
  assumes "gpu_util_series rows now info window_s grid_s = sheet"
    and "\<forall>r \<in> set (gpu_rows rows). percent (snd r)"
  shows "length (sh_labels sheet) = window_s div grid_s
    \<and> distinct (map se_node_id (sh_series sheet))
    \<and> set (map se_node_id (sh_series sheet)) = fact_node ` set (gpu_rows rows)
    \<and> sorted (map (node_order info) (map se_node_id (sh_series sheet)))
    \<and> (\<forall>s \<in> set (sh_series sheet). length (se_data s) = window_s div grid_s \<and> (\<forall>y. Some y \<in> set (se_data s) \<longrightarrow> percent y)
         \<and> (\<forall>i < window_s div grid_s. se_data s ! i \<noteq> None \<longleftrightarrow>
              4 \<le> card {j. j \<le> i \<and> i < j + 6 \<and> gpu_reported rows (se_node_id s) (stamp (slot_times now window_s grid_s ! j))}))"
proof -
  let ?keys = "map stamp (slot_times now window_s grid_s)" and ?per = "per_node_points rows"
  let ?sorted = "sort_key (\<lambda>e. node_order info (fst e)) ?per"
  have len: "length (slot_times now window_s grid_s) = window_s div grid_s" by (simp add: slot_times_def Let_def)
  have sheet: "sh_labels sheet = map (\<lambda>t. time_stamp (t mod 86400)) (slot_times now window_s grid_s)"
    "sh_series sheet = map (node_series info ?keys) ?sorted"
    using assms(1) by (auto simp: gpu_util_series_def Let_def)
  have id: "se_node_id (node_series info ?keys e) = fst e" for e by (simp add: node_series_def split: prod.split)
  then have ids: "map se_node_id (sh_series sheet) = map fst ?sorted" by (simp add: sheet)
  have wf: "dict_wf ?per" using spread_wf [of "[]"] by (simp add: per_node_points_def)
  then have "distinct (map fst ?per)" by (simp add: dict_wf_def)
  then have dist: "distinct (map se_node_id (sh_series sheet))" unfolding ids by (simp add: distinct_map)
  have nodes: "set (map se_node_id (sh_series sheet)) = fact_node ` set (gpu_rows rows)"
    unfolding ids using per_node_keys by simp
  have ord: "sorted (map (node_order info) (map se_node_id (sh_series sheet)))" unfolding ids by (simp add: comp_def)
  have "\<forall>e \<in> set ?per. percent_points (snd e)"
    unfolding per_node_points_def using slots_percent [of rows "[]"] assms(2) by (intro points_percent) (simp_all add: gpu_rows_def)
  then have pp: "percent_points (snd e)" if "e \<in> set ?sorted" for e using that by simp
  have data: "length (se_data s) = window_s div grid_s \<and> (\<forall>y. Some y \<in> set (se_data s) \<longrightarrow> percent y)
    \<and> (\<forall>i < window_s div grid_s. se_data s ! i \<noteq> None \<longleftrightarrow>
         4 \<le> card {j. j \<le> i \<and> i < j + 6 \<and> gpu_reported rows (se_node_id s) (stamp (slot_times now window_s grid_s ! j))})"
    if "s \<in> set (sh_series sheet)" for s
  proof -
    from that obtain e where e: "e \<in> set ?sorted" "s = node_series info ?keys e" unfolding sheet by auto
    let ?raw = "map (\<lambda>k. map_option (py_round 2) (map_of (snd e) k)) ?keys"
    have d: "se_data s = trailing_moving_average ?raw" using e(2) by (simp add: node_series_def split: prod.split)
    have "percent x" if "map_of (snd e) k = Some x" for k x
      using bspec [OF pp [OF e(1), unfolded percent_points_def] map_of_SomeD [OF that]] by simp
    then have "\<forall>x. Some x \<in> set ?raw \<longrightarrow> percent x" using percent_round by (auto simp: map_option_case split: option.splits)
    from average_percent [OF this] have "\<forall>y. Some y \<in> set (se_data s) \<longrightarrow> percent y" unfolding d by blast
    moreover have "map_of ?per (fst e) = Some (snd e)" using e(1) wf by (simp add: dict_wf_mem [symmetric])
    then have has: "map_of (snd e) k \<noteq> None \<longleftrightarrow> gpu_reported rows (fst e) k" for k
      by (simp add: has_point_reported [symmetric] has_point_def)
    have "se_data s ! i \<noteq> None \<longleftrightarrow>
        4 \<le> card {j. j \<le> i \<and> i < j + 6 \<and> gpu_reported rows (fst e) (stamp (slot_times now window_s grid_s ! j))}"
      if i: "i < window_s div grid_s" for i
    proof -
      have raw: "?raw ! j \<noteq> None \<longleftrightarrow> gpu_reported rows (fst e) (stamp (slot_times now window_s grid_s ! j))" if "j \<le> i" for j
        using has that i len by simp
      have "{j. j \<le> i \<and> i < j + MA_WINDOW \<and> ?raw ! j \<noteq> None} =
          {j. j \<le> i \<and> i < j + 6 \<and> gpu_reported rows (fst e) (stamp (slot_times now window_s grid_s ! j))}"
        using raw by (auto simp: MA_WINDOW_def simp del: nth_map)
      then show ?thesis
        using i len present_in_card [of i ?raw] average_nth [of i ?raw] by (simp add: d MA_MIN_SAMPLES_def del: nth_map)
    qed
    moreover have "length (se_data s) = window_s div grid_s" using len by (simp add: d)
    moreover have "se_node_id s = fst e" by (simp add: e(2) id)
    ultimately show ?thesis by simp
  qed
  show ?thesis using dist nodes ord data len by (simp add: sheet(1))
qed

lemma gpu_sheet_sound_witness:
  "set (map se_node_id (sh_series (gpu_util_series [((''a'', ''gpu:#0_util_pct'', stamp 5), 50), ((''a'', ''worker:x'', stamp 5), 500)] 12 [] 10 5))) = {''a''}
   \<and> length (sh_labels (gpu_util_series [((''a'', ''gpu:#0_util_pct'', stamp 5), 50), ((''a'', ''worker:x'', stamp 5), 500)] 12 [] 10 5)) = 2"
proof -
  let ?rows = "[((''a'', ''gpu:#0_util_pct'', stamp 5), 50::real), ((''a'', ''worker:x'', stamp 5), 500)]"
  have "gpu_util_metric ''gpu:#0_util_pct''" "\<not> gpu_util_metric ''worker:x''" by code_simp+
  then have rows: "gpu_rows ?rows = [((''a'', ''gpu:#0_util_pct'', stamp 5), 50)]" by (simp add: gpu_rows_def fact_metric_def)
  then have "\<forall>r \<in> set (gpu_rows ?rows). percent (snd r)" by (simp add: percent_def)
  from gpu_sheet_sound [OF refl this, of 12 "[]" 10 5] rows show ?thesis by (simp add: fact_node_def)
qed

end
