(* ===== verification/WorkerTunnel.thy ===== *)
theory WorkerTunnel
  imports Coordinator Tunnel Chat
begin

text \<open>
  The worker side of the tunnel transport (\<open>src/src/oumigo/service/worker/tunnel.py\<close>): the pool of slot
  tasks that keep connections to the manager (\<open>TunnelClient\<close>), and what one connection carries between the
  manager and the local backend. Everything but \<open>set_pool_size\<close> and \<open>wake\<close> runs on one event loop, so an
  execution is a sequence of atomic turns; a coroutine is split at its \<open>await\<close>. The websockets library and
  the sockets are events: what they answered. A task that was cancelled goes on existing until the exception
  has unwound it, which is a turn of its own.
\<close>

section \<open>Constants and the URL\<close>

definition BACKOFF_START_S :: real where "BACKOFF_START_S = 1/2"
definition BACKOFF_MAX_S :: real where "BACKOFF_MAX_S = 30"
definition COPY_CHUNK :: nat where "COPY_CHUNK = 64 * 1024"

lemmas backoff_defs = BACKOFF_START_S_def BACKOFF_MAX_S_def

definition tunnel_url :: "string \<Rightarrow> string res" where
  "tunnel_url manager_url =
     (let base = py_rstrip_char CHR ''/'' manager_url in
      if py_startswith base ''https://'' then Inr (''wss://'' @ drop 8 base @ ''/tunnel'')
      else if py_startswith base ''http://'' then Inr (''ws://'' @ drop 7 base @ ''/tunnel'')
      else Inl (ValueErr (''manager URL must be http:// or https://, got '' @ repr_str manager_url)))"

section \<open>The pool of slots\<close>

text \<open>Where the coroutine of a slot stands: in \<open>connect\<close>, parked in \<open>_recv_parked\<close>, carrying a request,
  waiting out its backoff, or over.\<close>

datatype slot_phase = Dialling | Parked | Carrying | Sleeping real | Ended

record slot_task =
  sk_index :: nat
  sk_backoff :: real
  sk_phase :: slot_phase
  sk_cancelled :: bool

text \<open>\<open>tl_due\<close>: the supervisor is at the head of its loop, or \<open>_resized\<close> is set; \<open>tl_notices\<close>: calls of
  \<open>_resized.set\<close> that the other thread has scheduled and the loop has not run yet. \<open>tl_tasks\<close> holds the
  tasks created so far, by number.\<close>

record tunnel_loop =
  tl_pool_size :: int
  tl_due :: bool
  tl_notices :: nat
  tl_slots :: "(nat \<times> nat) list"
  tl_tasks :: "nat \<Rightarrow> slot_task"
  tl_next :: nat
  tl_latency :: "(nat \<times> real) list"
  tl_connected :: int
  tl_stopping :: bool

definition fresh_slot :: "nat \<Rightarrow> slot_task" where
  "fresh_slot i = \<lparr>sk_index = i, sk_backoff = BACKOFF_START_S, sk_phase = Dialling, sk_cancelled = False\<rparr>"


definition is_open :: "slot_phase \<Rightarrow> bool" where
  "is_open p = (p = Parked \<or> p = Carrying)"

definition set_task :: "nat \<Rightarrow> slot_task \<Rightarrow> tunnel_loop \<Rightarrow> tunnel_loop" where
  "set_task t k s = s\<lparr>tl_tasks := (tl_tasks s)(t := k)\<rparr>"

subsection \<open>_supervise\<close>

definition slot_missing :: "tunnel_loop \<Rightarrow> nat \<Rightarrow> bool" where
  "slot_missing s i =
     (case map_of (tl_slots s) i of None \<Rightarrow> True | Some t \<Rightarrow> sk_phase (tl_tasks s t) = Ended)"

definition start_slot :: "nat \<Rightarrow> tunnel_loop \<Rightarrow> tunnel_loop" where
  "start_slot i s =
     (set_task (tl_next s) (fresh_slot i) s)
       \<lparr>tl_slots := AList.update i (tl_next s) (tl_slots s), tl_next := Suc (tl_next s)\<rparr>"

definition fill_slot :: "nat \<Rightarrow> tunnel_loop \<Rightarrow> tunnel_loop" where
  "fill_slot i s = (if slot_missing s i then start_slot i s else s)"

definition cancel_task :: "nat \<Rightarrow> tunnel_loop \<Rightarrow> tunnel_loop" where
  "cancel_task t s =
     (if sk_phase (tl_tasks s t) = Ended then s
      else set_task t ((tl_tasks s t)\<lparr>sk_cancelled := True\<rparr>) s)"

definition drop_slot :: "nat \<Rightarrow> tunnel_loop \<Rightarrow> tunnel_loop" where
  "drop_slot i s =
     (case map_of (tl_slots s) i of None \<Rightarrow> s
      | Some t \<Rightarrow> (cancel_task t s)\<lparr>tl_slots := AList.delete i (tl_slots s),
                                    tl_latency := AList.delete i (tl_latency s)\<rparr>)"

definition surplus :: "tunnel_loop \<Rightarrow> nat list" where
  "surplus s = filter (\<lambda>i. tl_pool_size s \<le> int i) (map fst (tl_slots s))"

definition supervise_pass :: "tunnel_loop \<Rightarrow> tunnel_loop" where
  "supervise_pass s =
     (let s1 = fold fill_slot [0..<nat (tl_pool_size s)] s in
      (fold drop_slot (surplus s1) s1)\<lparr>tl_due := False\<rparr>)"

text \<open>\<open>stop\<close>: the supervisor is cancelled and its \<open>finally\<close> clause cancels every slot.\<close>

definition stop_pool :: "tunnel_loop \<Rightarrow> tunnel_loop" where
  "stop_pool s = (fold cancel_task (map snd (tl_slots s)) s)\<lparr>tl_stopping := True, tl_due := False\<rparr>"

subsection \<open>Calls from the coordinator\<close>

definition resize :: "int option \<Rightarrow> tunnel_loop \<Rightarrow> tunnel_loop" where
  "resize sz s =
     (case sz of None \<Rightarrow> s
      | Some n \<Rightarrow> if max 1 n = tl_pool_size s then s
                   else s\<lparr>tl_pool_size := max 1 n, tl_notices := Suc (tl_notices s)\<rparr>)"

definition woken :: "slot_task \<Rightarrow> slot_task" where
  "woken k =
     (case sk_phase k of Sleeping d \<Rightarrow> if sk_cancelled k then k else k\<lparr>sk_phase := Dialling, sk_backoff := BACKOFF_START_S\<rparr>
      | _ \<Rightarrow> k)"

definition wake_now :: "tunnel_loop \<Rightarrow> tunnel_loop" where
  "wake_now s = s\<lparr>tl_tasks := woken \<circ> tl_tasks s\<rparr>"

definition rtt_ms :: "(nat \<times> real) list \<Rightarrow> real option" where
  "rtt_ms latency =
     (let samples = filter (\<lambda>v. 0 < v) (map snd latency) in
      if samples = [] then None else Some (py_round 1 (Min (set samples) * 1000)))"

subsection \<open>_slot\<close>

text \<open>\<open>random.uniform(a, b)\<close> from one draw of \<open>random()\<close>.\<close>

definition uniform :: "real \<Rightarrow> real \<Rightarrow> real \<Rightarrow> real" where
  "uniform a b r = a + (b - a) * r"

text \<open>The \<open>finally\<close> clause around \<open>_carry\<close>, reached from any way out of an open connection.\<close>

definition hang_up :: "nat \<Rightarrow> tunnel_loop \<Rightarrow> tunnel_loop" where
  "hang_up t s = (if is_open (sk_phase (tl_tasks s t)) then s\<lparr>tl_connected := tl_connected s - 1\<rparr> else s)"

definition slot_connected :: "nat \<Rightarrow> tunnel_loop \<Rightarrow> tunnel_loop" where
  "slot_connected t s =
     (set_task t ((tl_tasks s t)\<lparr>sk_backoff := BACKOFF_START_S, sk_phase := Parked\<rparr>) s)
       \<lparr>tl_connected := tl_connected s + 1\<rparr>"

definition slot_served :: "nat \<Rightarrow> tunnel_loop \<Rightarrow> tunnel_loop" where
  "slot_served t s = set_task t ((tl_tasks s t)\<lparr>sk_phase := Dialling\<rparr>) (hang_up t s)"

definition slot_failed :: "nat \<Rightarrow> real \<Rightarrow> tunnel_loop \<Rightarrow> tunnel_loop" where
  "slot_failed t r s =
     (let k = tl_tasks s t in
      set_task t (k\<lparr>sk_phase := Sleeping (sk_backoff k * uniform (1/2) (3/2) r),
                    sk_backoff := min (sk_backoff k * 2) BACKOFF_MAX_S\<rparr>) (hang_up t s))"

definition slot_ended :: "nat \<Rightarrow> tunnel_loop \<Rightarrow> tunnel_loop" where
  "slot_ended t s = set_task t ((tl_tasks s t)\<lparr>sk_phase := Ended\<rparr>) (hang_up t s)"

text \<open>One wait of \<open>_recv_parked\<close>: the interval ran out, or a message came, which ends the wait.\<close>

definition note_latency :: "nat \<Rightarrow> real \<Rightarrow> tunnel_loop \<Rightarrow> tunnel_loop" where
  "note_latency t lat s = s\<lparr>tl_latency := AList.update (sk_index (tl_tasks s t)) lat (tl_latency s)\<rparr>"

definition first_bytes :: "nat \<Rightarrow> real \<Rightarrow> tunnel_loop \<Rightarrow> tunnel_loop" where
  "first_bytes t lat s = set_task t ((tl_tasks s t)\<lparr>sk_phase := Carrying\<rparr>) (note_latency t lat s)"

section \<open>Runs of the pool\<close>

text \<open>\<open>Dialled\<close>: \<open>connect\<close> succeeded; \<open>Failed\<close>: an exception that \<open>_slot\<close> catches, with the draw of the jitter;
  \<open>Raised\<close>: any other exception; \<open>Finished\<close>: \<open>_carry\<close> returned; \<open>Unwound\<close>: a cancelled task has finished.
  An event that is not possible in a state leaves it as it is.\<close>

datatype slot_event = SetSize "int option" | Notice | Supervise | Dialled nat | Failed nat real | Raised nat
  | Quiet nat real | Request nat real | Finished nat | Elapsed nat | Woken | Unwound nat | StopPool

definition running :: "tunnel_loop \<Rightarrow> nat \<Rightarrow> slot_phase set \<Rightarrow> bool" where
  "running s t ps \<longleftrightarrow> t < tl_next s \<and> \<not> sk_cancelled (tl_tasks s t) \<and> sk_phase (tl_tasks s t) \<in> ps"

definition sleeping :: "tunnel_loop \<Rightarrow> nat \<Rightarrow> bool" where
  "sleeping s t = (case sk_phase (tl_tasks s t) of Sleeping d \<Rightarrow> True | _ \<Rightarrow> False)"

definition slot_exec :: "slot_event \<Rightarrow> tunnel_loop \<Rightarrow> tunnel_loop" where
  "slot_exec e s =
     (case e of
        SetSize sz \<Rightarrow> resize sz s
      | Notice \<Rightarrow> if 0 < tl_notices s then s\<lparr>tl_notices := tl_notices s - 1, tl_due := True\<rparr> else s
      | Supervise \<Rightarrow> if tl_due s \<and> \<not> tl_stopping s then supervise_pass s else s
      | Dialled t \<Rightarrow> if running s t {Dialling} then slot_connected t s else s
      | Failed t r \<Rightarrow> if running s t {Dialling, Parked, Carrying} \<and> 0 \<le> r \<and> r < 1 then slot_failed t r s else s
      | Raised t \<Rightarrow> if running s t {Dialling, Parked, Carrying} then slot_ended t s else s
      | Quiet t lat \<Rightarrow> if running s t {Parked} then note_latency t lat s else s
      | Request t lat \<Rightarrow> if running s t {Parked} then first_bytes t lat s else s
      | Finished t \<Rightarrow> if running s t {Parked, Carrying} then slot_served t s else s
      | Elapsed t \<Rightarrow> if running s t UNIV \<and> sleeping s t then set_task t ((tl_tasks s t)\<lparr>sk_phase := Dialling\<rparr>) s else s
      | Woken \<Rightarrow> wake_now s
      | Unwound t \<Rightarrow> if t < tl_next s \<and> sk_cancelled (tl_tasks s t) \<and> sk_phase (tl_tasks s t) \<noteq> Ended
                     then slot_ended t s else s
      | StopPool \<Rightarrow> if tl_stopping s then s else stop_pool s)"


definition slot_indices :: "tunnel_loop \<Rightarrow> nat set" where
  "slot_indices s = fst ` set (tl_slots s)"

text \<open>No resize is under way.\<close>

definition settled :: "tunnel_loop \<Rightarrow> bool" where
  "settled s \<longleftrightarrow> \<not> tl_due s \<and> tl_notices s = 0 \<and> \<not> tl_stopping s"

section \<open>The invariant of the pool\<close>



text \<open>Every entry of the table names a task of its index, and a task that is neither cancelled nor over is in
  the table; latencies are kept for slots in the table only.\<close>

definition table_ok :: "tunnel_loop \<Rightarrow> bool" where
  "table_ok s \<longleftrightarrow> dict_wf (tl_slots s)
     \<and> (\<forall>i t. (i, t) \<in> set (tl_slots s) \<longrightarrow>
          t < tl_next s \<and> sk_index (tl_tasks s t) = i \<and> (sk_cancelled (tl_tasks s t) \<longrightarrow> tl_stopping s))
     \<and> (\<forall>t < tl_next s. \<not> sk_cancelled (tl_tasks s t) \<and> sk_phase (tl_tasks s t) \<noteq> Ended \<longrightarrow>
          (sk_index (tl_tasks s t), t) \<in> set (tl_slots s) \<and> \<not> tl_stopping s)
     \<and> fst ` set (tl_latency s) \<subseteq> slot_indices s"



lemma set_task_sel [simp]:
  "tl_pool_size (set_task t k s) = tl_pool_size s" "tl_due (set_task t k s) = tl_due s"
  "tl_notices (set_task t k s) = tl_notices s" "tl_slots (set_task t k s) = tl_slots s"
  "tl_tasks (set_task t k s) = (tl_tasks s)(t := k)" "tl_next (set_task t k s) = tl_next s"
  "tl_latency (set_task t k s) = tl_latency s" "tl_connected (set_task t k s) = tl_connected s"
  "tl_stopping (set_task t k s) = tl_stopping s"
  by (simp_all add: set_task_def)

lemma hang_up_sel [simp]:
  "tl_pool_size (hang_up t s) = tl_pool_size s" "tl_due (hang_up t s) = tl_due s"
  "tl_notices (hang_up t s) = tl_notices s" "tl_slots (hang_up t s) = tl_slots s"
  "tl_tasks (hang_up t s) = tl_tasks s" "tl_next (hang_up t s) = tl_next s"
  "tl_latency (hang_up t s) = tl_latency s" "tl_stopping (hang_up t s) = tl_stopping s"
  "tl_connected (hang_up t s) = tl_connected s - of_bool (is_open (sk_phase (tl_tasks s t)))"
  by (simp_all add: hang_up_def)

lemma is_open_simps [simp]:
  "\<not> is_open Dialling" "is_open Parked" "is_open Carrying" "\<not> is_open (Sleeping d)" "\<not> is_open Ended"
  by (simp_all add: is_open_def)










subsection \<open>Turns of a slot\<close>













lemma woken_sel [simp]:
  "sk_index (woken k) = sk_index k" "sk_cancelled (woken k) = sk_cancelled k"
  "is_open (sk_phase (woken k)) = is_open (sk_phase k)" "sk_phase (woken k) = Ended \<longleftrightarrow> sk_phase k = Ended"
  by (auto simp: woken_def split: slot_phase.split)





subsection \<open>Passes of the supervisor\<close>

lemma table_entry:
  "table_ok s \<Longrightarrow> map_of (tl_slots s) i = Some t \<Longrightarrow> t < tl_next s \<and> sk_index (tl_tasks s t) = i"
  by (auto simp: table_ok_def dest: map_of_SomeD)







lemma cancel_sel [simp]:
  "tl_pool_size (cancel_task t s) = tl_pool_size s" "tl_due (cancel_task t s) = tl_due s"
  "tl_notices (cancel_task t s) = tl_notices s" "tl_slots (cancel_task t s) = tl_slots s"
  "tl_next (cancel_task t s) = tl_next s" "tl_latency (cancel_task t s) = tl_latency s"
  "tl_connected (cancel_task t s) = tl_connected s" "tl_stopping (cancel_task t s) = tl_stopping s"
  "sk_phase (tl_tasks (cancel_task t s) u) = sk_phase (tl_tasks s u)"
  "sk_index (tl_tasks (cancel_task t s) u) = sk_index (tl_tasks s u)"
  "sk_backoff (tl_tasks (cancel_task t s) u) = sk_backoff (tl_tasks s u)"
  "sk_cancelled (tl_tasks (cancel_task t s) u) \<longleftrightarrow>
     sk_cancelled (tl_tasks s u) \<or> u = t \<and> sk_phase (tl_tasks s t) \<noteq> Ended"
  by (simp_all add: cancel_task_def)









lemma fold_cancel:
  fixes ts s defines "s' \<equiv> fold cancel_task ts s"
  shows "tl_slots s' = tl_slots s" "tl_next s' = tl_next s" "tl_pool_size s' = tl_pool_size s" "tl_latency s' = tl_latency s"
    "tl_connected s' = tl_connected s" "sk_phase (tl_tasks s' u) = sk_phase (tl_tasks s u)"
    "sk_index (tl_tasks s' u) = sk_index (tl_tasks s u)" "sk_backoff (tl_tasks s' u) = sk_backoff (tl_tasks s u)"
    "sk_cancelled (tl_tasks s' u) \<longleftrightarrow> sk_cancelled (tl_tasks s u) \<or> u \<in> set ts \<and> sk_phase (tl_tasks s u) \<noteq> Ended"
  unfolding s'_def by (induction ts arbitrary: s) auto


subsection \<open>Every run\<close>













subsection \<open>Backing off, waking up, and slots that died\<close>

text \<open>Refusals in a row double the backoff up to its ceiling; a success or a wake-up resets it.\<close>

lemma backoff_doubles:
  assumes "sk_backoff k = min (BACKOFF_START_S * 2 ^ n) BACKOFF_MAX_S"
  shows "min (sk_backoff k * 2) BACKOFF_MAX_S = min (BACKOFF_START_S * 2 ^ Suc n) BACKOFF_MAX_S"
  using assms by (auto simp: backoff_defs min_def)

lemma wake_redials:
  assumes "\<not> sk_cancelled (tl_tasks s t)" "sk_phase (tl_tasks s t) = Sleeping d"
  shows "sk_phase (tl_tasks (wake_now s) t) = Dialling \<and> sk_backoff (tl_tasks (wake_now s) t) = BACKOFF_START_S"
  using assms by (simp add: wake_now_def woken_def)

text \<open>A slot that ended with an exception the loop does not catch is restarted by the next pass only, and a pass runs
  only after a resize: until then the pool is one slot short.\<close>

lemma ended_stays:
  assumes "sk_phase (tl_tasks s t) = Ended" "e \<noteq> Supervise" "t < tl_next s"
  shows "sk_phase (tl_tasks (slot_exec e s) t) = Ended \<and> t < tl_next (slot_exec e s)"
  using assms by (cases e)
    (auto simp: slot_exec_def resize_def slot_connected_def slot_failed_def slot_ended_def slot_served_def first_bytes_def
      note_latency_def running_def sleeping_def wake_now_def woken_def stop_pool_def fold_cancel Let_def split: option.split)

lemma dead_slot_waits_for_resize:
  assumes "sk_phase (tl_tasks s t) = Ended" "t < tl_next s" "Supervise \<notin> set es"
  shows "sk_phase (tl_tasks (fold slot_exec es s) t) = Ended"
  using assms
proof (induction es arbitrary: s)
  case (Cons e es)
  with ended_stays [of s t e] show ?case by auto
qed simp

lemma no_pass_without_resize:
  "settled s \<Longrightarrow> (\<And>n. e \<noteq> SetSize n) \<Longrightarrow> e \<noteq> StopPool \<Longrightarrow> e \<noteq> Supervise \<Longrightarrow> settled (slot_exec e s)"
  by (cases e) (auto simp: settled_def slot_exec_def slot_connected_def slot_failed_def slot_ended_def slot_served_def
      first_bytes_def note_latency_def wake_now_def Let_def)

text \<open>The round-trip time reported: of a positive sample, and no other is smaller beyond the rounding.\<close>

lemma rtt_ms_smallest:
  assumes "rtt_ms d = Some v"
  shows "\<exists>x \<in> snd ` set d. 0 < x \<and> \<bar>v - x * 1000\<bar> \<le> 1/20 \<and> (\<forall>y \<in> snd ` set d. 0 < y \<longrightarrow> x \<le> y)"
proof -
  let ?S = "{x \<in> snd ` set d. 0 < x}"
  have S: "set (filter (\<lambda>v. 0 < v) (map snd d)) = ?S" by auto
  have ne: "?S \<noteq> {}" and v: "v = py_round 1 (Min ?S * 1000)"
    using assms by (auto simp: rtt_ms_def Let_def S filter_empty_conv split: if_splits)
  have fin: "finite ?S" by simp
  have "\<bar>v - Min ?S * 1000\<bar> \<le> 1/20"
    using round_half_even_bounds [of "Min ?S * 1000 * 10"] unfolding v py_round_def by (simp add: abs_if split: if_splits)
  moreover have "Min ?S \<in> ?S" using fin ne by (rule Min_in)
  moreover have "Min ?S \<le> y" if "y \<in> ?S" for y using fin that by (rule Min_le)
  ultimately show ?thesis by blast
qed

text \<open>What the coordinator sees of the client is what the model of the coordinator keeps of it.\<close>

definition client_view :: "int \<Rightarrow> nat \<Rightarrow> tunnel_loop \<Rightarrow> tunnel_client" where
  "client_view prt wakes s =
     \<lparr>tc_backend_port = prt, tc_pool_size = tl_pool_size s, tc_rtt_ms = rtt_ms (tl_latency s), tc_wakes = wakes\<rparr>"

lemma client_view_resize: "client_view prt w (slot_exec (SetSize sz) s) = set_pool_size sz (client_view prt w s)"
  by (simp add: client_view_def slot_exec_def resize_def set_pool_size_def split: option.split)

section \<open>One connection, end to end\<close>

text \<open>Both ends of one tunnel connection: the manager's \<open>TunnelConn\<close> with its history (\<open>se_run\<close>), the messages on
  their way to the worker and to the manager, the coroutine \<open>_carry\<close> and the worker's connection to its backend.
  \<open>se_backend_in\<close> is what the worker wrote to the backend, \<open>se_backend_out\<close> what the backend sent and the worker has
  not read yet, \<open>se_finished\<close> whether the backend has ended its stream. \<open>se_written\<close>, \<open>se_produced\<close>, \<open>se_complete\<close>
  (the worker read the backend to its end) and \<open>se_lost\<close> (the network dropped the connection) are history.\<close>

datatype carry_phase = AwaitFirst | Bridging | Over

record session =
  se_run :: conn_run
  se_down :: "string list"
  se_up :: "string list"
  se_phase :: carry_phase
  se_backend_in :: string
  se_backend_out :: string
  se_finished :: bool
  se_written :: string
  se_produced :: string
  se_complete :: bool
  se_lost :: bool

definition session_start :: session where
  "session_start = \<lparr>se_run = run_init, se_down = [], se_up = [], se_phase = AwaitFirst, se_backend_in = [],
     se_backend_out = [], se_finished = False, se_written = [], se_produced = [], se_complete = False, se_lost = False\<rparr>"

text \<open>\<open>_carry\<close>: the first message opens the backend connection and is written to it, or closes the tunnel when the
  backend cannot be reached; later ones go through \<open>ws_to_backend\<close>.\<close>

definition ws_to_backend :: "string \<Rightarrow> session \<Rightarrow> session" where
  "ws_to_backend m s = s\<lparr>se_backend_in := se_backend_in s @ m\<rparr>"

definition carry_first :: "bool \<Rightarrow> string \<Rightarrow> session \<Rightarrow> session" where
  "carry_first reachable m s =
     (if reachable then ws_to_backend m (s\<lparr>se_phase := Bridging\<rparr>) else s\<lparr>se_phase := Over\<rparr>)"

text \<open>One turn of \<open>backend_to_ws\<close>: a read that returned between one and \<open>COPY_CHUNK\<close> bytes, or the end of the
  backend's stream, which ends \<open>_carry\<close>.\<close>

definition backend_to_ws :: "nat \<Rightarrow> session \<Rightarrow> session" where
  "backend_to_ws k s =
     (let n = min (Suc k) COPY_CHUNK in
      if se_backend_out s \<noteq> []
      then s\<lparr>se_up := se_up s @ [take n (se_backend_out s)], se_backend_out := drop n (se_backend_out s)\<rparr>
      else if se_finished s then s\<lparr>se_phase := Over, se_complete := True\<rparr> else s)"

datatype session_event = ManagerWrites string | WorkerReceives bool | BackendSends string | BackendEnds | WorkerReads nat
  | SeesClose | Arrives | ManagerReads nat | ManagerCloses | HangupSeen | ConnectionLost

definition session_exec :: "session_event \<Rightarrow> session \<Rightarrow> session" where
  "session_exec e s =
     (case e of
        ManagerWrites d \<Rightarrow>
          (case conn_write d (conn (se_run s)) of Inl _ \<Rightarrow> s
           | Inr m \<Rightarrow> s\<lparr>se_down := se_down s @ [m], se_written := se_written s @ m\<rparr>)
      | WorkerReceives reachable \<Rightarrow>
          (case se_down s of [] \<Rightarrow> s
           | m # rest \<Rightarrow>
               (case se_phase s of
                  AwaitFirst \<Rightarrow> carry_first reachable m (s\<lparr>se_down := rest\<rparr>)
                | Bridging \<Rightarrow> ws_to_backend m (s\<lparr>se_down := rest\<rparr>)
                | Over \<Rightarrow> s))
      | BackendSends d \<Rightarrow>
          if se_phase s = Bridging \<and> \<not> se_finished s
          then s\<lparr>se_backend_out := se_backend_out s @ d, se_produced := se_produced s @ d\<rparr> else s
      | BackendEnds \<Rightarrow> if se_phase s = Bridging then s\<lparr>se_finished := True\<rparr> else s
      | WorkerReads k \<Rightarrow> if se_phase s = Bridging then backend_to_ws k s else s
      | SeesClose \<Rightarrow> if closed (conn (se_run s)) \<and> se_down s = [] then s\<lparr>se_phase := Over\<rparr> else s
      | Arrives \<Rightarrow>
          (case se_up s of [] \<Rightarrow> s | m # rest \<Rightarrow> s\<lparr>se_run := conn_exec (Message m) (se_run s), se_up := rest\<rparr>)
      | ManagerReads n \<Rightarrow> s\<lparr>se_run := conn_exec (Read n) (se_run s)\<rparr>
      | ManagerCloses \<Rightarrow> s\<lparr>se_run := conn_exec Close (se_run s)\<rparr>
      | HangupSeen \<Rightarrow>
          if se_phase s = Over \<and> se_up s = [] then s\<lparr>se_run := conn_exec Disconnect (se_run s)\<rparr> else s
      | ConnectionLost \<Rightarrow>
          s\<lparr>se_run := conn_exec Disconnect (se_run s), se_up := [], se_phase := Over, se_lost := True\<rparr>)"

text \<open>What each direction holds: bytes handed on, bytes under way, bytes still to be read.\<close>

definition down_ok :: "session \<Rightarrow> bool" where
  "down_ok s \<longleftrightarrow> (if se_phase s = Over then \<exists>rest. se_written s = se_backend_in s @ rest
                   else se_written s = se_backend_in s @ concat (se_down s))"

definition up_ok :: "session \<Rightarrow> bool" where
  "up_ok s \<longleftrightarrow> (if se_lost s then se_up s = [] \<and> (\<exists>rest. se_produced s = sent (se_run s) @ rest)
                 else se_produced s = sent (se_run s) @ concat (se_up s) @ se_backend_out s)"

definition session_ok :: "session \<Rightarrow> bool" where
  "session_ok s \<longleftrightarrow> run_ok (se_run s) \<and> down_ok s \<and> up_ok s
     \<and> (pumping (conn (se_run s)) \<or> se_phase s = Over \<and> se_up s = []) \<and> (se_lost s \<longrightarrow> se_phase s = Over)
     \<and> (se_complete s \<longrightarrow> se_phase s = Over \<and> se_backend_out s = [])"

lemma conn_exec_sel [simp]:
  "sent (conn_exec (Read n) r) = sent r" "sent (conn_exec Close r) = sent r" "sent (conn_exec Disconnect r) = sent r"
  "sent (conn_exec (Message d) r) = sent r @ (if pumping (conn r) then d else [])"
  "pumping (conn (conn_exec (Read n) r)) = pumping (conn r)" "pumping (conn (conn_exec Close r)) = pumping (conn r)"
  "pumping (conn (conn_exec (Message d) r)) = pumping (conn r)"
  by (auto simp: conn_exec_def conn_read_def conn_close_def pump_message_def split: list.splits)

lemma session_ok_exec:
  assumes ok: "session_ok s" shows "session_ok (session_exec e s)"
proof (cases e)
  case (ManagerWrites d)
  with ok show ?thesis
    by (auto simp: session_exec_def session_ok_def down_ok_def up_ok_def conn_write_def)
next
  case (WorkerReceives b)
  with ok show ?thesis
    by (cases "se_phase s")
       (auto simp: session_exec_def session_ok_def down_ok_def up_ok_def carry_first_def ws_to_backend_def split: list.splits)
next
  case (WorkerReads k)
  with ok show ?thesis
    by (auto simp: session_exec_def session_ok_def down_ok_def up_ok_def backend_to_ws_def Let_def)
next
  case Arrives
  with ok show ?thesis
    by (auto simp: session_exec_def session_ok_def down_ok_def up_ok_def run_ok_exec split: list.splits)
qed (use ok in \<open>auto simp: session_exec_def session_ok_def down_ok_def up_ok_def run_ok_exec split: if_splits\<close>)

lemma session_ok_start: "session_ok session_start"
  using run_ok_init by (simp add: session_ok_def session_start_def down_ok_def up_ok_def run_init_def conn_init_def)

interpretation session: event_machine session_start session_exec session_ok
  by unfold_locales (auto intro: session_ok_start session_ok_exec)

text \<open>C33: A tunnel carries an HTTP connection unmodified from end to end. Over any interleaving of the manager, the
  worker, the backend and the network: the bytes written to the backend are a leading part of the bytes the manager
  wrote, and all of them once the worker has taken every message of a connection that is still open; the bytes the
  manager reads are a leading part of the bytes the backend sent; and when the worker has read the backend's answer to
  its end and the network did not drop the connection, the manager sees the end only after the whole answer.\<close>

theorem tunnel_end_to_end:
  assumes "s = fold session_exec es session_start"
  shows "(\<exists>rest. se_written s = se_backend_in s @ rest)
    \<and> (se_phase s \<noteq> Over \<and> se_down s = [] \<longrightarrow> se_backend_in s = se_written s)
    \<and> (\<exists>rest. se_produced s = delivered (se_run s) @ rest)
    \<and> (eof_seen (se_run s) \<and> se_complete s \<and> \<not> se_lost s \<longrightarrow> delivered (se_run s) = se_produced s)"
proof -
  have ok: "session_ok s" unfolding assms by (rule session.good_reachable)
  then have run: "run_ok (se_run s)" and up: "up_ok s" and down: "down_ok s" by (simp_all add: session_ok_def)
  from run have sent: "sent (se_run s) = delivered (se_run s) @ pending (conn (se_run s)) @ concat (incoming (conn (se_run s)))"
    by (simp add: run_ok_def)
  have "\<exists>rest. se_produced s = delivered (se_run s) @ rest"
    using up unfolding up_ok_def sent by (auto split: if_splits)
  moreover have "delivered (se_run s) = se_produced s" if "eof_seen (se_run s)" "se_complete s" "\<not> se_lost s"
  proof -
    have "\<not> pumping (conn (se_run s))" "delivered (se_run s) = sent (se_run s)" using run that by (auto simp: run_ok_def)
    with ok that up show ?thesis by (auto simp: session_ok_def up_ok_def)
  qed
  ultimately show ?thesis using down by (auto simp: down_ok_def split: if_splits)
qed

theorem tunnel_end_to_end_witness:
  "delivered (se_run (fold session_exec [ManagerWrites ''GET'', WorkerReceives True, BackendSends ''OK'', BackendEnds,
     WorkerReads 0, Arrives, ManagerReads 9, WorkerReads 5, WorkerReads 5, Arrives, HangupSeen, ManagerReads 9, ManagerReads 9]
     session_start)) = ''OK''"
proof -
  let ?es = "[ManagerWrites ''GET'', WorkerReceives True, BackendSends ''OK'', BackendEnds, WorkerReads 0, Arrives,
    ManagerReads 9, WorkerReads 5, WorkerReads 5, Arrives, HangupSeen, ManagerReads 9, ManagerReads 9]"
  let ?s = "fold session_exec ?es session_start"
  have "eof_seen (se_run ?s)" "se_complete ?s" "\<not> se_lost ?s" "se_produced ?s = ''OK''"
    by (simp_all add: session_exec_def session_start_def run_init_def conn_init_def conn_write_def carry_first_def
        ws_to_backend_def backend_to_ws_def conn_exec_def pump_message_def pump_end_def conn_read_def COPY_CHUNK_def Let_def)
  with tunnel_end_to_end [of ?s ?es] show ?thesis by simp
qed

end
