(* ===== verification/EnvFiles.thy ===== *)
theory EnvFiles
  imports Prelude
begin

text \<open>
  Where settings come from on disk: the \<open>.env\<close> loader (\<open>src/src/oumigo/common/env.py\<close>), the search for the
  configuration file (\<open>src/src/oumigo/config/locate.py\<close>), and the reader of the pod script's secrets
  (\<open>read_env_file\<close> in \<open>src/deploy/pods/oumigo_pods.py\<close>). A file is its text; \<open>os.environ\<close> is a dictionary.
\<close>

section \<open>The .env loader\<close>

definition unquote_value :: "string \<Rightarrow> string" where
  "unquote_value v =
     (if 2 \<le> length v \<and> hd v = last v \<and> hd v \<in> {CHR 0x27, CHR 0x22} then butlast (tl v) else v)"

text \<open>What one line of the file assigns, if anything.\<close>

definition env_line :: "string \<Rightarrow> (string \<times> string) option" where
  "env_line raw =
     (let line = py_strip raw in
      if line = [] \<or> py_startswith line ''#'' then None
      else
        let body = (if py_startswith line ''export '' then py_lstrip (drop 7 line) else line);
            (key, sep, val) = py_partition (CHR ''='') body in
        if \<not> sep \<or> py_strip key = [] then None else Some (py_strip key, unquote_value (py_strip val)))"

definition load_line :: "bool \<Rightarrow> string \<Rightarrow> nat \<times> (string \<times> string) list \<Rightarrow> nat \<times> (string \<times> string) list" where
  "load_line override raw st =
     (case st of (applied, environ) \<Rightarrow>
        (case env_line raw of None \<Rightarrow> st
         | Some (key, val) \<Rightarrow>
             if \<not> override \<and> map_of environ key \<noteq> None then st else (Suc applied, AList.update key val environ)))"

text \<open>\<open>None\<close>: there is no such file.\<close>

definition load_env_file :: "string option \<Rightarrow> bool \<Rightarrow> (string \<times> string) list \<Rightarrow> nat \<times> (string \<times> string) list" where
  "load_env_file content override environ =
     (case content of None \<Rightarrow> (0, environ)
      | Some txt \<Rightarrow> fold (load_line override) (py_splitlines txt) (0, environ))"

section \<open>The configuration file\<close>

text \<open>\<open>expanduser\<close> and the existence of files are arguments; \<open>home\<close> is \<open>str(Path.home())\<close>.\<close>

definition config_file_search_path :: "(string \<Rightarrow> string) \<Rightarrow> string \<Rightarrow> (string \<Rightarrow> string option) \<Rightarrow> string option \<Rightarrow> string list" where
  "config_file_search_path expand home environ explicit =
     (if truthy explicit then [expand (the explicit)] else [])
     @ (if truthy (environ ''OUMIGO_CONFIG_FILE'') then [expand (the (environ ''OUMIGO_CONFIG_FILE''))] else [])
     @ [(if truthy (environ ''XDG_CONFIG_HOME'') then the (environ ''XDG_CONFIG_HOME'') else home @ ''/.config'')
          @ ''/oumigo/manager.yaml'',
        ''/etc/oumigo/manager.yaml'']"

definition resolve_config_file ::
  "(string \<Rightarrow> bool) \<Rightarrow> (string \<Rightarrow> string) \<Rightarrow> string \<Rightarrow> (string \<Rightarrow> string option) \<Rightarrow> string option \<Rightarrow> string option" where
  "resolve_config_file is_file expand home environ explicit =
     List.find is_file (config_file_search_path expand home environ explicit)"

section \<open>The secrets of the pod script\<close>

definition strip_quotes :: "string \<Rightarrow> string" where
  "strip_quotes s =
     (let q = (\<lambda>c. c \<in> {CHR 0x27, CHR 0x22}) in rev (dropWhile q (rev (dropWhile q s))))"

definition secret_line :: "string \<Rightarrow> (string \<times> string) list \<Rightarrow> (string \<times> string) list" where
  "secret_line raw vals =
     (let line = py_strip raw; (key, sep, val) = py_partition (CHR ''='') line in
      if line \<noteq> [] \<and> \<not> py_startswith line ''#'' \<and> sep
      then AList.update (py_strip key) (strip_quotes (py_strip val)) vals else vals)"

text \<open>The file with its permission bits, or none.\<close>

definition read_env_file :: "string \<Rightarrow> (nat \<times> string) option \<Rightarrow> (string \<times> string) list res" where
  "read_env_file path file =
     (case file of
        None \<Rightarrow> Inl (SystemExit (''oumigo-pods: '' @ path @ '' not found (it holds the provider API keys and HF_TOKEN, mode 0600)''))
      | Some (mode, txt) \<Rightarrow>
          if mode mod 64 \<noteq> 0
          then Inl (SystemExit (''oumigo-pods: '' @ path @ '' must be readable by its owner only (chmod 600)''))
          else Inr (fold secret_line (py_splitlines txt) []))"

section \<open>Properties\<close>

lemma load_line_eval:
  "load_line override raw (n, environ) =
     (case env_line raw of None \<Rightarrow> (n, environ)
      | Some (k, v) \<Rightarrow> if \<not> override \<and> map_of environ k \<noteq> None then (n, environ) else (Suc n, AList.update k v environ))"
  by (simp add: load_line_def)

text \<open>The assignments of a file, first and last of a key.\<close>

definition assigned :: "string \<Rightarrow> (string \<times> string) list" where
  "assigned txt = List.map_filter env_line (py_splitlines txt)"

lemma load_keeps_explicit:
  "map_of environ k = Some v \<Longrightarrow> map_of (snd (fold (load_line False) ls (n, environ))) k = Some v"
proof (induction ls arbitrary: n environ)
  case (Cons l ls)
  have "map_of (snd (load_line False l (n, environ))) k = Some v"
    using Cons.prems by (auto simp: load_line_eval update_conv' split: option.split)
  with Cons.IH show ?case by (cases "load_line False l (n, environ)") simp
qed simp

lemma load_first_wins:
  "map_of environ k = None \<Longrightarrow>
     map_of (snd (fold (load_line False) ls (n, environ))) k = map_of (List.map_filter env_line ls) k"
proof (induction ls arbitrary: n environ)
  case (Cons l ls)
  show ?case
  proof (cases "env_line l")
    case None
    with Cons show ?thesis by (simp add: load_line_eval map_filter_simps)
  next
    case (Some kv)
    obtain k' v where kv: "kv = (k', v)" by (cases kv)
    show ?thesis
    proof (cases "k' = k")
      case True
      have "map_of (AList.update k v environ) k = Some v" by (simp add: update_conv')
      from load_keeps_explicit [OF this] True Some kv Cons.prems show ?thesis by (simp add: load_line_eval map_filter_simps)
    next
      case False
      with Some kv Cons show ?thesis by (simp add: load_line_eval map_filter_simps update_conv')
    qed
  qed
qed (simp add: map_filter_simps)

lemma load_last_wins:
  "map_of (snd (fold (load_line True) ls (n, environ))) k =
     (case map_of (rev (List.map_filter env_line ls)) k of Some v \<Rightarrow> Some v | None \<Rightarrow> map_of environ k)"
  by (induction ls arbitrary: n environ)
     (auto simp: load_line_eval map_filter_simps update_conv' map_add_def split: option.splits)

text \<open>A variable that is already set wins over the file, unless the file is told to override; otherwise the first
  line of the file that assigns it counts, and with override the last.\<close>

lemma load_env_precedence:
  "map_of (snd (load_env_file (Some txt) False environ)) k =
     (case map_of environ k of Some v \<Rightarrow> Some v | None \<Rightarrow> map_of (assigned txt) k)"
  "map_of (snd (load_env_file (Some txt) True environ)) k =
     (case map_of (rev (assigned txt)) k of Some v \<Rightarrow> Some v | None \<Rightarrow> map_of environ k)"
  by (auto simp: load_env_file_def assigned_def load_keeps_explicit load_first_wins load_last_wins split: option.split)

text \<open>The first existing candidate is used; an explicit file that exists always is.\<close>

lemma explicit_config_wins:
  "truthy explicit \<Longrightarrow> is_file (expand (the explicit)) \<Longrightarrow>
     resolve_config_file is_file expand home environ explicit = Some (expand (the explicit))"
  by (simp add: resolve_config_file_def config_file_search_path_def)

text \<open>The secrets are read only from a file that nobody else can read.\<close>

lemma secrets_private:
  assumes "read_env_file path file = Inr vals"
  shows "\<exists>mode txt. file = Some (mode, txt) \<and> mode mod 64 = 0"
  using assms by (auto simp: read_env_file_def split: option.splits prod.splits if_splits)

end
