(* ===== verification/Pods.thy ===== *)
theory Pods
  imports EnvFiles Settings Supervisor Effects
begin

text \<open>
  The script that rents a GPU machine, starts a worker on it and gives it back
  (\<open>src/deploy/pods/oumigo_pods.py\<close>). The providers' services are one parameter, \<open>pe_api\<close>: a request and the
  state of the services give the answer (or none) and the new state. The \<open>oumigo\<close> command, the clocks and the
  random host id are parameters too. \<open>Fail\<close> is \<open>SystemExit\<close>; log lines, and the counts and durations at the end of
  some messages, are left out. The state file holds what
  \<open>save_state\<close> wrote, or is missing. A pod id is a string, as the providers' APIs declare it.
\<close>

section \<open>JSON values, as Python code uses them\<close>

definition jget :: "json \<Rightarrow> string \<Rightarrow> json res" where
  "jget v k = (case v of JObj kvs \<Rightarrow> Inr (obj_get kvs k) | _ \<Rightarrow> Inl (AttributeErr ''get''))"

definition jindex :: "json \<Rightarrow> string \<Rightarrow> json res" where
  "jindex v k =
     (case v of JObj kvs \<Rightarrow> (case map_of kvs k of Some x \<Rightarrow> Inr x | None \<Rightarrow> Inl (KeyErr k)) | _ \<Rightarrow> Inl (TypeErr ''subscript''))"

definition jor :: "json \<Rightarrow> json \<Rightarrow> json" where
  "jor v d = (if json_true v then v else d)"

text \<open>Iteration: over a list, the keys of a dictionary, the characters of a string.\<close>

definition jiter :: "json \<Rightarrow> json list res" where
  "jiter v =
     (case v of JList xs \<Rightarrow> Inr xs | JObj kvs \<Rightarrow> Inr (map (JStr \<circ> fst) kvs) | JStr s \<Rightarrow> Inr (map (\<lambda>c. JStr [c]) s)
      | _ \<Rightarrow> Inl (TypeErr ''not iterable''))"

text \<open>\<open>v * n\<close> for an integer \<open>n\<close>.\<close>

definition jtimes :: "json \<Rightarrow> int \<Rightarrow> json res" where
  "jtimes v n =
     (case v of JInt i \<Rightarrow> Inr (JInt (i * n)) | JBool b \<Rightarrow> Inr (JInt (if b then n else 0)) | JReal r \<Rightarrow> Inr (JReal (r * of_int n))
      | JStr s \<Rightarrow> Inr (JStr (concat (replicate (nat n) s))) | JList xs \<Rightarrow> Inr (JList (concat (replicate (nat n) xs)))
      | _ \<Rightarrow> Inl (TypeErr ''*''))"

fun each_res :: "('a \<Rightarrow> 'b res) \<Rightarrow> 'a list \<Rightarrow> 'b list res" where
  "each_res f [] = Inr []"
| "each_res f (x # xs) = res_bind (f x) (\<lambda>y. res_map (Cons y) (each_res f xs))"

fun filter_res :: "('a \<Rightarrow> bool res) \<Rightarrow> 'a list \<Rightarrow> 'a list res" where
  "filter_res p [] = Inr []"
| "filter_res p (x # xs) = res_bind (p x) (\<lambda>b. res_map (if b then Cons x else id) (filter_res p xs))"

fun find_res :: "('a \<Rightarrow> bool res) \<Rightarrow> 'a list \<Rightarrow> 'a option res" where
  "find_res p [] = Inr None"
| "find_res p (x # xs) = res_bind (p x) (\<lambda>b. if b then Inr (Some x) else find_res p xs)"

definition text_value :: "json \<Rightarrow> string res" where
  "text_value v = (case v of JStr s \<Rightarrow> Inr s | _ \<Rightarrow> Inl (TypeErr ''expected str instance''))"

fun py_contains :: "string \<Rightarrow> string \<Rightarrow> bool" where
  "py_contains [] sub = (sub = [])"
| "py_contains (c # cs) sub = (py_startswith (c # cs) sub \<or> py_contains cs sub)"

definition fail_with :: "string \<Rightarrow> err" where
  "fail_with msg = SystemExit (''oumigo-pods: '' @ msg)"

section \<open>Settings\<close>

definition PROVIDERS :: "string list" where
  "PROVIDERS = [''secure.runpod'', ''community.runpod'', ''vast.ai'']"

definition VAST_GPUS :: "string list" where
  "VAST_GPUS = [''RTX A6000'', ''A40'', ''L40'', ''L40S'', ''RTX 6000Ada'']"

text \<open>\<open>re.search(r"-cu(\d+)(\d)(?:-|$)", tag)\<close>: the digits must be followed by a dash or the end, so the greedy
  groups take the whole run; \<open>$\<close> also matches before a final line feed.\<close>

fun cuda_in :: "string \<Rightarrow> string option" where
  "cuda_in [] = None"
| "cuda_in (c # cs) =
     (let ds = takeWhile id_digit (drop 2 cs); rest = dropWhile id_digit (drop 2 cs) in
      if py_startswith (c # cs) ''-cu'' \<and> 2 \<le> length ds \<and> (rest = [] \<or> hd rest = CHR ''-'' \<or> rest = [CHR 0x0A])
      then Some (butlast ds @ ''.'' @ [last ds]) else cuda_in cs)"

text \<open>\<open>image.rsplit(":", 1)[-1]\<close>\<close>

definition after_last :: "char \<Rightarrow> string \<Rightarrow> string" where
  "after_last ch s = rev (takeWhile (\<lambda>c. c \<noteq> ch) (rev s))"

definition cuda_from_tag :: "string \<Rightarrow> string option" where
  "cuda_from_tag img = cuda_in (after_last (CHR '':'') img)"

definition required :: "config \<Rightarrow> string \<Rightarrow> string \<Rightarrow> json res" where
  "required blk key path =
     (if json_true (obj_get blk key) then Inr (obj_get blk key)
      else Inl (fail_with (path @ '': `'' @ key @ ''` is required'')))"

record pods_settings =
  ps_name :: string
  ps_image :: string
  ps_gpu_count :: int
  ps_disk_gb :: int
  ps_min_cuda :: "string option"
  ps_providers :: "string list"
  ps_max_price :: "real option"
  ps_retry_interval :: real
  ps_search_timeout :: real
  ps_runpod :: config
  ps_vast :: config
  ps_manager_url :: string
  ps_profile :: json
  ps_extra_env :: "(string \<times> string) list"
  ps_token_ttl :: string
  ps_token_uses :: int
  ps_manager_config :: string
  ps_secrets :: "(string \<times> string) list"
  ps_control_url :: string
  ps_vllm_port :: int
  ps_state_file :: string

text \<open>The options of the command line.\<close>

record pods_options =
  po_providers :: "string list option"
  po_max_price :: "real option"
  po_retry_interval :: "real option"
  po_search_timeout :: "real option"

definition chosen_providers :: "string list option \<Rightarrow> config \<Rightarrow> string list res" where
  "chosen_providers given search =
     res_bind (case given of
         Some (p # ps) \<Rightarrow> Inr (map JStr (p # ps))
       | _ \<Rightarrow> jiter (jor (obj_get search ''providers'') (JList (map JStr PROVIDERS))))
       (\<lambda>ps. let unknown = filter (\<lambda>p. p \<notin> JStr ` set PROVIDERS) ps in
          if unknown = [] then each_res text_value ps
          else res_bind (each_res text_value unknown)
            (\<lambda>us. Inl (fail_with (''unknown provider '' @ py_join '', '' us @ ''; known: '' @ py_join '', '' PROVIDERS))))"

definition price_bound :: "py_text \<Rightarrow> real option \<Rightarrow> config \<Rightarrow> real option res" where
  "price_bound t given search =
     (let bound = (case given of Some p \<Rightarrow> JReal p | None \<Rightarrow> obj_get search ''max_price_per_hour'') in
      if json_true bound then res_map Some (Settings.py_float t bound) else Inr None)"

definition option_or :: "py_text \<Rightarrow> real option \<Rightarrow> config \<Rightarrow> string \<Rightarrow> int \<Rightarrow> real res" where
  "option_or t given search key d =
     (case given of Some r \<Rightarrow> Inr r | None \<Rightarrow> Settings.py_float t (get_or search key (JInt d)))"

definition vllm_port_of :: "config \<Rightarrow> int res" where
  "vllm_port_of manager =
     res_bind (block manager ''worker'') (\<lambda>w. res_bind (block manager ''model'') (\<lambda>m.
       Settings.py_int (jor (obj_get w ''vllm_port'') (jor (obj_get m ''port'') (JInt 7001)))))"

text \<open>\<open>cfg\<close> and \<open>manager\<close> are the two parsed YAML files, \<open>secrets\<close> the result of \<open>read_env_file\<close>.\<close>

definition make_settings ::
  "py_text \<Rightarrow> string \<Rightarrow> config \<Rightarrow> (string \<times> string) list res \<Rightarrow> config \<Rightarrow> pods_options \<Rightarrow> pods_settings res" where
  "make_settings t path cfg secrets manager opts =
     res_bind (block cfg ''worker'') (\<lambda>worker. res_bind (block cfg ''join_token'') (\<lambda>token. res_bind (block cfg ''search'') (\<lambda>search.
     let name = py_str t (jor (obj_get cfg ''name'') (JStr ''oumigo-worker'')) in
     res_bind (required cfg ''image'' path) (\<lambda>img.
     res_bind (Settings.py_int (get_or cfg ''gpu_count'' (JInt 1))) (\<lambda>gpus.
     res_bind (Settings.py_int (get_or cfg ''disk_gb'' (JInt 80))) (\<lambda>disk.
     let cuda = (if json_true (obj_get cfg ''min_cuda_version'') then Some (py_str t (obj_get cfg ''min_cuda_version''))
                 else cuda_from_tag (py_str t img)) in
     res_bind (chosen_providers (po_providers opts) search) (\<lambda>provs.
     res_bind (price_bound t (po_max_price opts) search) (\<lambda>bound.
     res_bind (option_or t (po_retry_interval opts) search ''retry_interval'' 30) (\<lambda>interval.
     res_bind (option_or t (po_search_timeout opts) search ''timeout'' 1800) (\<lambda>timeout.
     res_bind (block cfg ''runpod'') (\<lambda>runpod. res_bind (block cfg ''vast'') (\<lambda>vast.
     res_bind (required worker ''manager_url'' path) (\<lambda>url. res_bind (block worker ''env'') (\<lambda>extra.
     res_bind (Settings.py_int (get_or token ''uses'' (JInt 3))) (\<lambda>uses.
     res_bind secrets (\<lambda>vals.
     res_bind (block manager ''control_plane'') (\<lambda>control. res_bind (block manager ''auth'') (\<lambda>auth.
     res_bind (vllm_port_of manager) (\<lambda>prt.
     let host = py_str t (get_or control ''host'' (JStr ''127.0.0.1'')) in
     Inr \<lparr>ps_name = name, ps_image = py_str t img, ps_gpu_count = gpus, ps_disk_gb = disk, ps_min_cuda = cuda,
          ps_providers = provs, ps_max_price = bound, ps_retry_interval = interval, ps_search_timeout = timeout,
          ps_runpod = runpod, ps_vast = vast, ps_manager_url = py_rstrip_char CHR ''/'' (py_str t url),
          ps_profile = obj_get worker ''profile'', ps_extra_env = map (\<lambda>(k, v). (k, py_str t v)) extra,
          ps_token_ttl = py_str t (get_or token ''ttl'' (JStr ''13h'')), ps_token_uses = uses,
          ps_manager_config = py_str t (get_or cfg ''manager_config'' (JStr ''/etc/oumigo/manager.yaml'')), ps_secrets = vals,
          ps_control_url = ''http://'' @ (if host = ''0.0.0.0'' then ''127.0.0.1'' else host) @ '':'' @ py_str t (get_or control ''port'' (JInt 7014)),
          ps_vllm_port = prt,
          ps_state_file = py_str t (jor (obj_get auth ''state_dir'') (JStr ''/var/lib/oumigo'')) @ ''/pods/'' @ name @ ''.json''\<rparr>)))))))))))))))))))"

definition within_bound :: "py_text \<Rightarrow> pods_settings \<Rightarrow> json \<Rightarrow> bool res" where
  "within_bound t s cost =
     (case ps_max_price s of None \<Rightarrow> Inr True
      | Some b \<Rightarrow> if cost = JNull then Inr False else res_map (\<lambda>c. c \<le> b + 1 / 10 ^ 9) (Settings.py_float t cost))"

section \<open>The world of the script\<close>

text \<open>Requests to the providers' services, by provider. \<open>rp_content\<close> is the body as it came, \<open>rp_json\<close> what it
  parses to (\<open>None\<close>: not JSON).\<close>

datatype cloud_request =
    Prices string
  | Deploy string json
  | GetPod string string
  | DeletePod string string
  | SearchOffers json
  | RentOffer string json

record api_reply =
  rp_status :: nat
  rp_content :: string
  rp_json :: "json option"
  rp_json_type :: bool

record cli_result =
  cr_returncode :: int
  cr_stdout :: string
  cr_stderr :: string

record pod_state =
  st_name :: string
  st_provider :: string
  st_pod_id :: string
  st_host_id :: string
  st_node_id :: string
  st_join_token_id :: string
  st_profile :: json
  st_gpu :: json
  st_price :: json
  st_created_at :: string

text \<open>The services, the state file, the \<open>oumigo\<close> commands run so far and (as history) the pods whose deletion a
  provider refused or did not answer.\<close>

record 'c pods_world =
  pw_cloud :: 'c
  pw_state :: "pod_state option"
  pw_cli :: "string list list"
  pw_undeleted :: "(string \<times> string) set"

text \<open>\<open>pe_cli\<close> gives the result of the last command of a history; \<open>pe_searched n\<close> is the time since the start after
  the \<open>n\<close>-th search, \<open>pe_polled n\<close> the time at the \<open>n\<close>-th look of \<open>wait_serving\<close> and \<open>pe_workers n\<close> what the manager
  answers \<open>/workers\<close> then (\<open>None\<close>: no answer); \<open>pe_saved\<close> is what writing the state file raises.\<close>

record 'c pods_env =
  pe_api :: "cloud_request \<Rightarrow> 'c \<Rightarrow> api_reply option \<times> 'c"
  pe_cli :: "string list list \<Rightarrow> cli_result"
  pe_text :: py_text
  pe_sha256 :: "string \<Rightarrow> string"
  pe_stamp :: string
  pe_hex :: string
  pe_created_at :: string
  pe_searched :: "nat \<Rightarrow> real"
  pe_polled :: "nat \<Rightarrow> real"
  pe_workers :: "nat \<Rightarrow> json option"
  pe_saved :: "err option"

type_synonym ('c, 'a) pods_act = "('c pods_world, 'a) act"

definition ask_cloud :: "'c pods_env \<Rightarrow> string \<Rightarrow> cloud_request \<Rightarrow> ('c, api_reply) pods_act" where
  "ask_cloud env name req w =
     (case pe_api env req (pw_cloud w) of
        (Some r, c) \<Rightarrow> (Inr r, w\<lparr>pw_cloud := c\<rparr>)
      | (None, c) \<Rightarrow> (Inl (fail_with (name @ '' API unreachable'')), w\<lparr>pw_cloud := c\<rparr>))"

definition body_json :: "api_reply \<Rightarrow> json res" where
  "body_json r = (case rp_json r of Some v \<Rightarrow> Inr v | None \<Rightarrow> Inl (ValueErr ''not JSON''))"

text \<open>\<open>_error\<close>\<close>

definition error_text :: "py_text \<Rightarrow> api_reply \<Rightarrow> string" where
  "error_text t r =
     ''HTTP '' @ nat_str (rp_status r) @ '': '' @
     (case rp_json r of
        None \<Rightarrow> take 300 (rp_content r)
      | Some (JObj kvs) \<Rightarrow> py_str t (jor (obj_get kvs ''error'') (jor (obj_get kvs ''msg'') (JObj kvs)))
      | Some v \<Rightarrow> py_str t v)"

definition run_oumigo :: "'c pods_env \<Rightarrow> pods_settings \<Rightarrow> string list \<Rightarrow> ('c, cli_result) pods_act" where
  "run_oumigo env s args w =
     (let calls = pw_cli w @ [''manager'' # args @ [''-c'', ps_manager_config s]] in
      (Inr (pe_cli env calls), w\<lparr>pw_cli := calls\<rparr>))"

text \<open>\<open>re.search(r"id:\s*(\S+)", text)\<close>\<close>

fun id_in :: "string \<Rightarrow> string option" where
  "id_in [] = None"
| "id_in (c # cs) =
     (let rest = py_lstrip (drop 2 cs) in
      if py_startswith (c # cs) ''id:'' \<and> rest \<noteq> [] then Some (takeWhile (\<lambda>x. \<not> py_isspace x) rest) else id_in cs)"

definition mint_join_token :: "'c pods_env \<Rightarrow> pods_settings \<Rightarrow> string \<Rightarrow> ('c, string \<times> string) pods_act" where
  "mint_join_token env s label =
     act_bind (run_oumigo env s [''token'', ''create'', ''--ttl'', ps_token_ttl s, ''--uses'', int_str (ps_token_uses s), ''--label'', label])
       (\<lambda>d. case id_in (cr_stderr d) of
          Some tid \<Rightarrow> if cr_returncode d \<noteq> 0 \<or> py_strip (cr_stdout d) = []
                       then raise (fail_with (''could not mint a join token: '' @ py_strip (cr_stderr d)))
                       else ret (tid, py_strip (cr_stdout d))
        | None \<Rightarrow> raise (fail_with (''could not mint a join token: '' @ py_strip (cr_stderr d))))"

section \<open>The providers\<close>

record runpod =
  rn_secure :: bool
  rn_gpu_types :: "json list"
  rn_data_centers :: "json list"
  rn_registry_auth_id :: json

record vast =
  va_gpu_names :: "json list"
  va_min_gpu_ram_gb :: real
  va_min_reliability :: real
  va_min_download_mbps :: real
  va_max_download_usd_per_tb :: json
  va_registry_user :: json
  va_registry_token :: "string option"

datatype pod_provider = RunPod runpod | Vast vast

definition make_runpod :: "pods_settings \<Rightarrow> bool \<Rightarrow> runpod res" where
  "make_runpod s secure =
     res_bind (jiter (jor (obj_get (ps_runpod s) ''gpu_types'') (JList []))) (\<lambda>gs.
     res_bind (jiter (jor (obj_get (ps_runpod s) ''data_centers'') (JList []))) (\<lambda>ds.
     Inr \<lparr>rn_secure = secure, rn_gpu_types = gs, rn_data_centers = ds,
          rn_registry_auth_id = obj_get (ps_runpod s) ''registry_auth_id''\<rparr>))"

definition make_vast :: "py_text \<Rightarrow> pods_settings \<Rightarrow> vast res" where
  "make_vast t s =
     (let cfg = ps_vast s in
      res_bind (jiter (jor (obj_get cfg ''gpu_names'') (JList (map JStr VAST_GPUS)))) (\<lambda>gs.
      res_bind (Settings.py_float t (get_or cfg ''min_gpu_ram_gb'' (JInt 44))) (\<lambda>ram.
      res_bind (Settings.py_float t (get_or cfg ''min_reliability'' (JReal (98/100)))) (\<lambda>rel.
      res_bind (Settings.py_float t (get_or cfg ''min_download_mbps'' (JInt 500))) (\<lambda>mbps.
      Inr \<lparr>va_gpu_names = gs, va_min_gpu_ram_gb = ram, va_min_reliability = rel, va_min_download_mbps = mbps,
           va_max_download_usd_per_tb = get_or cfg ''max_download_usd_per_tb'' (JInt 10),
           va_registry_user = obj_get cfg ''registry_user'',
           va_registry_token = map_of (ps_secrets s) ''REGISTRY_TOKEN''\<rparr>)))))"

definition provider :: "py_text \<Rightarrow> pods_settings \<Rightarrow> string \<Rightarrow> pod_provider res" where
  "provider t s name =
     (if name = ''vast.ai'' then res_map Vast (make_vast t s) else res_map RunPod (make_runpod s (name = ''secure.runpod'')))"

fun provider_name :: "pod_provider \<Rightarrow> string" where
  "provider_name (Vast v) = ''vast.ai''"
| "provider_name (RunPod r) = (if rn_secure r then ''secure.runpod'' else ''community.runpod'')"

fun provider_key :: "pods_settings \<Rightarrow> pod_provider \<Rightarrow> string option" where
  "provider_key s (Vast v) = map_of (ps_secrets s) ''VAST_API_KEY''"
| "provider_key s (RunPod r) = map_of (ps_secrets s) ''RUNPOD_API_KEY''"

text \<open>\<open>missing\<close>: the secrets that \<open>up\<close> needs and does not have.\<close>

fun provider_missing :: "pods_settings \<Rightarrow> pod_provider \<Rightarrow> string list" where
  "provider_missing s (RunPod r) = (if truthy (provider_key s (RunPod r)) then [] else [''RUNPOD_API_KEY''])"
| "provider_missing s (Vast v) =
     (if truthy (provider_key s (Vast v)) then [] else [''VAST_API_KEY'']) @
     (if json_true (va_registry_user v) \<and> \<not> truthy (va_registry_token v) then [''REGISTRY_TOKEN''] else [])"

text \<open>What \<open>create\<close> returns, and what \<open>get\<close> returns.\<close>

record new_pod =
  np_pod_id :: string
  np_gpu :: json
  np_where :: json
  np_price :: json

record pod_view =
  pv_status :: json
  pv_state :: string
  pv_gpu :: json
  pv_price :: json
  pv_detail :: string

subsection \<open>RunPod\<close>

definition graphql_result :: "api_reply \<Rightarrow> (json \<times> string) res" where
  "graphql_result r =
     res_bind (if rp_content r = [] then Inr (JObj []) else body_json r) (\<lambda>data.
     res_bind (jget data ''errors'') (\<lambda>es. res_bind (jiter (jor es (JList []))) (\<lambda>xs.
     res_bind (each_res (\<lambda>e. case e of JObj kvs \<Rightarrow> text_value (get_or kvs ''message'' (JStr [])) | _ \<Rightarrow> Inl (AttributeErr ''get'')) xs) (\<lambda>ms.
     res_bind (jget data ''data'') (\<lambda>d.
     let errors = py_join ''; '' ms in
     Inr (jor d (JObj []), if \<not> json_true d \<and> errors = [] then ''HTTP '' @ nat_str (rp_status r) else errors))))))"

definition graphql :: "'c pods_env \<Rightarrow> string \<Rightarrow> cloud_request \<Rightarrow> ('c, json \<times> string) pods_act" where
  "graphql env name req = act_bind (ask_cloud env name req) (\<lambda>r. lift_res (graphql_result r))"

text \<open>\<open>listed\<close>: the price of each GPU type the service knows.\<close>

definition listed_prices :: "string \<Rightarrow> json \<Rightarrow> (json \<times> json) list res" where
  "listed_prices fld data =
     res_bind (jget data ''gpuTypes'') (\<lambda>ts. res_bind (jiter (jor ts (JList []))) (\<lambda>gs.
     res_map (\<lambda>ps. fold (\<lambda>(k, v). AList.update k v) ps [])
       (each_res (\<lambda>g. res_bind (jindex g ''id'') (\<lambda>i. res_bind (jget g fld) (\<lambda>c.
          if json_hashable i then Inr (i, c) else Inl (TypeErr ''unhashable'')))) gs)))"

definition offer_for :: "py_text \<Rightarrow> pods_settings \<Rightarrow> (json \<times> json) list \<Rightarrow> json \<Rightarrow> (json \<times> json) option res" where
  "offer_for t s listed gp =
     (if \<not> json_hashable gp then Inl (TypeErr ''unhashable'')
      else case map_of listed gp of
        None \<Rightarrow> Inr None
      | Some p \<Rightarrow>
          if \<not> json_true p then Inr None
          else res_bind (jtimes p (ps_gpu_count s)) (\<lambda>cost.
            if \<not> json_true cost then Inr None
            else res_map (\<lambda>b. if b then Some (gp, cost) else None) (within_bound t s cost)))"

definition runpod_offers :: "'c pods_env \<Rightarrow> pods_settings \<Rightarrow> runpod \<Rightarrow> ('c, (json \<times> json) list) pods_act" where
  "runpod_offers env s r =
     (let name = provider_name (RunPod r) in
      act_bind (graphql env name (Prices name)) (\<lambda>(data, errors).
        if errors \<noteq> [] then raise (fail_with (name @ '': cannot read prices: '' @ errors))
        else lift_res (res_bind (listed_prices (if rn_secure r then ''securePrice'' else ''communityPrice'') data)
          (\<lambda>listed. res_map (List.map_filter id) (each_res (offer_for (pe_text env) s listed) (rn_gpu_types r))))))"

definition runpod_body :: "pods_settings \<Rightarrow> runpod \<Rightarrow> (string \<times> string) list \<Rightarrow> json \<Rightarrow> json option \<Rightarrow> json" where
  "runpod_body s r penv gp dc =
     JObj ([(''name'', JStr (ps_name s)), (''imageName'', JStr (ps_image s)), (''gpuCount'', JInt (ps_gpu_count s)),
            (''cloudType'', JStr (if rn_secure r then ''SECURE'' else ''COMMUNITY'')), (''containerDiskInGb'', JInt (ps_disk_gb s)),
            (''volumeInGb'', JInt 0), (''ports'', JStr []), (''startSsh'', JBool False),
            (''env'', JList (map (\<lambda>(k, v). JObj [(''key'', JStr k), (''value'', JStr v)]) penv))]
       @ (if truthy (ps_min_cuda s) then [(''minCudaVersion'', JStr (the (ps_min_cuda s)))] else [])
       @ (if json_true (rn_registry_auth_id r) then [(''containerRegistryAuthId'', rn_registry_auth_id r)] else [])
       @ [(''gpuTypeId'', gp)] @ (case dc of Some d \<Rightarrow> if json_true d then [(''dataCenterId'', d)] else [] | None \<Rightarrow> []))"

text \<open>\<open>delete\<close>; a provider accepts the deletion of a pod that is already gone.\<close>

definition delete_pod :: "'c pods_env \<Rightarrow> pods_settings \<Rightarrow> pod_provider \<Rightarrow> string \<Rightarrow> ('c, unit) pods_act" where
  "delete_pod env s p pid w =
     (let name = provider_name p;
          okay = (case p of RunPod _ \<Rightarrow> {200, 204, 404} | Vast _ \<Rightarrow> {200, 404}) in
      case ask_cloud env name (DeletePod name pid) w of
        (Inl e, w1) \<Rightarrow> (Inl e, w1\<lparr>pw_undeleted := insert (name, pid) (pw_undeleted w1)\<rparr>)
      | (Inr r, w1) \<Rightarrow>
          if rp_status r \<in> okay then (Inr (), w1)
          else (Inl (fail_with (name @ '': pod '' @ pid @ '' not deleted ('' @ error_text (pe_text env) r @ '')'')),
                w1\<lparr>pw_undeleted := insert (name, pid) (pw_undeleted w1)\<rparr>))"

text \<open>The pod an answer of the deployment says it made.\<close>

definition deployed :: "json \<Rightarrow> json option res" where
  "deployed data =
     res_bind (jget data ''podFindAndDeployOnDemand'') (\<lambda>pod.
       if \<not> json_true pod then Inr None
       else res_map (\<lambda>i. if json_true i then Some pod else None) (jget pod ''id''))"

text \<open>One attempt, and the attempts for each GPU type and data center in turn.\<close>

fun try_deploy :: "'c pods_env \<Rightarrow> pods_settings \<Rightarrow> runpod \<Rightarrow> (string \<times> string) list \<Rightarrow> (json \<times> json option) list
    \<Rightarrow> ('c, new_pod option) pods_act" where
  "try_deploy env s r penv [] = ret None"
| "try_deploy env s r penv ((gp, dc) # rest) =
     (let name = provider_name (RunPod r) in
      act_bind (graphql env name (Deploy name (runpod_body s r penv gp dc))) (\<lambda>(data, errors).
      act_bind (lift_res (deployed data)) (\<lambda>made.
        case made of
          Some pod \<Rightarrow>
            act_bind (lift_res (jget pod ''id'')) (\<lambda>i. act_bind (lift_res (jget pod ''costPerHr'')) (\<lambda>cost.
            act_bind (lift_res (jget pod ''machine'')) (\<lambda>m.
            let pid = py_str (pe_text env) i; machine = jor m (JObj []) in
            act_bind (lift_res (within_bound (pe_text env) s cost)) (\<lambda>fits.
              if \<not> fits then act_then (delete_pod env s (RunPod r) pid) (try_deploy env s r penv rest)
              else act_bind (lift_res (jget machine ''gpuDisplayName'')) (\<lambda>g. act_bind (lift_res (jget machine ''location'')) (\<lambda>loc.
                ret (Some \<lparr>np_pod_id = pid, np_gpu = jor g gp, np_where = loc, np_price = cost\<rparr>)))))))
        | None \<Rightarrow>
            if \<not> py_contains (py_lower errors) ''available''
            then raise (fail_with (name @ '': pod not created on '' @ py_str (pe_text env) gp @ '': '' @ errors))
            else try_deploy env s r penv rest)))"

definition runpod_create :: "'c pods_env \<Rightarrow> pods_settings \<Rightarrow> runpod \<Rightarrow> (string \<times> string) list \<Rightarrow> ('c, new_pod option) pods_act" where
  "runpod_create env s r penv =
     act_bind (runpod_offers env s r) (\<lambda>offers.
       try_deploy env s r penv
         (List.product (map fst offers) (if rn_data_centers r = [] then [None] else map Some (rn_data_centers r))))"

definition runpod_view :: "py_text \<Rightarrow> string \<Rightarrow> string \<Rightarrow> api_reply \<Rightarrow> pod_view option res" where
  "runpod_view t name pid rp =
     (if rp_status rp = 404 then Inr None
      else if rp_status rp \<noteq> 200
      then Inl (fail_with (name @ '': cannot read pod '' @ pid @ '': '' @ error_text t rp))
      else res_bind (body_json rp) (\<lambda>pod. res_bind (jget pod ''desiredStatus'') (\<lambda>status.
        if status = JStr ''TERMINATED'' then Inr None
        else res_bind (jget pod ''gpu'') (\<lambda>g. res_bind (jget (jor g (JObj [])) ''displayName'') (\<lambda>gp.
          res_bind (jget pod ''costPerHr'') (\<lambda>cost.
          Inr (Some \<lparr>pv_status = status, pv_state = (if status = JStr ''RUNNING'' then ''running'' else ''stopped''),
                     pv_gpu = gp, pv_price = cost, pv_detail = []\<rparr>)))))))"

definition runpod_get :: "'c pods_env \<Rightarrow> runpod \<Rightarrow> string \<Rightarrow> ('c, pod_view option) pods_act" where
  "runpod_get env r pid =
     (let name = provider_name (RunPod r) in
      act_bind (ask_cloud env name (GetPod name pid)) (\<lambda>rp. lift_res (runpod_view (pe_text env) name pid rp)))"

subsection \<open>Vast.ai\<close>

definition vast_query :: "py_text \<Rightarrow> pods_settings \<Rightarrow> vast \<Rightarrow> json res" where
  "vast_query t s v =
     (let eq = (\<lambda>x. JObj [(''eq'', x)]); gte = (\<lambda>x. JObj [(''gte'', JReal x)]); lte = (\<lambda>x. JObj [(''lte'', JReal x)]) in
      res_bind (if truthy (ps_min_cuda s)
                then res_map (\<lambda>c. [(''cuda_max_good'', gte c)]) (Settings.py_float t (JStr (the (ps_min_cuda s)))) else Inr []) (\<lambda>cuda.
      res_bind (if va_max_download_usd_per_tb v \<noteq> JNull
                then res_map (\<lambda>c. [(''inet_down_cost'', lte (c / 1024))]) (Settings.py_float t (va_max_download_usd_per_tb v)) else Inr []) (\<lambda>down.
      Inr (JObj ([(''verified'', eq (JBool True)), (''external'', eq (JBool False)), (''rentable'', eq (JBool True)),
         (''rented'', eq (JBool False)), (''num_gpus'', eq (JInt (ps_gpu_count s))), (''gpu_name'', JObj [(''in'', JList (va_gpu_names v))]),
         (''gpu_ram'', gte (va_min_gpu_ram_gb v * 1000)), (''reliability'', gte (va_min_reliability v)),
         (''inet_down'', gte (va_min_download_mbps v)), (''order'', JList [JList [JStr ''dph_total'', JStr ''asc'']]),
         (''type'', JStr ''ondemand''), (''limit'', JInt 10), (''allocated_storage'', JInt (ps_disk_gb s))]
         @ cuda
         @ (case ps_max_price s of Some b \<Rightarrow> if b \<noteq> 0 then [(''dph_total'', lte b)] else [] | None \<Rightarrow> [])
         @ down)))))"

definition vast_found :: "py_text \<Rightarrow> pods_settings \<Rightarrow> api_reply \<Rightarrow> json list res" where
  "vast_found t s r =
     (if rp_status r \<noteq> 200 then Inl (fail_with (''vast.ai: offer search failed: '' @ error_text t r))
      else res_bind (body_json r) (\<lambda>data. res_bind (jget data ''offers'') (\<lambda>os. res_bind (jiter (jor os (JList []))) (\<lambda>xs.
        filter_res (\<lambda>o1. res_bind (jget o1 ''dph_total'') (within_bound t s)) xs))))"

definition vast_offers :: "'c pods_env \<Rightarrow> pods_settings \<Rightarrow> vast \<Rightarrow> ('c, json list) pods_act" where
  "vast_offers env s v =
     act_bind (lift_res (vast_query (pe_text env) s v)) (\<lambda>query.
     act_bind (ask_cloud env ''vast.ai'' (SearchOffers query)) (\<lambda>r. lift_res (vast_found (pe_text env) s r)))"

definition vast_body :: "py_text \<Rightarrow> pods_settings \<Rightarrow> vast \<Rightarrow> (string \<times> string) list \<Rightarrow> json" where
  "vast_body t s v penv =
     JObj ([(''client_id'', JStr ''me''), (''image'', JStr (ps_image s)), (''env'', JObj (map (\<lambda>(k, x). (k, JStr x)) penv)),
            (''disk'', JInt (ps_disk_gb s)), (''label'', JStr (ps_name s)), (''runtype'', JStr ''args''), (''cancel_unavail'', JBool True)]
       @ (if json_true (va_registry_user v) \<and> truthy (va_registry_token v)
          then [(''image_login'', JStr (''-u '' @ py_str t (va_registry_user v) @ '' -p '' @ the (va_registry_token v) @ '' '' @
                   fst (py_partition (CHR ''/'') (ps_image s))))] else []))"

text \<open>\<open>data\<close>, and the contract that an answer says it made.\<close>

definition rent_data :: "api_reply \<Rightarrow> json res" where
  "rent_data r = (if rp_content r \<noteq> [] \<and> rp_json_type r then body_json r else Inr (JObj []))"

definition contract_of :: "api_reply \<Rightarrow> json option res" where
  "contract_of r =
     res_bind (rent_data r) (\<lambda>data.
       if rp_status r \<noteq> 200 then Inr None
       else res_bind (jget data ''success'') (\<lambda>ok. if \<not> json_true ok then Inr None
         else res_map (\<lambda>n. if json_true n then Some n else None) (jget data ''new_contract'')))"

fun try_rent :: "'c pods_env \<Rightarrow> pods_settings \<Rightarrow> json \<Rightarrow> json list \<Rightarrow> ('c, new_pod option) pods_act" where
  "try_rent env s body [] = ret None"
| "try_rent env s body (o1 # rest) =
     act_bind (lift_res (jindex o1 ''id'')) (\<lambda>oid.
     act_bind (ask_cloud env ''vast.ai'' (RentOffer (py_str (pe_text env) oid) body)) (\<lambda>r.
     act_bind (lift_res (contract_of r)) (\<lambda>made.
       case made of
         Some n \<Rightarrow> act_bind (lift_res (jget o1 ''gpu_name'')) (\<lambda>g. act_bind (lift_res (jget o1 ''geolocation'')) (\<lambda>loc.
                   act_bind (lift_res (jget o1 ''dph_total'')) (\<lambda>cost.
                   ret (Some \<lparr>np_pod_id = py_str (pe_text env) n, np_gpu = g, np_where = loc, np_price = cost\<rparr>))))
       | None \<Rightarrow>
           if rp_status r \<in> {401, 403} then raise (fail_with (''vast.ai: not allowed to rent: '' @ error_text (pe_text env) r))
           else try_rent env s body rest)))"

definition vast_create :: "'c pods_env \<Rightarrow> pods_settings \<Rightarrow> vast \<Rightarrow> (string \<times> string) list \<Rightarrow> ('c, new_pod option) pods_act" where
  "vast_create env s v penv =
     act_bind (vast_offers env s v) (\<lambda>offers. try_rent env s (vast_body (pe_text env) s v penv) (take 5 offers))"

definition vast_state :: "json \<Rightarrow> json \<Rightarrow> string" where
  "vast_state actual intended =
     (if actual = JStr ''running'' then ''running''
      else if actual = JStr ''exited'' \<or> actual = JStr ''stopped'' \<or> intended = JStr ''stopped'' then ''stopped''
      else ''starting'')"

definition vast_view :: "py_text \<Rightarrow> string \<Rightarrow> api_reply \<Rightarrow> pod_view option res" where
  "vast_view t pid r =
     (if rp_status r = 404 then Inr None
      else if rp_status r \<noteq> 200
      then Inl (fail_with (''vast.ai: cannot read instance '' @ pid @ '': '' @ error_text t r))
      else res_bind (body_json r) (\<lambda>data. res_bind (jget data ''instances'') (\<lambda>inst.
        if \<not> json_true inst then Inr None
        else res_bind (jget inst ''actual_status'') (\<lambda>actual. res_bind (jget inst ''intended_status'') (\<lambda>intended.
          res_bind (jget inst ''gpu_name'') (\<lambda>g. res_bind (jget inst ''dph_total'') (\<lambda>cost.
          res_bind (jget inst ''status_msg'') (\<lambda>msg. res_bind (if json_true msg then text_value msg else Inr []) (\<lambda>txt.
          Inr (Some \<lparr>pv_status = jor actual (jor intended (JStr ''?'')), pv_state = vast_state actual intended, pv_gpu = g,
                     pv_price = cost, pv_detail = take 120 (py_join '' '' (py_words txt))\<rparr>))))))))))"

definition vast_get :: "'c pods_env \<Rightarrow> string \<Rightarrow> ('c, pod_view option) pods_act" where
  "vast_get env pid =
     act_bind (ask_cloud env ''vast.ai'' (GetPod ''vast.ai'' pid)) (\<lambda>r. lift_res (vast_view (pe_text env) pid r))"

subsection \<open>The interface of a provider\<close>

fun create_pod :: "'c pods_env \<Rightarrow> pods_settings \<Rightarrow> pod_provider \<Rightarrow> (string \<times> string) list \<Rightarrow> ('c, new_pod option) pods_act" where
  "create_pod env s (RunPod r) penv = runpod_create env s r penv"
| "create_pod env s (Vast v) penv = vast_create env s v penv"

fun get_pod :: "'c pods_env \<Rightarrow> pod_provider \<Rightarrow> string \<Rightarrow> ('c, pod_view option) pods_act" where
  "get_pod env (RunPod r) pid = runpod_get env r pid"
| "get_pod env (Vast v) pid = vast_get env pid"

section \<open>The commands\<close>

text \<open>\<open>find_machine\<close>: one search over the providers, and the searches until one succeeds or the time is up.
  \<open>None\<close> means that \<open>fuel\<close> searches did not settle it.\<close>

fun search_once :: "'c pods_env \<Rightarrow> pods_settings \<Rightarrow> (string \<times> string) list \<Rightarrow> pod_provider list
    \<Rightarrow> ('c, (pod_provider \<times> new_pod) option) pods_act" where
  "search_once env s penv [] = ret None"
| "search_once env s penv (p # ps) =
     act_bind (create_pod env s p penv) (\<lambda>made.
       case made of Some pod \<Rightarrow> ret (Some (p, pod)) | None \<Rightarrow> search_once env s penv ps)"

fun find_machine :: "'c pods_env \<Rightarrow> pods_settings \<Rightarrow> (string \<times> string) list \<Rightarrow> pod_provider list \<Rightarrow> nat \<Rightarrow> nat
    \<Rightarrow> ('c, (pod_provider \<times> new_pod) option) pods_act" where
  "find_machine env s penv usable attempt 0 = ret None"
| "find_machine env s penv usable attempt (Suc fuel) =
     act_bind (search_once env s penv usable) (\<lambda>made.
       case made of Some x \<Rightarrow> ret (Some x)
       | None \<Rightarrow>
           if ps_search_timeout s < pe_searched env attempt + ps_retry_interval s
           then raise (fail_with (''no machine found on '' @ py_join '', '' (map provider_name usable)))
           else find_machine env s penv usable (Suc attempt) fuel)"

definition manager_worker :: "json option \<Rightarrow> string \<Rightarrow> json option res" where
  "manager_worker answer node_id =
     (case answer of None \<Rightarrow> Inr None
      | Some body \<Rightarrow>
          let workers = (case body of JObj kvs \<Rightarrow> get_or kvs ''workers'' body | _ \<Rightarrow> body) in
          res_bind (jiter workers) (\<lambda>xs.
            find_res (\<lambda>x. res_map (\<lambda>i. i = JStr node_id) (jget x ''node_id'')) xs))"

text \<open>\<open>wait_serving\<close>, from its \<open>n\<close>-th look on; \<open>False\<close> means that the fuel ran out.\<close>

definition worker_or_pod :: "'c pods_env \<Rightarrow> pod_provider \<Rightarrow> string \<Rightarrow> string \<Rightarrow> nat \<Rightarrow> ('c, json) pods_act" where
  "worker_or_pod env p pid node_id n =
     act_bind (lift_res (manager_worker (pe_workers env n) node_id)) (\<lambda>worker.
       case worker of
         Some x \<Rightarrow> lift_res (jget x ''state'')
       | None \<Rightarrow>
           act_bind (get_pod env p pid) (\<lambda>view.
             case view of
               None \<Rightarrow> raise (fail_with (''pod '' @ pid @ '' is gone before the worker joined''))
             | Some v \<Rightarrow>
                 if pv_state v = ''stopped''
                 then raise (fail_with (''pod '' @ pid @ '' is '' @ py_str (pe_text env) (pv_status v) @ '' before the worker joined'' @
                        (if pv_detail v = [] then [] else '': '' @ pv_detail v)))
                 else ret (JStr (''not registered (pod '' @ py_str (pe_text env) (pv_status v) @ '')''))))"

fun wait_serving :: "'c pods_env \<Rightarrow> pod_provider \<Rightarrow> string \<Rightarrow> string \<Rightarrow> real \<Rightarrow> nat \<Rightarrow> nat \<Rightarrow> ('c, bool) pods_act" where
  "wait_serving env p pid node_id timeout n 0 = ret False"
| "wait_serving env p pid node_id timeout n (Suc fuel) =
     (if timeout \<le> pe_polled env n then raise (fail_with (''worker '' @ node_id @ '' not serving''))
      else act_bind (worker_or_pod env p pid node_id n) (\<lambda>state.
        if state = JStr ''serving'' then ret True
        else if state \<in> {JStr ''failed'', JStr ''lost'', JStr ''stopped''}
        then raise (fail_with (''worker '' @ node_id @ '' is '' @ py_str (pe_text env) state @ ''; see the pod's logs on '' @ provider_name p))
        else wait_serving env p pid node_id timeout (Suc n) fuel))"

definition ignore :: "('s, 'a) act \<Rightarrow> ('s, unit) act" where
  "ignore m = act_bind m (\<lambda>_. ret ())"

definition save_state :: "'c pods_env \<Rightarrow> pod_state \<Rightarrow> ('c, unit) pods_act" where
  "save_state env x =
     (case pe_saved env of Some e \<Rightarrow> raise e | None \<Rightarrow> modify (\<lambda>w. w\<lparr>pw_state := Some x\<rparr>))"

text \<open>The state that \<open>down\<close> works on: the recorded one, unless another pod was named.\<close>

definition down_state :: "string option \<Rightarrow> pod_state option \<Rightarrow> pod_state option" where
  "down_state pod_id known =
     (case known of None \<Rightarrow> None
      | Some x \<Rightarrow> if truthy pod_id \<and> the pod_id \<noteq> st_pod_id x then None else Some x)"

definition known_node :: "pod_state option \<Rightarrow> string option" where
  "known_node st = (case st of Some x \<Rightarrow> if st_node_id x \<noteq> [] then Some (st_node_id x) else None | None \<Rightarrow> None)"

text \<open>Revoke the node first, so that the router stops sending it requests; then delete the pod, which stops the bill,
  and clean up.\<close>

definition take_down :: "'c pods_env \<Rightarrow> pods_settings \<Rightarrow> pod_provider \<Rightarrow> string \<Rightarrow> pod_state option \<Rightarrow> ('c, unit) pods_act" where
  "take_down env s p pid st =
     act_then (case known_node st of Some n \<Rightarrow> ignore (run_oumigo env s [''node'', ''revoke'', n]) | None \<Rightarrow> ret ())
     (act_then (delete_pod env s p pid)
     (act_then (case st of Some x \<Rightarrow> if st_join_token_id x \<noteq> [] then ignore (run_oumigo env s [''token'', ''revoke'', st_join_token_id x]) else ret ()
                | None \<Rightarrow> ret ())
     (act_then (case known_node st of Some n \<Rightarrow> ignore (run_oumigo env s [''node'', ''unrevoke'', n]) | None \<Rightarrow> ret ())
     (case st of Some x \<Rightarrow> modify (\<lambda>w. w\<lparr>pw_state := None\<rparr>) | None \<Rightarrow> ret ()))))"

definition cmd_down :: "'c pods_env \<Rightarrow> pods_settings \<Rightarrow> string option \<Rightarrow> string option \<Rightarrow> ('c, unit) pods_act" where
  "cmd_down env s pod_id pname =
     act_bind (gets pw_state) (\<lambda>known.
     let st = down_state pod_id known;
         pid = str_or pod_id (map_option st_pod_id st);
         name = str_or pname (map_option st_provider st) in
     if \<not> truthy pid \<or> \<not> truthy name
     then raise (fail_with (''no pod recorded for '' @ ps_name s @ ''; pass --pod-id and --provider''))
     else act_bind (lift_res (provider (pe_text env) s (the name))) (\<lambda>p.
       if \<not> truthy (provider_key s p) then raise (fail_with (the name @ '': its API key is not set in the secrets file''))
       else take_down env s p (the pid) st))"

text \<open>The environment of the container.\<close>

definition pod_env :: "py_text \<Rightarrow> pods_settings \<Rightarrow> string \<Rightarrow> string \<Rightarrow> (string \<times> string) list" where
  "pod_env t s token host_id =
     (let base = fold (\<lambda>(k, v). AList.update k v)
            ([(''OUMIGO_MANAGER_URL'', ps_manager_url s), (''OUMIGO_JOIN_TOKEN'', token), (''OUMIGO_HOST_ID'', host_id)] @ ps_extra_env s) [];
          prof = (if json_true (ps_profile s) then AList.update ''OUMIGO_MODEL_PROFILE'' (py_str t (ps_profile s)) base else base) in
      case map_of (ps_secrets s) ''HF_TOKEN'' of
        Some h \<Rightarrow> if h \<noteq> [] then AList.update ''HF_TOKEN'' h prof else prof
      | None \<Rightarrow> prof)"

text \<open>\<open>try: find_machine(...) finally: if not pod: revoke\<close>\<close>

definition revoke_unless_found :: "'c pods_env \<Rightarrow> pods_settings \<Rightarrow> string \<Rightarrow> ('c, 'a) pods_act \<Rightarrow> ('c, 'a) pods_act" where
  "revoke_unless_found env s tid m w =
     (case m w of
        (Inl e, w1) \<Rightarrow> (Inl e, snd (run_oumigo env s [''token'', ''revoke'', tid] w1))
      | (Inr x, w1) \<Rightarrow> (Inr x, w1))"

text \<open>\<open>except Fail\<close>: the handler runs and the exception goes on.\<close>

definition on_fail :: "('s, 'a) act \<Rightarrow> ('s, unit) act \<Rightarrow> ('s, 'a) act" where
  "on_fail m h s =
     (case m s of
        (Inl (SystemExit msg), s1) \<Rightarrow> (case h s1 of (Inl e, s2) \<Rightarrow> (Inl e, s2) | (Inr _, s2) \<Rightarrow> (Inl (SystemExit msg), s2))
      | r \<Rightarrow> r)"

definition running_pod :: "'c pods_env \<Rightarrow> pods_settings \<Rightarrow> pod_state option \<Rightarrow> ('c, pod_view option) pods_act" where
  "running_pod env s known =
     (case known of None \<Rightarrow> ret None
      | Some x \<Rightarrow> act_bind (lift_res (provider (pe_text env) s (st_provider x))) (\<lambda>p. get_pod env p (st_pod_id x)))"

definition usable_providers :: "'c pods_env \<Rightarrow> pods_settings \<Rightarrow> pod_provider list res" where
  "usable_providers env s =
     res_map (filter (\<lambda>p. provider_missing s p = [])) (each_res (provider (pe_text env) s) (ps_providers s))"

text \<open>The worker's identity, the same on any provider and across container restarts, and what is recorded.\<close>

definition new_host_id :: "'c pods_env \<Rightarrow> pods_settings \<Rightarrow> string" where
  "new_host_id env s = ps_name s @ ''-'' @ pe_hex env"

definition new_record :: "'c pods_env \<Rightarrow> pods_settings \<Rightarrow> string \<Rightarrow> pod_provider \<Rightarrow> new_pod \<Rightarrow> pod_state" where
  "new_record env s tid p pod =
     \<lparr>st_name = ps_name s, st_provider = provider_name p, st_pod_id = np_pod_id pod, st_host_id = new_host_id env s,
      st_node_id = compute_node_id (pe_sha256 env) (new_host_id env s) (ps_vllm_port s), st_join_token_id = tid,
      st_profile = ps_profile s, st_gpu = np_gpu pod, st_price = np_price pod, st_created_at = pe_created_at env\<rparr>"

text \<open>\<open>cmd_up\<close> from the search on; \<open>False\<close> means that a loop ran out of fuel.\<close>

definition rent_and_record :: "'c pods_env \<Rightarrow> pods_settings \<Rightarrow> bool \<Rightarrow> real \<Rightarrow> nat \<Rightarrow> pod_provider list \<Rightarrow> string \<Rightarrow> string \<Rightarrow> ('c, bool) pods_act" where
  "rent_and_record env s wait timeout fuel usable tid token =
     act_bind (revoke_unless_found env s tid (find_machine env s (pod_env (pe_text env) s token (new_host_id env s)) usable 1 fuel)) (\<lambda>found.
       case found of None \<Rightarrow> ret False
       | Some (p, pod) \<Rightarrow>
           let x = new_record env s tid p pod in
           act_then (save_state env x)
             (if wait then on_fail (wait_serving env p (st_pod_id x) (st_node_id x) timeout 0 fuel) (cmd_down env s None None)
              else ret True))"

definition cmd_up :: "'c pods_env \<Rightarrow> pods_settings \<Rightarrow> bool \<Rightarrow> real \<Rightarrow> nat \<Rightarrow> ('c, bool) pods_act" where
  "cmd_up env s wait timeout fuel =
     act_bind (gets pw_state) (\<lambda>known. act_bind (running_pod env s known) (\<lambda>view.
       case view of
         Some _ \<Rightarrow> raise (fail_with (''pod '' @ st_pod_id (the known) @ '' ('' @ ps_name s @ '') is already up on '' @
                      st_provider (the known) @ ''; run `down` first''))
       | None \<Rightarrow> act_bind (lift_res (usable_providers env s)) (\<lambda>usable.
           if usable = [] then raise (fail_with ''no provider has its secrets in the secrets file'')
           else act_bind (mint_join_token env s (''pod '' @ ps_name s @ '' '' @ pe_stamp env)) (\<lambda>(tid, token).
             rent_and_record env s wait timeout fuel usable tid token))))"

definition cmd_status :: "'c pods_env \<Rightarrow> pods_settings \<Rightarrow> ('c, pod_view option) pods_act" where
  "cmd_status env s = act_bind (gets pw_state) (running_pod env s)"

definition show_offers :: "'c pods_env \<Rightarrow> pods_settings \<Rightarrow> string \<Rightarrow> ('c, unit) pods_act" where
  "show_offers env s name =
     act_bind (lift_res (provider (pe_text env) s name)) (\<lambda>p.
       case p of
         Vast v \<Rightarrow> ignore (vast_offers env s v)
       | RunPod r \<Rightarrow> if provider_missing s p \<noteq> [] then ret () else ignore (runpod_offers env s r))"

definition cmd_dry_run :: "'c pods_env \<Rightarrow> pods_settings \<Rightarrow> ('c, unit) pods_act" where
  "cmd_dry_run env s = for_each (show_offers env s) (ps_providers s)"

datatype pods_command = Up bool real | DryRun | ShowStatus | Down "string option" "string option"

definition run_command :: "'c pods_env \<Rightarrow> pods_settings \<Rightarrow> nat \<Rightarrow> pods_command \<Rightarrow> ('c, unit) pods_act" where
  "run_command env s fuel cmd =
     (case cmd of
        Up wait timeout \<Rightarrow> ignore (cmd_up env s wait timeout fuel)
      | DryRun \<Rightarrow> cmd_dry_run env s
      | ShowStatus \<Rightarrow> ignore (cmd_status env s)
      | Down pid pname \<Rightarrow> cmd_down env s pid pname)"

end
