(* ===== verification/PodsProofs.thy ===== *)
theory PodsProofs
  imports Pods
begin

text \<open>
  What the pod script (\<open>Pods\<close>) guarantees about money and credentials: which machines can be left rented, at which
  price, that its loops end, and what becomes of the join token.
\<close>

section \<open>What the script relies on of the services\<close>






section \<open>Accounting\<close>

text \<open>Every rented machine is in \<open>B\<close>, or the provider refused to delete it; the state file holds \<open>st\<close>.\<close>

definition accounted :: "('c \<Rightarrow> (string \<times> string) set) \<Rightarrow> (string \<times> string) set \<Rightarrow> pod_state option \<Rightarrow> 'c pods_world \<Rightarrow> bool" where
  "accounted alive B st w \<longleftrightarrow> alive (pw_cloud w) \<subseteq> B \<union> pw_undeleted w \<and> pw_state w = st"





section \<open>Creating a pod\<close>


text \<open>The result of a creation: nothing, or one pod more, within the price bound.\<close>

definition new_or_none :: "('c \<Rightarrow> (string \<times> string) set) \<Rightarrow> py_text \<Rightarrow> pods_settings \<Rightarrow> string \<Rightarrow> (string \<times> string) set \<Rightarrow> pod_state option
    \<Rightarrow> new_pod option \<Rightarrow> 'c pods_world \<Rightarrow> bool" where
  "new_or_none alive t s name B st made w =
     (case made of None \<Rightarrow> accounted alive B st w
      | Some pod \<Rightarrow> accounted alive (insert (name, np_pod_id pod) B) st w \<and> within_bound t s (np_price pod) = Inr True)"

lemma new_or_none_None [simp]: "new_or_none alive t s name B st None = accounted alive B st"
  by (simp add: new_or_none_def fun_eq_iff)

















section \<open>The commands\<close>

definition found_or_none :: "('c \<Rightarrow> (string \<times> string) set) \<Rightarrow> py_text \<Rightarrow> pods_settings \<Rightarrow> (string \<times> string) set \<Rightarrow> pod_state option
    \<Rightarrow> (pod_provider \<times> new_pod) option \<Rightarrow> 'c pods_world \<Rightarrow> bool" where
  "found_or_none alive t s B st found w =
     (case found of None \<Rightarrow> accounted alive B st w | Some (p, pod) \<Rightarrow> new_or_none alive t s (provider_name p) B st (Some pod) w)"

lemma found_or_none_None [simp]: "found_or_none alive t s B st None = accounted alive B st"
  by (simp add: found_or_none_def fun_eq_iff)







subsection \<open>Nothing is left rented unnoticed\<close>


















subsection \<open>Any sequence of commands\<close>



text \<open>One invocation of the script: the services and the machine it runs on, the fuel of its loops, the command.\<close>

type_synonym 'c job = "'c pods_env \<times> nat \<times> pods_command"

definition run_job :: "pods_settings \<Rightarrow> 'c job \<Rightarrow> 'c pods_world \<Rightarrow> 'c pods_world" where
  "run_job s j w = (case j of (env, fuel, cmd) \<Rightarrow> snd (run_command env s fuel cmd w))"






section \<open>What up leaves behind\<close>




















section \<open>The loops end\<close>

lemma find_ends:
  assumes "ps_search_timeout s < pe_searched env (n + fuel) + ps_retry_interval s"
  shows "fst (find_machine env s penv usable n (Suc fuel) w) \<noteq> Inr None"
  using assms
proof (induction fuel arbitrary: n w)
  case 0
  then show ?case by (auto simp: act_bind_def act_defs split: prod.split sum.split option.split)
next
  case (Suc fuel)
  have "fst (find_machine env s penv usable (Suc n) (Suc fuel) w1) \<noteq> Inr None" for w1 using Suc by simp
  then show ?case unfolding find_machine.simps(2) [of env s penv usable n]
    by (auto simp: act_bind_def act_defs split: prod.split sum.split option.split)
qed

lemma wait_ends:
  assumes "timeout \<le> pe_polled env (n + fuel)"
  shows "fst (wait_serving env p pid nid timeout n (Suc fuel) w) \<noteq> Inr False"
  using assms
proof (induction fuel arbitrary: n w)
  case 0
  then show ?case by (auto simp: act_bind_def act_defs split: prod.split sum.split)
next
  case (Suc fuel)
  have "fst (wait_serving env p pid nid timeout (Suc n) (Suc fuel) w1) \<noteq> Inr False" for w1 using Suc by simp
  then show ?case unfolding wait_serving.simps(2) [of env p pid nid timeout n]
    by (auto simp: act_bind_def act_defs split: prod.split sum.split)
qed

lemma clock_grows:
  assumes "0 \<le> clock 0" "\<And>n. clock n + d \<le> clock (Suc n)" shows "real n * d \<le> clock n"
proof (induction n)
  case (Suc n)
  with assms(2) [of n] show ?case by (simp add: algebra_simps)
qed (simp add: assms(1))

lemma rent_ends:
  assumes f: "ps_search_timeout s < pe_searched env (Suc fuel) + ps_retry_interval s" and g: "timeout \<le> pe_polled env fuel"
  shows "fst (rent_and_record env s wait timeout (Suc fuel) usable tid token w) \<noteq> Inr False"
proof -
  let ?find = "find_machine env s (pod_env (pe_text env) s token (new_host_id env s)) usable 1 (Suc fuel)"
  obtain r w1 where r: "?find w = (r, w1)" by (cases "?find w")
  have none: "r \<noteq> Inr None" using find_ends [of s env 1 fuel _ usable w] f r by (metis fst_conv plus_1_eq_Suc)
  have w: "fst (wait_serving env p pid nid timeout 0 (Suc fuel) w2) \<noteq> Inr False" for p pid nid w2
    using wait_ends [of timeout env 0 fuel] g by simp
  have fail: "fst (on_fail (wait_serving env p pid nid timeout 0 (Suc fuel)) h w2) \<noteq> Inr False" for p pid nid h w2
    using w [of p pid nid w2]
    by (auto simp: on_fail_def split: prod.split sum.split err.split)
  show ?thesis
    using none r fail unfolding rent_and_record_def act_bind_def revoke_unless_found_def save_state_def act_then_def
    by (auto simp: act_defs Let_def split: prod.split sum.split option.split)
qed

text \<open>C38: \<open>up\<close> returns. When each search is followed by a pause of the retry interval and each look at the worker by one
  of fifteen seconds, \<open>up\<close> ends, with a worker or with an error, after at most \<open>timeout / interval\<close> further searches
  and \<open>wait_timeout / 15\<close> further looks.\<close>

theorem up_returns:
  assumes "0 < ps_retry_interval s"
    and "0 \<le> pe_searched env 0" "\<And>n. pe_searched env n + ps_retry_interval s \<le> pe_searched env (Suc n)"
    and "0 \<le> pe_polled env 0" "\<And>n. pe_polled env n + 15 \<le> pe_polled env (Suc n)"
    and fuel: "ps_search_timeout s / ps_retry_interval s \<le> real fuel" "timeout / 15 \<le> real fuel"
  shows "fst (cmd_up env s wait timeout (Suc fuel) w) \<noteq> Inr False"
proof -
  have "real (Suc fuel) * ps_retry_interval s \<le> pe_searched env (Suc fuel)" by (rule clock_grows) (use assms in auto)
  moreover have "ps_search_timeout s \<le> real fuel * ps_retry_interval s" using assms(1) fuel(1) by (simp add: divide_le_eq)
  ultimately have f: "ps_search_timeout s < pe_searched env (Suc fuel) + ps_retry_interval s"
    using assms(1) by (simp add: algebra_simps)
  have "real fuel * 15 \<le> pe_polled env fuel" by (rule clock_grows) (use assms in auto)
  then have g: "timeout \<le> pe_polled env fuel" using fuel(2) by simp
  note rent = rent_ends [OF f g]
  show ?thesis
    using rent unfolding cmd_up_def act_bind_def
    by (auto simp: act_defs split: prod.split sum.split option.split)
qed

section \<open>An example\<close>

text \<open>A service with one GPU type at half a dollar and one machine.\<close>

definition pods_reply :: "nat \<Rightarrow> json \<Rightarrow> api_reply" where
  "pods_reply status body = \<lparr>rp_status = status, rp_content = ''{}'', rp_json = Some body, rp_json_type = True\<rparr>"

fun demo_api :: "json \<Rightarrow> nat \<Rightarrow> cloud_request \<Rightarrow> (string \<times> string) list \<Rightarrow> api_reply option \<times> (string \<times> string) list" where
  "demo_api cost code (Prices name) c =
     (Some (pods_reply 200 (JObj [(''data'', JObj [(''gpuTypes'', JList [JObj [(''id'', JStr ''A40''), (''securePrice'', JReal (1/2))]])])])), c)"
| "demo_api cost code (Deploy name body) c =
     (Some (pods_reply 200 (JObj [(''data'', JObj [(''podFindAndDeployOnDemand'', JObj [(''id'', JStr ''p1''), (''costPerHr'', cost)])])])),
      (name, ''p1'') # c)"
| "demo_api cost code (GetPod name pid) c =
     (Some (pods_reply (if (name, pid) \<in> set c then 200 else 404) (JObj [(''desiredStatus'', JStr ''RUNNING''), (''instances'', JBool True)])), c)"
| "demo_api cost code (DeletePod name pid) c =
     (Some (pods_reply code JNull), if code = 200 then removeAll (name, pid) c else c)"
| "demo_api cost code req c = (None, c)"

definition pods_text :: py_text where
  "pods_text = \<lparr>text_of = (\<lambda>_. []), float_of = (\<lambda>_. None), expand_path = (\<lambda>p. p)\<rparr>"

definition demo_pods_env :: "json \<Rightarrow> nat \<Rightarrow> (string \<times> string) list pods_env" where
  "demo_pods_env cost code =
     \<lparr>pe_api = demo_api cost code, pe_cli = (\<lambda>_. \<lparr>cr_returncode = 0, cr_stdout = ''tok'', cr_stderr = ''id: t1''\<rparr>), pe_text = pods_text,
      pe_sha256 = (\<lambda>x. x), pe_stamp = [], pe_hex = ''ab'', pe_created_at = [], pe_searched = real, pe_polled = (\<lambda>n. 15 * real n),
      pe_workers = (\<lambda>_. None), pe_saved = None\<rparr>"

definition demo_pods :: pods_settings where
  "demo_pods =
     \<lparr>ps_name = ''w'', ps_image = ''img:1'', ps_gpu_count = 1, ps_disk_gb = 80, ps_min_cuda = None, ps_providers = [''secure.runpod''],
      ps_max_price = Some 1, ps_retry_interval = 1, ps_search_timeout = 5, ps_runpod = [(''gpu_types'', JList [JStr ''A40''])], ps_vast = [],
      ps_manager_url = [], ps_profile = JNull, ps_extra_env = [], ps_token_ttl = [], ps_token_uses = 1, ps_manager_config = [],
      ps_secrets = [(''RUNPOD_API_KEY'', ''k'')], ps_control_url = [], ps_vllm_port = 7001, ps_state_file = []\<rparr>"

definition empty_desk :: "(string \<times> string) list pods_world" where
  "empty_desk = \<lparr>pw_cloud = [], pw_state = None, pw_cli = [], pw_undeleted = {}\<rparr>"



lemmas pods_eval = run_job_def run_command_def ignore_def cmd_up_def running_pod_def usable_providers_def provider_def make_runpod_def
  mint_join_token_def run_oumigo_def rent_and_record_def revoke_unless_found_def save_state_def new_record_def runpod_create_def
  runpod_offers_def graphql_def ask_cloud_def graphql_result_def body_json_def listed_prices_def offer_for_def within_bound_def
  deployed_def delete_pod_def cmd_down_def down_state_def take_down_def known_node_def jget_def jindex_def jor_def jiter_def jtimes_def
  obj_get_def py_str_def Settings.py_float_def text_value_def str_or_def act_bind_def act_then_def act_defs res_bind_def res_map_def
  List.map_filter_def py_lstrip_def py_isspace_def py_strip_def py_rstrip_def py_startswith_def Let_def numeral_3_eq_3

lemmas pods_demo_defs = demo_pods_env_def demo_pods_def pods_reply_def pods_text_def empty_desk_def

text \<open>Three ways to leave a machine rented that nothing records: the deletion of a pod that turned out too expensive
  fails; the state file cannot be written; \<open>down\<close> is given another provider, which knows no such pod and so accepts
  its deletion.\<close>

lemma overpriced_pod_leaks:
  "let w = run_job demo_pods (demo_pods_env (JReal 2) 500, 3, Up False 0) empty_desk in
   pw_cloud w = [(''secure.runpod'', ''p1'')] \<and> pw_state w = None"
  by (simp add: pods_eval pods_demo_defs)

lemma unsaved_pod_leaks:
  "let w = run_job demo_pods ((demo_pods_env (JReal (1/2)) 200)\<lparr>pe_saved := Some (OSErr ''disk full'')\<rparr>, 3, Up False 0) empty_desk in
   pw_cloud w = [(''secure.runpod'', ''p1'')] \<and> pw_state w = None"
  by (simp add: pods_eval pods_demo_defs)

definition demo_up :: "(string \<times> string) list pods_world" where
  "demo_up = run_job demo_pods (demo_pods_env (JReal (1/2)) 200, 3, Up False 0) empty_desk"

lemma demo_up_eval:
  "pw_cloud demo_up = [(''secure.runpod'', ''p1'')] \<and> (\<exists>x. pw_state demo_up = Some x \<and> st_provider x = ''secure.runpod'' \<and> st_pod_id x = ''p1'')"
  by (simp add: demo_up_def pods_eval pods_demo_defs)

lemma down_other_provider_leaks:
  "let w = run_job demo_pods (demo_pods_env (JReal (1/2)) 200, 3, Down None (Some ''community.runpod'')) demo_up in
   pw_cloud w = [(''secure.runpod'', ''p1'')] \<and> pw_state w = None"
proof -
  obtain x where x: "pw_cloud demo_up = [(''secure.runpod'', ''p1'')]" "pw_state demo_up = Some x"
    "st_provider x = ''secure.runpod''" "st_pod_id x = ''p1''" using demo_up_eval by blast
  then show ?thesis by (simp add: pods_eval pods_demo_defs)
qed


theorem up_returns_witness:
  "fst (cmd_up (demo_pods_env (JReal 2) 200) demo_pods True 30 (Suc 5) empty_desk) \<noteq> Inr False"
  by (rule up_returns) (simp_all add: demo_pods_env_def demo_pods_def)

end
