(* ===== verification/Launcher.thy ===== *)
theory Launcher
  imports Pods Chat
begin

text \<open>
  The programmatic interface (\<open>src/src/oumigo/api/api.py\<close> with the handles of \<open>api/manager/manager.py\<close>,
  \<open>api/worker/worker.py\<close> and the process helpers of \<open>common/proc.py\<close>): find or spawn a manager, spawn a worker and wait
  until it serves. The processes, the clock, the network and the temporary files outside are parameters that read and
  change an outside state; a process counts as running from its start until \<open>poll\<close> or \<open>wait\<close> has seen it end. The loops
  carry fuel, and \<open>None\<close> means that it ran out. Durations in messages are left out. Mapping keys are strings, and a value
  read from a configuration file is a \<open>json\<close> whatever its type should be, with \<open>JNull\<close> for \<open>None\<close>. A node id is compared as the
  JSON value it is.
\<close>

section \<open>Settings of a manager\<close>

text \<open>What is at the path of a configuration file: no readable file, no YAML, or a document.\<close>

datatype yaml_file = NoFile | NotYaml | Document json

definition load_config_file :: "py_text \<Rightarrow> (string \<Rightarrow> yaml_file) \<Rightarrow> string option \<Rightarrow> config" where
  "load_config_file t fs config_file =
     (case config_file of
        None \<Rightarrow> []
      | Some p \<Rightarrow> if p = [] then [] else (case fs (expand_path t p) of Document (JObj kvs) \<Rightarrow> kvs | _ \<Rightarrow> []))"

text \<open>\<open>_pick\<close>; an argument that was not passed (\<open>_UNSET\<close>) is \<open>None\<close>.\<close>

definition pick :: "json option \<Rightarrow> json \<Rightarrow> json \<Rightarrow> json" where
  "pick passed yaml_val dflt = (case passed of Some v \<Rightarrow> v | None \<Rightarrow> if yaml_val \<noteq> JNull then yaml_val else dflt)"

definition DEFAULT_MODEL :: json where
  "DEFAULT_MODEL = JObj [(''name'', JStr ''google/gemma-4-E2B''), (''port'', JInt 7001), (''dtype'', JStr ''auto''),
     (''gpu_memory_utilization'', JReal (80 / 100)), (''max_model_len'', JInt 512), (''max_concurrent_requests'', JInt 1)]"

record manager_args =
  ma_token :: "json option"
  ma_config_file :: "string option"
  ma_data_host :: "json option"
  ma_data_port :: "json option"
  ma_control_host :: "json option"
  ma_control_port :: "json option"
  ma_provider :: "json option"
  ma_model :: "json option"
  ma_discover_timeout :: real
  ma_startup_timeout :: real

record manager_settings =
  ms_token :: json
  ms_provider :: json
  ms_data_host :: json
  ms_data_port :: int
  ms_control_host :: json
  ms_control_port :: int
  ms_model :: json

definition resolve_settings :: "manager_args \<Rightarrow> config \<Rightarrow> manager_settings res" where
  "resolve_settings a cfg =
     res_bind (block cfg ''data_plane'') (\<lambda>dp.
     res_bind (Settings.py_int (pick (ma_data_port a) (obj_get dp ''port'') (JInt 7012))) (\<lambda>dport.
     res_bind (block cfg ''control_plane'') (\<lambda>cp.
     res_bind (Settings.py_int (pick (ma_control_port a) (obj_get cp ''port'') (JInt 7014))) (\<lambda>cport.
       Inr \<lparr>ms_token = pick (ma_token a) (obj_get cfg ''bearer_token'') JNull,
            ms_provider = pick (ma_provider a) (obj_get cfg ''provider'') (JStr ''LAN''),
            ms_data_host = pick (ma_data_host a) (obj_get dp ''host'') (JStr ''0.0.0.0''), ms_data_port = dport,
            ms_control_host = pick (ma_control_host a) (obj_get cp ''host'') (JStr ''0.0.0.0''), ms_control_port = cport,
            ms_model = pick (ma_model a) (obj_get cfg ''model'') DEFAULT_MODEL\<rparr>))))"

text \<open>\<open>dict(v)\<close>: a mapping, or pairs.\<close>

definition dict_item :: "json \<Rightarrow> (string \<times> json) res" where
  "dict_item x =
     res_bind (jiter x) (\<lambda>kv. case kv of
       [k, v] \<Rightarrow> (case k of JStr s \<Rightarrow> Inr (s, v) | _ \<Rightarrow> Inl (TypeErr ''unhashable''))
     | _ \<Rightarrow> Inl (ValueErr ''dictionary update sequence element''))"

definition dict_of :: "json \<Rightarrow> config res" where
  "dict_of v =
     (case v of JObj kvs \<Rightarrow> Inr kvs
      | _ \<Rightarrow> res_bind (jiter v) (\<lambda>xs. res_map (\<lambda>kvs. fold (\<lambda>(k, x). AList.update k x) kvs []) (each_res dict_item xs)))"

text \<open>The mapping that \<open>_write_manager_config\<close> writes.\<close>

definition manager_config :: "manager_settings \<Rightarrow> config \<Rightarrow> config res" where
  "manager_config s base =
     (let c1 = AList.update ''provider'' (ms_provider s) base;
          c2 = AList.update ''data_plane'' (JObj [(''host'', ms_data_host s), (''port'', JInt (ms_data_port s))]) c1;
          c3 = (if ms_control_host s \<noteq> JNull
                then AList.update ''control_plane'' (JObj [(''host'', ms_control_host s), (''port'', JInt (ms_control_port s))]) c2
                else c2) in
      res_map (\<lambda>m. AList.delete ''bearer_token'' (AList.update ''model'' (JObj m) c3)) (dict_of (ms_model s)))"

section \<open>The world of a program that uses the interface\<close>

record manager_handle =
  mh_control_url :: string
  mh_data_url :: string
  mh_token :: json
  mh_provider :: json
  mh_owned :: bool
  mh_child :: "nat option"
  mh_config_path :: "string option"

record worker_handle =
  wh_manager_url :: string
  wh_address :: string
  wh_port :: int
  wh_model :: json
  wh_backend :: json
  wh_node_id :: json
  wh_child :: "nat option"

datatype exit_hook = StopManager manager_handle | StopWorker worker_handle

record get_request =
  gr_url :: string
  gr_params :: "(string \<times> string) list"
  gr_headers :: "(string \<times> string) list"
  gr_timeout :: real

text \<open>The outside, the command lines and environments of the processes started so far (a process is known by its
  position in this list), the running ones, the temporary files, \<open>_last_manager\<close> and the functions registered with
  \<open>atexit\<close>, the latest first; as history, the requests sent with their answers and the number of processes started before,
  the latest first.\<close>

record 'c launch_world =
  lw_outside :: 'c
  lw_started :: "(string list \<times> (string \<times> string) list) list"
  lw_running :: "nat list"
  lw_files :: "(string \<times> config) list"
  lw_last :: "manager_handle option"
  lw_atexit :: "exit_hook list"
  lw_asked :: "(nat \<times> get_request \<times> api_reply option) list"

datatype signal = SIGTERM | SIGKILL

text \<open>\<open>le_poll\<close> says whether a process has ended, \<open>le_wait\<close> whether it ends within a number of seconds, \<open>le_reap\<close> waits for
  as long as it takes; \<open>le_spawn\<close> gives the exception of a start that fails; a request gives no answer when \<open>httpx\<close>
  raises an \<open>HTTPError\<close>.\<close>

record 'c launch_env =
  le_poll :: "nat \<Rightarrow> 'c \<Rightarrow> bool \<times> 'c"
  le_signal :: "nat \<Rightarrow> signal \<Rightarrow> 'c \<Rightarrow> 'c"
  le_wait :: "nat \<Rightarrow> real \<Rightarrow> 'c \<Rightarrow> bool \<times> 'c"
  le_reap :: "nat \<Rightarrow> 'c \<Rightarrow> 'c"
  le_spawn :: "string list \<Rightarrow> (string \<times> string) list \<Rightarrow> 'c \<Rightarrow> err option \<times> 'c"
  le_get :: "get_request \<Rightarrow> 'c \<Rightarrow> api_reply option \<times> 'c"
  le_now :: "'c \<Rightarrow> real \<times> 'c"
  le_sleep :: "real \<Rightarrow> 'c \<Rightarrow> 'c"
  le_discover :: "real \<Rightarrow> 'c \<Rightarrow> string option \<times> 'c"
  le_lan_ip :: "'c \<Rightarrow> string \<times> 'c"
  le_mkstemp :: "'c \<Rightarrow> string res \<times> 'c"
  le_environ :: "(string \<times> string) list"
  le_executable :: string
  le_expand :: "string \<Rightarrow> string"
  le_yaml :: "string \<Rightarrow> yaml_file"
  le_text :: py_text

type_synonym ('c, 'a) launch_act = "('c launch_world, 'a) act"

definition outside :: "('c \<Rightarrow> 'a \<times> 'c) \<Rightarrow> ('c, 'a) launch_act" where
  "outside f w = (case f (lw_outside w) of (x, c) \<Rightarrow> (Inr x, w\<lparr>lw_outside := c\<rparr>))"

definition affect :: "('c \<Rightarrow> 'c) \<Rightarrow> ('c, unit) launch_act" where
  "affect f = outside (\<lambda>c. ((), f c))"

section \<open>Child processes\<close>

definition reaped :: "nat \<Rightarrow> ('c, unit) launch_act" where
  "reaped p = modify (\<lambda>w. w\<lparr>lw_running := removeAll p (lw_running w)\<rparr>)"

text \<open>\<open>child.poll() is not None\<close>\<close>

definition has_exited :: "'c launch_env \<Rightarrow> nat \<Rightarrow> ('c, bool) launch_act" where
  "has_exited env p =
     act_bind (gets (\<lambda>w. p \<in> set (lw_running w))) (\<lambda>running.
       if \<not> running then ret True
       else act_bind (outside (le_poll env p)) (\<lambda>ended. if ended then act_then (reaped p) (ret True) else ret False))"

definition terminate :: "'c launch_env \<Rightarrow> nat option \<Rightarrow> real \<Rightarrow> ('c, unit) launch_act" where
  "terminate env child grace =
     (case child of
        None \<Rightarrow> ret ()
      | Some p \<Rightarrow>
          act_bind (has_exited env p) (\<lambda>ended.
            if ended then ret ()
            else act_then (affect (le_signal env p SIGTERM))
              (act_bind (outside (le_wait env p grace)) (\<lambda>in_time.
                if in_time then reaped p
                else act_then (affect (le_signal env p SIGKILL)) (act_then (affect (le_reap env p)) (reaped p))))))"

text \<open>\<open>_spawn_child\<close>: \<open>Popen\<close> refuses arguments and environment values that are no strings.\<close>

definition spawn_child :: "'c launch_env \<Rightarrow> json list \<Rightarrow> (string \<times> json) list \<Rightarrow> ('c, nat) launch_act" where
  "spawn_child env argv vars =
     act_bind (lift_res (each_res text_value argv)) (\<lambda>args.
     act_bind (lift_res (each_res (\<lambda>(k, v). res_map (Pair k) (text_value v)) vars)) (\<lambda>es.
     act_bind (outside (le_spawn env args es)) (\<lambda>failed.
       case failed of
         Some e \<Rightarrow> raise e
       | None \<Rightarrow> act_bind (gets (\<lambda>w. length (lw_started w))) (\<lambda>p.
           act_then (modify (\<lambda>w. w\<lparr>lw_started := lw_started w @ [(args, es)], lw_running := p # lw_running w\<rparr>)) (ret p)))))"

definition sleep :: "'c launch_env \<Rightarrow> real \<Rightarrow> ('c, unit) launch_act" where
  "sleep env d = (if d < 0 then raise (ValueErr ''sleep length must be non-negative'') else affect (le_sleep env d))"

definition register_exit :: "exit_hook \<Rightarrow> ('c, unit) launch_act" where
  "register_exit h = modify (\<lambda>w. w\<lparr>lw_atexit := h # lw_atexit w\<rparr>)"

section \<open>The manager handle\<close>

definition auth :: "py_text \<Rightarrow> json \<Rightarrow> (string \<times> string) list" where
  "auth t token = (if json_true token then [(''Authorization'', ''Bearer '' @ py_str t token)] else [])"

definition http_get :: "'c launch_env \<Rightarrow> string \<Rightarrow> (string \<times> string) list \<Rightarrow> (string \<times> string) list \<Rightarrow> real \<Rightarrow> ('c, api_reply option) launch_act" where
  "http_get env url params headers timeout w =
     (let q = \<lparr>gr_url = url, gr_params = params, gr_headers = headers, gr_timeout = timeout\<rparr> in
      case le_get env q (lw_outside w) of
        (r, c) \<Rightarrow> (Inr r, w\<lparr>lw_outside := c, lw_asked := (length (lw_started w), q, r) # lw_asked w\<rparr>))"

text \<open>A request followed by \<open>raise_for_status\<close>; \<open>None\<close> is an \<open>HTTPError\<close> of either.\<close>

definition http_get_ok :: "'c launch_env \<Rightarrow> string \<Rightarrow> (string \<times> string) list \<Rightarrow> (string \<times> string) list \<Rightarrow> real \<Rightarrow> ('c, api_reply option) launch_act" where
  "http_get_ok env url params headers timeout =
     act_bind (http_get env url params headers timeout) (\<lambda>r.
       ret (case r of Some x \<Rightarrow> if rp_status x div 100 = 2 then Some x else None | None \<Rightarrow> None))"

definition manager_healthy :: "'c launch_env \<Rightarrow> manager_handle \<Rightarrow> real \<Rightarrow> ('c, bool) launch_act" where
  "manager_healthy env h timeout =
     act_bind (http_get env (mh_control_url h @ ''/healthz'') [] [] timeout) (\<lambda>r.
       ret (case r of Some x \<Rightarrow> rp_status x = 200 | None \<Rightarrow> False))"

text \<open>\<open>resp.json().get(k, [])\<close>, and the list of it\<close>

definition body_items :: "api_reply \<Rightarrow> string \<Rightarrow> json list res" where
  "body_items r k =
     res_bind (body_json r) (\<lambda>v. case v of
       JObj kvs \<Rightarrow> jiter (get_or kvs k (JList []))
     | _ \<Rightarrow> Inl (AttributeErr ''get''))"

text \<open>An \<open>HTTPError\<close> that goes through to the caller.\<close>

definition http_error :: err where
  "http_error = HTTPException 0 ''httpx.HTTPError''"

definition fetch_items :: "'c launch_env \<Rightarrow> manager_handle \<Rightarrow> string \<Rightarrow> (string \<times> string) list \<Rightarrow> string \<Rightarrow> real \<Rightarrow> ('c, json list) launch_act" where
  "fetch_items env h path params k timeout =
     act_bind (http_get_ok env (mh_control_url h @ path) params (auth (le_text env) (mh_token h)) timeout) (\<lambda>r.
       case r of Some x \<Rightarrow> lift_res (body_items x k) | None \<Rightarrow> raise http_error)"

definition manager_workers :: "'c launch_env \<Rightarrow> manager_handle \<Rightarrow> real \<Rightarrow> ('c, json list) launch_act" where
  "manager_workers env h timeout = fetch_items env h ''/workers'' [] ''workers'' timeout"

text \<open>\<open>_worker_names\<close>\<close>

definition worker_name :: "json \<Rightarrow> (json \<times> json) option res" where
  "worker_name x =
     (case x of
        JObj kvs \<Rightarrow>
          (case map_of kvs ''node_id'' of
             None \<Rightarrow> Inr None
           | Some i \<Rightarrow> if json_hashable i then Inr (Some (i, get_or kvs ''name'' (JStr []))) else Inl (TypeErr ''unhashable''))
      | JStr s \<Rightarrow> if py_contains s ''node_id'' then Inl (TypeErr ''string indices'') else Inr None
      | JList xs \<Rightarrow> if JStr ''node_id'' \<in> set xs then Inl (TypeErr ''list indices'') else Inr None
      | _ \<Rightarrow> Inl (TypeErr ''not iterable''))"

definition worker_names :: "'c launch_env \<Rightarrow> manager_handle \<Rightarrow> real \<Rightarrow> ('c, (json \<times> json) list) launch_act" where
  "worker_names env h timeout =
     act_bind (http_get_ok env (mh_control_url h @ ''/workers'') [] (auth (le_text env) (mh_token h)) timeout) (\<lambda>r.
       case r of
         None \<Rightarrow> ret []
       | Some x \<Rightarrow> lift_res (res_bind (body_items x ''workers'') (\<lambda>ws.
           res_map (\<lambda>ns. fold (\<lambda>(i, n). AList.update i n) (List.map_filter id ns) []) (each_res worker_name ws))))"

definition latest_record :: "string list \<Rightarrow> (json \<times> json) list \<Rightarrow> json \<Rightarrow> json res" where
  "latest_record prefixes names x =
     (case x of
        JObj kvs \<Rightarrow>
          let ms = get_or kvs ''metrics'' (JObj []); i = obj_get kvs ''node_id'' in
          res_bind (if prefixes = [] then Inr ms
                    else case ms of
                      JObj vs \<Rightarrow> Inr (JObj (filter (\<lambda>kv. \<exists>p \<in> set prefixes. py_startswith (fst kv) p) vs))
                    | _ \<Rightarrow> Inl (AttributeErr ''items'')) (\<lambda>ms'.
            if json_hashable i
            then Inr (JObj [(''node_id'', i), (''name'', default_to JNull (map_of names i)), (''timestamp'', obj_get kvs ''timestamp''), (''metrics'', ms')])
            else Inl (TypeErr ''unhashable''))
      | _ \<Rightarrow> Inl (AttributeErr ''get''))"

definition manager_metrics :: "'c launch_env \<Rightarrow> manager_handle \<Rightarrow> string option \<Rightarrow> string list \<Rightarrow> real \<Rightarrow> ('c, json list) launch_act" where
  "manager_metrics env h since prefixes timeout =
     (case since of
        Some after \<Rightarrow>
          fetch_items env h ''/metrics/since''
            ((''after'', after) # (if prefixes = [] then [] else [(''prefix'', py_join '','' prefixes)])) ''points'' timeout
      | None \<Rightarrow>
          act_bind (http_get_ok env (mh_control_url h @ ''/metrics/latest'') [] (auth (le_text env) (mh_token h)) timeout) (\<lambda>r.
            case r of
              None \<Rightarrow> raise http_error
            | Some x \<Rightarrow> act_bind (worker_names env h timeout) (\<lambda>names.
                lift_res (res_bind (body_items x ''nodes'') (each_res (latest_record prefixes names))))))"

definition stop_manager :: "'c launch_env \<Rightarrow> manager_handle \<Rightarrow> ('c, manager_handle) launch_act" where
  "stop_manager env h =
     (if \<not> mh_owned h then ret h
      else act_then (terminate env (mh_child h) 5)
        (if truthy (mh_config_path h)
         then act_then (modify (\<lambda>w. w\<lparr>lw_files := AList.delete (the (mh_config_path h)) (lw_files w)\<rparr>))
                (ret (h\<lparr>mh_child := None, mh_config_path := None\<rparr>))
         else ret (h\<lparr>mh_child := None\<rparr>)))"

text \<open>\<open>create_agent\<close>; the settings that were given, in this order. The agent sends a token only if it is true.\<close>

definition create_agent :: "py_text \<Rightarrow> manager_handle \<Rightarrow> tool list \<Rightarrow> int \<Rightarrow> json \<Rightarrow> json \<Rightarrow> json \<Rightarrow> json \<Rightarrow> guard_profile option \<Rightarrow> string \<Rightarrow> agent res" where
  "create_agent t h tools max_iterations temp max_toks topp stp prof mdl =
     (let sampling = filter (\<lambda>kv. snd kv \<noteq> JNull)
            [(''temperature'', temp), (''max_tokens'', max_toks), (''top_p'', topp), (''stop'', stp)] in
      make_agent (mh_data_url h) (if json_true (mh_token h) then Some (py_str t (mh_token h)) else None) tools max_iterations sampling prof
        UNSET UNSET mdl)"

section \<open>The worker handle\<close>

definition WORKER_STOP_GRACE_S :: real where "WORKER_STOP_GRACE_S = 35"

definition worker_record :: "'c launch_env \<Rightarrow> worker_handle \<Rightarrow> real \<Rightarrow> ('c, json option) launch_act" where
  "worker_record env h timeout =
     act_bind (http_get_ok env (wh_manager_url h @ ''/workers'') [] [] timeout) (\<lambda>r.
       case r of
         None \<Rightarrow> ret None
       | Some x \<Rightarrow> lift_res (res_bind (body_items x ''workers'')
           (find_res (\<lambda>v. res_bind (jget v ''address'') (\<lambda>a. res_map (\<lambda>p. a = JStr (wh_address h) \<and> py_eq p (JInt (wh_port h))) (jget v ''port''))))))"

definition worker_state :: "'c launch_env \<Rightarrow> worker_handle \<Rightarrow> ('c, json) launch_act" where
  "worker_state env h =
     act_bind (worker_record env h 5) (\<lambda>v. case v of
       Some x \<Rightarrow> if json_true x then lift_res (jget x ''state'') else ret JNull
     | None \<Rightarrow> ret JNull)"

definition state_text :: "py_text \<Rightarrow> json \<Rightarrow> string" where
  "state_text t v = py_lower (py_str t (jor v (JStr [])))"

definition is_serving :: "'c launch_env \<Rightarrow> worker_handle \<Rightarrow> ('c, bool) launch_act" where
  "is_serving env h = act_bind (worker_state env h) (\<lambda>v. ret (state_text (le_text env) v = node_state_value SERVING))"

definition is_alive :: "'c launch_env \<Rightarrow> worker_handle \<Rightarrow> ('c, bool) launch_act" where
  "is_alive env h =
     (case wh_child h of None \<Rightarrow> ret False | Some p \<Rightarrow> act_bind (has_exited env p) (\<lambda>ended. ret (\<not> ended)))"

definition stop_worker :: "'c launch_env \<Rightarrow> worker_handle \<Rightarrow> ('c, worker_handle) launch_act" where
  "stop_worker env h = act_then (terminate env (wh_child h) WORKER_STOP_GRACE_S) (ret (h\<lparr>wh_child := None\<rparr>))"

section \<open>Finding or starting a manager\<close>

text \<open>\<open>_wait_manager_healthy\<close>, after its deadline is set.\<close>

fun wait_healthy :: "'c launch_env \<Rightarrow> nat \<Rightarrow> manager_handle \<Rightarrow> real \<Rightarrow> nat \<Rightarrow> ('c, bool option) launch_act" where
  "wait_healthy env child h deadline 0 = ret None"
| "wait_healthy env child h deadline (Suc fuel) =
     act_bind (outside (le_now env)) (\<lambda>now.
       if \<not> now < deadline then ret (Some False)
       else act_bind (has_exited env child) (\<lambda>ended.
         if ended then ret (Some False)
         else act_bind (manager_healthy env h (5 / 10)) (\<lambda>healthy.
           if healthy then ret (Some True)
           else act_then (sleep env (2 / 10)) (wait_healthy env child h deadline fuel))))"

definition wait_manager_healthy :: "'c launch_env \<Rightarrow> nat \<Rightarrow> manager_handle \<Rightarrow> real \<Rightarrow> nat \<Rightarrow> ('c, bool option) launch_act" where
  "wait_manager_healthy env child h timeout fuel =
     act_bind (outside (le_now env)) (\<lambda>now. wait_healthy env child h (now + timeout) fuel)"

text \<open>\<open>_write_manager_config\<close>\<close>

definition write_manager_config :: "'c launch_env \<Rightarrow> manager_settings \<Rightarrow> config \<Rightarrow> ('c, string) launch_act" where
  "write_manager_config env s base =
     act_bind (lift_res (manager_config s base)) (\<lambda>cfg.
     act_bind (outside (le_mkstemp env)) (\<lambda>made. act_bind (lift_res made) (\<lambda>path.
       act_then (modify (\<lambda>w. w\<lparr>lw_files := AList.update path cfg (lw_files w)\<rparr>)) (ret path))))"

text \<open>\<open>found.split("://", 1)[-1].split(":", 1)[0]\<close>\<close>

fun after_scheme :: "string \<Rightarrow> string option" where
  "after_scheme [] = None"
| "after_scheme (c # cs) = (if py_startswith (c # cs) ''://'' then Some (drop 2 cs) else after_scheme cs)"

definition host_of_url :: "string \<Rightarrow> string" where
  "host_of_url url = fst (py_partition (CHR '':'') (default_to url (after_scheme url)))"

definition http_url :: "string \<Rightarrow> int \<Rightarrow> string" where
  "http_url host prt = ''http://'' @ host @ '':'' @ int_str prt"

definition attached :: "py_text \<Rightarrow> manager_settings \<Rightarrow> string \<Rightarrow> manager_handle" where
  "attached t s found =
     \<lparr>mh_control_url = py_rstrip_char (CHR ''/'') found, mh_data_url = http_url (host_of_url found) (ms_data_port s),
      mh_token = ms_token s, mh_provider = ms_provider s, mh_owned = False, mh_child = None, mh_config_path = None\<rparr>"

definition probe_host :: "py_text \<Rightarrow> json \<Rightarrow> string" where
  "probe_host t host = (if host \<in> {JStr ''0.0.0.0'', JStr []} then ''127.0.0.1'' else py_str t host)"

definition owned_handle :: "py_text \<Rightarrow> manager_settings \<Rightarrow> nat \<Rightarrow> string \<Rightarrow> manager_handle" where
  "owned_handle t s child path =
     (let host = probe_host t (ms_control_host s) in
      \<lparr>mh_control_url = http_url host (ms_control_port s), mh_data_url = http_url host (ms_data_port s), mh_token = ms_token s,
       mh_provider = ms_provider s, mh_owned = True, mh_child = Some child, mh_config_path = Some path\<rparr>)"

definition manager_argv :: "'c launch_env \<Rightarrow> manager_settings \<Rightarrow> string \<Rightarrow> json list" where
  "manager_argv env s path =
     [JStr (le_executable env), JStr ''-m'', JStr ''oumigo.cli.main'', JStr ''manager'', JStr ''serve'', JStr ''--config-file'', JStr path,
      JStr ''--host'', ms_control_host s, JStr ''--port'', JStr (int_str (ms_control_port s))]"

definition set_var :: "string \<Rightarrow> json \<Rightarrow> (string \<times> json) list \<Rightarrow> (string \<times> json) list" where
  "set_var k v vars = (if json_true v then AList.update k v vars else vars)"

definition parent_environ :: "'c launch_env \<Rightarrow> (string \<times> json) list" where
  "parent_environ env = map (\<lambda>(k, v). (k, JStr v)) (le_environ env)"

text \<open>The part of \<open>oumigo_get_or_create_manager\<close> that starts one.\<close>

definition start_manager :: "'c launch_env \<Rightarrow> manager_settings \<Rightarrow> config \<Rightarrow> real \<Rightarrow> nat \<Rightarrow> ('c, manager_handle option) launch_act" where
  "start_manager env s base timeout fuel =
     act_bind (write_manager_config env s base) (\<lambda>path.
     act_bind (spawn_child env (manager_argv env s path) (set_var ''OUMIGO_MANAGER_TOKEN'' (ms_token s) (parent_environ env))) (\<lambda>child.
     let h = owned_handle (le_text env) s child path in
     act_then (register_exit (StopManager h))
       (act_bind (wait_manager_healthy env child h timeout fuel) (\<lambda>healthy.
         case healthy of
           None \<Rightarrow> ret None
         | Some True \<Rightarrow> act_then (modify (\<lambda>w. w\<lparr>lw_last := Some h\<rparr>)) (ret (Some h))
         | Some False \<Rightarrow> act_bind (stop_manager env h) (\<lambda>_. raise (RuntimeErr ''manager control plane did not become healthy''))))))"

definition get_or_create_manager :: "'c launch_env \<Rightarrow> manager_args \<Rightarrow> nat \<Rightarrow> ('c, manager_handle option) launch_act" where
  "get_or_create_manager env a fuel =
     (let cfg = load_config_file (le_text env) (le_yaml env) (ma_config_file a) in
      act_bind (lift_res (resolve_settings a cfg)) (\<lambda>s.
      act_bind (outside (le_discover env (ma_discover_timeout a))) (\<lambda>found.
        if truthy found
        then let h = attached (le_text env) s (the found) in
             act_then (modify (\<lambda>w. w\<lparr>lw_last := Some h\<rparr>)) (ret (Some h))
        else start_manager env s cfg (ma_startup_timeout a) fuel)))"

section \<open>Starting a worker\<close>

definition list_workers :: "'c launch_env \<Rightarrow> string \<Rightarrow> ('c, json list) launch_act" where
  "list_workers env url =
     act_bind (http_get_ok env (url @ ''/workers'') [] [] 5) (\<lambda>r.
       case r of Some x \<Rightarrow> lift_res (body_items x ''workers'') | None \<Rightarrow> ret [])"

definition incarnation_of :: "config \<Rightarrow> int res" where
  "incarnation_of kvs = Settings.py_int (jor (obj_get kvs ''incarnation'') (JInt 0))"

fun add_incarnations :: "string \<Rightarrow> json list \<Rightarrow> (json \<times> int) list \<Rightarrow> (json \<times> int) list res" where
  "add_incarnations addr [] out = Inr out"
| "add_incarnations addr (JObj kvs # recs) out =
     (let i = obj_get kvs ''node_id'' in
      if json_true i \<and> obj_get kvs ''address'' = JStr addr
      then res_bind (incarnation_of kvs) (\<lambda>n.
             if json_hashable i then add_incarnations addr recs (AList.update i n out) else Inl (TypeErr ''unhashable''))
      else add_incarnations addr recs out)"
| "add_incarnations addr (_ # recs) out = Inl (AttributeErr ''get'')"

definition worker_incarnations :: "'c launch_env \<Rightarrow> string \<Rightarrow> string \<Rightarrow> ('c, (json \<times> int) list) launch_act" where
  "worker_incarnations env url addr = act_bind (list_workers env url) (\<lambda>recs. lift_res (add_incarnations addr recs []))"

text \<open>What one look at the list of workers gives: the fresh worker serves, it failed (named by its id), or neither yet.\<close>

datatype look = Ready worker_handle | Broken json | NotYet

fun look_at :: "py_text \<Rightarrow> nat \<Rightarrow> string \<Rightarrow> string \<Rightarrow> (json \<times> int) list \<Rightarrow> string \<Rightarrow> string option \<Rightarrow> json list \<Rightarrow> look res" where
  "look_at t child url addr before backend model_name [] = Inr NotYet"
| "look_at t child url addr before backend model_name (JObj kvs # recs) =
     (let i = obj_get kvs ''node_id''; rest = look_at t child url addr before backend model_name recs in
      if obj_get kvs ''address'' \<noteq> JStr addr \<or> \<not> json_true i then rest
      else if \<not> json_hashable i then Inl (TypeErr ''unhashable'')
      else res_bind (incarnation_of kvs) (\<lambda>n.
        if (case map_of before i of Some prior \<Rightarrow> n \<le> prior | None \<Rightarrow> False) then rest
        else let state = state_text t (obj_get kvs ''state'') in
          if state = node_state_value SERVING
          then res_map (\<lambda>prt. Ready \<lparr>wh_manager_url = url, wh_address = addr, wh_port = prt,
                   wh_model = jor (obj_get kvs ''model'') (JStr (default_to [] model_name)),
                   wh_backend = jor (obj_get kvs ''backend'') (JStr backend), wh_node_id = i, wh_child = Some child\<rparr>)
                 (Settings.py_int (jor (obj_get kvs ''port'') (JInt 0)))
          else if state = node_state_value FAILED then Inr (Broken i)
          else rest))"
| "look_at t child url addr before backend model_name (_ # recs) = Inl (AttributeErr ''get'')"

text \<open>Ending the wait with an exception, after stopping the child.\<close>

definition give_up :: "'c launch_env \<Rightarrow> nat \<Rightarrow> string \<Rightarrow> ('c, 'a) launch_act" where
  "give_up env child msg = act_then (terminate env (Some child) WORKER_STOP_GRACE_S) (raise (RuntimeErr msg))"

definition past_deadline :: "'c launch_env \<Rightarrow> real option \<Rightarrow> ('c, bool) launch_act" where
  "past_deadline env deadline =
     (case deadline of None \<Rightarrow> ret False | Some d \<Rightarrow> act_bind (outside (le_now env)) (\<lambda>now. ret (\<not> now < d)))"

record worker_args =
  wa_token :: json
  wa_hf_home :: string
  wa_vllm_cache :: string
  wa_hf_token :: "string option"
  wa_model_name :: "string option"
  wa_profile :: "string option"
  wa_manager :: "manager_handle option"
  wa_backend :: string
  wa_manager_url :: "string option"
  wa_discover_timeout :: real
  wa_serving_timeout :: "real option"
  wa_poll_interval :: real

text \<open>\<open>_wait_worker_serving\<close>, after its deadline is set.\<close>

fun wait_worker :: "'c launch_env \<Rightarrow> worker_args \<Rightarrow> nat \<Rightarrow> string \<Rightarrow> string \<Rightarrow> (json \<times> int) list \<Rightarrow> real option \<Rightarrow> nat
    \<Rightarrow> ('c, worker_handle option) launch_act" where
  "wait_worker env a child url addr before deadline 0 = ret None"
| "wait_worker env a child url addr before deadline (Suc fuel) =
     act_bind (past_deadline env deadline) (\<lambda>late.
       if late then give_up env child ''worker did not reach SERVING''
       else act_bind (has_exited env child) (\<lambda>ended.
         if ended then give_up env child ''worker process exited before SERVING; check its logs''
         else act_bind (list_workers env url) (\<lambda>recs.
           act_bind (lift_res (look_at (le_text env) child url addr before (wa_backend a) (wa_model_name a) recs)) (\<lambda>seen.
             case seen of
               Ready h \<Rightarrow> ret (Some h)
             | Broken i \<Rightarrow> give_up env child (''worker '' @ py_str (le_text env) i @ '' reached FAILED'')
             | NotYet \<Rightarrow> act_then (sleep env (wa_poll_interval a)) (wait_worker env a child url addr before deadline fuel)))))"

definition wait_worker_serving :: "'c launch_env \<Rightarrow> worker_args \<Rightarrow> nat \<Rightarrow> string \<Rightarrow> string \<Rightarrow> (json \<times> int) list \<Rightarrow> nat
    \<Rightarrow> ('c, worker_handle option) launch_act" where
  "wait_worker_serving env a child url addr before fuel =
     act_bind (case wa_serving_timeout a of None \<Rightarrow> ret None | Some s \<Rightarrow> act_bind (outside (le_now env)) (\<lambda>now. ret (Some (now + s))))
       (\<lambda>deadline. wait_worker env a child url addr before deadline fuel)"

text \<open>The manager to register with, and the token.\<close>

definition find_manager :: "'c launch_env \<Rightarrow> worker_args \<Rightarrow> ('c, string \<times> json) launch_act" where
  "find_manager env a =
     act_bind (gets lw_last) (\<lambda>last.
       let m = (case wa_manager a of Some x \<Rightarrow> Some x | None \<Rightarrow> last);
           url = (case m of Some x \<Rightarrow> if truthy (wa_manager_url a) then wa_manager_url a else Some (mh_control_url x) | None \<Rightarrow> wa_manager_url a);
           token = (case m of Some x \<Rightarrow> if wa_token a = JNull then mh_token x else wa_token a | None \<Rightarrow> wa_token a) in
       if truthy url then ret (py_rstrip_char (CHR ''/'') (the url), token)
       else act_bind (outside (le_discover env (wa_discover_timeout a))) (\<lambda>found.
         if truthy found then ret (py_rstrip_char (CHR ''/'') (the found), token)
         else raise (RuntimeErr ''no manager found on the LAN'')))"

definition opt_json :: "string option \<Rightarrow> json" where
  "opt_json x = (case x of None \<Rightarrow> JNull | Some s \<Rightarrow> JStr s)"

definition worker_env :: "'c launch_env \<Rightarrow> worker_args \<Rightarrow> json \<Rightarrow> (string \<times> json) list" where
  "worker_env env a token =
     set_var ''OUMIGO_MANAGER_TOKEN'' token
       (set_var ''MODEL_NAME'' (opt_json (wa_model_name a))
         (set_var ''OUMIGO_MODEL_PROFILE'' (opt_json (wa_profile a))
           (set_var ''HF_TOKEN'' (opt_json (wa_hf_token a))
             (AList.update ''VLLM_CACHE_ROOT'' (JStr (le_expand env (wa_vllm_cache a)))
               (AList.update ''HF_HOME'' (JStr (le_expand env (wa_hf_home a))) (parent_environ env))))))"

definition worker_argv :: "'c launch_env \<Rightarrow> worker_args \<Rightarrow> string \<Rightarrow> json list" where
  "worker_argv env a url =
     [JStr (le_executable env), JStr ''-m'', JStr ''oumigo.cli.main'', JStr ''worker'', JStr ''run'', JStr ''--manager-url'', JStr url,
      JStr ''--backend'', JStr (wa_backend a)]"

definition create_worker :: "'c launch_env \<Rightarrow> worker_args \<Rightarrow> nat \<Rightarrow> ('c, worker_handle option) launch_act" where
  "create_worker env a fuel =
     act_bind (find_manager env a) (\<lambda>(url, token).
     act_bind (outside (le_lan_ip env)) (\<lambda>addr.
     act_bind (worker_incarnations env url addr) (\<lambda>before.
     act_bind (spawn_child env (worker_argv env a url) (worker_env env a token)) (\<lambda>child.
     act_bind (wait_worker_serving env a child url addr before fuel) (\<lambda>made.
       case made of
         None \<Rightarrow> ret None
       | Some h \<Rightarrow> act_then (register_exit (StopWorker h)) (ret (Some h)))))))"

text \<open>The end of the program: the registered functions run, the latest first.\<close>

fun run_exit :: "'c launch_env \<Rightarrow> exit_hook list \<Rightarrow> ('c, unit) launch_act" where
  "run_exit env [] = ret ()"
| "run_exit env (StopManager h # hs) = act_bind (stop_manager env h) (\<lambda>_. run_exit env hs)"
| "run_exit env (StopWorker h # hs) = act_bind (stop_worker env h) (\<lambda>_. run_exit env hs)"

end
