(* ===== verification/LauncherProofs.thy ===== *)
theory LauncherProofs
  imports Launcher Control
begin

text \<open>
  What the programmatic interface guarantees. The answers of a manager are those of its \<open>/workers\<close> handler on a reachable registry,
  so that the listings a launch reads are those the registry's lemmas speak of. A launch is followed through its actions by
  \<open>brings\<close>: which processes may run, what is on record, and which requests were answered.
\<close>

section \<open>What a manager answers\<close>

fun run_state_value :: "run_state \<Rightarrow> string" where
  "run_state_value IDLE = ''idle''"
| "run_state_value EXECUTING = ''executing''"

fun transport_value :: "transport \<Rightarrow> string" where
  "transport_value DIRECT = ''direct''"
| "transport_value TUNNEL = ''tunnel''"

definition opt_value :: "('a \<Rightarrow> json) \<Rightarrow> 'a option \<Rightarrow> json" where
  "opt_value f x = (case x of None \<Rightarrow> JNull | Some y \<Rightarrow> f y)"

text \<open>\<open>NodeRecord.as_dict\<close>, and the handler of \<open>/workers\<close>\<close>

definition as_dict :: "node_record \<Rightarrow> config" where
  "as_dict r =
     [(''node_id'', JStr (node_id r)), (''address'', JStr (address r)), (''state'', JStr (node_state_value (state r))),
      (''incarnation'', JInt (incarnation r)),
      (''capabilities'', JObj [(''gpu'', opt_value JStr (gpu (capabilities r))), (''vram_gb'', opt_value JReal (vram_gb (capabilities r)))]),
      (''registered_at'', JReal (registered_at r)), (''last_seen'', JReal (last_seen r)),
      (''run_state'', opt_value (JStr \<circ> run_state_value) (nr_run_state r)), (''seq'', JInt (int (seq r))),
      (''port'', opt_value JInt (port r)), (''model'', opt_value JStr (model r)), (''profile'', opt_value JStr (profile r)),
      (''backend'', opt_value JStr (backend r)), (''max_concurrent_requests'', opt_value JInt (max_concurrent_requests r)),
      (''transport'', JStr (transport_value (transport r))), (''tunnel_rtt_ms'', opt_value JReal (tunnel_rtt_ms r)),
      (''name'', JStr (node_name r)), (''served_name'', opt_value JStr (served_name r))]"

definition worker_row :: "tunnel_registry \<Rightarrow> node_record \<Rightarrow> json" where
  "worker_row tr r =
     JObj (if transport r = TUNNEL
           then (case tunnel_stats (node_id r) tr of (conns, spare) \<Rightarrow>
             AList.update ''tunnel_idle'' (JInt (int spare)) (AList.update ''tunnel_conns'' (JInt (int conns)) (as_dict r)))
           else as_dict r)"

definition workers_body :: "tunnel_registry \<Rightarrow> registry \<Rightarrow> json" where
  "workers_body tr g = JObj [(''workers'', JList (map (worker_row tr) (registry_list g)))]"


text \<open>The records an answer lists.\<close>

definition listed :: "api_reply option \<Rightarrow> json list res" where
  "listed r = (case r of Some x \<Rightarrow> if rp_status x div 100 = 2 then body_items x ''workers'' else Inr [] | None \<Rightarrow> Inr [])"

lemma list_workers_eq:
  "list_workers env url = act_bind (http_get env (url @ ''/workers'') [] [] 5) (\<lambda>r. lift_res (listed r))"
  unfolding list_workers_def http_get_ok_def act_bind_assoc
  by (rule arg_cong [where f = "act_bind _"]) (auto simp: listed_def fun_eq_iff split: option.split)

lemma row_fields:
  "worker_row tr r = JObj (if transport r = TUNNEL then as_dict r @ [(''tunnel_conns'', JInt (int (fst (tunnel_stats (node_id r) tr)))),
     (''tunnel_idle'', JInt (int (snd (tunnel_stats (node_id r) tr))))] else as_dict r)"
  by (simp add: worker_row_def as_dict_def split: prod.split)





section \<open>Which worker is ours\<close>



lemma record_port: "\<exists>p. Settings.py_int (jor (opt_value JInt (port r)) (JInt 0)) = Inr p \<and> (\<forall>v. port r = Some v \<longrightarrow> p = v)"
  by (auto simp: opt_value_def jor_def Settings.py_int_def split: option.split)






section \<open>Children and what is on record\<close>

definition books :: "'c launch_world \<Rightarrow> (string list \<times> (string \<times> string) list) list \<times> (string \<times> config) list \<times> manager_handle option \<times> exit_hook list" where
  "books w = (lw_started w, lw_files w, lw_last w, lw_atexit w)"

text \<open>Only processes of \<open>R\<close> run, and nothing was recorded since.\<close>

definition held where
  "held R b w \<longleftrightarrow> set (lw_running w) \<subseteq> R \<and> books w = b"

lemma held_mono: "held R b w \<Longrightarrow> R \<subseteq> R' \<Longrightarrow> held R' b w"
  by (auto simp: held_def)

text \<open>Facts of the held state and of the requests so far.\<close>

definition asked where
  "asked L R b K w \<longleftrightarrow> L \<subseteq> set (lw_running w) \<and> held R b w \<and> lw_asked w = K"


lemma asked_outside [simp]: "asked L R b K (w\<lparr>lw_outside := c\<rparr>) = asked L R b K w"
  by (simp add: asked_def held_def books_def)











section \<open>Starting a worker\<close>




















section \<open>Starting a manager\<close>

text \<open>The written configuration gives the manager the resolved settings, keeps what it does not replace, and never holds the token.\<close>

lemma manager_config_reads:
  assumes c: "manager_config s base = Inr cfg"
  shows "get_data_plane t cfg = Inr (py_str t (ms_data_host s), ms_data_port s)" "get_provider_name t cfg = py_str t (ms_provider s)"
    "map_of cfg ''bearer_token'' = None" "map_of cfg ''provider'' = Some (ms_provider s)"
    "k \<notin> {''provider'', ''data_plane'', ''control_plane'', ''model'', ''bearer_token''} \<Longrightarrow> map_of cfg k = map_of base k"
proof -
  obtain m where m: "dict_of (ms_model s) = Inr m" using c by (cases "dict_of (ms_model s)") (auto simp: manager_config_def Let_def res_map_def)
  let ?c2 = "AList.update ''data_plane'' (JObj [(''host'', ms_data_host s), (''port'', JInt (ms_data_port s))]) (AList.update ''provider'' (ms_provider s) base)"
  obtain c3 where cfg: "cfg = AList.delete ''bearer_token'' (AList.update ''model'' (JObj m) c3)"
    and c3: "c3 = ?c2 \<or> (\<exists>v. c3 = AList.update ''control_plane'' v ?c2)"
    using c m by (auto simp: manager_config_def Let_def split: if_splits)
  have get: "map_of cfg k = (if k = ''bearer_token'' then None else if k = ''model'' then Some (JObj m) else map_of c3 k)" for k
    by (simp add: cfg delete_conv' update_conv' map_of_eq_None_iff fun_upd_def)
  have dp: "map_of cfg ''data_plane'' = Some (JObj [(''host'', ms_data_host s), (''port'', JInt (ms_data_port s))])"
    and pr: "map_of cfg ''provider'' = Some (ms_provider s)"
    using c3 by (auto simp: get update_conv')
  show "get_data_plane t cfg = Inr (py_str t (ms_data_host s), ms_data_port s)"
    by (simp add: get_data_plane_def block_def obj_get_def get_or_def dp Settings.py_int_def)
  show "get_provider_name t cfg = py_str t (ms_provider s)" by (simp add: get_provider_name_def get_or_def pr)
  show "map_of cfg ''bearer_token'' = None" by (simp add: get)
  show "map_of cfg ''provider'' = Some (ms_provider s)" by (rule pr)
  show "map_of cfg k = map_of base k" if "k \<notin> {''provider'', ''data_plane'', ''control_plane'', ''model'', ''bearer_token''}"
    using that c3 by (auto simp: get update_conv')
qed













section \<open>No process is left behind\<close>



text \<open>A program that uses the interface: its calls, each with the fuel for its wait. An exception is caught; \<open>None\<close> means that a
  call was still waiting.\<close>

datatype launch_call = AskManager manager_args | AskWorker worker_args | StopManagerNow manager_handle | StopWorkerNow worker_handle

definition run_call :: "'c launch_env \<Rightarrow> launch_call \<times> nat \<Rightarrow> ('c, bool) launch_act" where
  "run_call env cf =
     (case cf of
        (AskManager a, fuel) \<Rightarrow> act_bind (get_or_create_manager env a fuel) (\<lambda>m. ret (m \<noteq> None))
      | (AskWorker a, fuel) \<Rightarrow> act_bind (create_worker env a fuel) (\<lambda>h. ret (h \<noteq> None))
      | (StopManagerNow h, _) \<Rightarrow> act_bind (stop_manager env h) (\<lambda>_. ret True)
      | (StopWorkerNow h, _) \<Rightarrow> act_bind (stop_worker env h) (\<lambda>_. ret True))"













section \<open>The wait with a time limit ends\<close>

text \<open>The assumption on the clock: it does not run backwards while the loop works, and a sleep takes at least its length.\<close>

definition timed :: "'c launch_env \<Rightarrow> ('c \<Rightarrow> real) \<Rightarrow> bool" where
  "timed env clk \<longleftrightarrow>
     (\<forall>c. fst (le_now env c) = clk c \<and> clk c \<le> clk (snd (le_now env c))) \<and> (\<forall>p c. clk c \<le> clk (snd (le_poll env p c)))
     \<and> (\<forall>q c. clk c \<le> clk (snd (le_get env q c))) \<and> (\<forall>d c. clk c + d \<le> clk (le_sleep env d c))"

definition by_time where "by_time clk T w \<longleftrightarrow> T \<le> clk (lw_outside w)"

abbreviation "anywhere \<equiv> \<lambda>_. True"

lemma expired_since:
  assumes "timed env clk"
  shows "brings (by_time clk T) (past_deadline env (Some D)) (\<lambda>late w. by_time clk T w \<and> (D \<le> T \<longrightarrow> late)) anywhere"
proof -
  have "x = clk c \<and> clk c \<le> clk c'" if "le_now env c = (x, c')" for c c' x using assms that unfolding timed_def by (metis fst_conv snd_conv)
  then show ?thesis
    by (fastforce simp: brings_def past_deadline_def act_bind_def act_defs outside_def by_time_def split: prod.split)
qed

lemma has_exited_since:
  assumes "timed env clk"
  shows "brings (by_time clk T) (has_exited env p) (\<lambda>_. by_time clk T) anywhere"
proof -
  have "clk c \<le> clk c'" if "le_poll env p c = (x, c')" for c c' x using assms that unfolding timed_def by (metis snd_conv)
  then show ?thesis
    by (auto simp: brings_def has_exited_def act_bind_def act_then_def act_defs outside_def reaped_def by_time_def split: prod.split intro: order_trans)
qed

lemma list_workers_since:
  assumes "timed env clk"
  shows "brings (by_time clk T) (list_workers env url) (\<lambda>_. by_time clk T) anywhere"
proof -
  have "clk c \<le> clk c'" if "le_get env q c = (x, c')" for c c' x q using assms that unfolding timed_def by (metis snd_conv)
  then show ?thesis
    unfolding list_workers_eq
    by (auto simp: brings_def http_get_def act_bind_def act_defs by_time_def Let_def split: prod.split sum.split intro: order_trans)
qed

lemma sleep_since:
  assumes "timed env clk" "0 \<le> d"
  shows "brings (by_time clk T) (sleep env d) (\<lambda>_. by_time clk (T + d)) anywhere"
proof -
  have "T + d \<le> clk (le_sleep env d c)" if "T \<le> clk c" for c
    using assms(1) that unfolding timed_def by (meson add_right_mono order_trans)
  with assms(2) show ?thesis by (auto simp: brings_def sleep_def affect_def outside_def by_time_def)
qed

lemma give_up_raises: "brings P (give_up env child msg) (\<lambda>_ _. False) anywhere"
  by (auto simp: brings_def give_up_def act_then_def act_bind_def act_defs split: prod.split sum.split)

lemma brings_result_mono: "brings P m (\<lambda>_ _. False) anywhere \<Longrightarrow> brings P m Q anywhere"
  by (erule brings_weaken) auto

text \<open>One round: past the deadline it raises, and otherwise the next round starts an interval later.\<close>

lemma wait_worker_round:
  fixes env :: "'a launch_env"
  assumes t: "timed env clk" and d: "0 \<le> wa_poll_interval a"
    and nxt: "D \<le> T \<or> brings (by_time clk (T + wa_poll_interval a)) (wait_worker env a child url addr before (Some D) fuel) (\<lambda>made _. made \<noteq> None) anywhere"
  shows "brings (by_time clk T) (wait_worker env a child url addr before (Some D) (Suc fuel)) (\<lambda>made _. made \<noteq> None) anywhere"
  unfolding wait_worker.simps
proof (rule brings_bind [OF expired_since [OF t]])
  fix late
  let ?look = "\<lambda>recs. act_bind (lift_res (look_at (le_text env) child url addr before (wa_backend a) (wa_model_name a) recs)) (\<lambda>seen.
      case seen of Ready h \<Rightarrow> ret (Some h) | Broken i \<Rightarrow> give_up env child (''worker '' @ py_str (le_text env) i @ '' reached FAILED'')
      | NotYet \<Rightarrow> act_then (sleep env (wa_poll_interval a)) (wait_worker env a child url addr before (Some D) fuel))"
  show "brings (\<lambda>w. by_time clk T w \<and> (D \<le> T \<longrightarrow> late)) (if late then give_up env child ''worker did not reach SERVING''
      else act_bind (has_exited env child) (\<lambda>ended.
        if ended then give_up env child ''worker process exited before SERVING; check its logs'' else act_bind (list_workers env url) ?look))
      (\<lambda>made _. made \<noteq> None) anywhere"
  proof (cases "late \<or> D \<le> T")
    case True
    show ?thesis
    proof (cases late)
      case True
      then show ?thesis by (simp add: give_up_raises [THEN brings_result_mono])
    next
      case False
      with \<open>late \<or> D \<le> T\<close> show ?thesis by (simp add: brings_def)
    qed
  next
    case False
    with nxt have n: "brings (by_time clk (T + wa_poll_interval a)) (wait_worker env a child url addr before (Some D) fuel) (\<lambda>made _. made \<noteq> None) anywhere"
      by simp
    have look: "brings (by_time clk T) (?look recs) (\<lambda>made _. made \<noteq> None) anywhere" for recs
    proof (cases "look_at (le_text env) child url addr before (wa_backend a) (wa_model_name a) recs")
      case (Inr seen)
      then show ?thesis
        by (cases seen) (auto simp: brings_ret give_up_raises [THEN brings_result_mono] intro: brings_then [OF sleep_since [OF t d] n] simp del: not_None_eq)
    qed (simp add: brings_raise)
    have "brings (by_time clk T) (act_bind (has_exited env child) (\<lambda>ended.
        if ended then give_up env child ''worker process exited before SERVING; check its logs'' else act_bind (list_workers env url) ?look))
        (\<lambda>made _. made \<noteq> None) anywhere"
      by (rule brings_bind [OF has_exited_since [OF t]])
         (auto simp: give_up_raises [THEN brings_result_mono] intro: brings_bind [OF list_workers_since [OF t] look] simp del: not_None_eq)
    with False show ?thesis by simp
  qed
qed

lemma wait_worker_ends:
  assumes t: "timed env clk" and d: "0 \<le> wa_poll_interval a" and D: "D \<le> T + real n * wa_poll_interval a"
  shows "brings (by_time clk T) (wait_worker env a child url addr before (Some D) (Suc n)) (\<lambda>made _. made \<noteq> None) anywhere"
  using D
proof (induction n arbitrary: T)
  case 0
  then show ?case by (intro wait_worker_round [OF t d]) simp
next
  case (Suc n)
  have "D \<le> T + wa_poll_interval a + real n * wa_poll_interval a" using Suc.prems by (simp add: algebra_simps)
  then show ?case by (intro wait_worker_round [OF t d] disjI2 Suc.IH)
qed

text \<open>With a time limit a worker's start returns or raises after at most \<open>serving_timeout / poll_interval\<close> further looks.\<close>

lemma create_worker_returns:
  fixes env :: "'a launch_env"
  assumes t: "timed env clk" and s: "wa_serving_timeout a = Some s" and d: "0 \<le> wa_poll_interval a" and n: "s \<le> real n * wa_poll_interval a"
  shows "fst (create_worker env a (Suc n) w) \<noteq> Inr None"
proof -
  have wait: "brings anywhere (wait_worker_serving env a child url addr before (Suc n)) (\<lambda>made _. made \<noteq> None) anywhere" for child url addr before
  proof -
    have "case wait_worker_serving env a child url addr before (Suc n) w of (Inl e, v) \<Rightarrow> True | (Inr made, v) \<Rightarrow> made \<noteq> None" for w
    proof -
      obtain now c where now: "le_now env (lw_outside w) = (now, c)" by (cases "le_now env (lw_outside w)")
      with t have c: "now = clk (lw_outside w)" "now \<le> clk c" unfolding timed_def by (metis fst_conv, metis fst_conv snd_conv)
      have "by_time clk now (w\<lparr>lw_outside := c\<rparr>)" using c by (simp add: by_time_def)
      then show ?thesis
        using wait_worker_ends [OF t d, of "now + s" now n, unfolded brings_def, rule_format, of "w\<lparr>lw_outside := c\<rparr>"] n
        by (simp add: wait_worker_serving_def s act_bind_def act_defs outside_def now del: wait_worker.simps)
    qed
    then show ?thesis by (simp add: brings_def del: not_None_eq)
  qed
  have "brings anywhere (create_worker env a (Suc n)) (\<lambda>made _. made \<noteq> None) anywhere"
    unfolding create_worker_def
    by (rule brings_bind [where Q = "\<lambda>_. anywhere"], simp add: brings_def split: prod.split sum.split, unfold case_prod_beta)
       (intro brings_bind [where Q = "\<lambda>_. anywhere"] brings_bind [OF wait];
        auto simp: brings_def act_then_def act_bind_def register_exit_def act_defs split: prod.split sum.split option.split)
  from bringsD [OF this TrueI, of w] show ?thesis by (cases "create_worker env a (Suc n) w") auto
qed

section \<open>Properties\<close>


definition demo_registry :: "int \<Rightarrow> registry" where
  "demo_registry inc = fold registry_exec
     [OpRegister 0 ''n1'' ''10.0.0.5'' SERVING inc no_caps (Some 7001) None (Some ''vllm'') DIRECT (Some ''m@8k'')] registry_init"

definition demo_launch :: "nat launch_env" where
  "demo_launch =
     \<lparr>le_poll = (\<lambda>_ c. (False, c)), le_signal = (\<lambda>_ _ c. c), le_wait = (\<lambda>_ _ c. (True, c)), le_reap = (\<lambda>_ c. c), le_spawn = (\<lambda>_ _ c. (None, c)),
      le_get = (\<lambda>q c. (Some \<lparr>rp_status = 200, rp_content = [],
          rp_json = (if py_endswith (gr_url q) ''/workers'' then Some (workers_body registry_start (demo_registry (if c \<le> 1 then 1 else 2))) else None),
          rp_json_type = True\<rparr>, Suc c)),
      le_now = (\<lambda>c. (0, c)), le_sleep = (\<lambda>_ c. c), le_discover = (\<lambda>_ c. (None, c)), le_lan_ip = (\<lambda>c. (''10.0.0.5'', c)),
      le_mkstemp = (\<lambda>c. (Inr ''/tmp/oumigo-manager-1.yaml'', c)), le_environ = [], le_executable = ''python'', le_expand = (\<lambda>s. s),
      le_yaml = (\<lambda>_. NoFile), le_text = demo_text\<rparr>"

definition demo_desk :: "nat \<Rightarrow> nat launch_world" where
  "demo_desk c = \<lparr>lw_outside = c, lw_started = [], lw_running = [], lw_files = [], lw_last = None, lw_atexit = [], lw_asked = []\<rparr>"

definition demo_worker_args :: worker_args where
  "demo_worker_args = \<lparr>wa_token = JNull, wa_hf_home = ''h'', wa_vllm_cache = ''v'', wa_hf_token = None, wa_model_name = None, wa_profile = None,
     wa_manager = None, wa_backend = ''vllm'', wa_manager_url = Some ''http://m:7014/'', wa_discover_timeout = 10, wa_serving_timeout = None, wa_poll_interval = 2\<rparr>"

definition demo_manager_args :: manager_args where
  "demo_manager_args = \<lparr>ma_token = Some (JStr ''s3cret''), ma_config_file = None, ma_data_host = None, ma_data_port = None, ma_control_host = None,
     ma_control_port = None, ma_provider = None, ma_model = None, ma_discover_timeout = 3, ma_startup_timeout = 20\<rparr>"


lemmas launch_eval = demo_launch_def demo_desk_def demo_worker_args_def demo_manager_args_def demo_registry_def act_bind_def act_then_def act_defs
  create_worker_def find_manager_def worker_incarnations_def list_workers_def http_get_ok_def http_get_def outside_def affect_def spawn_child_def
  worker_argv_def worker_env_def wait_worker_serving_def past_deadline_def has_exited_def register_exit_def set_var_def parent_environ_def opt_json_def
  get_or_create_manager_def start_manager_def write_manager_config_def manager_config_def resolve_settings_def load_config_file_def pick_def
  DEFAULT_MODEL_def dict_of_def manager_argv_def owned_handle_def probe_host_def http_url_def wait_manager_healthy_def manager_healthy_def sleep_def
  body_items_def body_json_def workers_body_def get_or_def jiter_def row_fields as_dict_def opt_value_def obj_get_def jor_def incarnation_of_def
  registry_init_def registry_register_def registry_list_def keep_def no_caps_def state_text_def py_str_def py_lower_def py_lower_char_def
  py_endswith_def py_rstrip_char_def text_value_def block_def res_bind_def res_map_def Settings.py_int_def node_name_def served_name_def run_call_def



text \<open>Three things the code does that its documentation excludes. An answer that is no JSON goes through the wait without stopping
  the child, although a failed launch should never leave one; the configuration that is written replaces the whole \<open>data_plane\<close>
  block, so that client authentication switched on in the file is off in the manager; and it always holds a \<open>model\<close> block, so that a
  file with a \<open>catalog\<close> becomes one the manager refuses.\<close>

definition garbled_launch :: "nat launch_env" where
  "garbled_launch = demo_launch\<lparr>le_get := (\<lambda>q c. (Some \<lparr>rp_status = 200, rp_content = ''<html>'',
     rp_json = (if c \<le> 1 then Some (workers_body registry_start (demo_registry 1)) else None), rp_json_type = True\<rparr>, Suc c))\<rparr>"

lemma garbled_answer_leaks_child:
  "fst (create_worker garbled_launch demo_worker_args 1 (demo_desk 1)) = Inl (ValueErr ''not JSON'')"
  "lw_running (snd (create_worker garbled_launch demo_worker_args 1 (demo_desk 1))) = [0]"
  "lw_atexit (snd (create_worker garbled_launch demo_worker_args 1 (demo_desk 1))) = []"
  by (simp_all add: garbled_launch_def launch_eval Let_def)

lemma written_config_drops_client_auth:
  fixes base defines "base \<equiv> [(''data_plane'', JObj [(''client_auth'', JBool True)])]"
  shows "\<exists>s cfg. resolve_settings demo_manager_args base = Inr s \<and> manager_config s base = Inr cfg
     \<and> get_client_auth demo_text base = Inr True \<and> get_client_auth demo_text cfg = Inr False"
  by (simp add: base_def launch_eval Let_def get_client_auth_def get_provider_name_def py_upper_def py_upper_char_def)

lemma catalog_file_refused:
  assumes "map_of base ''catalog'' = Some c" and "ms_model s = JObj m" and "manager_config s base = Inr cfg"
  shows "map_of cfg ''catalog'' = Some c" "map_of cfg ''model'' = Some (JObj m)"
    "catalog_from_config trees (Some (allow, dflt)) (Some lm) = Inl (ValueErr ''manager config has both catalog: and model:'')"
  using manager_config_reads(5) [OF assms(3), of "''catalog''"] assms
  by (auto simp: manager_config_def Let_def dict_of_def res_map_def delete_conv' update_conv' catalog_from_config_def)




end
