(* ===== verification/Cli.thy ===== *)
theory Cli
  imports LauncherProofs
begin

text \<open>
  The command line (\<open>src/src/oumigo/cli/main.py\<close>) without its parser: how the options of \<open>worker run\<close> are completed from the
  environment, how \<open>manager serve\<close> and \<open>manager run\<close> settle what they start or refuse to, and the commands on the credential store.
  \<open>typer.Exit(n)\<close> is \<open>SystemExit\<close> with the code, and \<open>BadParameter\<close> a \<open>ValueErr\<close>. What the catalog of a configuration is, and whether
  it has errors, is a parameter here; messages are left out.
\<close>

section \<open>Values\<close>

definition exit_with :: "nat \<Rightarrow> err" where
  "exit_with n = SystemExit (nat_str n)"

definition parse_yes_no :: "string \<Rightarrow> bool res" where
  "parse_yes_no value =
     (let v = py_upper (py_strip value) in
      if v \<in> {''YES'', ''Y''} then Inr True else if v \<in> {''NO'', ''N''} then Inr False else Inl (ValueErr ''expected YES or NO''))"

definition unit_seconds :: "char \<Rightarrow> real option" where
  "unit_seconds c = map_of [(CHR ''s'', 1), (CHR ''m'', 60), (CHR ''h'', 3600), (CHR ''d'', 86400)] c"

text \<open>\<open>None\<close> is no expiry.\<close>

definition parse_duration :: "string \<Rightarrow> real option res" where
  "parse_duration txt =
     (let v = py_lower (py_strip txt) in
      if v \<in> {''0'', ''none'', ''never'', []} then Inr None
      else case unit_seconds (last v) of
        Some u \<Rightarrow> (case Supervisor.py_float (butlast v) of Some x \<Rightarrow> Inr (Some (x * u)) | None \<Rightarrow> Inl (ValueErr ''not a duration''))
      | None \<Rightarrow> (case Supervisor.py_float v of Some x \<Rightarrow> Inr (Some x) | None \<Rightarrow> Inl (ValueErr ''not a duration'')))"

section \<open>worker run\<close>

record worker_flags =
  wf_manager_url :: "string option"
  wf_token_file :: "string option option"
  wf_transport :: "string option"
  wf_discover_timeout :: "real option"
  wf_env_file :: "string option"
  wf_backend :: string

record worker_options =
  wo_manager_url :: "string option"
  wo_transport :: string
  wo_discover_timeout :: real
  wo_token :: "string option"
  wo_environ :: "(string \<times> string) list"

definition env_strip :: "(string \<times> string) list \<Rightarrow> string \<Rightarrow> string option" where
  "env_strip vars k = (let v = py_strip (default_to [] (map_of vars k)) in if v = [] then None else Some v)"

definition is_os_error :: "err \<Rightarrow> bool" where
  "is_os_error e = (case e of FileNotFound _ \<Rightarrow> True | OSErr _ \<Rightarrow> True | _ \<Rightarrow> False)"

definition token_or_exit :: "string option res \<Rightarrow> string option res" where
  "token_or_exit r = (case r of Inl e \<Rightarrow> Inl (if is_os_error e then exit_with 1 else e) | Inr t \<Rightarrow> Inr t)"

definition discover_seconds :: "real option \<Rightarrow> (string \<times> string) list \<Rightarrow> real res" where
  "discover_seconds given vars =
     (case given of
        Some s \<Rightarrow> Inr s
      | None \<Rightarrow>
          let v = default_to [] (map_of vars ''OUMIGO_DISCOVER_TIMEOUT'') in
          if v = [] then Inr 60
          else (case Supervisor.py_float v of Some s \<Rightarrow> Inr s | None \<Rightarrow> Inl (exit_with 2)))"

text \<open>\<open>worker_run\<close> up to its call of \<open>run_worker\<close>. A token file that is given is missing (\<open>Some None\<close>) or has a text.\<close>

definition worker_run_options :: "worker_flags \<Rightarrow> (string \<times> string) list \<Rightarrow> worker_options res" where
  "worker_run_options f vars0 =
     (if wf_backend f \<notin> {''vllm'', ''transformer''} then Inl (exit_with 2)
      else let vars = snd (load_env_file (wf_env_file f) False vars0);
               via = default_to ''direct'' (str_or (wf_transport f) (env_strip vars ''OUMIGO_TRANSPORT'')) in
        res_bind (discover_seconds (wf_discover_timeout f) vars) (\<lambda>secs.
          if via \<notin> {''direct'', ''tunnel''} then Inl (exit_with 2)
          else res_map (\<lambda>tok. \<lparr>wo_manager_url = str_or (wf_manager_url f) (env_strip vars ''OUMIGO_MANAGER_URL''), wo_transport = via,
                 wo_discover_timeout = secs, wo_token = tok, wo_environ = vars\<rparr>)
               (case env_strip vars ''OUMIGO_JOIN_TOKEN'' of
                  Some t \<Rightarrow> Inr (Some t)
                | None \<Rightarrow> token_or_exit (resolve_manager_token (map_of vars ''OUMIGO_MANAGER_TOKEN'') (wf_token_file f)))))"

section \<open>manager serve and manager run\<close>

definition load_manager_yaml :: "(string \<Rightarrow> yaml_file) \<Rightarrow> string option \<Rightarrow> json res" where
  "load_manager_yaml fs config_file =
     (case config_file of
        None \<Rightarrow> Inr (JObj [])
      | Some p \<Rightarrow> (case fs p of NoFile \<Rightarrow> Inr (JObj []) | NotYaml \<Rightarrow> Inl (ValueErr ''yaml'') | Document v \<Rightarrow> Inr (jor v (JObj []))))"

definition as_config :: "json \<Rightarrow> config res" where
  "as_config v = (case v of JObj kvs \<Rightarrow> Inr kvs | _ \<Rightarrow> Inl (AttributeErr ''get''))"

text \<open>\<open>except ValueError: raise typer.Exit(1)\<close>\<close>

definition value_or_exit :: "'a res \<Rightarrow> 'a res" where
  "value_or_exit r = (case r of Inl (ValueErr _) \<Rightarrow> Inl (exit_with 1) | _ \<Rightarrow> r)"

record manager_runtime =
  rt_token :: "string option"
  rt_provider :: string
  rt_node_spec :: "node_spec option"
  rt_bind_host :: json
  rt_control_tls :: bool
  rt_bind_port :: int
  rt_heartbeat_interval :: int
  rt_heartbeat_timeout :: int
  rt_forget_after :: int

text \<open>The posture check on a bind host that may not be a string: then \<open>host.strip()\<close> raises, if it is reached.\<close>

definition posture_problems :: "string \<Rightarrow> json \<Rightarrow> bool \<Rightarrow> string \<Rightarrow> bool \<Rightarrow> bool \<Rightarrow> string \<Rightarrow> violation list res" where
  "posture_problems prov host tls dhost ca dash dashhost =
     (if prov \<noteq> CUSTOM then Inr []
      else case host of
        JStr h \<Rightarrow> Inr (check_posture prov h tls dhost ca dash dashhost)
      | _ \<Rightarrow> Inl (AttributeErr ''strip''))"

definition spec_of_catalog :: "config \<Rightarrow> fleet_catalog res \<Rightarrow> node_spec option res" where
  "spec_of_catalog cfg cat0 =
     res_bind cat0 (\<lambda>cat. case default_profile cat of
       None \<Rightarrow> Inr None
     | Some _ \<Rightarrow> res_map (build_node_spec cat) (get_vllm_port cfg))"

definition resolve_manager_runtime ::
  "py_text \<Rightarrow> (config \<Rightarrow> fleet_catalog res) \<Rightarrow> (string \<Rightarrow> yaml_file) \<Rightarrow> string option \<Rightarrow> string option \<Rightarrow> string option option
   \<Rightarrow> string option \<Rightarrow> int option \<Rightarrow> manager_runtime res" where
  "resolve_manager_runtime t catalog_of fs config_file env_token token_file host prt =
     res_bind (token_or_exit (resolve_manager_token env_token token_file)) (\<lambda>token.
     res_bind (load_manager_yaml fs config_file) (\<lambda>v. res_bind (as_config v) (\<lambda>cfg.
     res_bind (value_or_exit (create_provider (get_provider_name t cfg))) (\<lambda>prov.
     res_bind (block cfg ''control_plane'') (\<lambda>cp.
     let bind_host = (if truthy host then JStr (the host) else get_or cp ''host'' (JStr ''0.0.0.0'')) in
     res_bind (value_or_exit (get_control_tls t cfg)) (\<lambda>tls.
     res_bind (get_data_plane t cfg) (\<lambda>(dhost, _).
     res_bind (get_dashboard t cfg) (\<lambda>(dash, dashhost, _).
     res_bind (get_client_auth t cfg) (\<lambda>ca.
     res_bind (posture_problems prov bind_host (tls \<noteq> None) dhost ca dash dashhost) (\<lambda>problems.
     if problems \<noteq> [] then Inl (exit_with 1)
     else res_bind (value_or_exit (spec_of_catalog cfg (catalog_of cfg))) (\<lambda>ns.
     res_bind (case prt of Some p \<Rightarrow> if p \<noteq> 0 then Inr p else Settings.py_int (get_or cp ''port'' (JInt 7014))
               | None \<Rightarrow> Settings.py_int (get_or cp ''port'' (JInt 7014))) (\<lambda>bport.
     res_bind (block cfg ''heartbeat'') (\<lambda>hb.
     res_bind (Settings.py_int (get_or hb ''interval_s'' (JInt 10))) (\<lambda>hi.
     res_bind (Settings.py_int (get_or hb ''timeout_s'' (JInt 30))) (\<lambda>ht.
     res_map (\<lambda>fa. \<lparr>rt_token = token, rt_provider = prov, rt_node_spec = ns, rt_bind_host = bind_host, rt_control_tls = (tls \<noteq> None),
         rt_bind_port = bport, rt_heartbeat_interval = hi, rt_heartbeat_timeout = ht, rt_forget_after = fa\<rparr>)
       (Settings.py_int (get_or hb ''forget_after_seconds'' (JInt 3600))))))))))))))))))"

text \<open>Whether \<open>manager serve\<close> advertises itself on the local network.\<close>

definition advertises :: "bool \<Rightarrow> manager_runtime \<Rightarrow> bool" where
  "advertises no_mdns rt = (\<not> no_mdns \<and> \<not> is_wan (rt_provider rt))"

text \<open>The arguments that \<open>manager run\<close> on a terminal hands to the server it starts.\<close>

definition forward_args :: "py_text \<Rightarrow> manager_runtime \<Rightarrow> string option \<Rightarrow> bool \<Rightarrow> bool \<Rightarrow> string list" where
  "forward_args t rt config_file no_mdns verbose =
     [''--host'', py_str t (rt_bind_host rt), ''--port'', int_str (rt_bind_port rt)]
     @ (case config_file of Some p \<Rightarrow> [''--config-file'', p] | None \<Rightarrow> [])
     @ (if no_mdns then [''--no-mdns''] else []) @ (if verbose then [''--verbose''] else [])"

section \<open>Commands on the credential store\<close>

text \<open>\<open>uses or None\<close>: no limit for 0.\<close>

definition token_create :: "crypto \<Rightarrow> real \<Rightarrow> string \<Rightarrow> string \<Rightarrow> string \<Rightarrow> int \<Rightarrow> string option \<Rightarrow> auth_store \<Rightarrow> (string \<times> string) res \<times> auth_store" where
  "token_create c now rnd token_id ttl uses label st =
     (case parse_duration ttl of
        Inl e \<Rightarrow> (Inl e, st)
      | Inr secs \<Rightarrow> create_join_token c now rnd token_id secs (if uses = 0 then None else Some uses) label st)"

definition found_or_exit :: "bool \<times> auth_store \<Rightarrow> unit res \<times> auth_store" where
  "found_or_exit r = (if fst r then (Inr (), snd r) else (Inl (exit_with 1), snd r))"

definition token_revoke :: "string \<Rightarrow> auth_store \<Rightarrow> unit res \<times> auth_store" where
  "token_revoke token_id st = found_or_exit (revoke_join_token token_id st)"

definition node_revoke :: "real \<Rightarrow> string \<Rightarrow> auth_store \<Rightarrow> unit res \<times> auth_store" where
  "node_revoke now nid st = (Inr (), revoke_node now nid st)"

definition node_unrevoke :: "string \<Rightarrow> auth_store \<Rightarrow> unit res \<times> auth_store" where
  "node_unrevoke nid st = found_or_exit (unrevoke_node nid st)"

definition apikey_create :: "crypto \<Rightarrow> real \<Rightarrow> string \<Rightarrow> string \<Rightarrow> string option \<Rightarrow> auth_store \<Rightarrow> (string \<times> string) res \<times> auth_store" where
  "apikey_create c now rnd key_id label st = create_api_key c now rnd key_id label st"

definition apikey_revoke :: "string \<Rightarrow> auth_store \<Rightarrow> unit res \<times> auth_store" where
  "apikey_revoke key_id st = found_or_exit (revoke_api_key key_id st)"

text \<open>The status column of the listings.\<close>

definition token_status :: "real \<Rightarrow> join_row \<Rightarrow> string" where
  "token_status now t = (if jt_revoked t then ''revoked'' else if jt_usable now t then ''usable'' else ''spent'')"

definition key_status :: "key_row \<Rightarrow> string" where
  "key_status k = (if ak_revoked k then ''revoked'' else ''active'')"

section \<open>Lemmas\<close>

lemma duration_units:
  "parse_duration ''90s'' = Inr (Some 90)" "parse_duration ''30m'' = Inr (Some 1800)" "parse_duration '' 1H '' = Inr (Some 3600)"
  "parse_duration ''2d'' = Inr (Some 172800)" "parse_duration ''never'' = Inr None" "parse_duration ''soon'' = Inl (ValueErr ''not a duration'')"
  by code_simp+

text \<open>A flag wins over the environment, the environment over the file.\<close>

lemma if_Inl_Inr: "(if b then Inl e else m) = Inr x \<longleftrightarrow> \<not> b \<and> m = Inr x"
  by simp

lemma worker_flags_win:
  assumes "worker_run_options f vars = Inr x"
  shows "truthy (wf_manager_url f) \<Longrightarrow> wo_manager_url x = wf_manager_url f"
    and "truthy (wf_transport f) \<Longrightarrow> wo_transport x = the (wf_transport f)"
    and "wf_discover_timeout f = Some s \<Longrightarrow> wo_discover_timeout x = s"
    and "wo_transport x \<in> {''direct'', ''tunnel''}"
proof -
  obtain vars' tok where o: "discover_seconds (wf_discover_timeout f) vars' = Inr (wo_discover_timeout x)"
    "wo_transport x = default_to ''direct'' (str_or (wf_transport f) (env_strip vars' ''OUMIGO_TRANSPORT''))" "wo_transport x \<in> {''direct'', ''tunnel''}"
    "wo_manager_url x = str_or (wf_manager_url f) (env_strip vars' ''OUMIGO_MANAGER_URL'')"
    using assms unfolding worker_run_options_def Let_def if_Inl_Inr res_bind_Inr res_map_def by fastforce
  show "truthy (wf_manager_url f) \<Longrightarrow> wo_manager_url x = wf_manager_url f" using o(4) by (simp add: str_or_def)
  show "truthy (wf_transport f) \<Longrightarrow> wo_transport x = the (wf_transport f)" using o(2) by (cases "wf_transport f") (simp_all add: str_or_def)
  show "wf_discover_timeout f = Some s \<Longrightarrow> wo_discover_timeout x = s" using o(1) by (simp add: discover_seconds_def)
  show "wo_transport x \<in> {''direct'', ''tunnel''}" by (rule o(3))
qed

text \<open>A manager for a fleet outside the local network starts only guarded: its control plane is bound to the loopback or has TLS, its
  router and dashboard are bound to the loopback, clients must authenticate, and it is not advertised.\<close>

lemma value_or_exit_Inr: "value_or_exit r = Inr x \<longleftrightarrow> r = Inr x"
  by (cases r) (auto simp: value_or_exit_def split: err.splits)

lemma runtime_checked:
  assumes "resolve_manager_runtime t catalog_of fs config_file env_token token_file host prt = Inr rt"
  shows "\<exists>cfg dhost dport dash dashhost dashport ca. load_manager_yaml fs config_file = Inr (JObj cfg) \<and> get_data_plane t cfg = Inr (dhost, dport) \<and> get_dashboard t cfg = Inr (dash, dashhost, dashport)
     \<and> get_client_auth t cfg = Inr ca \<and> posture_problems (rt_provider rt) (rt_bind_host rt) (rt_control_tls rt) dhost ca dash dashhost = Inr []"
  using assms unfolding resolve_manager_runtime_def Let_def res_bind_Inr res_map_def case_prod_beta if_Inl_Inr
  by (elim exE conjE, clarsimp simp: as_config_def split: json.splits)

lemma custom_runtime_guarded:
  assumes r: "resolve_manager_runtime t catalog_of fs config_file env_token token_file host prt = Inr rt" and c: "rt_provider rt = CUSTOM"
  shows "\<exists>cfg h dhost dport dash dashhost dashport. load_manager_yaml fs config_file = Inr (JObj cfg) \<and> rt_bind_host rt = JStr h \<and> (is_loopback h \<or> rt_control_tls rt)
     \<and> get_data_plane t cfg = Inr (dhost, dport) \<and> is_loopback dhost \<and> get_client_auth t cfg = Inr True
     \<and> get_dashboard t cfg = Inr (dash, dashhost, dashport) \<and> (dash \<longrightarrow> is_loopback dashhost) \<and> \<not> advertises no_mdns rt"
proof -
  obtain cfg dhost dport dash dashhost dashport ca where g: "get_data_plane t cfg = Inr (dhost, dport)" "get_dashboard t cfg = Inr (dash, dashhost, dashport)"
    "get_client_auth t cfg = Inr ca" "posture_problems CUSTOM (rt_bind_host rt) (rt_control_tls rt) dhost ca dash dashhost = Inr []"
    and l: "load_manager_yaml fs config_file = Inr (JObj cfg)"
    using runtime_checked [OF r] c by auto
  from g(4) obtain h where h: "rt_bind_host rt = JStr h" "check_posture CUSTOM h (rt_control_tls rt) dhost ca dash dashhost = []"
    by (auto simp: posture_problems_def split: json.splits)
  then have "ca" "is_loopback dhost" "is_loopback h \<or> rt_control_tls rt" "dash \<longrightarrow> is_loopback dashhost" by (auto simp: posture_safe_iff)
  moreover have "\<not> advertises no_mdns rt" using c by (simp add: advertises_def is_wan_def)
  moreover have "get_client_auth t cfg = Inr True" using g(3) \<open>ca\<close> by simp
  ultimately show ?thesis using g(1,2) l h(1) by blast
qed

text \<open>The manager that the programmatic interface starts binds its control plane where the handle will look for it.\<close>

lemma launched_manager_binds:
  assumes m: "manager_config s base = Inr cfg" and fs: "fs path = Document (JObj cfg)" and h: "ms_control_host s = JStr h" "h \<noteq> []" "ms_control_port s \<noteq> 0"
    and r: "resolve_manager_runtime t catalog_of fs (Some path) env_token token_file (Some h) (Some (ms_control_port s)) = Inr rt"
  shows "rt_bind_host rt = JStr h" "rt_bind_port rt = ms_control_port s" "create_provider (py_str t (ms_provider s)) = Inr (rt_provider rt)"
proof -
  have "cfg \<noteq> []" using manager_config_reads(4) [OF m] by auto
  then have l: "load_manager_yaml fs (Some path) = Inr (JObj cfg)" by (simp add: load_manager_yaml_def fs jor_def)
  show "rt_bind_host rt = JStr h" "rt_bind_port rt = ms_control_port s" "create_provider (py_str t (ms_provider s)) = Inr (rt_provider rt)"
    using r h by (auto simp: resolve_manager_runtime_def l as_config_def res_bind_Inr res_map_def Let_def value_or_exit_Inr manager_config_reads(2) [OF m]
        split: if_splits sum.splits)
qed

text \<open>A token that was created admits a worker until it expires, and never again once it is revoked.\<close>

lemma created_token_joins:
  assumes c: "token_create c now rnd tid ttl uses label st = (Inr (i, token), st')" and u: "0 \<le> uses"
    and t: "\<forall>secs. parse_duration ttl = Inr (Some secs) \<longrightarrow> secs = 0 \<or> later < now + secs"
  shows "fst (check_join_token c later token consume st')"
    and "\<not> fst (check_join_token c later token consume (snd (token_revoke i st')))"
proof -
  obtain secs where secs: "parse_duration ttl = Inr secs" using c by (auto simp: token_create_def split: sum.splits)
  let ?row = "\<lparr>jt_id = tid, jt_hash = sha256_hex c token, jt_label = label, jt_created_at = now,
      jt_expires_at = (case secs of None \<Rightarrow> None | Some x \<Rightarrow> if x = 0 then None else Some (now + x)),
      jt_uses_left = (if uses = 0 then None else Some uses), jt_revoked = False\<rparr>"
  have st': "i = tid" "token = JOIN_PREFIX @ rnd" "st' = st\<lparr>join_tokens := join_tokens st @ [?row]\<rparr>"
    and fresh: "tid \<notin> jt_id ` set (join_tokens st)" "sha256_hex c token \<notin> jt_hash ` set (join_tokens st)"
    using c secs by (auto simp: token_create_def create_join_token_def Let_def split: if_splits)
  have p: "py_startswith token JOIN_PREFIX" using st'(2) by simp
  have use: "sql_usable (sha256_hex c token) later ?row" using t secs u by (auto simp: sql_usable_def split: option.splits)
  show "fst (check_join_token c later token consume st')"
    using p use st'(3) by (auto simp: check_join_token_def Let_def filter_empty_conv)
  have "\<not> sql_usable (sha256_hex c token) later x" if "x \<in> set (join_tokens (snd (token_revoke i st')))" for x
    using that fresh st' by (auto simp: token_revoke_def found_or_exit_def revoke_join_token_def sql_usable_def image_iff split: if_splits)
  then show "\<not> fst (check_join_token c later token consume (snd (token_revoke i st')))"
    by (auto simp: check_join_token_def Let_def filter_empty_conv)
qed

end
